(* ===== verification/Prelude.thy ===== *)
theory Prelude
  imports Complex_Main "HOL-Library.List_Lexorder" "HOL-Library.Char_ord"
begin

text \<open>
  Shared vocabulary of the development: the types that stand for the platform's
  scalar values, the shape of a fallible service call, the query operations on tables
  that every service uses, and the rounding functions of the JavaScript number type.

  \<^item> An identifier (a UUID column, a phone number, a coupon code) is a \<^typ>\<open>string\<close>.
  \<^item> A \<open>Date\<close> is its number of milliseconds since the epoch, an \<^typ>\<open>int\<close>.
  \<^item> An amount of money or a percentage is an exact rational. The database columns are
    \<open>Decimal(12,2)\<close>, \<open>Decimal(14,2)\<close> and \<open>Decimal(5,2)\<close>; \<open>Number(...)\<close> reads them as a
    double. The model computes with the exact value: products and quotients of whole
    toman amounts stay far below \<open>2 ^ 53\<close>, where doubles are exact up to the rounding
    that \<open>Math.round\<close> or the two-decimal column applies afterwards.
  \<^item> A table is the list of its rows, in an order that is not specified by the code;
    every theorem holds for all lists, hence for every order the database may choose.
\<close>

section \<open>Scalar types\<close>

type_synonym id = string
type_synonym time = int
type_synonym money = rat

text \<open>
  An optional string of a request: absent is \<^const>\<open>None\<close>. JavaScript's conditions treat
  the empty string like an absent one, while \<open>??\<close> only replaces an absent one.
\<close>

definition truthy :: "string option \<Rightarrow> bool" where
  "truthy s = (case s of None \<Rightarrow> False | Some x \<Rightarrow> x \<noteq> [])"

lemma truthy_simps [simp]: "\<not> truthy None" "truthy (Some x) \<longleftrightarrow> x \<noteq> []"
  by (simp_all add: truthy_def)

section \<open>Collections of facts\<close>

named_theorems table_simps \<open>rewriting of queries over updated tables\<close>
named_theorems frame_simps \<open>tables an operation leaves alone\<close>
named_theorems inv_intros \<open>operations that keep a data invariant\<close>

section \<open>Results and transactions\<close>

text \<open>
  A service method returns or throws, and in both cases leaves a database behind:
  its model maps a state to a result (\<^const>\<open>Inl\<close> for the thrown exception) and the
  state afterwards. \<open>prisma.$transaction(body)\<close> rolls the state back when the body throws.
\<close>

type_synonym ('e, 's, 'a) call = "'s \<Rightarrow> ('e + 'a) \<times> 's"

definition transaction :: "('e, 's, 'a) call \<Rightarrow> ('e, 's, 'a) call" where
  "transaction body s =
     (case body s of (Inl e, s') \<Rightarrow> (Inl e, s) | (Inr x, s') \<Rightarrow> (Inr x, s'))"

lemma transaction_Inl: "fst (body s) = Inl e \<Longrightarrow> transaction body s = (Inl e, s)"
  by (cases "body s") (auto simp: transaction_def)

lemma transaction_Inr: "body s = (Inr x, s') \<Longrightarrow> transaction body s = (Inr x, s')"
  by (simp add: transaction_def)

lemma transaction_result: "fst (transaction body s) = fst (body s)"
  by (auto simp: transaction_def split: prod.splits sum.splits)

lemma transaction_cases:
  assumes "transaction body s = (r, t)"
  obtains (rollback) e where "r = Inl e" "t = s" "fst (body s) = Inl e"
  | (commit) x where "r = Inr x" "body s = (Inr x, t)"
  using assms by (auto simp: transaction_def split: prod.splits sum.splits)

lemma transaction_preserves:
  assumes "P s" and "\<And>x t. body s = (Inr x, t) \<Longrightarrow> P t"
  shows "P (snd (transaction body s))"
  using assms by (auto simp: transaction_def split: prod.splits sum.splits)

section \<open>Tables\<close>

text \<open>
  \<open>findUnique\<close> and \<open>findFirst\<close> are \<^const>\<open>List.find\<close>, \<open>findMany\<close> is \<^const>\<open>filter\<close>;
  \<open>update\<close> and \<open>updateMany\<close> rewrite the rows a condition selects; \<open>create\<close> adds a row.
\<close>

definition update_rows :: "('r \<Rightarrow> bool) \<Rightarrow> ('r \<Rightarrow> 'r) \<Rightarrow> 'r list \<Rightarrow> 'r list" where
  "update_rows sel f t = map (\<lambda>r. if sel r then f r else r) t"

definition insert_row :: "'r \<Rightarrow> 'r list \<Rightarrow> 'r list" where
  "insert_row r t = t @ [r]"

lemma update_rows_Nil [simp]: "update_rows sel f [] = []"
  by (simp add: update_rows_def)

lemma update_rows_Cons [simp]:
  "update_rows sel f (r # t) = (if sel r then f r else r) # update_rows sel f t"
  by (simp add: update_rows_def)

lemma length_update_rows [simp]: "length (update_rows sel f t) = length t"
  by (simp add: update_rows_def)

lemma set_insert_row [simp]: "set (insert_row r t) = insert r (set t)"
  by (auto simp: insert_row_def)

lemma map_insert_row [simp]: "map g (insert_row r t) = map g t @ [g r]"
  by (simp add: insert_row_def)

lemma in_update_rowsE:
  assumes "x \<in> set (update_rows sel f t)"
  obtains r where "r \<in> set t" "x = (if sel r then f r else r)"
  using assms by (auto simp: update_rows_def)

lemma in_update_rowsI: "r \<in> set t \<Longrightarrow> (if sel r then f r else r) \<in> set (update_rows sel f t)"
  by (auto simp: update_rows_def)

lemma map_update_rows_same [table_simps]:
  "(\<And>r. g (f r) = g r) \<Longrightarrow> map g (update_rows sel f t) = map g t"
  by (simp add: update_rows_def)

lemma image_update_rows_same [table_simps]:
  assumes "\<And>r. g (f r) = g r"
  shows "g ` set (update_rows sel f t) = g ` set t"
  using map_update_rows_same [of g f sel t] assms by (metis list.set_map)

lemma bex_update_rows [table_simps]:
  "(\<exists>x \<in> set (update_rows sel f t). P x) \<longleftrightarrow> (\<exists>r \<in> set t. P (if sel r then f r else r))"
  by (auto simp: update_rows_def)

lemma ball_update_rows [table_simps]:
  "(\<forall>x \<in> set (update_rows sel f t). P x) \<longleftrightarrow> (\<forall>r \<in> set t. P (if sel r then f r else r))"
  by (auto simp: update_rows_def)

lemma find_Some_iff_set: "(\<exists>r. List.find p t = Some r) \<longleftrightarrow> (\<exists>r \<in> set t. p r)"
  by (induction t) auto

lemma find_SomeD: "List.find p t = Some r \<Longrightarrow> r \<in> set t \<and> p r"
  by (auto simp: find_Some_iff)

lemma find_NoneD: "List.find p t = None \<Longrightarrow> r \<in> set t \<Longrightarrow> \<not> p r"
  by (auto simp: find_None_iff)

lemma find_cong_eq: "(\<And>r. r \<in> set t \<Longrightarrow> p r = q r) \<Longrightarrow> List.find p t = List.find q t"
  by (induction t) auto

lemma find_append: "List.find p (t @ u) =
    (case List.find p t of None \<Rightarrow> List.find p u | Some r \<Rightarrow> Some r)"
  by (induction t) auto

lemma find_insert_row [table_simps]: "List.find p (insert_row r t) =
    (case List.find p t of None \<Rightarrow> (if p r then Some r else None) | Some x \<Rightarrow> Some x)"
  by (simp add: insert_row_def find_append split: option.split)

lemma find_update_rows [table_simps]:
  assumes "\<And>r. r \<in> set t \<Longrightarrow> p (f r) = p r"
  shows "List.find p (update_rows sel f t) =
    map_option (\<lambda>r. if sel r then f r else r) (List.find p t)"
  using assms by (induction t) auto

lemma find_update_other:
  assumes "\<And>r. p r \<Longrightarrow> \<not> sel r" "\<And>r. p (f r) \<Longrightarrow> p r"
  shows "List.find p (update_rows sel f t) = List.find p t"
  using assms by (induction t) auto

text \<open>A key column: a table whose keys are distinct has one row per key.\<close>

definition unique_key :: "('r \<Rightarrow> 'k) \<Rightarrow> 'r list \<Rightarrow> bool" where
  "unique_key key t \<longleftrightarrow> distinct (map key t)"

definition fresh_key :: "('r \<Rightarrow> 'k) \<Rightarrow> 'k \<Rightarrow> 'r list \<Rightarrow> bool" where
  "fresh_key key k t \<longleftrightarrow> k \<notin> set (map key t)"

lemma unique_key_eq:
  "unique_key key t \<Longrightarrow> r \<in> set t \<Longrightarrow> r' \<in> set t \<Longrightarrow> key r = key r' \<Longrightarrow> r = r'"
  by (auto simp: unique_key_def distinct_map dest: inj_onD)

lemma unique_key_find:
  "unique_key key t \<Longrightarrow> r \<in> set t \<Longrightarrow> List.find (\<lambda>x. key x = key r) t = Some r"
  by (induction t) (auto simp: unique_key_def rev_image_eqI)

lemma unique_key_insert [inv_intros]:
  "unique_key key t \<Longrightarrow> fresh_key key (key r) t \<Longrightarrow> unique_key key (insert_row r t)"
  by (simp add: unique_key_def fresh_key_def)

lemma unique_key_update [inv_intros]:
  "(\<And>r. key (f r) = key r) \<Longrightarrow> unique_key key t \<Longrightarrow> unique_key key (update_rows sel f t)"
  by (simp add: unique_key_def map_update_rows_same)

lemma fresh_key_insert [table_simps]:
  "fresh_key key k (insert_row r t) \<longleftrightarrow> fresh_key key k t \<and> k \<noteq> key r"
  by (auto simp: fresh_key_def)

lemma fresh_keyD: "fresh_key key k t \<Longrightarrow> r \<in> set t \<Longrightarrow> key r \<noteq> k"
  by (auto simp: fresh_key_def)

lemma fresh_key_find: "fresh_key key k t \<longleftrightarrow> List.find (\<lambda>r. key r = k) t = None"
  by (auto simp: fresh_key_def find_None_iff)

lemma find_key_update [table_simps]:
  assumes "\<And>r. key (f r) = key r"
  shows "List.find (\<lambda>r. key r = k) (update_rows sel f t) =
    map_option (\<lambda>r. if sel r then f r else r) (List.find (\<lambda>r. key r = k) t)"
  using assms by (intro find_update_rows) simp

text \<open>\<open>orderBy: { createdAt: 'desc' }, take: 20\<close>\<close>

definition take20 :: "('r \<Rightarrow> time) \<Rightarrow> 'r list \<Rightarrow> 'r list" where
  "take20 createdAt t = take 20 (rev (sort_key createdAt t))"

section \<open>Sums over a table\<close>

text \<open>The total of a column over the rows a condition selects.\<close>

definition total_of :: "('r \<Rightarrow> bool) \<Rightarrow> ('r \<Rightarrow> 'a::comm_monoid_add) \<Rightarrow> 'r list \<Rightarrow> 'a" where
  "total_of p g t = sum_list (map g (filter p t))"

lemma total_of_Nil [simp]: "total_of p g [] = 0"
  by (simp add: total_of_def)

lemma total_of_insert [table_simps]:
  "total_of p g (insert_row r t) = total_of p g t + (if p r then g r else 0)"
  by (simp add: total_of_def insert_row_def)

lemma total_of_update [table_simps]:
  assumes "\<And>r. r \<in> set t \<Longrightarrow> sel r \<Longrightarrow> p (f r) = p r \<and> g (f r) = g r"
  shows "total_of p g (update_rows sel f t) = total_of p g t"
  using assms by (induction t) (auto simp: total_of_def)

section \<open>Numbers\<close>

text \<open>
  \<open>Math.round\<close> rounds half up (towards plus infinity), which is \<^const>\<open>round\<close>;
  \<open>Math.floor\<close> is \<^const>\<open>floor\<close>.
\<close>

definition math_round :: "rat \<Rightarrow> rat" where
  "math_round x = of_int (round x)"

definition math_floor :: "rat \<Rightarrow> int" where
  "math_floor x = \<lfloor>x\<rfloor>"

text \<open>A value that a two-decimal column stores without rounding.\<close>

definition two_decimals :: "rat \<Rightarrow> bool" where
  "two_decimals x \<longleftrightarrow> of_int \<lfloor>x * 100\<rfloor> = x * 100"

text \<open>What a \<open>Decimal(_, 2)\<close> column keeps of a number: two decimals, halves away from zero.\<close>

definition decimal2 :: "rat \<Rightarrow> rat" where
  "decimal2 x = (if 0 \<le> x then math_round (x * 100) / 100 else - (math_round (- x * 100) / 100))"

lemma math_round_of_int [simp]: "math_round (of_int n) = of_int n"
  by (simp add: math_round_def)

lemma math_round_nonneg: "0 \<le> x \<Longrightarrow> 0 \<le> math_round x"
  by (simp add: math_round_def round_def)

lemma math_round_mono: "x \<le> y \<Longrightarrow> math_round x \<le> math_round y"
  by (simp add: math_round_def round_mono)

lemma math_round_error: "\<bar>math_round x - x\<bar> \<le> 1 / 2"
  unfolding math_round_def by (rule of_int_round_abs_le)

lemma two_decimals_iff: "two_decimals x \<longleftrightarrow> (\<exists>n. x * 100 = of_int n)"
  by (metis floor_of_int two_decimals_def)

lemma two_decimals_of_int [simp]: "two_decimals (of_int n)"
  unfolding two_decimals_iff by (rule exI [of _ "n * 100"]) simp

lemma two_decimals_0 [simp]: "two_decimals 0"
  using two_decimals_of_int [of 0] by simp

lemma decimal2_nonneg: "0 \<le> x \<Longrightarrow> 0 \<le> decimal2 x"
  by (simp add: decimal2_def math_round_nonneg)

lemma two_decimals_decimal2 [simp]: "two_decimals (decimal2 x)"
  by (simp add: decimal2_def two_decimals_iff math_round_def)
    (metis of_int_minus)

lemma decimal2_id: "two_decimals x \<Longrightarrow> decimal2 x = x"
proof -
  assume "two_decimals x"
  then obtain n where n: "x * 100 = of_int n" by (auto simp: two_decimals_iff)
  then have "- x * 100 = of_int (- n)" by simp
  with n have "math_round (x * 100) = x * 100" "math_round (- x * 100) = - x * 100"
    by (simp_all only: math_round_of_int)
  then show ?thesis by (auto simp: decimal2_def)
qed

lemma decimal2_mono_int:
  assumes "0 \<le> x" "x \<le> of_int n"
  shows "decimal2 x \<le> of_int n"
proof -
  have "math_round (x * 100) \<le> math_round (of_int (n * 100))"
    using assms by (intro math_round_mono) simp
  with assms show ?thesis by (simp add: decimal2_def del: of_int_mult)
qed

lemma two_decimals_add: "two_decimals x \<Longrightarrow> two_decimals y \<Longrightarrow> two_decimals (x + y)"
  unfolding two_decimals_iff by (metis distrib_right of_int_add)

lemma two_decimals_diff: "two_decimals x \<Longrightarrow> two_decimals y \<Longrightarrow> two_decimals (x - y)"
  unfolding two_decimals_iff by (metis left_diff_distrib of_int_diff)

lemma two_decimals_round [simp]: "two_decimals (math_round x)"
  by (simp add: math_round_def)

end
