(* ===== verification/Schema.thy ===== *)
theory Schema
  imports Prelude
begin

text \<open>
  The data model: the enumerations of \<open>packages/shared/src/enums.ts\<close>, one record per
  table of \<open>prisma/schema.prisma\<close> (columns that no service reads or writes, such as
  \<open>updatedAt\<close>, are left out), the database as a record of tables, and the exceptions
  the services throw. A \<open>Json\<close> column is the structure the code stores in it.
\<close>

section \<open>Enumerations\<close>

datatype BookingStatus = HOLD | PENDING | CONFIRMED | COMPLETED | CANCELLED | NO_SHOW

datatype BusinessStatus = PENDING_REVIEW | APPROVED | REJECTED | SUSPENDED

datatype PaymentStatus = INITIATED | SUCCESS | FAILED | REFUNDED

datatype StaffRole = OWNER | MANAGER | STAFF

datatype GlobalRole = USER | ADMIN

datatype AccountStatus = Acc_ACTIVE | Acc_SUSPENDED | Acc_DELETED

datatype PaymentType = DEPOSIT | FULL_PAYMENT | REFUND | WALLET_TOPUP

datatype WalletTxType = Tx_TOPUP | Tx_PAYMENT | Tx_REFUND | Tx_ADMIN_ADJUSTMENT

datatype CouponType = PERCENTAGE | FIXED_AMOUNT

datatype ReferralStatus = Ref_PENDING | Ref_REWARDED

datatype SettlementStatus = Set_PENDING | Set_PAID | Set_FAILED

datatype DocumentType = NATIONAL_ID | BUSINESS_LICENSE | OTHER

datatype OtpPurpose = REGISTER | LOGIN | RESET_PASSWORD

section \<open>Exceptions\<close>

text \<open>
  One constructor of \<open>message\<close> for each text the services put into an exception, so
  that two branches are indistinguishable to a caller exactly when the source gives them
  the same exception class and the same text.
\<close>

datatype message =
    SlotBeingReserved | SlotNotFree | NotConfirmable | HoldExpired | RecurringNotFound
  | BookingNotFound | NotCancellable | NotReschedulable | NewSlotNotFree
  | RecurringFailed message | TransitionNotAllowed BookingStatus BookingStatus
  | BusinessNotApproved | BranchNotFound | BranchNotGiven | ServiceNotFound | StaffNotFound
  | CouponCodeTaken | CouponDatesWrong | CouponNotFound | CouponInvalid | CouponNotInForce
  | CouponWrongBusiness | CouponMinPurchase money | CouponExhausted | CouponAlreadyUsed
  | NotAwaitingPayment | NothingToPay | WalletTooLow | TransactionNotFound | NotRefundable
  | BusinessNotFound | ExactlyOneTarget | HoursReversed
  | NotRegisteredYet | AlreadyMember | OwnerNotRemovable | DepositPercentMissing
  | NoPermission | NoBusinessInPath
  | OtpNotFound | OtpExpired | OtpTooManyAttempts | OtpCooldown int
  | PhoneTaken | CodeWrong | BadCredentials | LoginFailed | BadRequestGiven
  | SessionExpired | AccountInvalid | UserNotFound | EmailTaken | SessionNotFound
  | NoRoute              \<comment> \<open>the router found no handler\<close>
  | NotAuthenticated     \<comment> \<open>passport's answer to a missing or invalid token\<close>
  | ValidationFailed     \<comment> \<open>of the \<open>ValidationPipe\<close>\<close>
  | RequestLimit         \<comment> \<open>of the \<open>ThrottlerGuard\<close>\<close>

datatype error =
    NotFound message | BadRequest message | Conflict message | Unauthorized message
  | Forbidden message | TooManyRequests message
  | LockBusy string          \<comment> \<open>\<open>new Error(`LOCK_BUSY:${key}`)\<close>\<close>
  | UniqueViolation          \<comment> \<open>Prisma P2002, from an \<open>@unique\<close> of the schema\<close>
  | RecordNotFound           \<comment> \<open>Prisma P2025, an \<open>update\<close> or \<open>delete\<close> of no row\<close>
  | ForeignKeyViolation      \<comment> \<open>Prisma P2003, a reference to no row\<close>
  | InvalidDate              \<comment> \<open>an \<open>Invalid Date\<close> handed to a query or to \<open>toISOString\<close>\<close>

type_synonym 'a result = "error + 'a"

section \<open>Tables\<close>

record user =
  usr_id :: id
  usr_phone :: string
  usr_email :: "string option"
  usr_passwordHash :: string
  usr_fullName :: string
  usr_avatarUrl :: "string option"
  usr_globalRole :: GlobalRole
  usr_status :: AccountStatus
  usr_phoneVerified :: bool
  usr_emailVerified :: bool
  usr_deletedAt :: "time option"

record otp_code =
  otp_id :: id
  otp_userId :: "id option"
  otp_phone :: string
  otp_codeHash :: string
  otp_purpose :: OtpPurpose
  otp_attempts :: nat
  otp_expiresAt :: time
  otp_consumedAt :: "time option"
  otp_createdAt :: time

record refresh_token =
  rt_id :: id
  rt_userId :: id
  rt_tokenHash :: string
  rt_deviceInfo :: "string option"
  rt_ipAddress :: "string option"
  rt_expiresAt :: time
  rt_revokedAt :: "time option"
  rt_createdAt :: time

text \<open>The \<open>Json\<close> column \<open>cancellationPolicy\<close>: \<open>{ freeCancelHours, feePercent }\<close>.\<close>

record policy =
  freeCancelHours :: int
  feePercent :: int

record business =
  biz_id :: id
  biz_ownerId :: id
  biz_name :: string
  biz_category :: string
  biz_description :: "string option"
  biz_logoUrl :: "string option"
  biz_status :: BusinessStatus
  biz_rejectReason :: "string option"
  biz_legalId :: "string option"
  biz_ibanNumber :: "string option"
  biz_commissionPercent :: rat
  biz_cancellationPolicy :: policy
  biz_createdAt :: time

record document =
  doc_id :: id
  doc_businessId :: id
  doc_type :: DocumentType
  doc_fileUrl :: string

record branch =
  br_id :: id
  br_businessId :: id
  br_name :: string
  br_address :: string
  br_latitude :: rat
  br_longitude :: rat
  br_phone :: "string option"

record staff_member =
  sm_id :: id
  sm_userId :: id
  sm_businessId :: id
  sm_branchId :: "id option"
  sm_role :: StaffRole
  sm_specialty :: "string option"
  sm_isActive :: bool

record working_hours =
  wh_branchId :: "id option"
  wh_staffMemberId :: "id option"
  wh_dayOfWeek :: int
  wh_startTime :: string
  wh_endTime :: string

record holiday =
  hol_branchId :: "id option"
  hol_staffMemberId :: "id option"
  hol_date :: time
  hol_reason :: "string option"

record service =
  sv_id :: id
  sv_businessId :: id
  sv_name :: string
  sv_description :: "string option"
  sv_durationMinutes :: int
  sv_price :: money
  sv_requiresDeposit :: bool
  sv_depositPercent :: "rat option"
  sv_isActive :: bool

record service_staff =
  ss_serviceId :: id
  ss_staffMemberId :: id

record booking =
  bk_id :: id
  bk_userId :: id
  bk_businessId :: id
  bk_branchId :: id
  bk_staffMemberId :: "id option"
  bk_serviceId :: id
  bk_startTime :: time
  bk_endTime :: time
  bk_status :: BookingStatus
  bk_priceSnapshot :: money
  bk_depositRequired :: money
  bk_cancellationPolicySnapshot :: policy
  bk_holdExpiresAt :: "time option"
  bk_cancelledAt :: "time option"
  bk_cancelReason :: "string option"
  bk_recurringGroupId :: "id option"
  bk_couponCode :: "string option"
  bk_discountAmount :: money

record payment =
  pay_id :: id
  pay_bookingId :: "id option"
  pay_userId :: id
  pay_type :: PaymentType
  pay_status :: PaymentStatus
  pay_amount :: money
  pay_gateway :: string
  pay_gatewayRefId :: "string option"
  pay_callbackVerifiedAt :: "time option"
  pay_failureReason :: "string option"
  pay_createdAt :: time

record wallet =
  wal_id :: id
  wal_userId :: id
  wal_balance :: money

record wallet_tx =
  wtx_walletId :: id
  wtx_type :: WalletTxType
  wtx_amount :: money
  wtx_balanceAfter :: money
  wtx_referenceId :: "id option"
  wtx_createdAt :: time

record settlement =
  stl_businessId :: id
  stl_periodStart :: time
  stl_periodEnd :: time
  stl_grossAmount :: money
  stl_commissionAmount :: money
  stl_netAmount :: money
  stl_status :: SettlementStatus

record coupon =
  cp_id :: id
  cp_businessId :: "id option"
  cp_code :: string
  cp_type :: CouponType
  cp_value :: rat
  cp_minPurchase :: "money option"
  cp_usageLimit :: "int option"
  cp_usageCount :: int
  cp_validFrom :: time
  cp_validTo :: time
  cp_isActive :: bool

record coupon_usage =
  cu_couponId :: id
  cu_userId :: id
  cu_bookingId :: "id option"
  cu_discountAmount :: money

record loyalty_account =
  la_id :: id
  la_userId :: id
  la_points :: int
  la_tier :: string

record loyalty_tx =
  ltx_accountId :: id
  ltx_points :: int
  ltx_reason :: string
  ltx_referenceId :: "id option"
  ltx_createdAt :: time

record referral =
  ref_id :: id
  ref_referrerId :: id
  ref_refereeId :: id
  ref_status :: ReferralStatus
  ref_rewardedAt :: "time option"

text \<open>The \<open>Json\<close> column \<open>metadata\<close>: the fields of the object the code stores.\<close>

datatype json = JNum rat | JStr string

record audit_log =
  al_actorId :: "id option"
  al_action :: string
  al_entityType :: string
  al_entityId :: id
  al_metadata :: "(string \<times> json) list"

section \<open>The database\<close>

record db =
  users :: "user list"
  otp_codes :: "otp_code list"
  refresh_tokens :: "refresh_token list"
  businesses :: "business list"
  documents :: "document list"
  branches :: "branch list"
  staff_members :: "staff_member list"
  working_hours_tbl :: "working_hours list"
  holidays :: "holiday list"
  services :: "service list"
  service_staffs :: "service_staff list"
  bookings :: "booking list"
  payments :: "payment list"
  wallets :: "wallet list"
  wallet_txs :: "wallet_tx list"
  settlements :: "settlement list"
  coupons :: "coupon list"
  coupon_usages :: "coupon_usage list"
  loyalty_accounts :: "loyalty_account list"
  loyalty_txs :: "loyalty_tx list"
  referrals :: "referral list"
  audit_logs :: "audit_log list"

text \<open>
  A reference to a row that must exist (a foreign key): the operations that write one from
  their request check it, as the database does.
\<close>

definition business_exists :: "db \<Rightarrow> id \<Rightarrow> bool" where
  "business_exists d businessId \<longleftrightarrow> businessId \<in> biz_id ` set (businesses d)"

definition empty_db :: db where
  "empty_db = \<lparr>users = [], otp_codes = [], refresh_tokens = [], businesses = [],
     documents = [], branches = [], staff_members = [], working_hours_tbl = [],
     holidays = [], services = [], service_staffs = [], bookings = [], payments = [],
     wallets = [], wallet_txs = [], settlements = [], coupons = [], coupon_usages = [],
     loyalty_accounts = [], loyalty_txs = [], referrals = [], audit_logs = []\<rparr>"

end
