(* ===== verification/Ledger.thy ===== *)
theory Ledger
  imports Schema
begin

text \<open>
  Accounts with a ledger. The wallet and the loyalty account are built alike: a table of
  accounts, one per user, created on first use, each with a running balance, and a table of
  movements. The locale states what an account type has to offer; its lemmas show that
  opening an account and posting a movement keep every balance equal to the sum of its
  movements.
\<close>

definition balanced :: "('a \<Rightarrow> id) \<Rightarrow> ('a \<Rightarrow> id) \<Rightarrow> ('a \<Rightarrow> 'm::comm_monoid_add) \<Rightarrow> ('t \<Rightarrow> id) \<Rightarrow> ('t \<Rightarrow> 'm)
    \<Rightarrow> 'a list \<Rightarrow> 't list \<Rightarrow> bool" where
  "balanced acc_id owner bal tx_acc tx_amt accs txs \<longleftrightarrow>
     unique_key acc_id accs \<and> unique_key owner accs
     \<and> list_all (\<lambda>a. bal a = total_of (\<lambda>x. tx_acc x = acc_id a) tx_amt txs) accs
     \<and> list_all (\<lambda>x. tx_acc x \<in> acc_id ` set accs) txs"

locale ledger =
  fixes acc_id :: "'a \<Rightarrow> id" and owner :: "'a \<Rightarrow> id" and bal :: "'a \<Rightarrow> 'm::comm_monoid_add"
    and set_bal :: "'m \<Rightarrow> 'a \<Rightarrow> 'a" and tx_acc :: "'t \<Rightarrow> id" and tx_amt :: "'t \<Rightarrow> 'm"
  assumes set_bal_id: "acc_id (set_bal m a) = acc_id a"
    and set_bal_owner: "owner (set_bal m a) = owner a"
    and set_bal_bal: "bal (set_bal m a) = m"
begin

lemma no_movements:
  assumes "balanced acc_id owner bal tx_acc tx_amt accs txs" "fresh_key acc_id k accs"
  shows "total_of (\<lambda>x. tx_acc x = k) tx_amt txs = 0"
proof -
  have "filter (\<lambda>x. tx_acc x = k) txs = []"
    using assms by (auto simp: balanced_def fresh_key_def list_all_iff filter_empty_conv)
  then show ?thesis by (simp add: total_of_def)
qed

lemma open_account:
  assumes "balanced acc_id owner bal tx_acc tx_amt accs txs" "fresh_key acc_id (acc_id a) accs"
    "fresh_key owner (owner a) accs" "bal a = 0"
  shows "balanced acc_id owner bal tx_acc tx_amt (insert_row a accs) txs"
  using assms no_movements [OF assms(1,2)]
  by (auto simp: balanced_def list_all_iff intro!: unique_key_insert)

lemma post:
  assumes ok: "balanced acc_id owner bal tx_acc tx_amt accs txs" and a: "a \<in> set accs"
    and x: "tx_acc x = acc_id a" "m = bal a + tx_amt x"
  shows "balanced acc_id owner bal tx_acc tx_amt
    (update_rows (\<lambda>b. owner b = owner a) (set_bal m) accs) (insert_row x txs)"
proof -
  let ?accs = "update_rows (\<lambda>b. owner b = owner a) (set_bal m) accs"
  have keys: "unique_key acc_id accs" "unique_key owner accs" using ok by (simp_all add: balanced_def)
  have ids: "acc_id ` set ?accs = acc_id ` set accs"
    by (rule image_update_rows_same) (simp add: set_bal_id)
  have "bal b = total_of (\<lambda>x. tx_acc x = acc_id b) tx_amt (insert_row x txs)" if b: "b \<in> set ?accs" for b
  proof -
    from b obtain c where c: "c \<in> set accs" "b = (if owner c = owner a then set_bal m c else c)"
      by (rule in_update_rowsE)
    have bal: "bal c = total_of (\<lambda>x. tx_acc x = acc_id c) tx_amt txs"
      using ok c(1) by (simp add: balanced_def list_all_iff)
    show ?thesis
    proof (cases "owner c = owner a")
      case True
      then have "c = a" using unique_key_eq [OF keys(2) c(1) a] by simp
      with c True bal x show ?thesis by (simp add: set_bal_bal set_bal_id total_of_insert)
    next
      case False
      then have "acc_id c \<noteq> acc_id a" using unique_key_eq [OF keys(1) c(1) a] by auto
      with c False bal x show ?thesis by (simp add: total_of_insert)
    qed
  qed
  moreover have "unique_key acc_id ?accs" "unique_key owner ?accs"
    using keys by (auto simp: set_bal_id set_bal_owner intro!: unique_key_update)
  moreover have "list_all (\<lambda>y. tx_acc y \<in> acc_id ` set ?accs) (insert_row x txs)"
    unfolding ids using ok a x(1) by (auto simp: list_all_iff balanced_def)
  ultimately show ?thesis by (simp add: balanced_def list_all_iff)
qed

end

end
