(* ===== verification/PaymentGateway.thy ===== *)
theory PaymentGateway
  imports Schema
begin

text \<open>
  \<open>common/payment-gateway/\<close>: the interface between the payment services and a payment
  provider, as a record of its two operations and a locale of what they promise, and
  \<open>MockPaymentGateway\<close>, the provider in use. Shown: the mock keeps the contract, and every
  gateway that does verifies a session at most once and only for the amount it was opened
  with.
\<close>

section \<open>The interface\<close>

record CreateSessionParams =
  csp_amount :: money
  csp_description :: string
  csp_callbackUrl :: string
  csp_internalRefId :: id

record CreateSessionResult =
  csr_paymentUrl :: string
  csr_gatewayRefId :: string

record VerifyResult =
  verified :: bool
  gatewayTransactionId :: "string option"
  failureReason :: "string option"

text \<open>
  Both operations draw a random UUID, which is their first argument. The reference to
  verify comes from the query string of a public route and is \<open>undefined\<close> (\<^const>\<open>None\<close>)
  when the parameter is missing.
\<close>

record 'g gateway =
  createSession :: "string \<Rightarrow> CreateSessionParams \<Rightarrow> 'g \<Rightarrow> CreateSessionResult \<times> 'g"
  verify :: "string \<Rightarrow> string option \<Rightarrow> money \<Rightarrow> 'g \<Rightarrow> VerifyResult \<times> 'g"

text \<open>
  The contract: \<open>pending g ref\<close> is the amount of the session \<open>ref\<close> while it waits to be
  verified. A server-to-server verification succeeds exactly for a pending session and
  its amount, and uses the session up.
\<close>

locale payment_gateway =
  fixes G :: "'g gateway" and pending :: "'g \<Rightarrow> string \<Rightarrow> money option"
  assumes verify_iff: "verified (fst (verify G u (Some ref) amt g)) \<longleftrightarrow> pending g ref = Some amt"
    and verify_undefined: "\<not> verified (fst (verify G u None amt g))"
    and verify_uses: "verified (fst (verify G u (Some ref) amt g)) \<Longrightarrow>
      pending (snd (verify G u (Some ref) amt g)) = (pending g)(ref := None)"
    and verify_refused: "\<not> verified (fst (verify G u r amt g)) \<Longrightarrow>
      pending (snd (verify G u r amt g)) = pending g"
    and create_opens: "createSession G u p g = (res, g') \<Longrightarrow>
      pending g' = (pending g)(csr_gatewayRefId res \<mapsto> csp_amount p)"
begin

lemma verify_single_use:
  assumes "verify G u r amt g = (res, g')" "verified res"
  shows "\<not> verified (fst (verify G u' r amt' g'))"
proof (cases r)
  case None
  then show ?thesis by (simp add: verify_undefined)
next
  case (Some ref)
  with assms have "pending g' = (pending g)(ref := None)" using verify_uses [of u ref amt g] by simp
  then show ?thesis by (simp add: Some verify_iff)
qed

lemma verify_pending:
  "pending (snd (verify G u (Some ref) amt g)) =
     (if pending g ref = Some amt then (pending g)(ref := None) else pending g)"
  using verify_uses verify_refused verify_iff by metis

end

section \<open>The mock gateway\<close>

record mock_session =
  ms_amount :: money
  ms_used :: bool

type_synonym sessions = "string \<Rightarrow> mock_session option"

definition mock_createSession :: "string \<Rightarrow> CreateSessionParams \<Rightarrow> sessions \<Rightarrow> CreateSessionResult \<times> sessions" where
  "mock_createSession uuid params sessions =
     (let gatewayRefId = ''mock_'' @ uuid;
          sessions' = sessions(gatewayRefId \<mapsto> \<lparr>ms_amount = csp_amount params, ms_used = False\<rparr>);
          paymentUrl = csp_callbackUrl params @ ''?gatewayRefId='' @ gatewayRefId @ ''&mock=true''
      in (\<lparr>csr_paymentUrl = paymentUrl, csr_gatewayRefId = gatewayRefId\<rparr>, sessions'))"

definition refused :: "string \<Rightarrow> VerifyResult" where
  "refused why = \<lparr>verified = False, gatewayTransactionId = None, failureReason = Some why\<rparr>"

definition mock_verify :: "string \<Rightarrow> string option \<Rightarrow> money \<Rightarrow> sessions \<Rightarrow> VerifyResult \<times> sessions" where
  "mock_verify uuid gatewayRefId expectedAmount sessions =
     (case Option.bind gatewayRefId sessions of
        None \<Rightarrow> (refused ''transaction unknown or expired'', sessions)
      | Some session \<Rightarrow>
          if ms_used session then (refused ''transaction already verified'', sessions)
          else if ms_amount session \<noteq> expectedAmount
          then (refused ''transaction amount does not match'', sessions)
          else (\<lparr>verified = True, gatewayTransactionId = Some (''mocktx_'' @ uuid), failureReason = None\<rparr>,
                sessions(the gatewayRefId \<mapsto> session\<lparr>ms_used := True\<rparr>)))"

definition mock_gateway :: "sessions gateway" where
  "mock_gateway = \<lparr>createSession = mock_createSession, verify = mock_verify\<rparr>"

definition mock_pending :: "sessions \<Rightarrow> string \<Rightarrow> money option" where
  "mock_pending sessions ref =
     (case sessions ref of
        Some s \<Rightarrow> (if ms_used s then None else Some (ms_amount s)) | None \<Rightarrow> None)"

lemma mock_verify_iff:
  "verified (fst (mock_verify u (Some ref) amt g)) \<longleftrightarrow> mock_pending g ref = Some amt"
  "\<not> verified (fst (mock_verify u None amt g))"
  by (simp_all add: mock_verify_def mock_pending_def refused_def split: option.split)

lemma mock_verify_state:
  "verified (fst (mock_verify u (Some ref) amt g)) \<Longrightarrow>
     mock_pending (snd (mock_verify u (Some ref) amt g)) = (mock_pending g)(ref := None)"
  "\<not> verified (fst (mock_verify u r amt g)) \<Longrightarrow> mock_pending (snd (mock_verify u r amt g)) = mock_pending g"
  by (auto simp: mock_verify_def mock_pending_def refused_def fun_eq_iff
      split: option.splits if_splits)

lemma mock_create_state:
  "mock_createSession u p g = (res, g') \<Longrightarrow>
     mock_pending g' = (mock_pending g)(csr_gatewayRefId res \<mapsto> csp_amount p)"
  by (rule ext) (auto simp: mock_createSession_def mock_pending_def Let_def)

interpretation mock: payment_gateway mock_gateway mock_pending
  by unfold_locales
    (simp_all add: mock_gateway_def mock_verify_iff(2) mock_verify_state mock_create_state,
     simp add: mock_verify_iff(1))

end
