(* ===== verification/Wallet.thy ===== *)
theory Wallet
  imports Ledger PaymentGateway
begin

text \<open>
  \<open>modules/wallet/wallet.service.ts\<close>, and the wallet movement that \<open>payment.service.ts\<close>
  writes three times (payment, top-up, refund): the new balance is stored in the wallet and
  the movement, with the balance after it, in the ledger. \<open>wallets_ok\<close>: every balance is
  the sum of its ledger and is not negative.

  A call that talks to the payment gateway works on the pair of database and gateway
  state; \<open>publicUrl\<close> is the configuration value \<open>BACKEND_PUBLIC_URL\<close>.
\<close>

section \<open>The service\<close>

definition GATEWAY_NAME :: string where
  "GATEWAY_NAME = ''mock''"

definition callback_url :: "string \<Rightarrow> string" where
  "callback_url publicUrl = publicUrl @ ''/api/v1/payments/callback/'' @ GATEWAY_NAME"

definition find_wallet :: "db \<Rightarrow> id \<Rightarrow> wallet option" where
  "find_wallet d userId = List.find (\<lambda>w. wal_userId w = userId) (wallets d)"

text \<open>\<open>wallet.upsert({ where: { userId }, update: {}, create: { userId } })\<close>\<close>

definition upsert_wallet :: "id \<Rightarrow> id \<Rightarrow> db \<Rightarrow> wallet \<times> db" where
  "upsert_wallet newId userId d =
     (case find_wallet d userId of
        Some w \<Rightarrow> (w, d)
      | None \<Rightarrow> (let w = \<lparr>wal_id = newId, wal_userId = userId, wal_balance = 0\<rparr>
                 in (w, d\<lparr>wallets := insert_row w (wallets d)\<rparr>)))"

definition wallet_getMine :: "id \<Rightarrow> id \<Rightarrow> db \<Rightarrow> (wallet \<times> wallet_tx list) \<times> db" where
  "wallet_getMine newId userId d =
     (case upsert_wallet newId userId d of
        (w, d') \<Rightarrow> ((w, take20 wtx_createdAt (filter (\<lambda>x. wtx_walletId x = wal_id w) (wallet_txs d'))), d'))"

text \<open>The rows that \<open>payment.create\<close> stores before the user is sent to the gateway.\<close>

definition initiated_payment :: "time \<Rightarrow> id \<Rightarrow> id option \<Rightarrow> id \<Rightarrow> PaymentType \<Rightarrow> money \<Rightarrow> payment" where
  "initiated_payment now newId bookingId userId type amount =
     \<lparr>pay_id = newId, pay_bookingId = bookingId, pay_userId = userId, pay_type = type,
      pay_status = INITIATED, pay_amount = amount, pay_gateway = GATEWAY_NAME,
      pay_gatewayRefId = None, pay_callbackVerifiedAt = None, pay_failureReason = None,
      pay_createdAt = now\<rparr>"

definition update_payment :: "id \<Rightarrow> (payment \<Rightarrow> payment) \<Rightarrow> db \<Rightarrow> db" where
  "update_payment paymentId f d =
     d\<lparr>payments := update_rows (\<lambda>p. pay_id p = paymentId) f (payments d)\<rparr>"

text \<open>Common to \<open>topup\<close> and \<open>payFromGateway\<close>: store the payment, open a session, link it.\<close>

definition open_session :: "'g gateway \<Rightarrow> string \<Rightarrow> string \<Rightarrow> string \<Rightarrow> payment \<Rightarrow> db \<times> 'g \<Rightarrow> string \<times> (db \<times> 'g)" where
  "open_session G publicUrl uuid description payment st =
     (let d1 = (fst st)\<lparr>payments := insert_row payment (payments (fst st))\<rparr>
      in case createSession G uuid
               \<lparr>csp_amount = pay_amount payment, csp_description = description,
                csp_callbackUrl = callback_url publicUrl, csp_internalRefId = pay_id payment\<rparr> (snd st) of
           (session, g') \<Rightarrow>
             (csr_paymentUrl session,
              (update_payment (pay_id payment)
                 (\<lambda>p. p\<lparr>pay_gatewayRefId := Some (csr_gatewayRefId session)\<rparr>) d1, g')))"

text \<open>\<open>TopupWalletDto\<close> admits whole amounts from 10,000 toman.\<close>

definition valid_topup :: "money \<Rightarrow> bool" where
  "valid_topup amount \<longleftrightarrow> 10000 \<le> amount \<and> of_int \<lfloor>amount\<rfloor> = amount"

definition topup :: "'g gateway \<Rightarrow> string \<Rightarrow> string \<Rightarrow> time \<Rightarrow> id \<Rightarrow> id \<Rightarrow> money \<Rightarrow> db \<times> 'g \<Rightarrow> string \<times> (db \<times> 'g)" where
  "topup G publicUrl uuid now newId userId amount st =
     open_session G publicUrl uuid ''wallet top-up''
       (initiated_payment now newId None userId WALLET_TOPUP amount) st"

text \<open>\<open>wallet.update\<close> followed by \<open>walletTransaction.create\<close>.\<close>

definition post_wallet_tx :: "time \<Rightarrow> wallet \<Rightarrow> WalletTxType \<Rightarrow> money \<Rightarrow> id \<Rightarrow> db \<Rightarrow> db" where
  "post_wallet_tx now wallet type amount referenceId d =
     (let newBalance = wal_balance wallet + amount
      in d\<lparr>wallets := update_rows (\<lambda>w. wal_userId w = wal_userId wallet)
             (\<lambda>w. w\<lparr>wal_balance := newBalance\<rparr>) (wallets d),
           wallet_txs := insert_row
             \<lparr>wtx_walletId = wal_id wallet, wtx_type = type, wtx_amount = amount,
              wtx_balanceAfter = newBalance, wtx_referenceId = Some referenceId,
              wtx_createdAt = now\<rparr> (wallet_txs d)\<rparr>)"

section \<open>The ledger invariant\<close>

definition set_balance :: "money \<Rightarrow> wallet \<Rightarrow> wallet" where
  "set_balance m w = w\<lparr>wal_balance := m\<rparr>"

definition wallets_ok :: "db \<Rightarrow> bool" where
  "wallets_ok d \<longleftrightarrow>
     balanced wal_id wal_userId wal_balance wtx_walletId wtx_amount (wallets d) (wallet_txs d)
     \<and> list_all (\<lambda>w. 0 \<le> wal_balance w) (wallets d)"

definition balance_of :: "db \<Rightarrow> id \<Rightarrow> money" where
  "balance_of d userId = (case find_wallet d userId of Some w \<Rightarrow> wal_balance w | None \<Rightarrow> 0)"

interpretation money: ledger wal_id wal_userId wal_balance set_balance wtx_walletId wtx_amount
  by unfold_locales (simp_all add: set_balance_def)

lemma wallets_ok_cong: "wallets d = wallets e \<Longrightarrow> wallet_txs d = wallet_txs e \<Longrightarrow> wallets_ok d = wallets_ok e"
  by (simp add: wallets_ok_def)

lemma find_wallet_Some: "find_wallet d u = Some w \<Longrightarrow> w \<in> set (wallets d) \<and> wal_userId w = u"
  by (auto simp: find_wallet_def dest: find_SomeD)

lemma upsert_wallet_find:
  "upsert_wallet n u d = (w, d') \<Longrightarrow> find_wallet d' u = Some w \<and> wal_balance w = balance_of d u
     \<and> (\<forall>v. v \<noteq> u \<longrightarrow> find_wallet d' v = find_wallet d v)"
  by (auto simp: upsert_wallet_def find_wallet_def balance_of_def Let_def table_simps
      split: option.splits)

lemma upsert_wallet_frame:
  "upsert_wallet n u d = (w, d') \<Longrightarrow> d' = d\<lparr>wallets := wallets d'\<rparr>"
  by (auto simp: upsert_wallet_def Let_def split: option.splits)

lemma wallets_ok_upsert [inv_intros]:
  assumes "wallets_ok d" "fresh_key wal_id n (wallets d)" "upsert_wallet n u d = (w, d')"
  shows "wallets_ok d'"
proof (cases "find_wallet d u")
  case None
  let ?w = "\<lparr>wal_id = n, wal_userId = u, wal_balance = 0\<rparr>"
  have "balanced wal_id wal_userId wal_balance wtx_walletId wtx_amount
      (insert_row ?w (wallets d)) (wallet_txs d)"
    using assms(1,2) None
    by (intro money.open_account) (auto simp: wallets_ok_def find_wallet_def fresh_key_find)
  with assms None show ?thesis
    by (auto simp: wallets_ok_def upsert_wallet_def Let_def list_all_iff)
next
  case (Some x)
  with assms show ?thesis by (simp add: upsert_wallet_def)
qed

lemma wallets_ok_post [inv_intros]:
  assumes "wallets_ok d" "w \<in> set (wallets d)" "0 \<le> wal_balance w + m"
  shows "wallets_ok (post_wallet_tx now w ty m ref d)"
proof -
  let ?x = "\<lparr>wtx_walletId = wal_id w, wtx_type = ty, wtx_amount = m,
    wtx_balanceAfter = wal_balance w + m, wtx_referenceId = Some ref, wtx_createdAt = now\<rparr>"
  have "balanced wal_id wal_userId wal_balance wtx_walletId wtx_amount
      (update_rows (\<lambda>b. wal_userId b = wal_userId w) (set_balance (wal_balance w + m)) (wallets d))
      (insert_row ?x (wallet_txs d))"
    using assms by (intro money.post) (auto simp: wallets_ok_def)
  moreover have "set_balance k = (\<lambda>w. w\<lparr>wal_balance := k\<rparr>)" for k
    by (simp add: set_balance_def fun_eq_iff)
  ultimately show ?thesis
    using assms
    by (auto simp: wallets_ok_def post_wallet_tx_def Let_def list_all_iff elim!: in_update_rowsE
        split: if_splits)
qed

lemma post_find:
  assumes "find_wallet d u = Some w"
  shows "find_wallet (post_wallet_tx now w ty m ref d) v =
    (if v = u then Some (w\<lparr>wal_balance := wal_balance w + m\<rparr>) else find_wallet d v)"
proof (cases "v = u")
  case True
  with assms show ?thesis
    by (auto simp: post_wallet_tx_def Let_def find_wallet_def find_key_update dest: find_SomeD)
next
  case False
  have "wal_userId w = u" using find_wallet_Some [OF assms] by simp
  with False show ?thesis
    by (auto simp: post_wallet_tx_def Let_def find_wallet_def intro!: find_update_other)
qed

lemma post_balance:
  assumes "find_wallet d u = Some w"
  shows "balance_of (post_wallet_tx now w ty m ref d) v = balance_of d v + (if v = u then m else 0)"
  using assms by (simp add: balance_of_def post_find)

lemma getMine_ok [inv_intros]:
  assumes "wallets_ok d" "fresh_key wal_id n (wallets d)"
  shows "wallets_ok (snd (wallet_getMine n u d))"
  using wallets_ok_upsert [OF assms] by (auto simp: wallet_getMine_def split: prod.splits)

lemma open_session_frame:
  "open_session G url uuid desc p (d, g) = (res, (d', g')) \<Longrightarrow> d' = d\<lparr>payments := payments d'\<rparr>"
  by (auto simp: open_session_def Let_def update_payment_def split: prod.splits)

end
