(* ===== verification/RedisLock.thy ===== *)
theory RedisLock
  imports Schema
begin

text \<open>
  \<open>common/redis/redis-lock.service.ts\<close>: the distributed lock that serialises the
  reservation of a slot. The Redis server is a parameter: a record of the three commands
  the service sends, each at a point in time, and a locale with the documented laws of
  \<open>SET key value PX ttl NX\<close>, \<open>GET\<close> and \<open>DEL\<close>. Shown: within its time to live a lock
  excludes every other holder, a release never removes a lock that someone else holds by
  then, and \<open>withLock\<close> gives the lock back whether its body returns or throws.
\<close>

section \<open>The server's commands\<close>

record 'r redis =
  set_px_nx :: "'r \<Rightarrow> time \<Rightarrow> string \<Rightarrow> string \<Rightarrow> int \<Rightarrow> bool \<times> 'r"
  get_key :: "'r \<Rightarrow> time \<Rightarrow> string \<Rightarrow> string option"
  del_key :: "'r \<Rightarrow> time \<Rightarrow> string \<Rightarrow> 'r"

section \<open>The lock service\<close>

definition default_ttlMs :: int where
  "default_ttlMs = 10000"

text \<open>\<open>acquire\<close>: the random token is returned when the server answered \<open>OK\<close>.\<close>

definition acquire :: "'r redis \<Rightarrow> time \<Rightarrow> string \<Rightarrow> string \<Rightarrow> int \<Rightarrow> 'r \<Rightarrow> string option \<times> 'r" where
  "acquire R now token key ttlMs r =
     (case set_px_nx R r now key token ttlMs of
        (ok, r') \<Rightarrow> (if ok then Some token else None, r'))"

text \<open>\<open>release\<close>: the script deletes the key only while it holds the caller's token.\<close>

definition release :: "'r redis \<Rightarrow> time \<Rightarrow> string \<Rightarrow> string \<Rightarrow> 'r \<Rightarrow> 'r" where
  "release R now key token r =
     (if get_key R r now key = Some token then del_key R r now key else r)"

text \<open>
  \<open>withLock\<close> reads the clock twice: when it acquires and, after its body, when the
  \<open>finally\<close> block releases. The body works on the database.
\<close>

definition withLock :: "'r redis \<Rightarrow> time \<Rightarrow> time \<Rightarrow> string \<Rightarrow> string \<Rightarrow> int \<Rightarrow> ('s \<Rightarrow> 'a result \<times> 's)
    \<Rightarrow> 's \<times> 'r \<Rightarrow> 'a result \<times> ('s \<times> 'r)" where
  "withLock R now later token key ttlMs fn st =
     (case st of (s, r) \<Rightarrow>
       (case acquire R now token key ttlMs r of
          (None, r') \<Rightarrow> (Inl (LockBusy key), (s, r'))
        | (Some tok, r') \<Rightarrow>
            (case fn s of (res, s') \<Rightarrow> (res, (s', release R later key tok r')))))"

section \<open>What the server promises\<close>

locale redis_server =
  fixes R :: "'r redis"
  assumes set_answer: "fst (set_px_nx R r t k v ttl) \<longleftrightarrow> get_key R r t k = None"
    and set_refused: "\<not> fst (set_px_nx R r t k v ttl) \<Longrightarrow> t \<le> u \<Longrightarrow>
      get_key R (snd (set_px_nx R r t k v ttl)) u l = get_key R r u l"
    and set_lives: "fst (set_px_nx R r t k v ttl) \<Longrightarrow> t \<le> u \<Longrightarrow> u < t + ttl \<Longrightarrow>
      get_key R (snd (set_px_nx R r t k v ttl)) u k = Some v"
    and set_expires: "fst (set_px_nx R r t k v ttl) \<Longrightarrow> t + ttl \<le> u \<Longrightarrow>
      get_key R (snd (set_px_nx R r t k v ttl)) u k = None"
    and set_frame: "t \<le> u \<Longrightarrow> l \<noteq> k \<Longrightarrow>
      get_key R (snd (set_px_nx R r t k v ttl)) u l = get_key R r u l"
    and del_gone: "t \<le> u \<Longrightarrow> get_key R (del_key R r t k) u k = None"
    and del_frame: "t \<le> u \<Longrightarrow> l \<noteq> k \<Longrightarrow> get_key R (del_key R r t k) u l = get_key R r u l"
begin

lemma acquire_iff: "fst (acquire R t tok k ttl r) = (if get_key R r t k = None then Some tok else None)"
  using set_answer [of r t k tok ttl] by (auto simp: acquire_def split: prod.splits)

lemma acquire_holds:
  assumes "acquire R t tok k ttl r = (Some x, r')" "t \<le> u"
  shows "get_key R r' u k = (if u < t + ttl then Some tok else None)"
  using assms set_lives [of r t k tok ttl u] set_expires [of r t k tok ttl u]
  by (auto simp: acquire_def split: prod.splits if_splits)

lemma acquire_excludes:
  assumes "acquire R t tok k ttl r = (Some x, r')" "t \<le> u" "u < t + ttl"
  shows "fst (acquire R u tok' k ttl' r') = None"
  using acquire_holds [OF assms(1,2)] assms(3) by (simp add: acquire_iff)

lemma acquire_frame:
  assumes "t \<le> u" "l \<noteq> k"
  shows "get_key R (snd (acquire R t tok k ttl r)) u l = get_key R r u l"
  using set_frame [OF assms, of r tok ttl] by (auto simp: acquire_def split: prod.splits)

lemma acquire_refused_frame:
  assumes "acquire R t tok k ttl r = (None, r')" "t \<le> u"
  shows "get_key R r' u l = get_key R r u l"
  using assms set_refused [of r t k tok ttl u l]
  by (auto simp: acquire_def split: prod.splits if_splits)

lemma release_own:
  assumes "get_key R r t k = Some tok" "t \<le> u"
  shows "get_key R (release R t k tok r) u k = None"
  using assms by (simp add: release_def del_gone)

lemma release_foreign: "get_key R r t k \<noteq> Some tok \<Longrightarrow> release R t k tok r = r"
  by (simp add: release_def)

lemma release_frame: "t \<le> u \<Longrightarrow> l \<noteq> k \<Longrightarrow> get_key R (release R t k tok r) u l = get_key R r u l"
  by (simp add: release_def del_frame)

lemma withLock_busy:
  assumes "get_key R r t k \<noteq> None"
  shows "fst (withLock R t u tok k ttl fn (s, r)) = Inl (LockBusy k)"
    "fst (snd (withLock R t u tok k ttl fn (s, r))) = s"
  using acquire_iff [of t tok k ttl r] assms
  by (auto simp: withLock_def split: prod.splits option.splits)

lemma withLock_runs:
  assumes "get_key R r t k = None"
  shows "fst (withLock R t u tok k ttl fn (s, r)) = fst (fn s)"
    "fst (snd (withLock R t u tok k ttl fn (s, r))) = snd (fn s)"
  using acquire_iff [of t tok k ttl r] assms
  by (auto simp: withLock_def split: prod.splits option.splits)

text \<open>A call that finds the lock busy leaves every lock as it is, and any call the locks of other keys.\<close>

lemma withLock_busy_frame:
  assumes "get_key R r t k \<noteq> None" "t \<le> w"
  shows "get_key R (snd (snd (withLock R t u tok k ttl fn (s, r)))) w l = get_key R r w l"
proof -
  obtain r' where "acquire R t tok k ttl r = (None, r')"
    using acquire_iff [of t tok k ttl r] assms(1) by (cases "acquire R t tok k ttl r") auto
  with acquire_refused_frame [OF this assms(2)] show ?thesis by (simp add: withLock_def)
qed

lemma withLock_frame:
  assumes "t \<le> u" "u \<le> w" "l \<noteq> k"
  shows "get_key R (snd (snd (withLock R t u tok k ttl fn (s, r)))) w l = get_key R r w l"
proof -
  have "get_key R (snd (acquire R t tok k ttl r)) w l = get_key R r w l"
    using assms by (intro acquire_frame) auto
  then show ?thesis
    using release_frame [OF assms(2,3)] by (auto simp: withLock_def split: prod.splits option.splits)
qed

text \<open>Whatever the body did, the key is free again once \<open>withLock\<close> has released it.\<close>

lemma withLock_releases:
  assumes "get_key R r t k = None" "t \<le> u" "u \<le> w"
  shows "get_key R (snd (snd (withLock R t u tok k ttl fn (s, r)))) w k = None"
proof -
  obtain r' where acq: "acquire R t tok k ttl r = (Some tok, r')"
    using acquire_iff [of t tok k ttl r] assms(1) by (cases "acquire R t tok k ttl r") auto
  have "get_key R (release R u k tok r') w k = None"
  proof (cases "u < t + ttl")
    case True
    then show ?thesis
      using acquire_holds [OF acq assms(2)] assms(3) by (simp add: release_own)
  next
    case False
    then have "get_key R r' u k \<noteq> Some tok" using acquire_holds [OF acq assms(2)] by simp
    moreover have "get_key R r' w k = None"
      using acquire_holds [OF acq, of w] assms False by simp
    ultimately show ?thesis by (simp add: release_foreign)
  qed
  then show ?thesis by (auto simp: withLock_def acq split: prod.splits)
qed

end

section \<open>A server that keeps values with their expiry\<close>

type_synonym mem_store = "string \<Rightarrow> (string \<times> time) option"

definition mem_get :: "mem_store \<Rightarrow> time \<Rightarrow> string \<Rightarrow> string option" where
  "mem_get m t k = (case m k of Some (v, e) \<Rightarrow> (if t < e then Some v else None) | None \<Rightarrow> None)"

definition mem_set :: "mem_store \<Rightarrow> time \<Rightarrow> string \<Rightarrow> string \<Rightarrow> int \<Rightarrow> bool \<times> mem_store" where
  "mem_set m t k v ttl =
     (if mem_get m t k = None then (True, m(k := Some (v, t + ttl))) else (False, m))"

definition mem_redis :: "mem_store redis" where
  "mem_redis = \<lparr>set_px_nx = mem_set, get_key = mem_get, del_key = (\<lambda>m t k. m(k := None))\<rparr>"

interpretation mem: redis_server mem_redis
  by unfold_locales
    (auto simp: mem_redis_def mem_set_def mem_get_def split: option.splits if_splits)

end
