(* ===== verification/Coupon.thy ===== *)
theory Coupon
  imports Schema
begin

text \<open>
  \<open>modules/coupon/coupon.service.ts\<close>: creating, listing and editing coupons, the dry-run
  \<open>validate\<close> and the redemption \<open>checkAndRedeem\<close> that \<open>hold\<close> runs inside its
  transaction. Shown: a discount lies between nothing and the whole purchase; a coupon's
  usage counter counts its usages, nobody redeems a coupon twice and no redemption passes
  the usage limit (\<open>coupons_ok\<close> and the lemmas on \<open>checkAndRedeem\<close>); the dry run answers
  what the redemption would do.
\<close>

section \<open>Requests\<close>

text \<open>Dates of a request are the instants \<open>new Date(...)\<close> reads from them.\<close>

record CreateCouponDto =
  cc_code :: string
  cc_type :: CouponType
  cc_value :: rat
  cc_minPurchase :: "money option"
  cc_usageLimit :: "int option"
  cc_validFrom :: time
  cc_validTo :: time

record UpdateCouponDto =
  uc_type :: "CouponType option"
  uc_value :: "rat option"
  uc_minPurchase :: "money option"
  uc_usageLimit :: "int option"
  uc_validFrom :: "time option"
  uc_validTo :: "time option"
  uc_isActive :: "bool option"

section \<open>Managing coupons\<close>

definition coupon_create :: "id \<Rightarrow> CreateCouponDto \<Rightarrow> id option \<Rightarrow> db \<Rightarrow> coupon result \<times> db" where
  "coupon_create newId dto businessId d =
     (case List.find (\<lambda>c. cp_code c = cc_code dto) (coupons d) of
        Some existing \<Rightarrow> (Inl (Conflict CouponCodeTaken), d)
      | None \<Rightarrow>
          if cc_validTo dto \<le> cc_validFrom dto then (Inl (BadRequest CouponDatesWrong), d)
          else
            (let c = \<lparr>cp_id = newId, cp_businessId = businessId, cp_code = cc_code dto,
                      cp_type = cc_type dto, cp_value = decimal2 (cc_value dto),
                      cp_minPurchase = map_option decimal2 (cc_minPurchase dto), cp_usageLimit = cc_usageLimit dto,
                      cp_usageCount = 0, cp_validFrom = cc_validFrom dto,
                      cp_validTo = cc_validTo dto, cp_isActive = True\<rparr>
             in if (case businessId of None \<Rightarrow> False | Some z \<Rightarrow> \<not> business_exists d z)
                then (Inl ForeignKeyViolation, d)
                else (Inr c, d\<lparr>coupons := insert_row c (coupons d)\<rparr>)))"

definition createForBusiness :: "id \<Rightarrow> id \<Rightarrow> CreateCouponDto \<Rightarrow> db \<Rightarrow> coupon result \<times> db" where
  "createForBusiness newId businessId dto = coupon_create newId dto (Some businessId)"

definition createGlobal :: "id \<Rightarrow> CreateCouponDto \<Rightarrow> db \<Rightarrow> coupon result \<times> db" where
  "createGlobal newId dto = coupon_create newId dto None"

definition coupon_listForBusiness :: "id \<Rightarrow> db \<Rightarrow> coupon list" where
  "coupon_listForBusiness businessId d =
     rev (sort_key cp_validFrom (filter (\<lambda>c. cp_businessId c = Some businessId) (coupons d)))"

definition listGlobal :: "db \<Rightarrow> coupon list" where
  "listGlobal d = rev (sort_key cp_validFrom (filter (\<lambda>c. cp_businessId c = None) (coupons d)))"

text \<open>An absent field of the request (\<open>undefined\<close>) leaves its column alone.\<close>

definition or_keep :: "'a option \<Rightarrow> 'a \<Rightarrow> 'a" where
  "or_keep new old = (case new of Some x \<Rightarrow> x | None \<Rightarrow> old)"

definition apply_coupon_update :: "UpdateCouponDto \<Rightarrow> coupon \<Rightarrow> coupon" where
  "apply_coupon_update dto c =
     c\<lparr>cp_type := or_keep (uc_type dto) (cp_type c),
       cp_value := or_keep (map_option decimal2 (uc_value dto)) (cp_value c),
       cp_minPurchase := (case uc_minPurchase dto of None \<Rightarrow> cp_minPurchase c | Some m \<Rightarrow> Some (decimal2 m)),
       cp_usageLimit := (case uc_usageLimit dto of None \<Rightarrow> cp_usageLimit c | Some l \<Rightarrow> Some l),
       cp_validFrom := or_keep (uc_validFrom dto) (cp_validFrom c),
       cp_validTo := or_keep (uc_validTo dto) (cp_validTo c),
       cp_isActive := or_keep (uc_isActive dto) (cp_isActive c)\<rparr>"

definition coupon_update :: "id \<Rightarrow> UpdateCouponDto \<Rightarrow> db \<Rightarrow> coupon result \<times> db" where
  "coupon_update couponId dto d =
     (case List.find (\<lambda>c. cp_id c = couponId) (coupons d) of
        None \<Rightarrow> (Inl (NotFound CouponNotFound), d)
      | Some c \<Rightarrow>
          (Inr (apply_coupon_update dto c),
           d\<lparr>coupons := update_rows (\<lambda>c. cp_id c = couponId) (apply_coupon_update dto) (coupons d)\<rparr>))"

section \<open>Validation and redemption\<close>

definition discount_of :: "coupon \<Rightarrow> money \<Rightarrow> money" where
  "discount_of c purchaseAmount =
     (let rawDiscount =
            (if cp_type c = PERCENTAGE then purchaseAmount * cp_value c / 100 else cp_value c)
      in min (math_round rawDiscount) purchaseAmount)"

definition below_min :: "coupon \<Rightarrow> money \<Rightarrow> bool" where
  "below_min c amount = (case cp_minPurchase c of None \<Rightarrow> False | Some m \<Rightarrow> amount < m)"

definition limit_reached :: "coupon \<Rightarrow> bool" where
  "limit_reached c =
     (case cp_usageLimit c of None \<Rightarrow> False | Some l \<Rightarrow> l \<noteq> 0 \<and> l \<le> cp_usageCount c)"

definition find_usage :: "db \<Rightarrow> id \<Rightarrow> id \<Rightarrow> coupon_usage option" where
  "find_usage d couponId userId =
     List.find (\<lambda>u. cu_couponId u = couponId \<and> cu_userId u = userId) (coupon_usages d)"

definition checkAndCompute :: "time \<Rightarrow> string \<Rightarrow> id \<Rightarrow> id option \<Rightarrow> money \<Rightarrow> db \<Rightarrow> (id \<times> money) result" where
  "checkAndCompute now code userId businessId purchaseAmount d =
     (case List.find (\<lambda>c. cp_code c = code) (coupons d) of
        None \<Rightarrow> Inl (BadRequest CouponInvalid)
      | Some c \<Rightarrow>
          if \<not> cp_isActive c then Inl (BadRequest CouponInvalid)
          else if now < cp_validFrom c \<or> cp_validTo c < now then Inl (BadRequest CouponNotInForce)
          else if truthy (cp_businessId c) \<and> cp_businessId c \<noteq> businessId
          then Inl (BadRequest CouponWrongBusiness)
          else if below_min c purchaseAmount
          then Inl (BadRequest (CouponMinPurchase (the (cp_minPurchase c))))
          else if limit_reached c then Inl (BadRequest CouponExhausted)
          else (case find_usage d (cp_id c) userId of
             Some _ \<Rightarrow> Inl (BadRequest CouponAlreadyUsed)
           | None \<Rightarrow> Inr (cp_id c, discount_of c purchaseAmount)))"

definition coupon_validate :: "time \<Rightarrow> string \<Rightarrow> id \<Rightarrow> id option \<Rightarrow> money \<Rightarrow> db \<Rightarrow> (id \<times> money) result \<times> db" where
  "coupon_validate now code userId businessId purchaseAmount d =
     (checkAndCompute now code userId businessId purchaseAmount d, d)"

definition checkAndRedeem :: "time \<Rightarrow> string \<Rightarrow> id \<Rightarrow> id option \<Rightarrow> money \<Rightarrow> id option \<Rightarrow> db
    \<Rightarrow> (id \<times> money) result \<times> db" where
  "checkAndRedeem now code userId businessId purchaseAmount bookingId d =
     (case checkAndCompute now code userId businessId purchaseAmount d of
        Inl e \<Rightarrow> (Inl e, d)
      | Inr (couponId, discountAmount) \<Rightarrow>
          if find_usage d couponId userId \<noteq> None then (Inl UniqueViolation, d)
          else
            (Inr (couponId, discountAmount),
             d\<lparr>coupon_usages := insert_row
                 \<lparr>cu_couponId = couponId, cu_userId = userId, cu_bookingId = bookingId,
                  cu_discountAmount = discountAmount\<rparr> (coupon_usages d),
               coupons := update_rows (\<lambda>c. cp_id c = couponId)
                 (\<lambda>c. c\<lparr>cp_usageCount := cp_usageCount c + 1\<rparr>) (coupons d)\<rparr>))"

section \<open>Discounts\<close>

lemma discount_le: "discount_of c amt \<le> amt"
  by (simp add: discount_of_def Let_def)

lemma discount_nonneg: "0 \<le> cp_value c \<Longrightarrow> 0 \<le> amt \<Longrightarrow> 0 \<le> discount_of c amt"
  by (auto simp: discount_of_def Let_def math_round_nonneg)

lemma discount_percentage:
  assumes "cp_type c = PERCENTAGE" "0 \<le> cp_value c" "cp_value c \<le> 100" "0 \<le> amt"
  shows "\<bar>discount_of c amt - amt * cp_value c / 100\<bar> \<le> 1 / 2"
proof -
  have "amt * cp_value c \<le> amt * 100" using assms by (intro mult_left_mono)
  then have "amt * cp_value c / 100 \<le> amt" by simp
  with math_round_error [of "amt * cp_value c / 100"] show ?thesis
    using assms by (auto simp: discount_of_def Let_def min_def abs_le_iff)
qed

section \<open>The checks\<close>

text \<open>The coupon a successful check is about, and all that it found out.\<close>

definition usable :: "time \<Rightarrow> id option \<Rightarrow> money \<Rightarrow> coupon \<Rightarrow> bool" where
  "usable now businessId amt c \<longleftrightarrow> cp_isActive c \<and> cp_validFrom c \<le> now \<and> now \<le> cp_validTo c
     \<and> (truthy (cp_businessId c) \<longrightarrow> cp_businessId c = businessId)
     \<and> \<not> below_min c amt \<and> \<not> limit_reached c"

lemma check_ok_iff:
  "checkAndCompute now code u b amt d = Inr (k, x) \<longleftrightarrow>
     (\<exists>c. List.find (\<lambda>c. cp_code c = code) (coupons d) = Some c \<and> usable now b amt c
        \<and> find_usage d k u = None \<and> k = cp_id c \<and> x = discount_of c amt)"
  by (auto simp: checkAndCompute_def usable_def split: option.splits if_splits)

lemma redeem_ok:
  assumes "checkAndRedeem now code u b amt bid d = (Inr (k, x), d')"
  shows "checkAndCompute now code u b amt d = Inr (k, x)" "find_usage d k u = None"
    "d' = d\<lparr>coupon_usages := insert_row \<lparr>cu_couponId = k, cu_userId = u, cu_bookingId = bid,
              cu_discountAmount = x\<rparr> (coupon_usages d),
            coupons := update_rows (\<lambda>c. cp_id c = k)
              (\<lambda>c. c\<lparr>cp_usageCount := cp_usageCount c + 1\<rparr>) (coupons d)\<rparr>"
  using assms by (auto simp: checkAndRedeem_def split: sum.splits prod.splits if_splits)

lemma redeem_error: "checkAndRedeem now code u b amt bid d = (Inl e, d') \<Longrightarrow> d' = d"
  by (auto simp: checkAndRedeem_def split: sum.splits prod.splits if_splits)

lemma redeem_result:
  "fst (checkAndRedeem now code u b amt bid d) = checkAndCompute now code u b amt d"
proof (cases "checkAndCompute now code u b amt d")
  case (Inr kx)
  moreover obtain k x where "kx = (k, x)" by (cases kx)
  moreover have "find_usage d k u = None" if "checkAndCompute now code u b amt d = Inr (k, x)"
    using that by (auto simp: check_ok_iff)
  ultimately show ?thesis by (simp add: checkAndRedeem_def)
qed (simp add: checkAndRedeem_def)

section \<open>The data invariant\<close>

definition usages_of :: "db \<Rightarrow> id \<Rightarrow> int" where
  "usages_of d k = int (length (filter (\<lambda>u. cu_couponId u = k) (coupon_usages d)))"

definition coupons_ok :: "db \<Rightarrow> bool" where
  "coupons_ok d \<longleftrightarrow> unique_key cp_id (coupons d) \<and> unique_key cp_code (coupons d)
     \<and> unique_key (\<lambda>u. (cu_couponId u, cu_userId u)) (coupon_usages d)
     \<and> list_all (\<lambda>u. cu_couponId u \<in> cp_id ` set (coupons d)) (coupon_usages d)
     \<and> list_all (\<lambda>c. cp_usageCount c = usages_of d (cp_id c) \<and> 0 \<le> cp_value c) (coupons d)"

lemma usages_of_insert:
  "usages_of (d\<lparr>coupon_usages := insert_row r (coupon_usages d), coupons := cs\<rparr>) k =
     usages_of d k + (if cu_couponId r = k then 1 else 0)"
  by (simp add: usages_of_def insert_row_def)

lemma coupons_ok_create [inv_intros]:
  assumes "coupons_ok d" "fresh_key cp_id n (coupons d)" "0 \<le> cc_value dto"
  shows "coupons_ok (snd (coupon_create n dto b d))"
proof -
  have none: "usages_of d n = 0"
    using assms(1,2)
    by (auto simp: coupons_ok_def usages_of_def list_all_iff fresh_key_def filter_empty_conv)
  have same: "usages_of (d\<lparr>coupons := cs\<rparr>) k = usages_of d k" for cs k
    by (simp add: usages_of_def)
  show ?thesis
    using assms none
    by (auto simp: decimal2_nonneg coupon_create_def Let_def coupons_ok_def list_all_iff same
        fresh_key_find [of cp_code, symmetric] intro!: unique_key_insert split: option.splits)
qed

lemma coupons_ok_update [inv_intros]:
  assumes "coupons_ok d" "\<And>v. uc_value dto = Some v \<Longrightarrow> 0 \<le> v"
  shows "coupons_ok (snd (coupon_update k dto d))"
proof -
  have same: "usages_of (d\<lparr>coupons := cs\<rparr>) k = usages_of d k" for cs k
    by (simp add: usages_of_def)
  have ids: "cp_id ` set (update_rows (\<lambda>c. cp_id c = k) (apply_coupon_update dto) (coupons d))
      = cp_id ` set (coupons d)"
    by (rule image_update_rows_same) (simp add: apply_coupon_update_def)
  show ?thesis
    using assms
    by (auto simp: coupon_update_def coupons_ok_def list_all_iff same ids apply_coupon_update_def
        or_keep_def decimal2_nonneg intro!: unique_key_update elim!: in_update_rowsE split: option.splits if_splits)
qed

lemma coupons_ok_usage:
  assumes "coupons_ok d" "k \<in> cp_id ` set (coupons d)" "find_usage d k u = None"
  shows "coupons_ok (d\<lparr>coupon_usages := insert_row \<lparr>cu_couponId = k, cu_userId = u, cu_bookingId = bid,
      cu_discountAmount = x\<rparr> (coupon_usages d),
    coupons := update_rows (\<lambda>c. cp_id c = k) (\<lambda>c. c\<lparr>cp_usageCount := cp_usageCount c + 1\<rparr>) (coupons d)\<rparr>)"
    (is "coupons_ok ?d")
proof -
  have fresh: "fresh_key (\<lambda>u. (cu_couponId u, cu_userId u)) (k, u) (coupon_usages d)"
    using assms(3) by (auto simp: find_usage_def fresh_key_def find_None_iff)
  have "cp_id ` set (coupons ?d) = cp_id ` set (coupons d)" by (simp add: table_simps)
  then have fk: "list_all (\<lambda>u. cu_couponId u \<in> cp_id ` set (coupons ?d)) (coupon_usages ?d)"
    using assms(1,2) by (auto simp: coupons_ok_def list_all_iff)
  have keys: "unique_key cp_id (coupons ?d)" "unique_key cp_code (coupons ?d)"
    using assms(1) by (auto simp: coupons_ok_def intro!: unique_key_update)
  have uses: "unique_key (\<lambda>u. (cu_couponId u, cu_userId u)) (coupon_usages ?d)"
    using assms(1) fresh by (auto simp: coupons_ok_def intro!: unique_key_insert)
  have "cp_usageCount c = usages_of ?d (cp_id c) \<and> 0 \<le> cp_value c" if "c \<in> set (coupons ?d)" for c
    using that assms(1)
    by (auto simp: coupons_ok_def list_all_iff usages_of_insert elim!: in_update_rowsE split: if_splits)
  with fk keys uses show ?thesis
    unfolding coupons_ok_def list_all_iff by blast
qed

lemma coupons_ok_redeem [inv_intros]:
  assumes "coupons_ok d"
  shows "coupons_ok (snd (checkAndRedeem now code u b amt bid d))"
proof (cases "checkAndRedeem now code u b amt bid d")
  case (Pair r d')
  show ?thesis
  proof (cases r)
    case (Inl e)
    with Pair assms show ?thesis by (auto dest: redeem_error)
  next
    case (Inr kx)
    obtain k x where kx: "kx = (k, x)" by (cases kx)
    note ok = redeem_ok [OF Pair [unfolded Inr kx]]
    have "k \<in> cp_id ` set (coupons d)" using ok(1) by (auto simp: check_ok_iff dest: find_SomeD)
    then show ?thesis using coupons_ok_usage [OF assms _ ok(2)] by (simp add: Pair ok(3))
  qed
qed

section \<open>The contract \<open>hold\<close> relies on\<close>

text \<open>
  A redemption inside a reservation: the discount never exceeds the price, a refusal
  leaves the database alone, and bookings are not touched.
\<close>

locale redeemer =
  fixes redeem :: "time \<Rightarrow> string \<Rightarrow> id \<Rightarrow> id option \<Rightarrow> money \<Rightarrow> id option \<Rightarrow> db \<Rightarrow> (id \<times> money) result \<times> db"
    and redeem_inv :: "db \<Rightarrow> bool"
  assumes redeem_bounds: "redeem_inv d \<Longrightarrow> 0 \<le> amt \<Longrightarrow>
      redeem now code u b amt bid d = (Inr (k, x), d') \<Longrightarrow> 0 \<le> x \<and> x \<le> amt"
    and redeem_bookings: "redeem now code u b amt bid d = (r, d') \<Longrightarrow> bookings d' = bookings d"
    and redeem_keeps: "redeem_inv d \<Longrightarrow> redeem now code u b amt bid d = (r, d') \<Longrightarrow> redeem_inv d'"
begin

lemma net_price:
  assumes "redeem_inv d" "0 \<le> price" "redeem now code u b price bid d = (Inr (k, x), d')"
  shows "0 \<le> price - x" "price - x \<le> price"
  using redeem_bounds [OF assms(1) _ assms(3)] assms(2) by auto

end

lemma redeem_discount_bounds:
  assumes "coupons_ok d" "0 \<le> amt" "checkAndRedeem now code u b amt bid d = (Inr (k, x), d')"
  shows "0 \<le> x" "x \<le> amt"
  using redeem_ok(1) [OF assms(3)] assms(1,2)
  by (auto simp: check_ok_iff coupons_ok_def list_all_iff discount_le
      dest!: find_SomeD intro!: discount_nonneg)

interpretation couponService: redeemer checkAndRedeem coupons_ok
proof
  fix d amt now code u b bid k x d'
  assume "coupons_ok d" "0 \<le> amt" "checkAndRedeem now code u b amt bid d = (Inr (k, x), d')"
  then show "0 \<le> x \<and> x \<le> amt" using redeem_discount_bounds by blast
next
  fix now code u b amt bid d r d'
  assume "checkAndRedeem now code u b amt bid d = (r, d')"
  then show "bookings d' = bookings d"
    by (cases r) (auto dest: redeem_error redeem_ok(3))
next
  fix d now code u b amt bid r d'
  assume "coupons_ok d" "checkAndRedeem now code u b amt bid d = (r, d')"
  then show "coupons_ok d'" using coupons_ok_redeem [of d now code u b amt bid] by simp
qed

end
