(* ===== verification/Loyalty.thy ===== *)
theory Loyalty
  imports Ledger
begin

text \<open>
  \<open>modules/loyalty/loyalty.service.ts\<close>: points, tiers and the ledger of point movements.
  Shown: every account's points are the sum of its ledger and its tier is the tier of
  those points (\<open>loyalty_ok\<close>), which every operation keeps.
\<close>

section \<open>The service\<close>

definition TIER_THRESHOLDS :: "(string \<times> int) list" where
  "TIER_THRESHOLDS = [(''GOLD'', 5000), (''SILVER'', 1000), (''BRONZE'', 0)]"

definition TOMAN_PER_POINT :: rat where
  "TOMAN_PER_POINT = 10000"

definition tier_for :: "int \<Rightarrow> string" where
  "tier_for newPoints =
     (case List.find (\<lambda>(tier, minPoints). minPoints \<le> newPoints) TIER_THRESHOLDS of
        Some (tier, _) \<Rightarrow> tier | None \<Rightarrow> ''BRONZE'')"

definition new_account :: "id \<Rightarrow> id \<Rightarrow> loyalty_account" where
  "new_account newId userId = \<lparr>la_id = newId, la_userId = userId, la_points = 0, la_tier = ''BRONZE''\<rparr>"

definition find_account :: "db \<Rightarrow> id \<Rightarrow> loyalty_account option" where
  "find_account d userId = List.find (\<lambda>a. la_userId a = userId) (loyalty_accounts d)"

text \<open>\<open>loyaltyAccount.upsert({ where: { userId }, update: {}, create: { userId } })\<close>\<close>

definition upsert_account :: "id \<Rightarrow> id \<Rightarrow> db \<Rightarrow> loyalty_account \<times> db" where
  "upsert_account newId userId d =
     (case find_account d userId of
        Some a \<Rightarrow> (a, d)
      | None \<Rightarrow> (new_account newId userId,
                 d\<lparr>loyalty_accounts := insert_row (new_account newId userId) (loyalty_accounts d)\<rparr>))"

definition loyalty_getMine :: "id \<Rightarrow> id \<Rightarrow> db \<Rightarrow> (loyalty_account \<times> loyalty_tx list) \<times> db" where
  "loyalty_getMine newId userId d =
     (case upsert_account newId userId d of
        (a, d') \<Rightarrow> ((a, take20 ltx_createdAt (filter (\<lambda>x. ltx_accountId x = la_id a) (loyalty_txs d'))), d'))"

definition addPoints :: "id \<Rightarrow> time \<Rightarrow> id \<Rightarrow> int \<Rightarrow> string \<Rightarrow> id option \<Rightarrow> db \<Rightarrow> db" where
  "addPoints newId now userId points reason referenceId d =
     (case upsert_account newId userId d of
        (account, d1) \<Rightarrow>
          let newPoints = la_points account + points;
              newTier = tier_for newPoints
          in d1\<lparr>loyalty_accounts := update_rows (\<lambda>a. la_userId a = userId)
                  (\<lambda>a. a\<lparr>la_points := newPoints, la_tier := newTier\<rparr>) (loyalty_accounts d1),
                loyalty_txs := insert_row
                  \<lparr>ltx_accountId = la_id account, ltx_points = points, ltx_reason = reason,
                   ltx_referenceId = referenceId, ltx_createdAt = now\<rparr> (loyalty_txs d1)\<rparr>)"

definition points_for :: "money \<Rightarrow> int" where
  "points_for amountToman = math_floor (amountToman / TOMAN_PER_POINT)"

definition earnFromPurchase :: "id \<Rightarrow> time \<Rightarrow> id \<Rightarrow> money \<Rightarrow> string \<Rightarrow> id option \<Rightarrow> db \<Rightarrow> db" where
  "earnFromPurchase newId now userId amountToman reason referenceId d =
     (let points = points_for amountToman in
      if points \<le> 0 then d else addPoints newId now userId points reason referenceId d)"

section \<open>Tiers and points\<close>

lemma tier_for_eq:
  "tier_for p = (if 5000 \<le> p then ''GOLD'' else if 1000 \<le> p then ''SILVER'' else ''BRONZE'')"
  by (simp add: tier_for_def TIER_THRESHOLDS_def)

lemma points_for_bounds:
  "of_int (points_for x) * 10000 \<le> x" "x < (of_int (points_for x) + 1) * 10000"
proof -
  have a: "of_int \<lfloor>x / 10000\<rfloor> \<le> x / 10000" "x / 10000 < of_int \<lfloor>x / 10000\<rfloor> + 1" by linarith+
  then show "of_int (points_for x) * 10000 \<le> x" "x < (of_int (points_for x) + 1) * 10000"
    by (simp_all add: points_for_def math_floor_def TOMAN_PER_POINT_def field_simps)
qed

section \<open>The points of a user\<close>

definition points_of :: "db \<Rightarrow> id \<Rightarrow> int" where
  "points_of d userId = (case find_account d userId of Some a \<Rightarrow> la_points a | None \<Rightarrow> 0)"

lemma upsert_find:
  "find_account (snd (upsert_account n u d)) v =
     (if find_account d v = None \<and> v = u then Some (new_account n u) else find_account d v)"
  by (auto simp: upsert_account_def find_account_def new_account_def table_simps
      split: option.splits)

lemma upsert_fst: "find_account (snd (upsert_account n u d)) u = Some (fst (upsert_account n u d))"
  by (auto simp: upsert_account_def find_account_def new_account_def table_simps
      split: option.splits)

lemma upsert_points: "la_points (fst (upsert_account n u d)) = points_of d u"
  by (auto simp: upsert_account_def points_of_def new_account_def split: option.splits)

lemma addPoints_find:
  "find_account (addPoints n t u p r f d) v =
     (if v = u then Some ((fst (upsert_account n u d))\<lparr>la_points := points_of d u + p,
          la_tier := tier_for (points_of d u + p)\<rparr>)
      else find_account d v)"
proof -
  obtain a d1 where up: "upsert_account n u d = (a, d1)" by (cases "upsert_account n u d")
  have "find_account d1 u = Some a" using upsert_fst [of n u d] up by simp
  moreover have "v \<noteq> u \<Longrightarrow> find_account d1 v = find_account d v"
    using upsert_find [of n u d v] up by simp
  moreover have "la_points a = points_of d u" using upsert_points [of n u d] up by simp
  moreover have "v \<noteq> u \<Longrightarrow> List.find (\<lambda>a. la_userId a = v)
      (update_rows (\<lambda>a. la_userId a = u) f t) = List.find (\<lambda>a. la_userId a = v) t"
    if "\<And>a. la_userId (f a) = la_userId a" for f :: "loyalty_account \<Rightarrow> loyalty_account" and t
    using that by (intro find_update_other) auto
  ultimately show ?thesis
    by (auto simp: addPoints_def up Let_def find_account_def find_key_update dest: find_SomeD)
qed

lemma addPoints_points:
  "points_of (addPoints n t u p r f d) v = points_of d v + (if v = u then p else 0)"
  by (simp add: points_of_def addPoints_find)

lemma earn_points:
  "points_of (earnFromPurchase n t u amt r f d) v =
     points_of d v + (if v = u then max 0 (points_for amt) else 0)"
  by (simp add: earnFromPurchase_def Let_def addPoints_points)

section \<open>The ledger invariant\<close>

definition set_points :: "int \<Rightarrow> loyalty_account \<Rightarrow> loyalty_account" where
  "set_points p a = a\<lparr>la_points := p, la_tier := tier_for p\<rparr>"

definition loyalty_ok :: "db \<Rightarrow> bool" where
  "loyalty_ok d \<longleftrightarrow>
     balanced la_id la_userId la_points ltx_accountId ltx_points (loyalty_accounts d) (loyalty_txs d)
     \<and> list_all (\<lambda>a. la_tier a = tier_for (la_points a)) (loyalty_accounts d)"

interpretation points: ledger la_id la_userId la_points set_points ltx_accountId ltx_points
  by unfold_locales (simp_all add: set_points_def)

text \<open>The fresh id of an account that an upsert may create.\<close>

definition fresh_account :: "db \<Rightarrow> id \<Rightarrow> bool" where
  "fresh_account d n \<longleftrightarrow> fresh_key la_id n (loyalty_accounts d)"

lemma loyalty_ok_upsert:
  assumes "loyalty_ok d" "fresh_account d n" "upsert_account n u d = (a, d')"
  shows "loyalty_ok d'" "a \<in> set (loyalty_accounts d')" "la_userId a = u"
    "loyalty_txs d' = loyalty_txs d"
proof -
  have "balanced la_id la_userId la_points ltx_accountId ltx_points
      (insert_row (new_account n u) (loyalty_accounts d)) (loyalty_txs d)" if "find_account d u = None"
    using assms(1,2) that
    by (intro points.open_account)
      (auto simp: loyalty_ok_def fresh_account_def find_account_def new_account_def fresh_key_find)
  then show "loyalty_ok d'"
    using assms
    by (auto simp: loyalty_ok_def upsert_account_def new_account_def list_all_iff tier_for_eq
        split: option.splits)
  show "a \<in> set (loyalty_accounts d')" "la_userId a = u" "loyalty_txs d' = loyalty_txs d"
    using assms(3)
    by (auto simp: upsert_account_def find_account_def new_account_def dest!: find_SomeD
        split: option.splits)
qed

lemma loyalty_ok_addPoints [inv_intros]:
  assumes "loyalty_ok d" "fresh_account d n"
  shows "loyalty_ok (addPoints n t u p r f d)"
proof -
  obtain a d' where up: "upsert_account n u d = (a, d')" by (cases "upsert_account n u d")
  note ok = loyalty_ok_upsert [OF assms up]
  let ?x = "\<lparr>ltx_accountId = la_id a, ltx_points = p, ltx_reason = r, ltx_referenceId = f, ltx_createdAt = t\<rparr>"
  have "balanced la_id la_userId la_points ltx_accountId ltx_points
      (update_rows (\<lambda>b. la_userId b = la_userId a) (set_points (la_points a + p)) (loyalty_accounts d'))
      (insert_row ?x (loyalty_txs d'))"
    using ok by (intro points.post) (auto simp: loyalty_ok_def)
  moreover have "set_points m = (\<lambda>b. b\<lparr>la_points := m, la_tier := tier_for m\<rparr>)" for m
    by (simp add: set_points_def fun_eq_iff)
  ultimately show ?thesis
    using ok
    by (auto simp: loyalty_ok_def addPoints_def up Let_def list_all_iff elim!: in_update_rowsE
        split: if_splits)
qed

lemma loyalty_ok_cong:
  assumes "loyalty_accounts d = loyalty_accounts e" "loyalty_txs d = loyalty_txs e"
  shows "loyalty_ok d \<longleftrightarrow> loyalty_ok e"
  using assms by (simp add: loyalty_ok_def)

lemma loyalty_ok_earn [inv_intros]:
  "loyalty_ok d \<Longrightarrow> fresh_account d n \<Longrightarrow> loyalty_ok (earnFromPurchase n t u amt r f d)"
  by (simp add: earnFromPurchase_def Let_def loyalty_ok_addPoints)

end
