(* ===== verification/Referral.thy ===== *)
theory Referral
  imports Loyalty
begin

text \<open>
  \<open>modules/referral/referral.service.ts\<close>: a new user names the user who brought them;
  their first final purchase rewards both, once. The loyalty service is used through the
  locale \<open>point_bank\<close>, the contract of \<open>addPoints\<close>. Shown: nobody is their own referrer and
  nobody is referred twice (\<open>referrals_ok\<close>); the reward is paid exactly once, to exactly
  the two users involved.
\<close>

section \<open>The service\<close>

definition REFERRAL_REWARD_POINTS :: int where
  "REFERRAL_REWARD_POINTS = 100"

definition getMyCode :: "id \<Rightarrow> id" where
  "getMyCode userId = userId"

definition find_referral :: "db \<Rightarrow> id \<Rightarrow> referral option" where
  "find_referral d refereeId = List.find (\<lambda>r. ref_refereeId r = refereeId) (referrals d)"

text \<open>\<open>registerReferral\<close> catches every exception, so it always returns.\<close>

definition registerReferral :: "id \<Rightarrow> string \<Rightarrow> id \<Rightarrow> db \<Rightarrow> db" where
  "registerReferral newId referrerCode refereeId d =
     (if referrerCode = refereeId then d
      else case List.find (\<lambda>u. usr_id u = referrerCode) (users d) of
        None \<Rightarrow> d
      | Some referrer \<Rightarrow>
          (case find_referral d refereeId of
             Some _ \<Rightarrow> d
           | None \<Rightarrow> d\<lparr>referrals := insert_row
               \<lparr>ref_id = newId, ref_referrerId = referrerCode, ref_refereeId = refereeId,
                ref_status = Ref_PENDING, ref_rewardedAt = None\<rparr> (referrals d)\<rparr>))"

text \<open>
  \<open>rewardIfEligible\<close>; the two new ids are those of the loyalty accounts an upsert may
  have to create.
\<close>

definition rewardIfEligible :: "id \<Rightarrow> id \<Rightarrow> time \<Rightarrow> id \<Rightarrow> db \<Rightarrow> db" where
  "rewardIfEligible newId1 newId2 now refereeId d =
     (case find_referral d refereeId of
        None \<Rightarrow> d
      | Some referral \<Rightarrow>
          if ref_status referral \<noteq> Ref_PENDING then d
          else
            (let d1 = addPoints newId1 now (ref_referrerId referral) REFERRAL_REWARD_POINTS
                        ''reward for bringing a friend'' (Some (ref_id referral)) d;
                 d2 = addPoints newId2 now (ref_refereeId referral) REFERRAL_REWARD_POINTS
                        ''welcome reward'' (Some (ref_id referral)) d1
             in d2\<lparr>referrals := update_rows (\<lambda>r. ref_id r = ref_id referral)
                    (\<lambda>r. r\<lparr>ref_status := Ref_REWARDED, ref_rewardedAt := Some now\<rparr>) (referrals d2)\<rparr>))"

section \<open>The contract of the point bank\<close>

text \<open>
  What the rewards rely on: adding points changes the balance of one user by exactly the
  amount, keeps the bank's invariant, and leaves the referrals alone. A second deposit
  may need its own fresh account id.
\<close>

locale point_bank =
  fixes deposit :: "id \<Rightarrow> time \<Rightarrow> id \<Rightarrow> int \<Rightarrow> string \<Rightarrow> id option \<Rightarrow> db \<Rightarrow> db"
    and balance :: "db \<Rightarrow> id \<Rightarrow> int"
    and bank_ok :: "db \<Rightarrow> bool"
    and fresh :: "db \<Rightarrow> id \<Rightarrow> bool"
  assumes deposit_balance: "balance (deposit n t u p r f d) v = balance d v + (if v = u then p else 0)"
    and deposit_ok: "bank_ok d \<Longrightarrow> fresh d n \<Longrightarrow> bank_ok (deposit n t u p r f d)"
    and deposit_fresh: "fresh d m \<Longrightarrow> m \<noteq> n \<Longrightarrow> fresh (deposit n t u p r f d) m"
    and deposit_referrals: "referrals (deposit n t u p r f d) = referrals d"
begin

text \<open>Two deposits of the same amount, as the reward makes them.\<close>

lemma reward_balance:
  "balance (deposit n2 t v p r2 f (deposit n1 t u p r1 f d)) w =
     balance d w + (if w = u then p else 0) + (if w = v then p else 0)"
  by (simp add: deposit_balance)

lemma reward_ok:
  "bank_ok d \<Longrightarrow> fresh d n1 \<Longrightarrow> fresh d n2 \<Longrightarrow> n1 \<noteq> n2 \<Longrightarrow>
     bank_ok (deposit n2 t v p r2 f (deposit n1 t u p r1 f d))"
  using deposit_ok deposit_fresh by metis

end

lemma addPoints_referrals [frame_simps]: "referrals (addPoints n t u p r f d) = referrals d"
  by (simp add: addPoints_def upsert_account_def Let_def split: option.splits prod.splits)

lemma find_referral_frame:
  "referrals d = referrals e \<Longrightarrow> find_referral d = find_referral e"
  by (simp add: find_referral_def fun_eq_iff)

lemma earn_referrals [frame_simps]: "referrals (earnFromPurchase n t u a r f d) = referrals d"
  by (simp add: earnFromPurchase_def Let_def frame_simps)

lemma addPoints_fresh:
  "fresh_account d m \<Longrightarrow> m \<noteq> n \<Longrightarrow> fresh_account (addPoints n t u p r f d) m"
  by (auto simp: addPoints_def upsert_account_def Let_def fresh_account_def fresh_key_def
      update_rows_def new_account_def split: option.splits prod.splits if_splits)

interpretation bank: point_bank addPoints points_of loyalty_ok fresh_account
  by unfold_locales
    (simp_all add: addPoints_points loyalty_ok_addPoints addPoints_fresh addPoints_referrals)

section \<open>Referrals\<close>

definition referrals_ok :: "db \<Rightarrow> bool" where
  "referrals_ok d \<longleftrightarrow> unique_key ref_refereeId (referrals d) \<and> unique_key ref_id (referrals d)
     \<and> list_all (\<lambda>r. ref_referrerId r \<noteq> ref_refereeId r) (referrals d)"

lemma referrals_ok_register [inv_intros]:
  assumes "referrals_ok d" "fresh_key ref_id n (referrals d)"
  shows "referrals_ok (registerReferral n c u d)"
  using assms
  by (auto simp: registerReferral_def referrals_ok_def find_referral_def list_all_iff
      fresh_key_find [of ref_refereeId, symmetric] intro!: unique_key_insert split: option.splits)

lemma reward_referrals:
  assumes "find_referral d u = Some r" "ref_status r = Ref_PENDING"
  shows "referrals (rewardIfEligible n1 n2 t u d) =
    update_rows (\<lambda>x. ref_id x = ref_id r)
      (\<lambda>x. x\<lparr>ref_status := Ref_REWARDED, ref_rewardedAt := Some t\<rparr>) (referrals d)"
  using assms by (simp add: rewardIfEligible_def Let_def frame_simps)

lemma reward_none:
  assumes "\<And>r. find_referral d u = Some r \<Longrightarrow> ref_status r \<noteq> Ref_PENDING"
  shows "rewardIfEligible n1 n2 t u d = d"
  using assms by (auto simp: rewardIfEligible_def split: option.splits)

lemma referrals_ok_reward [inv_intros]:
  assumes "referrals_ok d"
  shows "referrals_ok (rewardIfEligible n1 n2 t u d)"
proof (cases "\<exists>r. find_referral d u = Some r \<and> ref_status r = Ref_PENDING")
  case True
  then obtain r where "find_referral d u = Some r" "ref_status r = Ref_PENDING" by blast
  with assms show ?thesis
    by (auto simp: referrals_ok_def reward_referrals list_all_iff
        intro!: unique_key_update elim!: in_update_rowsE split: if_splits)
next
  case False
  then show ?thesis using assms reward_none [of d u] by metis
qed

lemma reward_points:
  "points_of (rewardIfEligible n1 n2 t u d) w =
     points_of d w +
     (case find_referral d u of
        None \<Rightarrow> 0
      | Some r \<Rightarrow>
          if ref_status r = Ref_PENDING
          then (if w = ref_referrerId r then 100 else 0) + (if w = u then 100 else 0)
          else 0)"
proof (cases "find_referral d u")
  case None
  then show ?thesis by (simp add: rewardIfEligible_def)
next
  case (Some r)
  have "ref_refereeId r = u" using Some by (auto simp: find_referral_def dest: find_SomeD)
  moreover have "points_of (d'\<lparr>referrals := x\<rparr>) w = points_of d' w" for d' x
    by (simp add: points_of_def find_account_def)
  ultimately show ?thesis
    using Some
    by (simp add: rewardIfEligible_def Let_def bank.reward_balance REFERRAL_REWARD_POINTS_def)
qed

lemma loyalty_ok_reward [inv_intros]:
  assumes "loyalty_ok d" "fresh_account d n1" "fresh_account d n2" "n1 \<noteq> n2"
  shows "loyalty_ok (rewardIfEligible n1 n2 t u d)"
proof -
  have "loyalty_ok (d'\<lparr>referrals := x\<rparr>) = loyalty_ok d'" for d' x
    by (rule loyalty_ok_cong) simp_all
  then show ?thesis
    using assms bank.reward_ok [OF assms]
    by (auto simp: rewardIfEligible_def Let_def split: option.splits)
qed

text \<open>After a reward the same user is never rewarded again.\<close>

lemma reward_spent:
  assumes "find_referral (rewardIfEligible n1 n2 t u d) u = Some r"
  shows "ref_status r = Ref_REWARDED"
proof (cases "find_referral d u")
  case None
  then show ?thesis using assms by (simp add: rewardIfEligible_def)
next
  case (Some x)
  show ?thesis
  proof (cases "ref_status x = Ref_PENDING")
    case True
    have "find_referral (rewardIfEligible n1 n2 t u d) u
        = Some (x\<lparr>ref_status := Ref_REWARDED, ref_rewardedAt := Some t\<rparr>)"
      using reward_referrals [OF Some True] Some
      by (simp add: find_referral_def table_simps)
    with assms show ?thesis by auto
  next
    case False
    then have "ref_status x = Ref_REWARDED" by (cases "ref_status x") auto
    with False Some assms show ?thesis by (simp add: rewardIfEligible_def)
  qed
qed

end
