(* ===== verification/JsDate.thy ===== *)
theory JsDate
  imports Schema
begin

text \<open>
  The part of the JavaScript \<open>Date\<close> object that the services use: the calendar of the
  ECMAScript specification (\<open>DayFromYear\<close>, \<open>YearFromTime\<close>, \<open>MonthFromTime\<close>),
  \<open>toISOString\<close>, \<open>getUTCDay\<close>, \<open>setUTCHours\<close> and the parsing of \<open>YYYY-MM-DD\<close> at
  midnight UTC. Shown: for the years 0 to 9999 \<open>toISOString\<close> is strictly monotone, hence
  injective, so comparing ISO strings (as the booking code does) is comparing instants,
  and parsing the first ten characters gives the start of the day.
\<close>

section \<open>Calendar\<close>

definition msPerDay :: int where
  "msPerDay = 86400000"

definition dayNumber :: "time \<Rightarrow> int" where
  "dayNumber t = t div msPerDay"

definition timeWithinDay :: "time \<Rightarrow> int" where
  "timeWithinDay t = t mod msPerDay"

definition dayFromYear :: "int \<Rightarrow> int" where
  "dayFromYear y = 365 * (y - 1970) + (y - 1969) div 4 - (y - 1901) div 100 + (y - 1601) div 400"

definition leapYear :: "int \<Rightarrow> bool" where
  "leapYear y \<longleftrightarrow> (y mod 4 = 0 \<and> y mod 100 \<noteq> 0) \<or> y mod 400 = 0"

lemma int_div_bounds:
  fixes x k :: int
  assumes "0 < k"
  shows "k * (x div k) \<le> x" "x < k * (x div k) + k"
  using assms pos_mod_sign [of k x] pos_mod_bound [of k x] mult_div_mod_eq [of k x] by linarith+

lemma int_le_div_iff:
  fixes x k q :: int
  assumes "0 < k"
  shows "q \<le> x div k \<longleftrightarrow> q * k \<le> x"
proof
  assume "q \<le> x div k"
  then have "q * k \<le> x div k * k" using assms by (intro mult_right_mono) auto
  with int_div_bounds(1) [OF assms, of x] show "q * k \<le> x" by (simp add: mult.commute)
next
  assume le: "q * k \<le> x"
  show "q \<le> x div k"
  proof (rule ccontr)
    assume "\<not> q \<le> x div k"
    then have "(x div k + 1) * k \<le> q * k" using assms by (intro mult_right_mono) auto
    with le int_div_bounds(2) [OF assms, of x] show False by (simp add: algebra_simps)
  qed
qed

lemma int_div_Suc:
  fixes x k :: int
  assumes "1 < k"
  shows "(x + 1) div k = x div k + (if k dvd x + 1 then 1 else 0)"
proof (cases "k dvd x + 1")
  case True
  then obtain q where q: "x + 1 = k * q" by blast
  with assms have "x div k = q - 1"
    by (intro int_div_pos_eq [of _ _ _ "k - 1"]) (auto simp: algebra_simps)
  with q assms show ?thesis by (simp add: True)
next
  case False
  have "x mod k + 1 \<noteq> k"
  proof
    assume "x mod k + 1 = k"
    then have "x + 1 = k * (x div k) + k"
      using mult_div_mod_eq [of k x] by linarith
    with False show False by simp
  qed
  with assms pos_mod_bound [of k x] have "x mod k + 1 < k" by linarith
  with assms have "(x + 1) div k = x div k"
    by (intro int_div_pos_eq [of _ _ _ "x mod k + 1"]) auto
  with False show ?thesis by simp
qed

lemma dayFromYear_Suc: "dayFromYear (y + 1) = dayFromYear y + (if leapYear y then 366 else 365)"
proof -
  have a: "(y + 1 - 1969) div 4 = (y - 1969) div 4 + (if 4 dvd y then 1 else 0)"
    using int_div_Suc [of 4 "y - 1969"] dvd_diff_left_iff [of 4 "1968::int" y] by simp
  have b: "(y + 1 - 1901) div 100 = (y - 1901) div 100 + (if 100 dvd y then 1 else 0)"
    using int_div_Suc [of 100 "y - 1901"] dvd_diff_left_iff [of 100 "1900::int" y] by simp
  have c: "(y + 1 - 1601) div 400 = (y - 1601) div 400 + (if 400 dvd y then 1 else 0)"
    using int_div_Suc [of 400 "y - 1601"] dvd_diff_left_iff [of 400 "1600::int" y] by simp
  have d: "100 dvd y \<Longrightarrow> 4 dvd y" by (rule dvd_trans [of 4 100]) auto
  have e: "400 dvd y \<Longrightarrow> 100 dvd y" by (rule dvd_trans [of 100 400]) auto
  show ?thesis
    unfolding dayFromYear_def a b c leapYear_def mod_eq_0_iff_dvd using d e by auto
qed

lemma dayFromYear_step: "dayFromYear y + 365 \<le> dayFromYear (y + 1)"
  by (simp add: dayFromYear_Suc)

lemma dayFromYear_nat: "dayFromYear y \<le> dayFromYear (y + int n)"
proof (induction n)
  case (Suc n)
  have "dayFromYear (y + int n) + 365 \<le> dayFromYear (y + int n + 1)"
    by (rule dayFromYear_step)
  with Suc show ?case by (simp add: ac_simps)
qed simp

lemma dayFromYear_mono: "y \<le> z \<Longrightarrow> dayFromYear y \<le> dayFromYear z"
  using dayFromYear_nat [of y "nat (z - y)"] by simp

function year_up :: "int \<Rightarrow> int \<Rightarrow> int" where
  "year_up d y = (if dayFromYear (y + 1) \<le> d then year_up d (y + 1) else y)"
  by pat_completeness auto
termination
proof (relation "measure (\<lambda>(d, y). nat (d - dayFromYear y))")
  fix d y :: int
  assume "dayFromYear (y + 1) \<le> d"
  with dayFromYear_step [of y]
  show "((d, y + 1), (d, y)) \<in> measure (\<lambda>(d, y). nat (d - dayFromYear y))"
    by simp
qed simp

declare year_up.simps [simp del]

text \<open>\<open>YearFromTime\<close>: the largest year that does not start after the day.\<close>

definition yearOfDay :: "int \<Rightarrow> int" where
  "yearOfDay d = year_up d (1969 + (400 * d) div 146097)"

lemma year_up_spec:
  "dayFromYear y \<le> d \<Longrightarrow> dayFromYear (year_up d y) \<le> d \<and> d < dayFromYear (year_up d y + 1)"
proof (induction d y rule: year_up.induct)
  case (1 d y)
  then show ?case by (cases "dayFromYear (y + 1) \<le> d") (auto simp: year_up.simps [of d y])
qed

lemma year_start_estimate: "dayFromYear (1969 + (400 * d) div 146097) \<le> d"
proof -
  define q where "q = (400 * d) div 146097"
  define A where "A = q div 4"
  define B where "B = (q + 68) div 100"
  define C where "C = (q + 368) div 400"
  have "146097 * q \<le> 400 * d" unfolding q_def by (rule int_div_bounds) simp
  moreover have "400 * A \<le> 100 * q"
    using int_div_bounds(1) [of 4 q] by (simp add: A_def)
  moreover have "4 * q - 128 < 400 * B"
    using int_div_bounds(2) [of 100 "q + 68"] by (simp add: B_def)
  moreover have "400 * C \<le> q + 368" unfolding C_def by (rule int_div_bounds) simp
  moreover have "400 * dayFromYear (1969 + q) = 146000 * q - 146000 + 400 * A - 400 * B + 400 * C"
    by (simp add: dayFromYear_def A_def B_def C_def algebra_simps)
  ultimately have "400 * dayFromYear (1969 + q) \<le> 400 * d" by linarith
  then show ?thesis by (simp add: q_def)
qed

lemma yearOfDay_spec: "dayFromYear (yearOfDay d) \<le> d" "d < dayFromYear (yearOfDay d + 1)"
  using year_up_spec [OF year_start_estimate] by (auto simp: yearOfDay_def)

lemma yearOfDay_unique:
  assumes "dayFromYear y \<le> d" "d < dayFromYear (y + 1)"
  shows "yearOfDay d = y"
proof (rule ccontr)
  assume "yearOfDay d \<noteq> y"
  then consider "yearOfDay d + 1 \<le> y" | "y + 1 \<le> yearOfDay d" by linarith
  then show False
    using assms yearOfDay_spec [of d] by cases (auto dest: dayFromYear_mono)
qed

lemma yearOfDay_mono: "d \<le> e \<Longrightarrow> yearOfDay d \<le> yearOfDay e"
proof (rule ccontr)
  assume "d \<le> e" "\<not> yearOfDay d \<le> yearOfDay e"
  then have "dayFromYear (yearOfDay e + 1) \<le> dayFromYear (yearOfDay d)"
    by (intro dayFromYear_mono) simp
  with yearOfDay_spec [of d] yearOfDay_spec [of e] \<open>d \<le> e\<close> show False by linarith
qed

definition dayInYear :: "int \<Rightarrow> int" where
  "dayInYear d = d - dayFromYear (yearOfDay d)"

text \<open>\<open>MonthFromTime\<close>, counted from 0, and the day of the year on which a month starts.\<close>

definition monthStart :: "bool \<Rightarrow> int \<Rightarrow> int" where
  "monthStart leap m =
     (let k = (if leap then 1 else 0) in
      if m \<le> 0 then 0 else if m = 1 then 31 else if m = 2 then 59 + k
      else if m = 3 then 90 + k else if m = 4 then 120 + k else if m = 5 then 151 + k
      else if m = 6 then 181 + k else if m = 7 then 212 + k else if m = 8 then 243 + k
      else if m = 9 then 273 + k else if m = 10 then 304 + k else 334 + k)"

definition monthOf :: "bool \<Rightarrow> int \<Rightarrow> int" where
  "monthOf leap n =
     (let k = (if leap then 1 else 0) in
      if n < 31 then 0 else if n < 59 + k then 1 else if n < 90 + k then 2
      else if n < 120 + k then 3 else if n < 151 + k then 4 else if n < 181 + k then 5
      else if n < 212 + k then 6 else if n < 243 + k then 7 else if n < 273 + k then 8
      else if n < 304 + k then 9 else if n < 334 + k then 10 else 11)"

definition dateOf :: "bool \<Rightarrow> int \<Rightarrow> int" where
  "dateOf leap n = n - monthStart leap (monthOf leap n) + 1"

lemma dayInYear_bounds: "0 \<le> dayInYear d"
    "dayInYear d < (if leapYear (yearOfDay d) then 366 else 365)"
  using yearOfDay_spec [of d] dayFromYear_Suc [of "yearOfDay d"]
  by (auto simp: dayInYear_def split: if_splits)

lemma monthOf_bounds: "0 \<le> monthOf leap n" "monthOf leap n \<le> 11"
  by (auto simp: monthOf_def Let_def)

lemma dateOf_bounds:
  assumes "0 \<le> n" "n < (if leap then 366 else 365)"
  shows "1 \<le> dateOf leap n" "dateOf leap n \<le> 31"
  using assms by (cases leap; simp add: dateOf_def monthOf_def monthStart_def)+

lemma monthOf_mono: "n \<le> n' \<Longrightarrow> monthOf leap n \<le> monthOf leap n'"
  by (auto simp: monthOf_def Let_def)

section \<open>Fixed-width decimal numbers\<close>

definition digit :: "int \<Rightarrow> char" where
  "digit d = char_of (48 + nat d)"

fun dig :: "nat \<Rightarrow> int \<Rightarrow> string" where
  "dig 0 x = []"
| "dig (Suc n) x = dig n (x div 10) @ [digit (x mod 10)]"

lemma length_dig [simp]: "length (dig n x) = n"
  by (induction n arbitrary: x) auto

lemma digit_less: "0 \<le> a \<Longrightarrow> a < b \<Longrightarrow> b \<le> 9 \<Longrightarrow> digit a < digit b"
  by (simp add: digit_def less_char_def)

lemma append_less_left:
  fixes a b :: "'a::order list"
  shows "length a = length b \<Longrightarrow> a < b \<Longrightarrow> a @ r < b @ s"
  by (induction a b rule: list_induct2) auto

lemma append_less_right:
  fixes a :: "'a::order list"
  shows "r < s \<Longrightarrow> a @ r < a @ s"
  by (induction a) auto

lemma dig_less: "0 \<le> x \<Longrightarrow> x < y \<Longrightarrow> y < 10 ^ n \<Longrightarrow> dig n x < dig n y"
proof (induction n arbitrary: x y)
  case (Suc n)
  show ?case
  proof (cases "x div 10 < y div 10")
    case True
    have "y div 10 < 10 ^ n" using Suc.prems by (simp add: div_less_iff_less_mult mult.commute)
    then have "dig n (x div 10) < dig n (y div 10)"
      using True Suc.prems by (intro Suc.IH) auto
    then show ?thesis by (simp add: append_less_left)
  next
    case False
    with Suc.prems have eq: "x div 10 = y div 10" using zdiv_mono1 [of x y 10] by simp
    with Suc.prems have "x mod 10 < y mod 10" by presburger
    then have "[digit (x mod 10)] < [digit (y mod 10)]" by (simp add: digit_less)
    then show ?thesis using eq by (simp add: append_less_right)
  qed
qed simp

section \<open>ISO strings\<close>

text \<open>
  \<open>toISOString\<close>: four digits for the years 0 to 9999, a sign and six digits outside.
\<close>

definition isoYear :: "int \<Rightarrow> string" where
  "isoYear y = (if 0 \<le> y \<and> y \<le> 9999 then dig 4 y
     else if 0 \<le> y then ''+'' @ dig 6 y else ''-'' @ dig 6 (- y))"

definition isoDay :: "int \<Rightarrow> string" where
  "isoDay d = (let y = yearOfDay d; leap = leapYear y; n = dayInYear d in
     isoYear y @ ''-'' @ dig 2 (monthOf leap n + 1) @ ''-'' @ dig 2 (dateOf leap n))"

definition isoClock :: "int \<Rightarrow> string" where
  "isoClock ms = (let s = ms div 1000; m = s div 60; h = m div 60 in
     ((dig 2 h @ '':'' @ dig 2 (m mod 60)) @ '':'' @ dig 2 (s mod 60)) @ ''.'' @ dig 3 (ms mod 1000))"

definition toISOString :: "time \<Rightarrow> string" where
  "toISOString t = isoDay (dayNumber t) @ ''T'' @ isoClock (timeWithinDay t) @ ''Z''"

definition year_in_range :: "time \<Rightarrow> bool" where
  "year_in_range t \<longleftrightarrow> 0 \<le> yearOfDay (dayNumber t) \<and> yearOfDay (dayNumber t) \<le> 9999"

lemma append_lex:
  fixes a b :: "'a::order list"
  shows "length a = length b \<Longrightarrow> a < b \<or> a = b \<and> r < s \<Longrightarrow> a @ r < b @ s"
  using append_less_left append_less_right by blast

text \<open>Two numbers written as quotient and remainder compare as the numbers do.\<close>

lemma radix_less:
  fixes x y k :: int and a b :: string
  assumes "0 < k" "x < y" and len: "length a = length b"
    and hi: "x div k < y div k \<Longrightarrow> a < b" and eq: "x div k = y div k \<Longrightarrow> a = b"
    and lo: "x mod k < y mod k \<Longrightarrow> r < s"
  shows "a @ r < b @ (s :: string)"
proof (cases "x div k = y div k")
  case True
  then have "x mod k < y mod k"
    using assms(2) by (simp add: minus_mult_div_eq_mod [symmetric])
  with True show ?thesis using len eq lo by (intro append_lex) auto
next
  case False
  with zdiv_mono1 [of x y k] assms(1,2) have "x div k < y div k" by simp
  then show ?thesis using len hi by (intro append_lex) auto
qed

lemma isoClock_less:
  assumes "0 \<le> a" "a < b" "b < msPerDay"
  shows "isoClock a < isoClock b"
proof -
  have hm: "dig 2 (x div 60) @ CHR '':'' # dig 2 (x mod 60) < dig 2 (y div 60) @ CHR '':'' # dig 2 (y mod 60)"
    if "0 \<le> x" "x < y" "y < 1440" for x y :: int
    by (rule radix_less [of 60 x y]) (use that in \<open>auto intro!: dig_less\<close>)
  have hms: "(dig 2 (x div 60 div 60) @ CHR '':'' # dig 2 (x div 60 mod 60)) @ CHR '':'' # dig 2 (x mod 60)
      < (dig 2 (y div 60 div 60) @ CHR '':'' # dig 2 (y div 60 mod 60)) @ CHR '':'' # dig 2 (y mod 60)"
    if "0 \<le> x" "x < y" "y < 86400" for x y :: int
    by (rule radix_less [of 60 x y], simp_all only: length_append length_dig)
      (use that in \<open>auto intro!: dig_less hm\<close>)
  show ?thesis
    unfolding isoClock_def Let_def append_Cons append_Nil
  proof (rule radix_less [of 1000 a b], goal_cases)
    case 4
    have "b div 1000 < 86400" using assms(3) by (simp add: msPerDay_def)
    with 4 assms show ?case by (intro hms) auto
  next
    case 6
    then show ?case by (auto intro!: dig_less)
  qed (use assms in auto)
qed

lemma dateOf_less:
  "n < n' \<Longrightarrow> monthOf leap n = monthOf leap n' \<Longrightarrow> dateOf leap n < dateOf leap n'"
  by (simp add: dateOf_def)

lemma isoDay_less:
  assumes "d < e" "0 \<le> yearOfDay d" "yearOfDay e \<le> 9999"
  shows "isoDay d < isoDay e"
proof -
  have le: "yearOfDay d \<le> yearOfDay e" using assms(1) by (intro yearOfDay_mono) simp
  with assms have iso: "isoYear (yearOfDay d) = dig 4 (yearOfDay d)"
      "isoYear (yearOfDay e) = dig 4 (yearOfDay e)"
    by (auto simp: isoYear_def)
  show ?thesis
  proof (cases "yearOfDay d = yearOfDay e")
    case True
    define leap where "leap = leapYear (yearOfDay e)"
    have n: "dayInYear d < dayInYear e" using assms(1) True by (simp add: dayInYear_def)
    have "dateOf leap (dayInYear e) \<le> 31" "1 \<le> dateOf leap (dayInYear d)"
      using dateOf_bounds dayInYear_bounds [of d] dayInYear_bounds [of e] True
      by (auto simp: leap_def)
    then have lo: "dig 2 (dateOf leap (dayInYear d)) < dig 2 (dateOf leap (dayInYear e))"
      if "monthOf leap (dayInYear d) = monthOf leap (dayInYear e)"
      using dateOf_less [OF n that] by (intro dig_less) auto
    have hi: "dig 2 (monthOf leap (dayInYear d) + 1) < dig 2 (monthOf leap (dayInYear e) + 1)"
      if "monthOf leap (dayInYear d) \<noteq> monthOf leap (dayInYear e)"
      using that monthOf_mono [of "dayInYear d" "dayInYear e" leap] n
        monthOf_bounds(1) [of leap "dayInYear d"] monthOf_bounds(2) [of leap "dayInYear e"]
      by (intro dig_less) auto
    have "dig 2 (monthOf leap (dayInYear d) + 1) @ ''-'' @ dig 2 (dateOf leap (dayInYear d))
        < dig 2 (monthOf leap (dayInYear e) + 1) @ ''-'' @ dig 2 (dateOf leap (dayInYear e))"
      by (rule append_lex, simp,
          cases "monthOf leap (dayInYear d) = monthOf leap (dayInYear e)") (use lo hi in auto)
    then show ?thesis
      using True by (simp add: isoDay_def Let_def leap_def append_less_right)
  next
    case False
    with le assms have "dig 4 (yearOfDay d) < dig 4 (yearOfDay e)" by (intro dig_less) auto
    then show ?thesis by (simp add: isoDay_def Let_def iso append_less_left)
  qed
qed

lemma length_isoDay: "0 \<le> yearOfDay d \<Longrightarrow> yearOfDay d \<le> 9999 \<Longrightarrow> length (isoDay d) = 10"
  by (simp add: isoDay_def isoYear_def Let_def)

lemma timeWithinDay_bounds: "0 \<le> timeWithinDay t" "timeWithinDay t < msPerDay"
  by (auto simp: timeWithinDay_def msPerDay_def)

lemma time_split: "t = dayNumber t * msPerDay + timeWithinDay t"
  by (simp add: dayNumber_def timeWithinDay_def)

theorem toISOString_less:
  assumes "year_in_range t" "year_in_range u" "t < u"
  shows "toISOString t < toISOString u"
proof -
  have le: "dayNumber t \<le> dayNumber u"
    using assms(3) by (simp add: dayNumber_def msPerDay_def zdiv_mono1)
  have clock: "isoClock (timeWithinDay t) @ ''Z'' < isoClock (timeWithinDay u) @ ''Z''"
    if "dayNumber t = dayNumber u"
  proof (rule append_less_left)
    show "length (isoClock (timeWithinDay t)) = length (isoClock (timeWithinDay u))"
      by (simp add: isoClock_def Let_def)
    have "timeWithinDay t < timeWithinDay u"
      using assms(3) that
      by (simp add: timeWithinDay_def dayNumber_def minus_mult_div_eq_mod [symmetric])
    then show "isoClock (timeWithinDay t) < isoClock (timeWithinDay u)"
      using timeWithinDay_bounds [of t] timeWithinDay_bounds [of u] by (intro isoClock_less) auto
  qed
  show ?thesis
    unfolding toISOString_def
  proof (rule append_lex)
    show "length (isoDay (dayNumber t)) = length (isoDay (dayNumber u))"
      using assms by (simp add: length_isoDay year_in_range_def)
    show "isoDay (dayNumber t) < isoDay (dayNumber u) \<or> isoDay (dayNumber t) = isoDay (dayNumber u)
      \<and> ''T'' @ isoClock (timeWithinDay t) @ ''Z'' < ''T'' @ isoClock (timeWithinDay u) @ ''Z''"
    proof (cases "dayNumber t = dayNumber u")
      case True
      then show ?thesis using clock by simp
    next
      case False
      then show ?thesis
        using le assms by (intro disjI1 isoDay_less) (auto simp: year_in_range_def)
    qed
  qed
qed

lemma toISOString_inject:
  assumes "year_in_range t" "year_in_range u"
  shows "toISOString t = toISOString u \<longleftrightarrow> t = u"
  using toISOString_less [of t u] toISOString_less [of u t] assms
  by (metis less_irrefl linorder_neqE)

lemma toISOString_le_iff:
  assumes "year_in_range t" "year_in_range u"
  shows "toISOString t \<le> toISOString u \<longleftrightarrow> t \<le> u"
  using toISOString_less [of t u] toISOString_less [of u t] toISOString_inject [OF assms] assms
  by (metis leD le_less linorder_not_less)

section \<open>Reading a calendar day\<close>

definition digit_val :: "char \<Rightarrow> int option" where
  "digit_val c = (let n = of_char c in if 48 \<le> n \<and> n \<le> (57 :: nat) then Some (int n - 48) else None)"

fun read_num :: "int \<Rightarrow> string \<Rightarrow> int option" where
  "read_num acc [] = Some acc"
| "read_num acc (c # cs) =
     (case digit_val c of None \<Rightarrow> None | Some d \<Rightarrow> read_num (10 * acc + d) cs)"

text \<open>Midnight UTC of a day; the engine lets a day number up to 31 run over into the next month.\<close>

definition midnight :: "int \<Rightarrow> int \<Rightarrow> int \<Rightarrow> time option" where
  "midnight y m d =
     (if 1 \<le> m \<and> m \<le> 12 \<and> 1 \<le> d \<and> d \<le> 31
      then Some ((dayFromYear y + monthStart (leapYear y) (m - 1) + d - 1) * msPerDay)
      else None)"

text \<open>
  \<open>new Date(s + 'T00:00:00.000Z')\<close> for a date-only string \<open>s\<close> of the forms \<open>YYYY\<close>,
  \<open>YYYY-MM\<close> and \<open>YYYY-MM-DD\<close>; \<^const>\<open>None\<close> is \<open>Invalid Date\<close>. (Signed six-digit years
  are not read.)
\<close>

definition parse_midnight :: "string \<Rightarrow> time option" where
  "parse_midnight s =
     (if length s = 10 \<and> s ! 4 = CHR ''-'' \<and> s ! 7 = CHR ''-'' then
        (case (read_num 0 (take 4 s), read_num 0 (take 2 (drop 5 s)), read_num 0 (drop 8 s)) of
           (Some y, Some m, Some d) \<Rightarrow> midnight y m d | _ \<Rightarrow> None)
      else if length s = 7 \<and> s ! 4 = CHR ''-'' then
        (case (read_num 0 (take 4 s), read_num 0 (drop 5 s)) of
           (Some y, Some m) \<Rightarrow> midnight y m 1 | _ \<Rightarrow> None)
      else if length s = 4 then
        (case read_num 0 s of Some y \<Rightarrow> midnight y 1 1 | None \<Rightarrow> None)
      else None)"

lemma read_num_append: "read_num a (xs @ ys) = Option.bind (read_num a xs) (\<lambda>b. read_num b ys)"
  by (induction xs arbitrary: a) (auto split: option.split)

lemma digit_val_digit: "0 \<le> d \<Longrightarrow> d \<le> 9 \<Longrightarrow> digit_val (digit d) = Some d"
  by (simp add: digit_val_def digit_def)

lemma read_num_dig: "0 \<le> x \<Longrightarrow> x < 10 ^ n \<Longrightarrow> read_num a (dig n x) = Some (a * 10 ^ n + x)"
proof (induction n arbitrary: x)
  case (Suc n)
  have "x div 10 < 10 ^ n" using Suc.prems by (simp add: div_less_iff_less_mult mult.commute)
  with Suc have "read_num a (dig n (x div 10)) = Some (a * 10 ^ n + x div 10)" by simp
  then show ?case
    by (simp add: read_num_append digit_val_digit algebra_simps)
qed simp

theorem parse_midnight_iso:
  assumes "year_in_range t"
  shows "parse_midnight (take 10 (toISOString t)) = Some (dayNumber t * msPerDay)"
proof -
  define d where "d = dayNumber t"
  define leap where "leap = leapYear (yearOfDay d)"
  define m where "m = monthOf leap (dayInYear d)"
  define k where "k = dateOf leap (dayInYear d)"
  have y: "0 \<le> yearOfDay d" "yearOfDay d \<le> 9999"
    using assms by (auto simp: year_in_range_def d_def)
  have m: "0 \<le> m" "m \<le> 11" by (auto simp: m_def monthOf_bounds)
  have k: "1 \<le> k" "k \<le> 31"
    using dateOf_bounds dayInYear_bounds [of d] by (auto simp: k_def leap_def)
  have iso: "isoDay d = dig 4 (yearOfDay d) @ CHR ''-'' # dig 2 (m + 1) @ CHR ''-'' # dig 2 k"
    using y by (simp add: isoDay_def isoYear_def Let_def leap_def m_def k_def)
  have "take 10 (toISOString t) = isoDay d"
    using y by (simp add: toISOString_def length_isoDay d_def)
  moreover have "parse_midnight (isoDay d) = midnight (yearOfDay d) (m + 1) k"
    using y m k by (simp add: iso parse_midnight_def nth_append read_num_dig)
  moreover have "dayFromYear (yearOfDay d) + monthStart leap m + k - 1 = d"
    by (simp add: k_def dateOf_def m_def dayInYear_def)
  ultimately show ?thesis
    using m k by (simp add: midnight_def leap_def d_def)
qed

section \<open>Clock fields\<close>

definition getUTCDay :: "time \<Rightarrow> int" where
  "getUTCDay t = (dayNumber t + 4) mod 7"

definition setUTCHours :: "time \<Rightarrow> int \<Rightarrow> int \<Rightarrow> int \<Rightarrow> int \<Rightarrow> time" where
  "setUTCHours t h m s ms =
     dayNumber t * msPerDay + h * 3600000 + m * 60000 + s * 1000 + ms"

lemma getUTCDay_bounds: "0 \<le> getUTCDay t" "getUTCDay t \<le> 6"
  by (auto simp: getUTCDay_def)

end
