(* ===== verification/Availability.thy ===== *)
theory Availability
  imports JsDate
begin

text \<open>
  \<open>modules/booking/availability.service.ts\<close>: the free slots of a service on a day. The
  slot loop of \<open>generateSlots\<close> advances by the duration of the service and does not end
  for a duration of zero minutes, so it is a \<open>partial_function (option)\<close> whose
  \<^const>\<open>None\<close> means that the call does not return. Shown: for a positive duration it
  returns, and the result is the grid of the working window without the past and the
  booked times; the answer of \<open>getFreeSlots\<close> lists every slot once, in order of time, and
  offers a staff member in a slot exactly when the slot is free for them.
\<close>

section \<open>Requests and answers\<close>

record CheckAvailabilityDto =
  ca_serviceId :: id
  ca_staffMemberId :: "id option"
  ca_branchId :: "id option"
  ca_date :: string

record FreeSlot =
  fs_startTime :: string
  fs_endTime :: string
  fs_availableStaffIds :: "id option list"

definition is_active :: "BookingStatus \<Rightarrow> bool" where
  "is_active s \<longleftrightarrow> s \<in> {HOLD, PENDING, CONFIRMED}"

lemma is_active_simps [simp]:
  "is_active HOLD" "is_active PENDING" "is_active CONFIRMED"
  "\<not> is_active COMPLETED" "\<not> is_active CANCELLED" "\<not> is_active NO_SHOW"
  by (simp_all add: is_active_def)

section \<open>Days\<close>

definition dayStart :: "time \<Rightarrow> time" where
  "dayStart date = setUTCHours date 0 0 0 0"

definition dayEnd :: "time \<Rightarrow> time" where
  "dayEnd date = setUTCHours date 23 59 59 999"

section \<open>Working window and holidays\<close>

definition window_of :: "working_hours \<Rightarrow> string \<times> string" where
  "window_of h = (wh_startTime h, wh_endTime h)"

definition resolveWorkingWindow :: "db \<Rightarrow> id \<Rightarrow> id option \<Rightarrow> int \<Rightarrow> (string \<times> string) option" where
  "resolveWorkingWindow d branchId staffId dayOfWeek =
     (if truthy staffId \<and> List.find (\<lambda>h. wh_staffMemberId h = staffId) (working_hours_tbl d) \<noteq> None
      then map_option window_of
             (List.find (\<lambda>h. wh_staffMemberId h = staffId \<and> wh_dayOfWeek h = dayOfWeek)
                (working_hours_tbl d))
      else map_option window_of
             (List.find (\<lambda>h. wh_branchId h = Some branchId \<and> wh_dayOfWeek h = dayOfWeek)
                (working_hours_tbl d)))"

definition on_day :: "time \<Rightarrow> time \<Rightarrow> bool" where
  "on_day date t \<longleftrightarrow> dayStart date \<le> t \<and> t < dayEnd date"

definition isHoliday :: "db \<Rightarrow> id \<Rightarrow> id option \<Rightarrow> time \<Rightarrow> bool" where
  "isHoliday d branchId staffId date \<longleftrightarrow>
     truthy staffId \<and> list_ex (\<lambda>h. hol_staffMemberId h = staffId \<and> on_day date (hol_date h)) (holidays d)
     \<or> list_ex (\<lambda>h. hol_branchId h = Some branchId \<and> on_day date (hol_date h)) (holidays d)"

section \<open>The slot loop\<close>

text \<open>
  \<open>'HH:mm'.split(':').map(Number)\<close>: the first two fields, each a run of decimal digits
  (an empty field is 0). Anything else is \<open>NaN\<close>, which makes the loop's condition false.
\<close>

definition js_number :: "string \<Rightarrow> int option" where
  "js_number s = read_num 0 s"

definition clock_fields :: "string \<Rightarrow> (int \<times> int) option" where
  "clock_fields s =
     (let h = takeWhile (\<lambda>c. c \<noteq> CHR '':'') s; rest = dropWhile (\<lambda>c. c \<noteq> CHR '':'') s in
      case rest of
        [] \<Rightarrow> None
      | _ # r \<Rightarrow>
          (case (js_number h, js_number (takeWhile (\<lambda>c. c \<noteq> CHR '':'') r)) of
             (Some x, Some y) \<Rightarrow> Some (x, y) | _ \<Rightarrow> None))"

definition overlaps :: "time \<Rightarrow> time \<Rightarrow> time \<times> time \<Rightarrow> bool" where
  "overlaps start fin b \<longleftrightarrow> start < snd b \<and> fst b < fin"

definition slot_free :: "int \<Rightarrow> time \<Rightarrow> (time \<times> time) list \<Rightarrow> time \<Rightarrow> bool" where
  "slot_free dur now existing cursor \<longleftrightarrow>
     now < cursor \<and> \<not> list_ex (overlaps cursor (cursor + dur)) existing"

partial_function (option) slot_loop ::
    "int \<Rightarrow> time \<Rightarrow> time \<Rightarrow> (time \<times> time) list \<Rightarrow> time \<Rightarrow> time list \<Rightarrow> time list option" where
  "slot_loop dur windowEnd now existing cursor result =
     (if cursor + dur \<le> windowEnd
      then slot_loop dur windowEnd now existing (cursor + dur)
             (if slot_free dur now existing cursor then result @ [cursor] else result)
      else Some result)"

definition generateSlots :: "time \<Rightarrow> time \<Rightarrow> string \<times> string \<Rightarrow> int \<Rightarrow> (time \<times> time) list \<Rightarrow> time list option" where
  "generateSlots now date window durationMinutes existing =
     (case (clock_fields (fst window), clock_fields (snd window)) of
        (Some (startH, startM), Some (endH, endM)) \<Rightarrow>
          slot_loop (durationMinutes * 60000) (setUTCHours date endH endM 0 0) now existing
            (setUTCHours date startH startM 0 0) []
      | _ \<Rightarrow> Some [])"

section \<open>Free slots\<close>

definition booked_on :: "db \<Rightarrow> id \<Rightarrow> id option \<Rightarrow> time \<Rightarrow> (time \<times> time) list" where
  "booked_on d branchId staffId date =
     map (\<lambda>b. (bk_startTime b, bk_endTime b))
       (filter (\<lambda>b. bk_staffMemberId b = staffId \<and> bk_branchId b = branchId
                    \<and> is_active (bk_status b) \<and> on_day date (bk_startTime b)) (bookings d))"

definition staff_slots :: "db \<Rightarrow> time \<Rightarrow> id \<Rightarrow> int \<Rightarrow> time \<Rightarrow> id option \<Rightarrow> time list option" where
  "staff_slots d now branchId durationMinutes date staffId =
     (case resolveWorkingWindow d branchId staffId (getUTCDay date) of
        None \<Rightarrow> Some []
      | Some window \<Rightarrow>
          if isHoliday d branchId staffId date then Some []
          else generateSlots now date window durationMinutes (booked_on d branchId staffId date))"

text \<open>One iteration of the inner loop: the map \<open>slotsByTime\<close> in insertion order.\<close>

definition add_slot :: "int \<Rightarrow> id option \<Rightarrow> time \<Rightarrow> FreeSlot list \<Rightarrow> FreeSlot list" where
  "add_slot durationMinutes staffId slot m =
     (let key = toISOString slot in
      if list_ex (\<lambda>f. fs_startTime f = key) m
      then update_rows (\<lambda>f. fs_startTime f = key)
             (\<lambda>f. f\<lparr>fs_availableStaffIds := fs_availableStaffIds f @ [staffId]\<rparr>) m
      else m @ [\<lparr>fs_startTime = key, fs_endTime = toISOString (slot + durationMinutes * 60000),
                 fs_availableStaffIds = [staffId]\<rparr>])"

fun collect_slots :: "(id option \<Rightarrow> time list option) \<Rightarrow> int \<Rightarrow> id option list \<Rightarrow> FreeSlot list
    \<Rightarrow> FreeSlot list option" where
  "collect_slots slotsOf durationMinutes [] m = Some m"
| "collect_slots slotsOf durationMinutes (staffId # rest) m =
     (case slotsOf staffId of
        None \<Rightarrow> None
      | Some slots \<Rightarrow>
          collect_slots slotsOf durationMinutes rest (fold (add_slot durationMinutes staffId) slots m))"

definition find_service :: "db \<Rightarrow> id \<Rightarrow> id \<Rightarrow> service option" where
  "find_service d serviceId businessId =
     List.find (\<lambda>s. sv_id s = serviceId \<and> sv_businessId s = businessId \<and> sv_isActive s) (services d)"

definition find_branch :: "db \<Rightarrow> id \<Rightarrow> id \<Rightarrow> branch option" where
  "find_branch d branchId businessId =
     List.find (\<lambda>b. br_id b = branchId \<and> br_businessId b = businessId) (branches d)"

definition find_staff :: "db \<Rightarrow> id \<Rightarrow> id \<Rightarrow> staff_member option" where
  "find_staff d staffMemberId businessId =
     List.find (\<lambda>s. sm_id s = staffMemberId \<and> sm_businessId s = businessId \<and> sm_isActive s)
       (staff_members d)"

definition candidateStaff :: "db \<Rightarrow> id \<Rightarrow> CheckAvailabilityDto \<Rightarrow> id option list result" where
  "candidateStaff d businessId dto =
     (if truthy (ca_staffMemberId dto) then
        (case find_staff d (the (ca_staffMemberId dto)) businessId of
           None \<Rightarrow> Inl (NotFound StaffNotFound)
         | Some _ \<Rightarrow> Inr [ca_staffMemberId dto])
      else
        (let assignments = filter (\<lambda>a. ss_serviceId a = ca_serviceId dto) (service_staffs d) in
         Inr (if assignments = [] then [None] else map (\<lambda>a. Some (ss_staffMemberId a)) assignments)))"

definition getFreeSlots :: "time \<Rightarrow> id \<Rightarrow> CheckAvailabilityDto \<Rightarrow> db \<Rightarrow> FreeSlot list result option" where
  "getFreeSlots now businessId dto d =
     (case find_service d (ca_serviceId dto) businessId of
        None \<Rightarrow> Some (Inl (NotFound ServiceNotFound))
      | Some service \<Rightarrow>
          if \<not> truthy (ca_branchId dto) then Some (Inl (NotFound BranchNotGiven))
          else (let branchId = the (ca_branchId dto) in
            case find_branch d branchId businessId of
              None \<Rightarrow> Some (Inl (NotFound BranchNotFound))
            | Some branch \<Rightarrow>
                (case candidateStaff d businessId dto of
                   Inl e \<Rightarrow> Some (Inl e)
                 | Inr candidates \<Rightarrow>
                     (case parse_midnight (ca_date dto) of
                        None \<Rightarrow> Some (Inl InvalidDate)
                      | Some date \<Rightarrow>
                          map_option (\<lambda>m. Inr (sort_key fs_startTime m))
                            (collect_slots (staff_slots d now branchId (sv_durationMinutes service) date)
                               (sv_durationMinutes service) candidates [])))))"

section \<open>The slot loop returns and computes the grid\<close>

text \<open>The start times that fit a window: a closed form of the loop.\<close>

definition slot_grid :: "int \<Rightarrow> time \<Rightarrow> time \<Rightarrow> time list" where
  "slot_grid dur start fin = map (\<lambda>i. start + int i * dur) [0..<nat ((fin - start) div dur)]"

lemma slot_grid_step:
  assumes "0 < dur" "start + dur \<le> fin"
  shows "slot_grid dur start fin = start # slot_grid dur (start + dur) fin"
proof -
  have n: "(fin - start) div dur = (fin - (start + dur)) div dur + 1"
    using assms div_add_self2 [of dur "fin - start - dur"] by (simp add: algebra_simps)
  have "0 \<le> (fin - (start + dur)) div dur" using assms by (simp add: pos_imp_zdiv_nonneg_iff)
  then have "nat ((fin - start) div dur) = Suc (nat ((fin - (start + dur)) div dur))"
    by (simp add: n nat_add_distrib)
  then show ?thesis
    by (simp add: slot_grid_def upt_conv_Cons map_Suc_upt [symmetric] algebra_simps del: upt_Suc)
qed

lemma slot_grid_end:
  assumes "0 < dur" "fin < start + dur"
  shows "slot_grid dur start fin = []"
proof -
  have "(fin - start) div dur < 1"
  proof (rule ccontr)
    assume "\<not> (fin - start) div dur < 1"
    then have "dur * 1 \<le> dur * ((fin - start) div dur)" using assms by (intro mult_left_mono) auto
    with int_div_bounds(1) [of dur "fin - start"] assms show False by simp
  qed
  then show ?thesis by (simp add: slot_grid_def)
qed

lemma in_slot_grid:
  assumes "0 < dur"
  shows "c \<in> set (slot_grid dur start fin) \<longleftrightarrow> (\<exists>i::nat. c = start + int i * dur \<and> c + dur \<le> fin)"
proof -
  have "i < nat ((fin - start) div dur) \<longleftrightarrow> start + int i * dur + dur \<le> fin" for i :: nat
  proof -
    have "i < nat ((fin - start) div dur) \<longleftrightarrow> int i + 1 \<le> (fin - start) div dur" by linarith
    also have "\<dots> \<longleftrightarrow> (int i + 1) * dur \<le> fin - start"
      using assms by (simp add: int_le_div_iff)
    finally show ?thesis by (simp add: algebra_simps)
  qed
  moreover have "c \<in> set (slot_grid dur start fin) \<longleftrightarrow>
      (\<exists>i < nat ((fin - start) div dur). c = start + int i * dur)"
    unfolding slot_grid_def set_map set_upt image_iff atLeastLessThan_iff Bex_def by simp
  ultimately show ?thesis by auto
qed

lemma distinct_slot_grid: "0 < dur \<Longrightarrow> distinct (slot_grid dur start fin)"
  by (simp add: slot_grid_def distinct_map inj_on_def)

lemma slot_loop_grid:
  assumes "0 < dur"
  shows "slot_loop dur fin now existing start acc =
    Some (acc @ filter (slot_free dur now existing) (slot_grid dur start fin))"
  using assms
proof (induction "nat (fin - start)" arbitrary: start acc rule: less_induct)
  case less
  show ?case
  proof (cases "start + dur \<le> fin")
    case True
    have "nat (fin - (start + dur)) < nat (fin - start)" using less.prems True by simp
    note less.hyps [OF this less.prems]
    with True less.prems show ?thesis
      by (simp add: slot_loop.simps [of dur fin now existing start] slot_grid_step)
  next
    case False
    with less.prems show ?thesis
      by (simp add: slot_loop.simps [of dur fin now existing start] slot_grid_end)
  qed
qed

section \<open>The slots of one staff member\<close>

text \<open>The window of a staff member on a day, as instants; \<^const>\<open>None\<close> when they do not work.\<close>

definition open_window :: "db \<Rightarrow> id \<Rightarrow> id option \<Rightarrow> time \<Rightarrow> (time \<times> time) option" where
  "open_window d branchId staffId date =
     (if isHoliday d branchId staffId date then None
      else case resolveWorkingWindow d branchId staffId (getUTCDay date) of
        None \<Rightarrow> None
      | Some w \<Rightarrow>
          (case (clock_fields (fst w), clock_fields (snd w)) of
             (Some (h, m), Some (h', m')) \<Rightarrow>
               Some (setUTCHours date h m 0 0, setUTCHours date h' m' 0 0)
           | _ \<Rightarrow> None))"

definition free_for :: "db \<Rightarrow> time \<Rightarrow> id \<Rightarrow> int \<Rightarrow> time \<Rightarrow> id option \<Rightarrow> time \<Rightarrow> bool" where
  "free_for d now branchId durationMinutes date staffId c \<longleftrightarrow>
     (case open_window d branchId staffId date of
        None \<Rightarrow> False
      | Some (start, fin) \<Rightarrow>
          c \<in> set (slot_grid (durationMinutes * 60000) start fin)
          \<and> slot_free (durationMinutes * 60000) now (booked_on d branchId staffId date) c)"

lemma staff_slots_returns:
  assumes "0 < dur"
  obtains slots where "staff_slots d now br dur date st = Some slots" "distinct slots"
    "set slots = {c. free_for d now br dur date st c}"
proof -
  let ?res = "case open_window d br st date of None \<Rightarrow> [] | Some (start, fin) \<Rightarrow>
      filter (slot_free (dur * 60000) now (booked_on d br st date)) (slot_grid (dur * 60000) start fin)"
  have "staff_slots d now br dur date st = Some ?res"
    using assms
    by (auto simp: staff_slots_def open_window_def generateSlots_def slot_loop_grid split: option.splits)
  moreover have "distinct ?res"
    using assms by (auto simp: distinct_slot_grid split: option.splits)
  moreover have "set ?res = {c. free_for d now br dur date st c}"
    by (cases "open_window d br st date") (auto simp: free_for_def)
  ultimately show ?thesis by (rule that)
qed

section \<open>Collecting the slots\<close>

text \<open>The staff offered at a start time, and the shape every collection has.\<close>

definition offered :: "FreeSlot list \<Rightarrow> string \<Rightarrow> id option \<Rightarrow> bool" where
  "offered m key st \<longleftrightarrow> (\<exists>f \<in> set m. fs_startTime f = key \<and> st \<in> set (fs_availableStaffIds f))"

definition slots_ok :: "FreeSlot list \<Rightarrow> bool" where
  "slots_ok m \<longleftrightarrow> unique_key fs_startTime m \<and> list_all (\<lambda>f. fs_availableStaffIds f \<noteq> []) m"

lemma add_slot_offered:
  "offered (add_slot dur st c m) key st' \<longleftrightarrow> offered m key st' \<or> key = toISOString c \<and> st' = st"
  by (auto simp: offered_def add_slot_def Let_def list_ex_iff table_simps split: if_splits) metis

lemma add_slot_ok: "slots_ok m \<Longrightarrow> slots_ok (add_slot dur st c m)"
  by (auto simp: slots_ok_def add_slot_def Let_def list_ex_iff list_all_iff table_simps
      unique_key_def)

lemma fold_add_slot:
  "offered (fold (add_slot dur st) cs m) key st' \<longleftrightarrow>
     offered m key st' \<or> key \<in> toISOString ` set cs \<and> st' = st"
  "slots_ok m \<Longrightarrow> slots_ok (fold (add_slot dur st) cs m)"
  by (induction cs arbitrary: m) (auto simp: add_slot_offered add_slot_ok)

lemma collect_slots_returns:
  assumes "\<And>st. st \<in> set sts \<Longrightarrow> \<exists>cs. slotsOf st = Some cs" "slots_ok m"
  shows "\<exists>m'. collect_slots slotsOf dur sts m = Some m' \<and> slots_ok m' \<and>
    (\<forall>key st. offered m' key st \<longleftrightarrow>
       offered m key st \<or> st \<in> set sts \<and> key \<in> toISOString ` set (the (slotsOf st)))"
  using assms
proof (induction sts arbitrary: m)
  case (Cons st sts)
  from Cons.prems(1) [of st] obtain cs where cs: "slotsOf st = Some cs" by auto
  let ?m = "fold (add_slot dur st) cs m"
  have "\<exists>m'. collect_slots slotsOf dur sts ?m = Some m' \<and> slots_ok m' \<and>
      (\<forall>key st. offered m' key st \<longleftrightarrow>
         offered ?m key st \<or> st \<in> set sts \<and> key \<in> toISOString ` set (the (slotsOf st)))"
  proof (rule Cons.IH)
    show "slots_ok ?m" using Cons.prems(2) by (rule fold_add_slot(2))
    show "\<exists>cs. slotsOf st = Some cs" if "st \<in> set sts" for st
      using Cons.prems(1) [of st] that by simp
  qed
  then obtain m' where m': "collect_slots slotsOf dur sts ?m = Some m'"
    and ok: "slots_ok m'" and off: "\<And>key st'. offered m' key st' \<longleftrightarrow> offered ?m key st' \<or>
       st' \<in> set sts \<and> key \<in> toISOString ` set (the (slotsOf st'))"
    by blast
  have "offered m' key st' \<longleftrightarrow> offered m key st' \<or>
      st' \<in> set (st # sts) \<and> key \<in> toISOString ` set (the (slotsOf st'))" for key st'
    unfolding off fold_add_slot(1) using cs by (cases "st' = st") auto
  moreover have "collect_slots slotsOf dur (st # sts) m = Some m'" using m' cs by simp
  ultimately show ?case using ok by blast
qed simp

section \<open>The answer of \<open>getFreeSlots\<close>\<close>

lemma sort_key_slots:
  "slots_ok m \<Longrightarrow> slots_ok (sort_key fs_startTime m)"
  "offered (sort_key fs_startTime m) key st = offered m key st"
  by (auto simp: slots_ok_def offered_def unique_key_def list_all_iff distinct_map)

lemma getFreeSlots_answer:
  assumes "find_service d (ca_serviceId dto) businessId = Some service"
    and "0 < sv_durationMinutes service"
    and "ca_branchId dto = Some br" "br \<noteq> []" "find_branch d br businessId = Some bra"
    and "candidateStaff d businessId dto = Inr cands"
    and "parse_midnight (ca_date dto) = Some date"
  obtains fs where "getFreeSlots now businessId dto d = Some (Inr fs)"
    "slots_ok fs" "sorted (map fs_startTime fs)"
    "\<And>key st. offered fs key st \<longleftrightarrow> st \<in> set cands \<and>
       (\<exists>c. key = toISOString c \<and> free_for d now br (sv_durationMinutes service) date st c)"
proof -
  let ?dur = "sv_durationMinutes service"
  let ?slots = "staff_slots d now br ?dur date"
  have ret: "\<exists>cs. ?slots st = Some cs \<and> set cs = {c. free_for d now br ?dur date st c}" for st
    using staff_slots_returns [OF assms(2)] by metis
  have empty: "slots_ok []" "\<not> offered [] key st" for key st
    by (simp_all add: slots_ok_def unique_key_def offered_def)
  obtain m where m: "collect_slots ?slots ?dur cands [] = Some m" "slots_ok m"
    and off: "\<And>key st. offered m key st \<longleftrightarrow>
       st \<in> set cands \<and> key \<in> toISOString ` set (the (?slots st))"
    using collect_slots_returns [of cands ?slots "[]" ?dur] empty ret by (metis (no_types, lifting))
  have "set (the (?slots st)) = {c. free_for d now br ?dur date st c}" for st
    using ret [of st] by auto
  with off have "offered m key st \<longleftrightarrow> st \<in> set cands \<and>
      (\<exists>c. key = toISOString c \<and> free_for d now br ?dur date st c)" for key st
    by (auto simp: image_iff)
  moreover have "getFreeSlots now businessId dto d = Some (Inr (sort_key fs_startTime m))"
    using assms m by (simp add: getFreeSlots_def)
  ultimately show ?thesis using m that by (simp add: sort_key_slots)
qed

end
