(* ===== verification/Booking.thy ===== *)
theory Booking
  imports RedisLock Coupon Referral Availability
begin

text \<open>
  \<open>modules/booking/booking.service.ts\<close> and \<open>booking-cleanup.service.ts\<close>: the life of a
  reservation. A call that takes the Redis lock works on the pair of database and server
  state. Every call reads the clock once (\<open>now\<close>); the release of the lock happens at a
  later reading (\<open>later\<close>). Random UUIDs (the lock token, the new row's id, the ids of
  loyalty accounts that may have to be created) are arguments.
\<close>

section \<open>Requests\<close>

record HoldBookingDto =
  hb_businessId :: id
  hb_branchId :: id
  hb_serviceId :: id
  hb_staffMemberId :: "id option"
  hb_startTime :: time
  hb_couponCode :: "string option"

record CreateRecurringBookingDto =
  rb_businessId :: id
  rb_branchId :: id
  rb_serviceId :: id
  rb_staffMemberId :: "id option"
  rb_startTime :: time
  rb_occurrences :: nat

record ListBusinessBookingsDto =
  lb_branchId :: "id option"
  lb_staffMemberId :: "id option"
  lb_from :: "time option"
  lb_to :: "time option"
  lb_status :: "BookingStatus option"

record CancelResult =
  cr_booking :: booking
  cr_feeApplied :: bool
  cr_feePercent :: int

section \<open>Constants and helpers\<close>

definition HOLD_TTL_MINUTES :: int where
  "HOLD_TTL_MINUTES = 5"

fun ALLOWED_STATUS_TRANSITIONS :: "BookingStatus \<Rightarrow> BookingStatus list" where
  "ALLOWED_STATUS_TRANSITIONS HOLD = [PENDING, CONFIRMED, CANCELLED]"
| "ALLOWED_STATUS_TRANSITIONS PENDING = [CONFIRMED, CANCELLED]"
| "ALLOWED_STATUS_TRANSITIONS CONFIRMED = [COMPLETED, NO_SHOW, CANCELLED]"
| "ALLOWED_STATUS_TRANSITIONS COMPLETED = []"
| "ALLOWED_STATUS_TRANSITIONS CANCELLED = []"
| "ALLOWED_STATUS_TRANSITIONS NO_SHOW = []"

definition round2 :: "rat \<Rightarrow> rat" where
  "round2 n = math_round (n * 100) / 100"

definition lockKey :: "id \<Rightarrow> id option \<Rightarrow> time \<Rightarrow> string" where
  "lockKey branchId staffMemberId startTime =
     ''booking-lock:'' @ branchId @ '':''
       @ (case staffMemberId of None \<Rightarrow> ''branch'' | Some s \<Rightarrow> s) @ '':'' @ toISOString startTime"

definition loadAndValidateContext :: "db \<Rightarrow> id \<Rightarrow> id \<Rightarrow> id \<Rightarrow> id option \<Rightarrow> (business \<times> branch \<times> service) result" where
  "loadAndValidateContext d businessId branchId serviceId staffMemberId =
     (case List.find (\<lambda>b. biz_id b = businessId \<and> biz_status b = APPROVED) (businesses d) of
        None \<Rightarrow> Inl (NotFound BusinessNotApproved)
      | Some business \<Rightarrow>
          (case find_branch d branchId businessId of
             None \<Rightarrow> Inl (NotFound BranchNotFound)
           | Some branch \<Rightarrow>
               (case find_service d serviceId businessId of
                  None \<Rightarrow> Inl (NotFound ServiceNotFound)
                | Some service \<Rightarrow>
                    if truthy staffMemberId \<and> find_staff d (the staffMemberId) businessId = None
                    then Inl (NotFound StaffNotFound)
                    else Inr (business, branch, service))))"

definition slot_clash :: "id \<Rightarrow> id option \<Rightarrow> time \<Rightarrow> time \<Rightarrow> id option \<Rightarrow> booking \<Rightarrow> bool" where
  "slot_clash branchId staffMemberId startTime endTime excludeBookingId b \<longleftrightarrow>
     bk_branchId b = branchId \<and> bk_staffMemberId b = staffMemberId \<and> is_active (bk_status b)
     \<and> (truthy excludeBookingId \<longrightarrow> Some (bk_id b) \<noteq> excludeBookingId)
     \<and> bk_startTime b < endTime \<and> startTime < bk_endTime b"

definition assertSlotFree :: "id \<Rightarrow> id option \<Rightarrow> time \<Rightarrow> time \<Rightarrow> id option \<Rightarrow> db \<Rightarrow> unit result" where
  "assertSlotFree branchId staffMemberId startTime endTime excludeBookingId d =
     (case List.find (slot_clash branchId staffMemberId startTime endTime excludeBookingId) (bookings d) of
        Some overlapping \<Rightarrow> Inl (Conflict SlotNotFree)
      | None \<Rightarrow> Inr ())"

definition getOwnedBooking :: "db \<Rightarrow> id \<Rightarrow> id \<Rightarrow> booking result" where
  "getOwnedBooking d bookingId userId =
     (case List.find (\<lambda>b. bk_id b = bookingId \<and> bk_userId b = userId) (bookings d) of
        None \<Rightarrow> Inl (NotFound BookingNotFound) | Some b \<Rightarrow> Inr b)"

definition update_booking :: "id \<Rightarrow> (booking \<Rightarrow> booking) \<Rightarrow> db \<Rightarrow> db" where
  "update_booking bookingId f d =
     d\<lparr>bookings := update_rows (\<lambda>b. bk_id b = bookingId) f (bookings d)\<rparr>"

text \<open>\<open>booking.create\<close>: the database refuses a staff member that does not exist.\<close>

definition create_booking :: "booking \<Rightarrow> db \<Rightarrow> booking result \<times> db" where
  "create_booking b d =
     (case bk_staffMemberId b of
        Some s \<Rightarrow>
          if s \<in> sm_id ` set (staff_members d)
          then (Inr b, d\<lparr>bookings := insert_row b (bookings d)\<rparr>)
          else (Inl ForeignKeyViolation, d)
      | None \<Rightarrow> (Inr b, d\<lparr>bookings := insert_row b (bookings d)\<rparr>))"

definition deposit_for :: "service \<Rightarrow> money \<Rightarrow> money" where
  "deposit_for service price =
     (if sv_requiresDeposit service
      then round2 (price * (case sv_depositPercent service of None \<Rightarrow> 0 | Some p \<Rightarrow> p) / 100)
      else 0)"

section \<open>Hold\<close>

text \<open>The optional redemption: the redeemed coupon, if any, and the discount.\<close>

definition redeem_for_hold :: "time \<Rightarrow> id \<Rightarrow> HoldBookingDto \<Rightarrow> service \<Rightarrow> db \<Rightarrow> (id option \<times> money) result \<times> db" where
  "redeem_for_hold now userId dto service d =
     (if truthy (hb_couponCode dto) then
        (case checkAndRedeem now (the (hb_couponCode dto)) userId (Some (hb_businessId dto))
                (sv_price service) None d of
           (Inl e, d') \<Rightarrow> (Inl e, d')
         | (Inr (couponId, discountAmount), d') \<Rightarrow> (Inr (Some couponId, discountAmount), d'))
      else (Inr (None, 0), d))"

definition hold_row :: "time \<Rightarrow> id \<Rightarrow> id \<Rightarrow> HoldBookingDto \<Rightarrow> business \<Rightarrow> service \<Rightarrow> money \<Rightarrow> booking" where
  "hold_row now newId userId dto business service discountAmount =
     \<lparr>bk_id = newId, bk_userId = userId, bk_businessId = hb_businessId dto,
      bk_branchId = hb_branchId dto, bk_staffMemberId = hb_staffMemberId dto,
      bk_serviceId = hb_serviceId dto, bk_startTime = hb_startTime dto,
      bk_endTime = hb_startTime dto + sv_durationMinutes service * 60000, bk_status = HOLD,
      bk_priceSnapshot = sv_price service,
      bk_depositRequired = deposit_for service (sv_price service - discountAmount),
      bk_cancellationPolicySnapshot = biz_cancellationPolicy business,
      bk_holdExpiresAt = Some (now + HOLD_TTL_MINUTES * 60000), bk_cancelledAt = None,
      bk_cancelReason = None, bk_recurringGroupId = None, bk_couponCode = hb_couponCode dto,
      bk_discountAmount = discountAmount\<rparr>"

definition link_usage :: "id option \<Rightarrow> id \<Rightarrow> id \<Rightarrow> db \<Rightarrow> db" where
  "link_usage redeemedCouponId userId bookingId d =
     (if truthy redeemedCouponId then
        d\<lparr>coupon_usages := update_rows
             (\<lambda>u. cu_couponId u = the redeemedCouponId \<and> cu_userId u = userId)
             (\<lambda>u. u\<lparr>cu_bookingId := Some bookingId\<rparr>) (coupon_usages d)\<rparr>
      else d)"

definition hold_body :: "time \<Rightarrow> id \<Rightarrow> id \<Rightarrow> HoldBookingDto \<Rightarrow> business \<Rightarrow> service \<Rightarrow> db \<Rightarrow> booking result \<times> db" where
  "hold_body now newId userId dto business service d =
     (case assertSlotFree (hb_branchId dto) (hb_staffMemberId dto) (hb_startTime dto)
             (hb_startTime dto + sv_durationMinutes service * 60000) None d of
        Inl e \<Rightarrow> (Inl e, d)
      | Inr _ \<Rightarrow>
          (case redeem_for_hold now userId dto service d of
             (Inl e, d1) \<Rightarrow> (Inl e, d1)
           | (Inr (redeemedCouponId, discountAmount), d1) \<Rightarrow>
               (case create_booking (hold_row now newId userId dto business service discountAmount) d1 of
                  (Inl e, d2) \<Rightarrow> (Inl e, d2)
                | (Inr booking, d2) \<Rightarrow>
                    (Inr booking, link_usage redeemedCouponId userId (bk_id booking) d2))))"

text \<open>The handler around both lock users: a busy lock is reported as a conflict.\<close>

definition busy_as_conflict :: "'a result \<times> 's \<Rightarrow> 'a result \<times> 's" where
  "busy_as_conflict res =
     (case res of (Inl (LockBusy key), st) \<Rightarrow> (Inl (Conflict SlotBeingReserved), st) | _ \<Rightarrow> res)"

definition hold :: "'r redis \<Rightarrow> time \<Rightarrow> time \<Rightarrow> string \<Rightarrow> id \<Rightarrow> id \<Rightarrow> HoldBookingDto \<Rightarrow> db \<times> 'r
    \<Rightarrow> booking result \<times> (db \<times> 'r)" where
  "hold R now later token newId userId dto st =
     (case loadAndValidateContext (fst st) (hb_businessId dto) (hb_branchId dto) (hb_serviceId dto)
             (hb_staffMemberId dto) of
        Inl e \<Rightarrow> (Inl e, st)
      | Inr (business, branch, service) \<Rightarrow>
          busy_as_conflict
            (withLock R now later token
               (lockKey (hb_branchId dto) (hb_staffMemberId dto) (hb_startTime dto)) default_ttlMs
               (transaction (hold_body now newId userId dto business service)) st))"

section \<open>Confirm\<close>

text \<open>Ids for the loyalty accounts that the purchase, the referrer and the referee may need.\<close>

type_synonym award_ids = "id \<times> id \<times> id"

definition awardPostPurchaseRewards :: "award_ids \<Rightarrow> time \<Rightarrow> id \<Rightarrow> money \<Rightarrow> db \<Rightarrow> db" where
  "awardPostPurchaseRewards ids now userId amountToman d =
     (case ids of (n0, n1, n2) \<Rightarrow>
        rewardIfEligible n1 n2 now userId
          (earnFromPurchase n0 now userId amountToman ''booking purchase'' None d))"

definition needs_deposit :: "db \<Rightarrow> booking \<Rightarrow> bool" where
  "needs_deposit d b =
     (case List.find (\<lambda>s. sv_id s = bk_serviceId b) (services d) of
        None \<Rightarrow> False | Some service \<Rightarrow> sv_requiresDeposit service)"

definition hold_lapsed :: "time \<Rightarrow> booking \<Rightarrow> bool" where
  "hold_lapsed now b = (case bk_holdExpiresAt b of None \<Rightarrow> True | Some e \<Rightarrow> e < now)"

definition confirm :: "award_ids \<Rightarrow> time \<Rightarrow> id \<Rightarrow> id \<Rightarrow> db \<Rightarrow> booking result \<times> db" where
  "confirm ids now bookingId userId d =
     (case getOwnedBooking d bookingId userId of
        Inl e \<Rightarrow> (Inl e, d)
      | Inr booking \<Rightarrow>
          if bk_status booking \<noteq> HOLD then (Inl (BadRequest NotConfirmable), d)
          else if hold_lapsed now booking
          then (Inl (BadRequest HoldExpired),
                update_booking bookingId
                  (\<lambda>b. b\<lparr>bk_status := CANCELLED, bk_cancelReason := Some ''confirmation deadline passed''\<rparr>) d)
          else
            (let nextStatus = (if needs_deposit d booking then PENDING else CONFIRMED);
                 upd = (\<lambda>b. b\<lparr>bk_status := nextStatus, bk_holdExpiresAt := None\<rparr>);
                 d1 = update_booking bookingId upd d
             in (Inr (upd booking),
                 if nextStatus = CONFIRMED
                 then awardPostPurchaseRewards ids now userId
                        (bk_priceSnapshot booking - bk_discountAmount booking) d1
                 else d1)))"

text \<open>
  \<open>confirmGroup\<close>: one after the other, each in a transaction of its own; the first
  exception ends the loop. \<open>ids i\<close> are the ids of the \<open>i\<close>-th confirmation, \<open>clock i\<close> is the
  time that it reads.
\<close>

fun confirm_each :: "(nat \<Rightarrow> award_ids) \<Rightarrow> (nat \<Rightarrow> time) \<Rightarrow> id \<Rightarrow> booking list \<Rightarrow> db \<Rightarrow> booking list result \<times> db" where
  "confirm_each ids clock userId [] d = (Inr [], d)"
| "confirm_each ids clock userId (b # bs) d =
     (case confirm (ids 0) (clock 0) (bk_id b) userId d of
        (Inl e, d1) \<Rightarrow> (Inl e, d1)
      | (Inr x, d1) \<Rightarrow>
          (case confirm_each (\<lambda>i. ids (Suc i)) (\<lambda>i. clock (Suc i)) userId bs d1 of
             (Inl e, d2) \<Rightarrow> (Inl e, d2) | (Inr xs, d2) \<Rightarrow> (Inr (x # xs), d2)))"

definition confirmGroup :: "(nat \<Rightarrow> award_ids) \<Rightarrow> (nat \<Rightarrow> time) \<Rightarrow> id \<Rightarrow> id \<Rightarrow> db \<Rightarrow> booking list result \<times> db" where
  "confirmGroup ids clock recurringGroupId userId d =
     (let group = filter (\<lambda>b. bk_recurringGroupId b = Some recurringGroupId \<and> bk_userId b = userId)
                    (bookings d)
      in if group = [] then (Inl (NotFound RecurringNotFound), d)
         else confirm_each ids clock userId group d)"

section \<open>Cancel\<close>

definition fee_applies :: "time \<Rightarrow> bool \<Rightarrow> booking \<Rightarrow> bool" where
  "fee_applies now cancelledByUser b \<longleftrightarrow>
     cancelledByUser \<and>
     rat_of_int (bk_startTime b - now) / 3600000
       < rat_of_int (freeCancelHours (bk_cancellationPolicySnapshot b))"

definition cancelInternal :: "time \<Rightarrow> booking \<Rightarrow> string option \<Rightarrow> bool \<Rightarrow> db \<Rightarrow> CancelResult result \<times> db" where
  "cancelInternal now booking reason cancelledByUser d =
     (if CANCELLED \<notin> set (ALLOWED_STATUS_TRANSITIONS (bk_status booking))
      then (Inl (BadRequest NotCancellable), d)
      else
        (let feeApplies = fee_applies now cancelledByUser booking;
             upd = (\<lambda>b. b\<lparr>bk_status := CANCELLED, bk_cancelledAt := Some now,
                         bk_cancelReason := (case reason of None \<Rightarrow> bk_cancelReason b | Some r \<Rightarrow> Some r)\<rparr>)
         in (Inr \<lparr>cr_booking = upd booking, cr_feeApplied = feeApplies,
                  cr_feePercent = (if feeApplies then feePercent (bk_cancellationPolicySnapshot booking) else 0)\<rparr>,
             update_booking (bk_id booking) upd d)))"

definition cancelByUser :: "time \<Rightarrow> id \<Rightarrow> id \<Rightarrow> string option \<Rightarrow> db \<Rightarrow> CancelResult result \<times> db" where
  "cancelByUser now bookingId userId reason d =
     (case getOwnedBooking d bookingId userId of
        Inl e \<Rightarrow> (Inl e, d) | Inr booking \<Rightarrow> cancelInternal now booking reason True d)"

definition find_business_booking :: "db \<Rightarrow> id \<Rightarrow> id \<Rightarrow> booking option" where
  "find_business_booking d bookingId businessId =
     List.find (\<lambda>b. bk_id b = bookingId \<and> bk_businessId b = businessId) (bookings d)"

definition cancelByBusiness :: "time \<Rightarrow> id \<Rightarrow> id \<Rightarrow> string option \<Rightarrow> db \<Rightarrow> CancelResult result \<times> db" where
  "cancelByBusiness now businessId bookingId reason d =
     (case find_business_booking d bookingId businessId of
        None \<Rightarrow> (Inl (NotFound BookingNotFound), d)
      | Some booking \<Rightarrow> cancelInternal now booking reason False d)"

section \<open>Reschedule\<close>

definition reschedule_dto :: "booking \<Rightarrow> time \<Rightarrow> CheckAvailabilityDto" where
  "reschedule_dto booking newStart =
     \<lparr>ca_serviceId = bk_serviceId booking, ca_staffMemberId = bk_staffMemberId booking,
      ca_branchId = Some (bk_branchId booking), ca_date = take 10 (toISOString newStart)\<rparr>"

definition reschedule_body :: "booking \<Rightarrow> time \<Rightarrow> time \<Rightarrow> db \<Rightarrow> booking result \<times> db" where
  "reschedule_body booking newStart newEnd d =
     (case assertSlotFree (bk_branchId booking) (bk_staffMemberId booking) newStart newEnd
             (Some (bk_id booking)) d of
        Inl e \<Rightarrow> (Inl e, d)
      | Inr _ \<Rightarrow>
          (let upd = (\<lambda>b. b\<lparr>bk_startTime := newStart, bk_endTime := newEnd\<rparr>)
           in (Inr (upd booking), update_booking (bk_id booking) upd d)))"

text \<open>\<^const>\<open>None\<close>: the search for free slots does not return.\<close>

definition reschedule :: "'r redis \<Rightarrow> time \<Rightarrow> time \<Rightarrow> string \<Rightarrow> id \<Rightarrow> id \<Rightarrow> time \<Rightarrow> db \<times> 'r
    \<Rightarrow> (booking result \<times> (db \<times> 'r)) option" where
  "reschedule R now later token bookingId userId newStart st =
     (case getOwnedBooking (fst st) bookingId userId of
        Inl e \<Rightarrow> Some (Inl e, st)
      | Inr booking \<Rightarrow>
          if \<not> is_active (bk_status booking) then Some (Inl (BadRequest NotReschedulable), st)
          else (case List.find (\<lambda>s. sv_id s = bk_serviceId booking) (services (fst st)) of
            None \<Rightarrow> Some (Inl RecordNotFound, st)
          | Some service \<Rightarrow>
              (case getFreeSlots now (bk_businessId booking) (reschedule_dto booking newStart) (fst st) of
                 None \<Rightarrow> None
               | Some (Inl e) \<Rightarrow> Some (Inl e, st)
               | Some (Inr freeSlots) \<Rightarrow>
                   if \<not> list_ex (\<lambda>s. fs_startTime s = toISOString newStart) freeSlots
                   then Some (Inl (Conflict NewSlotNotFree), st)
                   else Some (busy_as_conflict
                     (withLock R now later token
                        (lockKey (bk_branchId booking) (bk_staffMemberId booking) newStart) default_ttlMs
                        (transaction (reschedule_body booking newStart
                           (newStart + sv_durationMinutes service * 60000))) st)))))"

section \<open>Recurring bookings\<close>

definition occurrence :: "CreateRecurringBookingDto \<Rightarrow> service \<Rightarrow> nat \<Rightarrow> time \<times> time" where
  "occurrence dto service i =
     (let start = rb_startTime dto + int i * 7 * 24 * 60 * 60000
      in (start, start + sv_durationMinutes service * 60000))"

definition recurring_row :: "time \<Rightarrow> id \<Rightarrow> id \<Rightarrow> id \<Rightarrow> CreateRecurringBookingDto \<Rightarrow> business \<Rightarrow> service
    \<Rightarrow> time \<times> time \<Rightarrow> booking" where
  "recurring_row now newId groupId userId dto business service occ =
     \<lparr>bk_id = newId, bk_userId = userId, bk_businessId = rb_businessId dto,
      bk_branchId = rb_branchId dto, bk_staffMemberId = rb_staffMemberId dto,
      bk_serviceId = rb_serviceId dto, bk_startTime = fst occ, bk_endTime = snd occ,
      bk_status = HOLD, bk_priceSnapshot = sv_price service,
      bk_depositRequired = deposit_for service (sv_price service),
      bk_cancellationPolicySnapshot = biz_cancellationPolicy business,
      bk_holdExpiresAt = Some (now + HOLD_TTL_MINUTES * 60000), bk_cancelledAt = None,
      bk_cancelReason = None, bk_recurringGroupId = Some groupId, bk_couponCode = None,
      bk_discountAmount = 0\<rparr>"

fun create_occurrences :: "booking list \<Rightarrow> db \<Rightarrow> booking list result \<times> db" where
  "create_occurrences [] d = (Inr [], d)"
| "create_occurrences (b # bs) d =
     (case assertSlotFree (bk_branchId b) (bk_staffMemberId b) (bk_startTime b) (bk_endTime b) None d of
        Inl e \<Rightarrow> (Inl e, d)
      | Inr _ \<Rightarrow>
          (case create_booking b d of
             (Inl e, d1) \<Rightarrow> (Inl e, d1)
           | (Inr x, d1) \<Rightarrow>
               (case create_occurrences bs d1 of
                  (Inl e, d2) \<Rightarrow> (Inl e, d2) | (Inr xs, d2) \<Rightarrow> (Inr (x # xs), d2))))"

text \<open>\<open>createRecurring\<close> takes no lock; \<open>newIds i\<close> is the id of the \<open>i\<close>-th booking.\<close>

definition createRecurring :: "time \<Rightarrow> (nat \<Rightarrow> id) \<Rightarrow> id \<Rightarrow> id \<Rightarrow> CreateRecurringBookingDto \<Rightarrow> db
    \<Rightarrow> booking list result \<times> db" where
  "createRecurring now newIds groupId userId dto d =
     (case loadAndValidateContext d (rb_businessId dto) (rb_branchId dto) (rb_serviceId dto)
             (rb_staffMemberId dto) of
        Inl e \<Rightarrow> (Inl e, d)
      | Inr (business, branch, service) \<Rightarrow>
          (case transaction
                  (create_occurrences
                     (map (\<lambda>i. recurring_row now (newIds i) groupId userId dto business service
                                 (occurrence dto service i)) [0..<rb_occurrences dto])) d of
             (Inl (Conflict m), d') \<Rightarrow> (Inl (Conflict (RecurringFailed m)), d')
           | res \<Rightarrow> res))"

section \<open>Lists, status changes, clean-up\<close>

definition listMine :: "id \<Rightarrow> db \<Rightarrow> booking list" where
  "listMine userId d = rev (sort_key bk_startTime (filter (\<lambda>b. bk_userId b = userId) (bookings d)))"

definition matches_opt :: "'a option \<Rightarrow> 'a \<Rightarrow> bool" where
  "matches_opt want x = (case want of None \<Rightarrow> True | Some y \<Rightarrow> x = y)"

definition listForBusiness :: "id \<Rightarrow> ListBusinessBookingsDto \<Rightarrow> db \<Rightarrow> booking list" where
  "listForBusiness businessId dto d =
     sort_key bk_startTime
       (filter (\<lambda>b. bk_businessId b = businessId
          \<and> matches_opt (lb_branchId dto) (bk_branchId b)
          \<and> (lb_staffMemberId dto \<noteq> None \<longrightarrow> bk_staffMemberId b = lb_staffMemberId dto)
          \<and> matches_opt (lb_status dto) (bk_status b)
          \<and> (case lb_from dto of None \<Rightarrow> True | Some f \<Rightarrow> f \<le> bk_startTime b)
          \<and> (case lb_to dto of None \<Rightarrow> True | Some t \<Rightarrow> bk_startTime b \<le> t)) (bookings d))"

definition updateStatus :: "time \<Rightarrow> id \<Rightarrow> id \<Rightarrow> BookingStatus \<Rightarrow> db \<Rightarrow> booking result \<times> db" where
  "updateStatus now businessId bookingId status d =
     (case find_business_booking d bookingId businessId of
        None \<Rightarrow> (Inl (NotFound BookingNotFound), d)
      | Some booking \<Rightarrow>
          if status \<notin> set (ALLOWED_STATUS_TRANSITIONS (bk_status booking))
          then (Inl (BadRequest (TransitionNotAllowed (bk_status booking) status)), d)
          else
            (let upd = (\<lambda>b. b\<lparr>bk_status := status,
                    bk_cancelledAt := (if status = CANCELLED then Some now else bk_cancelledAt b)\<rparr>)
             in (Inr (upd booking), update_booking bookingId upd d)))"

definition expired_hold :: "time \<Rightarrow> booking \<Rightarrow> bool" where
  "expired_hold now b \<longleftrightarrow>
     bk_status b = HOLD \<and> (case bk_holdExpiresAt b of None \<Rightarrow> False | Some e \<Rightarrow> e < now)"

definition releaseExpiredHolds :: "time \<Rightarrow> db \<Rightarrow> nat \<times> db" where
  "releaseExpiredHolds now d =
     (length (filter (expired_hold now) (bookings d)),
      d\<lparr>bookings := update_rows (expired_hold now)
          (\<lambda>b. b\<lparr>bk_status := CANCELLED, bk_cancelReason := Some ''hold expired''\<rparr>) (bookings d)\<rparr>)"

text \<open>The cron job: the count is only logged.\<close>

definition handleExpiredHolds :: "time \<Rightarrow> db \<Rightarrow> db" where
  "handleExpiredHolds now d = snd (releaseExpiredHolds now d)"

end
