(* ===== verification/ServiceCatalog.thy ===== *)
theory ServiceCatalog
  imports Schema
begin

text \<open>
  \<open>modules/service/service-catalog.service.ts\<close> and its DTOs: the catalogue of a business
  and who may perform which service. \<open>services_ok\<close> collects what the reservation code
  relies on: a positive duration, a price with two decimals that is not negative, and a
  deposit percentage between 0 and 100. Creating and editing keep it for every request that
  passes the validation pipe.
\<close>

section \<open>Requests\<close>

record CreateServiceDto =
  cs_name :: string
  cs_description :: "string option"
  cs_durationMinutes :: int
  cs_price :: money
  cs_requiresDeposit :: "bool option"
  cs_depositPercent :: "rat option"

text \<open>The decorators of \<open>CreateServiceDto\<close>.\<close>

definition valid_name :: "string \<Rightarrow> bool" where
  "valid_name s \<longleftrightarrow> 2 \<le> length s \<and> length s \<le> 150"

definition valid_description :: "string option \<Rightarrow> bool" where
  "valid_description s = (case s of None \<Rightarrow> True | Some x \<Rightarrow> length x \<le> 1000)"

definition valid_duration :: "int \<Rightarrow> bool" where
  "valid_duration n \<longleftrightarrow> 5 \<le> n \<and> n \<le> 600"

definition valid_percent :: "rat option \<Rightarrow> bool" where
  "valid_percent p = (case p of None \<Rightarrow> True | Some x \<Rightarrow> 1 \<le> x \<and> x \<le> 100)"

definition valid_CreateServiceDto :: "CreateServiceDto \<Rightarrow> bool" where
  "valid_CreateServiceDto dto \<longleftrightarrow> valid_name (cs_name dto) \<and> valid_description (cs_description dto)
     \<and> valid_duration (cs_durationMinutes dto) \<and> 0 \<le> cs_price dto
     \<and> valid_percent (cs_depositPercent dto)"

text \<open>\<open>UpdateServiceDto\<close> is \<open>PartialType(CreateServiceDto)\<close>: every field may be absent.\<close>

record UpdateServiceDto =
  us_name :: "string option"
  us_description :: "string option"
  us_durationMinutes :: "int option"
  us_price :: "money option"
  us_requiresDeposit :: "bool option"
  us_depositPercent :: "rat option"

definition valid_UpdateServiceDto :: "UpdateServiceDto \<Rightarrow> bool" where
  "valid_UpdateServiceDto dto \<longleftrightarrow>
     (case us_name dto of None \<Rightarrow> True | Some s \<Rightarrow> valid_name s)
     \<and> valid_description (us_description dto)
     \<and> (case us_durationMinutes dto of None \<Rightarrow> True | Some n \<Rightarrow> valid_duration n)
     \<and> (case us_price dto of None \<Rightarrow> True | Some p \<Rightarrow> 0 \<le> p)
     \<and> valid_percent (us_depositPercent dto)"

section \<open>Operations\<close>

text \<open>The service that \<open>prisma.service.create\<close> stores, with the defaults of the schema.\<close>

definition new_service :: "id \<Rightarrow> id \<Rightarrow> CreateServiceDto \<Rightarrow> service" where
  "new_service newId businessId dto =
     \<lparr>sv_id = newId, sv_businessId = businessId, sv_name = cs_name dto,
      sv_description = cs_description dto, sv_durationMinutes = cs_durationMinutes dto,
      sv_price = decimal2 (cs_price dto),
      sv_requiresDeposit = (case cs_requiresDeposit dto of None \<Rightarrow> False | Some b \<Rightarrow> b),
      sv_depositPercent = map_option decimal2 (cs_depositPercent dto), sv_isActive = True\<rparr>"

definition service_create :: "id \<Rightarrow> id \<Rightarrow> CreateServiceDto \<Rightarrow> db \<Rightarrow> service result \<times> db" where
  "service_create newId businessId dto d =
     (if cs_requiresDeposit dto = Some True
         \<and> (cs_depositPercent dto = None \<or> cs_depositPercent dto = Some 0)
      then (Inl (BadRequest DepositPercentMissing), d)
      else (let s = new_service newId businessId dto
            in if \<not> business_exists d businessId then (Inl ForeignKeyViolation, d)
               else (Inr s, d\<lparr>services := insert_row s (services d)\<rparr>)))"

definition service_findAll :: "id \<Rightarrow> db \<Rightarrow> service list" where
  "service_findAll businessId d = filter (\<lambda>s. sv_businessId s = businessId) (services d)"

definition assertBelongsToBusiness :: "db \<Rightarrow> id \<Rightarrow> id \<Rightarrow> service result" where
  "assertBelongsToBusiness d businessId serviceId =
     (case List.find (\<lambda>s. sv_id s = serviceId) (services d) of
        None \<Rightarrow> Inl (NotFound ServiceNotFound)
      | Some s \<Rightarrow> if sv_businessId s \<noteq> businessId then Inl (NotFound ServiceNotFound) else Inr s)"

definition apply_service_update :: "UpdateServiceDto \<Rightarrow> service \<Rightarrow> service" where
  "apply_service_update dto s =
     s\<lparr>sv_name := (case us_name dto of None \<Rightarrow> sv_name s | Some x \<Rightarrow> x),
       sv_description := (case us_description dto of None \<Rightarrow> sv_description s | Some x \<Rightarrow> Some x),
       sv_durationMinutes := (case us_durationMinutes dto of None \<Rightarrow> sv_durationMinutes s | Some x \<Rightarrow> x),
       sv_price := (case us_price dto of None \<Rightarrow> sv_price s | Some x \<Rightarrow> decimal2 x),
       sv_requiresDeposit := (case us_requiresDeposit dto of None \<Rightarrow> sv_requiresDeposit s | Some x \<Rightarrow> x),
       sv_depositPercent := (case us_depositPercent dto of None \<Rightarrow> sv_depositPercent s
                             | Some x \<Rightarrow> Some (decimal2 x))\<rparr>"

definition service_update :: "id \<Rightarrow> id \<Rightarrow> UpdateServiceDto \<Rightarrow> db \<Rightarrow> service result \<times> db" where
  "service_update businessId serviceId dto d =
     (case assertBelongsToBusiness d businessId serviceId of
        Inl e \<Rightarrow> (Inl e, d)
      | Inr s \<Rightarrow>
          (Inr (apply_service_update dto s),
           d\<lparr>services := update_rows (\<lambda>s. sv_id s = serviceId) (apply_service_update dto) (services d)\<rparr>))"

definition assigned :: "db \<Rightarrow> id \<Rightarrow> id \<Rightarrow> bool" where
  "assigned d serviceId staffMemberId \<longleftrightarrow>
     list_ex (\<lambda>a. ss_serviceId a = serviceId \<and> ss_staffMemberId a = staffMemberId) (service_staffs d)"

definition assignStaff :: "id \<Rightarrow> id \<Rightarrow> id \<Rightarrow> db \<Rightarrow> unit result \<times> db" where
  "assignStaff businessId serviceId staffMemberId d =
     (case assertBelongsToBusiness d businessId serviceId of
        Inl e \<Rightarrow> (Inl e, d)
      | Inr _ \<Rightarrow>
          (case List.find (\<lambda>m. sm_id m = staffMemberId) (staff_members d) of
             None \<Rightarrow> (Inl (NotFound StaffNotFound), d)
           | Some m \<Rightarrow>
               if sm_businessId m \<noteq> businessId then (Inl (NotFound StaffNotFound), d)
               else if assigned d serviceId staffMemberId then (Inr (), d)
               else (Inr (), d\<lparr>service_staffs := insert_row
                      \<lparr>ss_serviceId = serviceId, ss_staffMemberId = staffMemberId\<rparr> (service_staffs d)\<rparr>)))"

definition unassignStaff :: "id \<Rightarrow> id \<Rightarrow> id \<Rightarrow> db \<Rightarrow> unit result \<times> db" where
  "unassignStaff businessId serviceId staffMemberId d =
     (case assertBelongsToBusiness d businessId serviceId of
        Inl e \<Rightarrow> (Inl e, d)
      | Inr _ \<Rightarrow>
          if \<not> assigned d serviceId staffMemberId then (Inl RecordNotFound, d)
          else (Inr (), d\<lparr>service_staffs := filter
                 (\<lambda>a. \<not> (ss_serviceId a = serviceId \<and> ss_staffMemberId a = staffMemberId))
                 (service_staffs d)\<rparr>))"

section \<open>The data invariant\<close>

definition service_ok :: "service \<Rightarrow> bool" where
  "service_ok s \<longleftrightarrow> 0 < sv_durationMinutes s \<and> 0 \<le> sv_price s \<and> two_decimals (sv_price s)
     \<and> (case sv_depositPercent s of None \<Rightarrow> True | Some p \<Rightarrow> 0 \<le> p \<and> p \<le> 100)"

definition services_ok :: "db \<Rightarrow> bool" where
  "services_ok d \<longleftrightarrow> unique_key sv_id (services d) \<and> list_all service_ok (services d)
     \<and> distinct (service_staffs d)"

lemma valid_percent_column:
  "valid_percent (Some p) \<Longrightarrow> 0 \<le> decimal2 p \<and> decimal2 p \<le> 100"
  using decimal2_mono_int [of p 100] by (auto simp: valid_percent_def decimal2_nonneg)

lemma services_ok_create [inv_intros]:
  assumes "services_ok d" "valid_CreateServiceDto dto" "fresh_key sv_id n (services d)"
  shows "services_ok (snd (service_create n b dto d))"
  using assms valid_percent_column
  by (auto simp: service_create_def Let_def new_service_def services_ok_def service_ok_def
      list_all_iff valid_CreateServiceDto_def valid_duration_def decimal2_nonneg
      intro!: unique_key_insert split: option.splits)

lemma service_ok_update:
  assumes "service_ok s" "valid_UpdateServiceDto dto"
  shows "service_ok (apply_service_update dto s)"
  using assms valid_percent_column
  by (auto simp: apply_service_update_def service_ok_def valid_UpdateServiceDto_def
      valid_duration_def decimal2_nonneg split: option.splits)

lemma services_ok_update [inv_intros]:
  assumes "services_ok d" "valid_UpdateServiceDto dto"
  shows "services_ok (snd (service_update b k dto d))"
proof -
  have "unique_key sv_id (update_rows (\<lambda>s. sv_id s = k) (apply_service_update dto) (services d))"
    using assms by (intro unique_key_update) (simp_all add: apply_service_update_def services_ok_def)
  then show ?thesis
    using assms
    by (auto simp: service_update_def services_ok_def list_all_iff service_ok_update
        elim!: in_update_rowsE split: sum.splits)
qed

lemma assigned_iff:
  "assigned d s m \<longleftrightarrow> \<lparr>ss_serviceId = s, ss_staffMemberId = m\<rparr> \<in> set (service_staffs d)"
  by (simp add: assigned_def list_ex_iff Bex_def) (metis (full_types) old.unit.exhaust service_staff.select_convs(1,2) service_staff.surjective)

lemma services_ok_assign [inv_intros]:
  "services_ok d \<Longrightarrow> services_ok (snd (assignStaff b s m d))"
  by (auto simp: assignStaff_def services_ok_def assigned_iff insert_row_def split: sum.splits option.splits)

lemma services_ok_unassign [inv_intros]:
  "services_ok d \<Longrightarrow> services_ok (snd (unassignStaff b s m d))"
  by (auto simp: unassignStaff_def services_ok_def split: sum.splits)

text \<open>Assigning is idempotent and undone by unassigning.\<close>

lemma assign_then_assigned:
  assumes "assignStaff b s m d = (Inr (), d')"
  shows "assigned d' s' m' \<longleftrightarrow> assigned d s' m' \<or> (s' = s \<and> m' = m)"
  using assms by (auto simp: assignStaff_def assigned_iff split: sum.splits option.splits if_splits)

lemma unassign_then_assigned:
  assumes "unassignStaff b s m d = (Inr (), d')"
  shows "assigned d' s' m' \<longleftrightarrow> assigned d s' m' \<and> \<not> (s' = s \<and> m' = m)"
  using assms by (auto simp: unassignStaff_def assigned_iff split: sum.splits if_splits)

end
