(* ===== verification/BookingInv.thy ===== *)
theory BookingInv
  imports Booking ServiceCatalog
begin

text \<open>
  The invariant of the reservations and its preservation by every operation of
  \<open>booking.service.ts\<close>. \<open>no_double_booking\<close>: two active reservations of the same branch
  and the same staff member (or both without one) never overlap. \<open>row_ok\<close>: a hold has a
  deadline, an interval is not empty, and \<open>0 \<le> discount \<le> price\<close> with the deposit between
  nothing and the discounted price. \<open>evolves\<close>: what was agreed on is never changed, and a
  status only moves along \<open>ALLOWED_STATUS_TRANSITIONS\<close>.
\<close>

section \<open>Statuses\<close>

definition moves :: "BookingStatus \<Rightarrow> BookingStatus \<Rightarrow> bool" where
  "moves s s' \<longleftrightarrow> s' \<in> set (ALLOWED_STATUS_TRANSITIONS s)"

lemma moves_inactive: "moves s s' \<Longrightarrow> is_active s' \<Longrightarrow> is_active s"
  by (cases s) (auto simp: moves_def)

lemma moves_from_inactive: "moves s s' \<Longrightarrow> is_active s"
  by (cases s) (auto simp: moves_def)

lemma terminal_final: "moves\<^sup>*\<^sup>* s s' \<Longrightarrow> \<not> is_active s \<Longrightarrow> s' = s"
  by (induction rule: rtranclp_induct) (auto dest: moves_from_inactive)

lemma run_inactive: "moves\<^sup>*\<^sup>* s s' \<Longrightarrow> is_active s' \<Longrightarrow> is_active s"
  using terminal_final by blast

section \<open>The invariant\<close>

definition clash :: "booking \<Rightarrow> booking \<Rightarrow> bool" where
  "clash b c \<longleftrightarrow> bk_branchId b = bk_branchId c \<and> bk_staffMemberId b = bk_staffMemberId c
     \<and> is_active (bk_status b) \<and> is_active (bk_status c)
     \<and> bk_startTime b < bk_endTime c \<and> bk_startTime c < bk_endTime b"

definition no_double_booking :: "booking list \<Rightarrow> bool" where
  "no_double_booking t \<longleftrightarrow> (\<forall>b \<in> set t. \<forall>c \<in> set t. bk_id b \<noteq> bk_id c \<longrightarrow> \<not> clash b c)"

definition row_ok :: "booking \<Rightarrow> bool" where
  "row_ok b \<longleftrightarrow> (bk_status b = HOLD \<longrightarrow> bk_holdExpiresAt b \<noteq> None)
     \<and> bk_startTime b < bk_endTime b
     \<and> 0 \<le> bk_discountAmount b \<and> bk_discountAmount b \<le> bk_priceSnapshot b
     \<and> 0 \<le> bk_depositRequired b \<and> bk_depositRequired b \<le> bk_priceSnapshot b - bk_discountAmount b"

definition bookings_ok :: "booking list \<Rightarrow> bool" where
  "bookings_ok t \<longleftrightarrow> unique_key bk_id t \<and> no_double_booking t \<and> list_all row_ok t"

text \<open>A reservation without the columns that change during its life.\<close>

definition snapshot :: "booking \<Rightarrow> (id list \<times> id option list) \<times> (money list \<times> policy) \<times> string option" where
  "snapshot b =
     (([bk_id b, bk_userId b, bk_businessId b, bk_branchId b, bk_serviceId b],
       [bk_staffMemberId b, bk_recurringGroupId b]),
      ([bk_priceSnapshot b, bk_discountAmount b, bk_depositRequired b], bk_cancellationPolicySnapshot b),
      bk_couponCode b)"

definition evolves :: "booking list \<Rightarrow> booking list \<Rightarrow> bool" where
  "evolves t t' \<longleftrightarrow> (\<forall>b \<in> set t. \<exists>b' \<in> set t'. snapshot b' = snapshot b
     \<and> moves\<^sup>*\<^sup>* (bk_status b) (bk_status b'))"

lemma evolves_refl [simp]: "evolves t t"
  by (auto simp: evolves_def)

lemma evolves_trans: "evolves t u \<Longrightarrow> evolves u v \<Longrightarrow> evolves t v"
  unfolding evolves_def by (metis rtranclp_trans)

lemma snapshot_id: "snapshot b = snapshot c \<Longrightarrow> bk_id b = bk_id c"
  by (simp add: snapshot_def)

lemma clash_sym: "clash b c = clash c b"
  by (auto simp: clash_def)

section \<open>Insertions and updates\<close>

lemma slot_free_no_clash:
  assumes "assertSlotFree (bk_branchId n) (bk_staffMemberId n) (bk_startTime n) (bk_endTime n) None d = Inr ()"
    "b \<in> set (bookings d)"
  shows "\<not> clash n b"
  using assms by (auto simp: assertSlotFree_def slot_clash_def clash_def find_None_iff split: option.splits)

lemma bookings_ok_insert:
  assumes "bookings_ok t" "row_ok n" "fresh_key bk_id (bk_id n) t" "\<And>b. b \<in> set t \<Longrightarrow> \<not> clash n b"
  shows "bookings_ok (insert_row n t)"
proof -
  have "no_double_booking (insert_row n t)"
    unfolding no_double_booking_def set_insert_row
  proof (intro ballI impI)
    fix b c assume "b \<in> insert n (set t)" "c \<in> insert n (set t)" "bk_id b \<noteq> bk_id c"
    moreover have "\<not> clash b n" if "b \<in> set t" for b
      using assms(4) [OF that] clash_sym by blast
    ultimately show "\<not> clash b c"
      using assms(1,4) by (auto simp: bookings_ok_def no_double_booking_def)
  qed
  then show ?thesis
    using assms unique_key_insert [of bk_id t n] by (simp add: bookings_ok_def list_all_iff)
qed

lemma evolves_insert: "evolves t (insert_row n t)"
  by (auto simp: evolves_def)

lemma evolves_update:
  assumes "\<And>b. snapshot (f b) = snapshot b" "\<And>b. bk_status (f b) = bk_status b"
  shows "evolves t (update_rows sel f t)"
  unfolding evolves_def
proof (intro ballI bexI conjI)
  fix b assume "b \<in> set t"
  then show "(if sel b then f b else b) \<in> set (update_rows sel f t)" by (rule in_update_rowsI)
qed (simp_all add: assms)

text \<open>An update that settles a row: the agreement and the interval stay, the status moves.\<close>

definition settles :: "booking \<Rightarrow> booking \<Rightarrow> bool" where
  "settles b b' \<longleftrightarrow> snapshot b' = snapshot b \<and> bk_startTime b' = bk_startTime b
     \<and> bk_endTime b' = bk_endTime b \<and> moves\<^sup>*\<^sup>* (bk_status b) (bk_status b')
     \<and> (bk_status b' = HOLD \<longrightarrow> bk_holdExpiresAt b' = bk_holdExpiresAt b)"

lemma run_hold: "moves\<^sup>*\<^sup>* s HOLD \<Longrightarrow> s = HOLD"
proof (erule rtranclp.cases)
  fix a b c assume "HOLD = c" "moves b c"
  then show ?thesis by (cases b) (auto simp: moves_def)
qed simp

lemma settles_refl [simp]: "settles b b"
  by (simp add: settles_def)

lemma settles_row_ok: "settles b b' \<Longrightarrow> row_ok b \<Longrightarrow> row_ok b'"
  using run_hold [of "bk_status b"] by (auto simp: settles_def row_ok_def snapshot_def)

lemma settles_clash: "settles b b' \<Longrightarrow> settles c c' \<Longrightarrow> clash b' c' \<Longrightarrow> clash b c"
  using run_inactive by (auto simp: settles_def snapshot_def clash_def)

lemma settles_id: "settles b b' \<Longrightarrow> bk_id b' = bk_id b"
  by (simp add: settles_def snapshot_def)

definition all_settle :: "booking list \<Rightarrow> booking list \<Rightarrow> bool" where
  "all_settle t t' \<longleftrightarrow> list_all2 settles t t'"

lemma all_settle_ids: "all_settle t t' \<Longrightarrow> map bk_id t' = map bk_id t"
  unfolding all_settle_def by (induction rule: list_all2_induct) (auto dest: settles_id)

lemma all_settle_in: "all_settle t t' \<Longrightarrow> b' \<in> set t' \<Longrightarrow> \<exists>b \<in> set t. settles b b'"
  unfolding all_settle_def by (induction rule: list_all2_induct) auto

lemma all_settle_out: "all_settle t t' \<Longrightarrow> b \<in> set t \<Longrightarrow> \<exists>b' \<in> set t'. settles b b'"
  unfolding all_settle_def by (induction rule: list_all2_induct) auto

lemma all_settle_ok:
  assumes "all_settle t t'" "bookings_ok t"
  shows "bookings_ok t'"
proof -
  have "\<not> clash b' c'" if "b' \<in> set t'" "c' \<in> set t'" "bk_id b' \<noteq> bk_id c'" for b' c'
  proof -
    obtain b c where "b \<in> set t" "settles b b'" "c \<in> set t" "settles c c'"
      using all_settle_in [OF assms(1), of b'] all_settle_in [OF assms(1), of c'] \<open>b' \<in> set t'\<close> \<open>c' \<in> set t'\<close>
      by blast
    with that assms(2) show ?thesis
      using settles_clash settles_id by (fastforce simp: bookings_ok_def no_double_booking_def)
  qed
  moreover have "row_ok b'" if "b' \<in> set t'" for b'
    using all_settle_in [OF assms(1) that] assms(2) settles_row_ok
    by (auto simp: bookings_ok_def list_all_iff)
  ultimately show ?thesis
    using assms all_settle_ids [OF assms(1)]
    by (simp add: bookings_ok_def unique_key_def no_double_booking_def list_all_iff)
qed

lemma all_settle_evolves: "all_settle t t' \<Longrightarrow> evolves t t'"
  using all_settle_out by (fastforce simp: evolves_def settles_def)

text \<open>Both guarantees for one operation.\<close>

definition booking_step :: "db \<Rightarrow> db \<Rightarrow> bool" where
  "booking_step d d' \<longleftrightarrow> bookings_ok (bookings d') \<and> evolves (bookings d) (bookings d')"

lemma booking_step_refl: "bookings_ok (bookings d) \<Longrightarrow> bookings d' = bookings d \<Longrightarrow> booking_step d d'"
  by (simp add: booking_step_def)

lemma booking_step_trans: "booking_step d e \<Longrightarrow> booking_step e f \<Longrightarrow> booking_step d f"
  using evolves_trans by (auto simp: booking_step_def)

lemma booking_step_cong: "booking_step d e \<Longrightarrow> bookings f = bookings e \<Longrightarrow> booking_step d f"
  by (simp add: booking_step_def)

lemma settle_rows:
  assumes "\<And>b. b \<in> set t \<Longrightarrow> sel b \<Longrightarrow> settles b (f b)"
  shows "all_settle t (update_rows sel f t)"
  using assms by (induction t) (auto simp: all_settle_def)

lemma settle_step:
  assumes "bookings_ok (bookings d)" "all_settle (bookings d) (bookings d')"
  shows "booking_step d d'"
  using assms all_settle_ok all_settle_evolves by (auto simp: booking_step_def)

lemma update_booking_step:
  assumes "bookings_ok (bookings d)" "b \<in> set (bookings d)" "settles b (f b)"
  shows "booking_step d (update_booking (bk_id b) f d)"
proof (rule settle_step [OF assms(1)])
  have "x = b" if "x \<in> set (bookings d)" "bk_id x = bk_id b" for x
    using unique_key_eq [of bk_id "bookings d" x b] that assms(1,2) by (simp add: bookings_ok_def)
  with assms(3) show "all_settle (bookings d) (bookings (update_booking (bk_id b) f d))"
    by (auto simp: update_booking_def intro!: settle_rows)
qed

text \<open>One allowed transition.\<close>

lemma settles_moves:
  assumes "moves (bk_status b) (bk_status b')" "snapshot b' = snapshot b"
    "bk_startTime b' = bk_startTime b" "bk_endTime b' = bk_endTime b"
  shows "settles b b'"
proof -
  have "bk_status b' \<noteq> HOLD" using assms(1) by (cases "bk_status b") (auto simp: moves_def)
  with assms show ?thesis by (simp add: settles_def r_into_rtranclp [of moves])
qed

section \<open>Confirming, cancelling, status changes\<close>

lemma addPoints_bookings [frame_simps]: "bookings (addPoints n t u p r f d) = bookings d"
  by (simp add: addPoints_def upsert_account_def Let_def split: option.splits prod.splits)

lemma award_bookings [frame_simps]: "bookings (awardPostPurchaseRewards ids t u a d) = bookings d"
  by (auto simp: awardPostPurchaseRewards_def rewardIfEligible_def earnFromPurchase_def Let_def
      frame_simps split: prod.splits option.splits)

lemma award_step [simp]:
  "booking_step d (awardPostPurchaseRewards ids t u a e) = booking_step d e"
  by (simp add: booking_step_def frame_simps)

lemma getOwnedBooking_Inr:
  "getOwnedBooking d k u = Inr b \<Longrightarrow> b \<in> set (bookings d) \<and> bk_id b = k \<and> bk_userId b = u"
  by (auto simp: getOwnedBooking_def dest: find_SomeD split: option.splits)

lemma find_business_booking_Some:
  "find_business_booking d k z = Some b \<Longrightarrow> b \<in> set (bookings d) \<and> bk_id b = k \<and> bk_businessId b = z"
  by (auto simp: find_business_booking_def dest: find_SomeD)

lemma confirm_step:
  assumes "bookings_ok (bookings d)"
  shows "booking_step d (snd (confirm ids now k u d))"
proof (cases "getOwnedBooking d k u")
  case (Inl e)
  with assms show ?thesis by (simp add: confirm_def booking_step_refl)
next
  case (Inr b)
  note b = getOwnedBooking_Inr [OF Inr]
  show ?thesis
    using assms b
    by (auto simp: confirm_def Inr Let_def snapshot_def moves_def booking_step_refl
        intro!: settles_moves update_booking_step)
qed

lemma confirm_each_step:
  "bookings_ok (bookings d) \<Longrightarrow> booking_step d (snd (confirm_each ids clock u bs d))"
proof (induction bs arbitrary: ids clock d)
  case (Cons b bs)
  note step = confirm_step [OF Cons.prems, of "ids 0" "clock 0" "bk_id b" u]
  obtain r d1 where c: "confirm (ids 0) (clock 0) (bk_id b) u d = (r, d1)" by (cases "confirm (ids 0) (clock 0) (bk_id b) u d")
  with step have "booking_step d d1" "bookings_ok (bookings d1)" by (simp_all add: booking_step_def)
  with Cons.IH [of d1 "\<lambda>i. ids (Suc i)" "\<lambda>i. clock (Suc i)"] c show ?case
    by (auto split: sum.splits prod.splits intro: booking_step_trans)
qed (simp add: booking_step_refl)

lemma confirmGroup_step:
  "bookings_ok (bookings d) \<Longrightarrow> booking_step d (snd (confirmGroup ids now g u d))"
  by (auto simp: confirmGroup_def Let_def confirm_each_step intro: booking_step_refl)

lemma cancelInternal_step:
  assumes "bookings_ok (bookings d)" "b \<in> set (bookings d)"
  shows "booking_step d (snd (cancelInternal now b r by_user d))"
  using assms
  by (auto simp: cancelInternal_def Let_def snapshot_def moves_def booking_step_refl
      intro!: settles_moves update_booking_step)

lemma cancelByUser_step:
  "bookings_ok (bookings d) \<Longrightarrow> booking_step d (snd (cancelByUser now k u r d))"
  by (auto simp: cancelByUser_def dest!: getOwnedBooking_Inr intro!: booking_step_refl
      cancelInternal_step split: sum.splits)

lemma cancelByBusiness_step:
  "bookings_ok (bookings d) \<Longrightarrow> booking_step d (snd (cancelByBusiness now z k r d))"
  by (auto simp: cancelByBusiness_def dest!: find_business_booking_Some intro!: booking_step_refl
      cancelInternal_step split: option.splits)

lemma updateStatus_step:
  assumes "bookings_ok (bookings d)"
  shows "booking_step d (snd (updateStatus now z k s d))"
proof (cases "find_business_booking d k z")
  case None
  with assms show ?thesis by (simp add: updateStatus_def booking_step_refl)
next
  case (Some b)
  note b = find_business_booking_Some [OF Some]
  have "settles b (b\<lparr>bk_status := s, bk_cancelledAt := x\<rparr>)"
    if "s \<in> set (ALLOWED_STATUS_TRANSITIONS (bk_status b))" for x
    using that by (auto simp: snapshot_def moves_def intro!: settles_moves)
  then show ?thesis
    using assms b update_booking_step [OF assms, of b]
    by (auto simp: updateStatus_def Some Let_def booking_step_refl)
qed

lemma release_step:
  "bookings_ok (bookings d) \<Longrightarrow> booking_step d (snd (releaseExpiredHolds now d))"
  by (rule settle_step)
    (auto simp: releaseExpiredHolds_def expired_hold_def snapshot_def moves_def
      intro!: settles_moves settle_rows)

section \<open>Prices and deposits\<close>

lemma round2_mono: "x \<le> y \<Longrightarrow> round2 x \<le> round2 y"
  by (simp add: round2_def math_round_mono divide_right_mono)

lemma round2_id: "two_decimals x \<Longrightarrow> round2 x = x"
  by (auto simp: round2_def two_decimals_iff)

lemma deposit_bounds:
  assumes "service_ok s" "0 \<le> x" "two_decimals x"
  shows "0 \<le> deposit_for s x" "deposit_for s x \<le> x"
proof -
  obtain p where p: "p = (case sv_depositPercent s of None \<Rightarrow> 0 | Some p \<Rightarrow> p)" "0 \<le> p" "p \<le> 100"
    using assms(1) by (auto simp: service_ok_def split: option.splits)
  then have "0 \<le> x * p / 100" "x * p / 100 \<le> x"
    using assms(2) mult_left_mono [of p 100 x] by auto
  then have "round2 0 \<le> round2 (x * p / 100)" "round2 (x * p / 100) \<le> round2 x"
    by (intro round2_mono, simp)+
  then show "0 \<le> deposit_for s x" "deposit_for s x \<le> x"
    using assms p(1) by (auto simp: deposit_for_def round2_id)
qed

lemma discount_two_decimals: "two_decimals amt \<Longrightarrow> two_decimals (discount_of c amt)"
  by (simp add: discount_of_def Let_def min_def)

text \<open>What the optional redemption contributes to a hold.\<close>

lemma redeem_for_hold_ok:
  assumes "redeem_for_hold now u dto s d = (Inr (k, x), d')" "coupons_ok d" "service_ok s"
  shows "0 \<le> x" "x \<le> sv_price s" "two_decimals x" "bookings d' = bookings d" "coupons_ok d'"
proof -
  have p: "0 \<le> sv_price s" "two_decimals (sv_price s)" using assms(3) by (simp_all add: service_ok_def)
  have all: "0 \<le> x \<and> x \<le> sv_price s \<and> two_decimals x \<and> bookings d' = bookings d \<and> coupons_ok d'"
  proof (cases "truthy (hb_couponCode dto)")
    case False
    with assms p show ?thesis by (simp add: redeem_for_hold_def)
  next
    case True
    then obtain c where r: "checkAndRedeem now (the (hb_couponCode dto)) u (Some (hb_businessId dto))
        (sv_price s) None d = (Inr (c, x), d')"
      using assms(1) by (auto simp: redeem_for_hold_def split: prod.splits sum.splits)
    have "two_decimals x"
      using redeem_ok(1) [OF r] p by (auto simp: check_ok_iff discount_two_decimals)
    with r assms(2) p show ?thesis
      using couponService.redeem_bounds couponService.redeem_bookings couponService.redeem_keeps
      by metis
  qed
  then show "0 \<le> x" "x \<le> sv_price s" "two_decimals x" "bookings d' = bookings d" "coupons_ok d'"
    by blast+
qed

section \<open>Holding\<close>

lemma context_ok:
  assumes "loadAndValidateContext d z br sid sm = Inr (b, r, s)" "services_ok d"
  shows "service_ok s" "s \<in> set (services d)" "sv_id s = sid" "sv_businessId s = z" "sv_isActive s"
    "b \<in> set (businesses d)" "biz_id b = z" "biz_status b = APPROVED"
    "r \<in> set (branches d)" "br_id r = br" "br_businessId r = z"
proof -
  have "s \<in> set (services d) \<and> sv_id s = sid \<and> sv_businessId s = z \<and> sv_isActive s
      \<and> b \<in> set (businesses d) \<and> biz_id b = z \<and> biz_status b = APPROVED
      \<and> r \<in> set (branches d) \<and> br_id r = br \<and> br_businessId r = z"
    using assms(1)
    by (auto simp: loadAndValidateContext_def find_service_def find_branch_def dest!: find_SomeD
        split: option.splits if_splits)
  then show "service_ok s" "s \<in> set (services d)" "sv_id s = sid" "sv_businessId s = z" "sv_isActive s"
    "b \<in> set (businesses d)" "biz_id b = z" "biz_status b = APPROVED"
    "r \<in> set (branches d)" "br_id r = br" "br_businessId r = z"
    using assms(2) by (auto simp: services_ok_def list_all_iff)
qed

lemma create_booking_bookings:
  "create_booking b d = (Inr x, d') \<Longrightarrow> x = b \<and> bookings d' = insert_row b (bookings d)"
  by (auto simp: create_booking_def split: option.splits if_splits)

lemma link_usage_bookings [frame_simps]: "bookings (link_usage k u b d) = bookings d"
  by (simp add: link_usage_def)

text \<open>A successful body of \<open>hold\<close>, and its parts.\<close>

lemma hold_body_Inr:
  assumes "hold_body now n u dto z s d = (Inr b, d')"
  obtains k x d1 where "redeem_for_hold now u dto s d = (Inr (k, x), d1)"
    "b = hold_row now n u dto z s x" "bookings d' = insert_row b (bookings d1)"
    "assertSlotFree (bk_branchId b) (bk_staffMemberId b) (bk_startTime b) (bk_endTime b) None d = Inr ()"
  using assms that
  by (auto simp: hold_body_def hold_row_def frame_simps split: sum.splits prod.splits
      dest!: create_booking_bookings)

lemma hold_row_ok:
  assumes "service_ok s" "0 \<le> x" "x \<le> sv_price s" "two_decimals x"
  shows "row_ok (hold_row now n u dto z s x)"
proof -
  have "two_decimals (sv_price s - x)"
    using assms by (simp add: service_ok_def two_decimals_diff)
  then show ?thesis
    using assms deposit_bounds [of s "sv_price s - x"]
    by (simp add: row_ok_def hold_row_def service_ok_def)
qed

lemma hold_body_step:
  assumes "hold_body now n u dto z s d = (Inr b, d')" "bookings_ok (bookings d)" "coupons_ok d"
    "service_ok s" "fresh_key bk_id n (bookings d)"
  shows "booking_step d d'"
proof -
  obtain k x d1 where h: "redeem_for_hold now u dto s d = (Inr (k, x), d1)"
    "b = hold_row now n u dto z s x" "bookings d' = insert_row b (bookings d1)"
    "assertSlotFree (bk_branchId b) (bk_staffMemberId b) (bk_startTime b) (bk_endTime b) None d = Inr ()"
    using hold_body_Inr [OF assms(1)] .
  note r = redeem_for_hold_ok [OF h(1) assms(3,4)]
  have "bk_id b = n" by (simp add: h(2) hold_row_def)
  moreover have "row_ok b" using hold_row_ok [OF assms(4) r(1,2,3)] h(2) by simp
  ultimately have "bookings_ok (insert_row b (bookings d))"
    using assms slot_free_no_clash [OF h(4)] by (intro bookings_ok_insert) auto
  then show ?thesis
    using evolves_insert by (simp add: booking_step_def h(3) r(4))
qed

lemma busy_as_conflict_snd [simp]: "snd (busy_as_conflict res) = snd res"
  by (auto simp: busy_as_conflict_def split: prod.splits sum.splits error.splits)

lemma busy_as_conflict_Inr: "fst (busy_as_conflict res) = Inr x \<longleftrightarrow> fst res = Inr x"
  by (auto simp: busy_as_conflict_def split: prod.splits sum.splits error.splits)

text \<open>Whatever the lock server does, the database is either untouched or what the body left.\<close>

lemma withLock_db:
  "fst (snd (withLock R t l tok k ttl fn st)) \<in> {fst st, snd (fn (fst st))}"
  by (auto simp: withLock_def split: prod.splits option.splits)

lemma withLock_Inr:
  assumes "fst (withLock R t l tok k ttl fn st) = Inr x"
  shows "fn (fst st) = (Inr x, fst (snd (withLock R t l tok k ttl fn st)))"
  using assms by (auto simp: withLock_def split: prod.splits option.splits)

lemma locked_transaction_step:
  assumes "bookings_ok (bookings d)"
    and "\<And>x d'. body d = (Inr x, d') \<Longrightarrow> booking_step d d'"
  shows "booking_step d (fst (snd (busy_as_conflict (withLock R t l tok k ttl (transaction body) (d, r)))))"
  using withLock_db [of R t l tok k ttl "transaction body" "(d, r)"] assms
    booking_step_refl [of d d] transaction_preserves [of "booking_step d" d body]
  by auto

lemma hold_step:
  assumes "bookings_ok (bookings d)" "coupons_ok d" "services_ok d" "fresh_key bk_id n (bookings d)"
  shows "booking_step d (fst (snd (hold R now later tok n u dto (d, r))))"
proof (cases "loadAndValidateContext d (hb_businessId dto) (hb_branchId dto) (hb_serviceId dto)
    (hb_staffMemberId dto)")
  case (Inl e)
  with assms show ?thesis by (simp add: hold_def booking_step_refl)
next
  case (Inr c)
  obtain z b s where c: "c = (z, b, s)" by (cases c)
  have "service_ok s" using context_ok(1) Inr c assms(3) by metis
  then have "booking_step d d'" if "hold_body now n u dto z s d = (Inr x, d')" for x d'
    using hold_body_step [OF that assms(1,2) _ assms(4)] by simp
  from locked_transaction_step [OF assms(1) this] show ?thesis
    by (simp add: hold_def Inr c)
qed

section \<open>Rescheduling\<close>

lemma reschedule_body_step:
  assumes "reschedule_body b s e d = (Inr x, d')" "bookings_ok (bookings d)" "b \<in> set (bookings d)"
    "is_active (bk_status b)" "bk_id b \<noteq> []" "s < e"
  shows "booking_step d d'"
proof -
  let ?f = "\<lambda>b. b\<lparr>bk_startTime := s, bk_endTime := e\<rparr>"
  let ?t = "update_rows (\<lambda>c. bk_id c = bk_id b) ?f (bookings d)"
  have d': "bookings d' = ?t"
    and free: "List.find (slot_clash (bk_branchId b) (bk_staffMemberId b) s e (Some (bk_id b))) (bookings d) = None"
    using assms(1)
    by (auto simp: reschedule_body_def assertSlotFree_def Let_def update_booking_def split: option.splits sum.splits)
  have same: "c = b" if "c \<in> set (bookings d)" "bk_id c = bk_id b" for c
    using unique_key_eq [of bk_id "bookings d" c b] that assms(2,3) by (simp add: bookings_ok_def)
  have no: "\<not> clash (?f b) c" if "c \<in> set (bookings d)" "bk_id c \<noteq> bk_id b" for c
    using find_NoneD [OF free that(1)] that(2) assms(5) by (auto simp: slot_clash_def clash_def)
  then have no': "\<not> clash c (?f b)" if "c \<in> set (bookings d)" "bk_id c \<noteq> bk_id b" for c
    using that clash_sym by blast
  have "\<not> clash x y" if "x \<in> set ?t" "y \<in> set ?t" "bk_id x \<noteq> bk_id y" for x y
  proof -
    obtain p q where p: "p \<in> set (bookings d)" "x = (if bk_id p = bk_id b then ?f p else p)"
      and q: "q \<in> set (bookings d)" "y = (if bk_id q = bk_id b then ?f q else q)"
      using \<open>x \<in> set ?t\<close> \<open>y \<in> set ?t\<close> by (auto elim!: in_update_rowsE)
    have "bk_id x = bk_id p" "bk_id y = bk_id q" by (simp_all add: p(2) q(2))
    with p q \<open>bk_id x \<noteq> bk_id y\<close> same [OF p(1)] same [OF q(1)] no [OF q(1)] no' [OF p(1)] assms(2)
    show ?thesis by (auto simp: bookings_ok_def no_double_booking_def)
  qed
  moreover have "row_ok x" if "x \<in> set ?t" for x
    using that assms(2,6) by (auto simp: bookings_ok_def list_all_iff row_ok_def elim!: in_update_rowsE split: if_splits)
  moreover have "unique_key bk_id ?t"
    using assms(2) by (intro unique_key_update) (auto simp: bookings_ok_def)
  ultimately have "bookings_ok ?t" by (simp add: bookings_ok_def no_double_booking_def list_all_iff)
  moreover have "evolves (bookings d) ?t"
    by (rule evolves_update) (simp_all add: snapshot_def)
  ultimately show ?thesis by (simp add: booking_step_def d')
qed

lemma reschedule_step:
  assumes "reschedule R now later tok k u s (d, r) = Some res"
    "bookings_ok (bookings d)" "services_ok d" "k \<noteq> []"
  shows "booking_step d (fst (snd res))"
proof (cases "fst (snd res) = d")
  case True
  with assms(2) show ?thesis by (simp add: booking_step_refl)
next
  case False
  then obtain b v where b: "getOwnedBooking d k u = Inr b" "is_active (bk_status b)"
    "List.find (\<lambda>v. sv_id v = bk_serviceId b) (services d) = Some v"
    and res: "res = busy_as_conflict (withLock R now later tok
      (lockKey (bk_branchId b) (bk_staffMemberId b) s) default_ttlMs
      (transaction (reschedule_body b s (s + sv_durationMinutes v * 60000))) (d, r))"
    using assms(1)
    by (auto simp: reschedule_def split: sum.splits option.splits if_splits)
  have "service_ok v" using b(3) assms(3) by (auto simp: services_ok_def list_all_iff dest!: find_SomeD)
  then have "s < s + sv_durationMinutes v * 60000" by (simp add: service_ok_def)
  then have "booking_step d d'"
    if "reschedule_body b s (s + sv_durationMinutes v * 60000) d = (Inr x, d')" for x d'
    using reschedule_body_step [OF that assms(2)] getOwnedBooking_Inr [OF b(1)] b(2) assms(4) by simp
  from locked_transaction_step [OF assms(2) this] show ?thesis
    unfolding res by simp
qed

section \<open>Recurring reservations\<close>

lemma create_occurrences_step:
  assumes "create_occurrences bs d = (Inr xs, d')" "bookings_ok (bookings d)"
    "list_all row_ok bs" "distinct (map bk_id bs)" "\<And>b. b \<in> set bs \<Longrightarrow> fresh_key bk_id (bk_id b) (bookings d)"
  shows "booking_step d d' \<and> xs = bs \<and> bookings d' = bookings d @ bs"
  using assms
proof (induction bs arbitrary: d xs)
  case Nil
  then show ?case by (simp add: booking_step_refl)
next
  case (Cons b bs)
  from Cons.prems(1) obtain d1 ys where
    free: "assertSlotFree (bk_branchId b) (bk_staffMemberId b) (bk_startTime b) (bk_endTime b) None d = Inr ()"
    and c: "create_booking b d = (Inr b, d1)" and rest: "create_occurrences bs d1 = (Inr ys, d')"
    and xs: "xs = b # ys"
    by (auto split: sum.splits prod.splits dest: create_booking_bookings)
  have d1: "bookings d1 = insert_row b (bookings d)" using create_booking_bookings [OF c] by simp
  have ok: "bookings_ok (bookings d1)"
    using Cons.prems slot_free_no_clash [OF free] unfolding d1 by (intro bookings_ok_insert) auto
  have "booking_step d d1" using ok evolves_insert by (simp add: booking_step_def d1)
  moreover have "booking_step d1 d' \<and> ys = bs \<and> bookings d' = bookings d1 @ bs"
    using Cons.prems(3-5) by (intro Cons.IH [OF rest ok]) (auto simp: d1 fresh_key_insert rev_image_eqI)
  ultimately show ?case
    using booking_step_trans by (auto simp: xs d1 insert_row_def)
qed

lemma recurring_row_ok:
  assumes "service_ok s"
  shows "row_ok (recurring_row now n g u dto z s (occurrence dto s i))"
  using assms deposit_bounds [of s "sv_price s"]
  by (simp add: row_ok_def recurring_row_def occurrence_def Let_def service_ok_def)

lemma bk_id_recurring_row [simp]: "bk_id (recurring_row now n g u dto z s occ) = n"
  by (simp add: recurring_row_def)

lemma createRecurring_step:
  assumes "bookings_ok (bookings d)" "services_ok d" "inj ids" "\<And>i. fresh_key bk_id (ids i) (bookings d)"
  shows "booking_step d (snd (createRecurring now ids g u dto d))"
proof (cases "loadAndValidateContext d (rb_businessId dto) (rb_branchId dto) (rb_serviceId dto)
    (rb_staffMemberId dto)")
  case (Inl e)
  with assms show ?thesis by (simp add: createRecurring_def booking_step_refl)
next
  case (Inr c)
  obtain z b s where c: "c = (z, b, s)" by (cases c)
  let ?rows = "map (\<lambda>i. recurring_row now (ids i) g u dto z s (occurrence dto s i)) [0..<rb_occurrences dto]"
  have "service_ok s" using context_ok(1) Inr c assms(2) by metis
  then have rows: "list_all row_ok ?rows" "distinct (map bk_id ?rows)"
    "\<And>b. b \<in> set ?rows \<Longrightarrow> fresh_key bk_id (bk_id b) (bookings d)"
    using assms(3,4) recurring_row_ok
    by (auto simp: list_all_iff recurring_row_ok bk_id_recurring_row comp_def distinct_map
        intro: inj_on_subset)
  obtain res d1 where t: "transaction (create_occurrences ?rows) d = (res, d1)"
    by (cases "transaction (create_occurrences ?rows) d")
  have "booking_step d (snd (transaction (create_occurrences ?rows) d))"
  proof (rule transaction_preserves [of "booking_step d"])
    show "booking_step d d" using assms(1) by (simp add: booking_step_refl)
    fix xs d' assume "create_occurrences ?rows d = (Inr xs, d')"
    from create_occurrences_step [OF this assms(1) rows] show "booking_step d d'" by blast
  qed
  then show ?thesis
    by (simp add: createRecurring_def Inr c t split: sum.split error.split)
qed

section \<open>The search for free slots ends\<close>

lemma service_duration:
  "find_service d sid z = Some s \<Longrightarrow> services_ok d \<Longrightarrow> 0 < sv_durationMinutes s"
  by (auto simp: find_service_def services_ok_def list_all_iff service_ok_def dest!: find_SomeD)

lemma getFreeSlots_total:
  assumes "services_ok d"
  shows "\<exists>res. getFreeSlots now z dto d = Some res"
proof (cases "find_service d (ca_serviceId dto) z")
  case None
  then show ?thesis by (simp add: getFreeSlots_def)
next
  case (Some s)
  note dur = service_duration [OF Some assms]
  have "\<exists>cs. staff_slots d now br (sv_durationMinutes s) date st = Some cs" for br date st
    using staff_slots_returns [OF dur] by metis
  moreover have "slots_ok []" by (simp add: slots_ok_def unique_key_def)
  ultimately have "\<exists>m. collect_slots (staff_slots d now br (sv_durationMinutes s) date) (sv_durationMinutes s) cands [] = Some m"
    for br date cands
    using collect_slots_returns [of cands "staff_slots d now br (sv_durationMinutes s) date" "[]" "sv_durationMinutes s"]
    by blast
  then show ?thesis
    by (auto simp: getFreeSlots_def Some Let_def split: option.splits sum.splits)
qed

lemma reschedule_total:
  assumes "services_ok d"
  shows "\<exists>res. reschedule R now later tok k u newStart (d, r) = Some res"
proof -
  have "\<exists>res. getFreeSlots now z dto d = Some res" for z dto using getFreeSlots_total [OF assms] .
  then obtain fs where fs: "\<And>z dto. getFreeSlots now z dto d = Some (fs z dto)" by metis
  show ?thesis
    by (simp add: reschedule_def fs del: split_paired_Ex split: sum.split option.split)
qed

end
