(* ===== verification/Payment.thy ===== *)
theory Payment
  imports Wallet BookingInv
begin

text \<open>
  \<open>modules/payment/payment.service.ts\<close>: paying the deposit of a reservation from the wallet
  or through the gateway, the gateway's callback, and refunds. \<open>payments_ok\<close> ties payments
  and wallet movements together: a payment is credited by at most one top-up, only once it
  succeeded, and by exactly one refund movement when it is refunded.
\<close>

section \<open>Requests and answers\<close>

datatype PayMethod = Via_gateway | Via_wallet

record InitiatePaymentDto =
  ip_bookingId :: id
  ip_method :: PayMethod

datatype InitiateResult = PaidFromWallet payment | PaymentUrl string

record CallbackResult =
  alreadyProcessed :: bool
  cb_status :: PaymentStatus

section \<open>Paying\<close>

definition deposit_payment :: "time \<Rightarrow> id \<Rightarrow> id \<Rightarrow> id \<Rightarrow> money \<Rightarrow> payment" where
  "deposit_payment now newId bookingId userId amount =
     \<lparr>pay_id = newId, pay_bookingId = Some bookingId, pay_userId = userId, pay_type = DEPOSIT,
      pay_status = SUCCESS, pay_amount = amount, pay_gateway = ''wallet'', pay_gatewayRefId = None,
      pay_callbackVerifiedAt = Some now, pay_failureReason = None, pay_createdAt = now\<rparr>"

text \<open>
  \<open>booking.update({ data: { status: 'CONFIRMED' } })\<close> and the rewards that follow it; the
  reservation is read from the table as the update returns it.
\<close>

definition confirm_and_award :: "award_ids \<Rightarrow> time \<Rightarrow> id \<Rightarrow> booking \<Rightarrow> db \<Rightarrow> db" where
  "confirm_and_award ids now userId booking d =
     awardPostPurchaseRewards ids now userId (bk_priceSnapshot booking - bk_discountAmount booking)
       (update_booking (bk_id booking) (\<lambda>b. b\<lparr>bk_status := CONFIRMED\<rparr>) d)"

definition payFromWallet_body :: "award_ids \<Rightarrow> time \<Rightarrow> id \<Rightarrow> id \<Rightarrow> id \<Rightarrow> money \<Rightarrow> db \<Rightarrow> payment result \<times> db" where
  "payFromWallet_body ids now newId userId bookingId amount d =
     (case find_wallet d userId of
        None \<Rightarrow> (Inl (BadRequest WalletTooLow), d)
      | Some wallet \<Rightarrow>
          if wal_balance wallet < amount then (Inl (BadRequest WalletTooLow), d)
          else
            (let d1 = post_wallet_tx now wallet Tx_PAYMENT (- amount) bookingId d;
                 payment = deposit_payment now newId bookingId userId amount;
                 d2 = d1\<lparr>payments := insert_row payment (payments d1)\<rparr>
             in case List.find (\<lambda>b. bk_id b = bookingId) (bookings d2) of
                  None \<Rightarrow> (Inl RecordNotFound, d2)
                | Some booking \<Rightarrow> (Inr payment, confirm_and_award ids now userId booking d2)))"

definition payFromWallet :: "award_ids \<Rightarrow> time \<Rightarrow> id \<Rightarrow> id \<Rightarrow> id \<Rightarrow> money \<Rightarrow> db \<Rightarrow> payment result \<times> db" where
  "payFromWallet ids now newId userId bookingId amount =
     transaction (payFromWallet_body ids now newId userId bookingId amount)"

definition payFromGateway :: "'g gateway \<Rightarrow> string \<Rightarrow> string \<Rightarrow> time \<Rightarrow> id \<Rightarrow> id \<Rightarrow> id \<Rightarrow> money \<Rightarrow> db \<times> 'g
    \<Rightarrow> string \<times> (db \<times> 'g)" where
  "payFromGateway G publicUrl uuid now newId userId bookingId amount st =
     open_session G publicUrl uuid (''deposit of booking '' @ bookingId)
       (initiated_payment now newId (Some bookingId) userId DEPOSIT amount) st"

definition initiate :: "'g gateway \<Rightarrow> string \<Rightarrow> string \<Rightarrow> award_ids \<Rightarrow> time \<Rightarrow> id \<Rightarrow> id \<Rightarrow> InitiatePaymentDto
    \<Rightarrow> db \<times> 'g \<Rightarrow> InitiateResult result \<times> (db \<times> 'g)" where
  "initiate G publicUrl uuid ids now newId userId dto st =
     (case List.find (\<lambda>b. bk_id b = ip_bookingId dto \<and> bk_userId b = userId) (bookings (fst st)) of
        None \<Rightarrow> (Inl (NotFound BookingNotFound), st)
      | Some booking \<Rightarrow>
          if bk_status booking \<noteq> PENDING then (Inl (BadRequest NotAwaitingPayment), st)
          else if bk_depositRequired booking \<le> 0 then (Inl (BadRequest NothingToPay), st)
          else (case ip_method dto of
             Via_wallet \<Rightarrow>
               (case payFromWallet ids now newId userId (bk_id booking) (bk_depositRequired booking) (fst st) of
                  (Inl e, d') \<Rightarrow> (Inl e, (d', snd st))
                | (Inr payment, d') \<Rightarrow> (Inr (PaidFromWallet payment), (d', snd st)))
           | Via_gateway \<Rightarrow>
               (case payFromGateway G publicUrl uuid now newId userId (bk_id booking)
                       (bk_depositRequired booking) st of
                  (url, st') \<Rightarrow> (Inr (PaymentUrl url), st'))))"

section \<open>The callback\<close>

text \<open>An absent query parameter is an \<open>undefined\<close> filter, which Prisma ignores.\<close>

definition callback_payment :: "string \<Rightarrow> string option \<Rightarrow> db \<Rightarrow> payment option" where
  "callback_payment gatewayName gatewayRefId d =
     List.find (\<lambda>p. (gatewayRefId = None \<or> pay_gatewayRefId p = gatewayRefId) \<and> pay_gateway p = gatewayName)
       (payments d)"

definition apply_success :: "award_ids \<Rightarrow> time \<Rightarrow> payment \<Rightarrow> db \<Rightarrow> db" where
  "apply_success ids now payment d =
     (let d1 = update_payment (pay_id payment)
                 (\<lambda>p. p\<lparr>pay_status := SUCCESS, pay_callbackVerifiedAt := Some now\<rparr>) d
      in if pay_type payment = WALLET_TOPUP then
           (case find_wallet d1 (pay_userId payment) of
              None \<Rightarrow> d1
            | Some wallet \<Rightarrow> post_wallet_tx now wallet Tx_TOPUP (pay_amount payment) (pay_id payment) d1)
         else if truthy (pay_bookingId payment) then
           (case List.find (\<lambda>b. bk_id b = the (pay_bookingId payment)) (bookings d1) of
              None \<Rightarrow> d1
            | Some booking \<Rightarrow>
                if bk_status booking = PENDING
                then confirm_and_award ids now (pay_userId payment) booking d1 else d1)
         else d1)"

definition handleCallback :: "'g gateway \<Rightarrow> string \<Rightarrow> award_ids \<Rightarrow> time \<Rightarrow> string \<Rightarrow> string option \<Rightarrow> db \<times> 'g
    \<Rightarrow> CallbackResult result \<times> (db \<times> 'g)" where
  "handleCallback G uuid ids now gatewayName gatewayRefId st =
     (case callback_payment gatewayName gatewayRefId (fst st) of
        None \<Rightarrow> (Inl (NotFound TransactionNotFound), st)
      | Some payment \<Rightarrow>
          if pay_status payment \<noteq> INITIATED
          then (Inr \<lparr>alreadyProcessed = True, cb_status = pay_status payment\<rparr>, st)
          else (case verify G uuid gatewayRefId (pay_amount payment) (snd st) of
             (verification, g') \<Rightarrow>
               if \<not> verified verification
               then (Inr \<lparr>alreadyProcessed = False, cb_status = FAILED\<rparr>,
                     (update_payment (pay_id payment)
                        (\<lambda>p. p\<lparr>pay_status := FAILED, pay_failureReason :=
                            (case failureReason verification of
                               None \<Rightarrow> pay_failureReason p | Some r \<Rightarrow> Some r)\<rparr>) (fst st), g'))
               else (Inr \<lparr>alreadyProcessed = False, cb_status = SUCCESS\<rparr>,
                     (apply_success ids now payment (fst st), g'))))"

section \<open>Refunds\<close>

definition refund :: "time \<Rightarrow> id \<Rightarrow> id \<Rightarrow> id \<Rightarrow> string \<Rightarrow> db \<Rightarrow> unit result \<times> db" where
  "refund now newWalletId paymentId adminId reason d =
     (case List.find (\<lambda>p. pay_id p = paymentId) (payments d) of
        None \<Rightarrow> (Inl (NotFound TransactionNotFound), d)
      | Some payment \<Rightarrow>
          if pay_status payment \<noteq> SUCCESS then (Inl (BadRequest NotRefundable), d)
          else
            (case upsert_wallet newWalletId (pay_userId payment)
                    (update_payment paymentId (\<lambda>p. p\<lparr>pay_status := REFUNDED\<rparr>) d) of
               (wallet, d2) \<Rightarrow>
                 (let d3 = post_wallet_tx now wallet Tx_REFUND (pay_amount payment) (pay_id payment) d2
                  in (Inr (), d3\<lparr>audit_logs := insert_row
                        \<lparr>al_actorId = Some adminId, al_action = ''PAYMENT_REFUNDED'',
                         al_entityType = ''Payment'', al_entityId = paymentId,
                         al_metadata = [(''amount'', JNum (pay_amount payment)), (''reason'', JStr reason)]\<rparr>
                        (audit_logs d3)\<rparr>))))"

end
