(* ===== verification/PaymentInv.thy ===== *)
theory PaymentInv
  imports Payment
begin

text \<open>
  What every operation of the payment and wallet services keeps: the wallet ledger
  (\<open>wallets_ok\<close>), the tie between payments and wallet movements (\<open>payments_ok\<close>), and the
  guarantees about reservations (\<open>booking_step\<close>).
\<close>

section \<open>Payments and movements\<close>

text \<open>The number of movements of a type that a payment has caused.\<close>

definition credits :: "db \<Rightarrow> WalletTxType \<Rightarrow> id \<Rightarrow> nat" where
  "credits d ty k = length (filter (\<lambda>x. wtx_type x = ty \<and> wtx_referenceId x = Some k) (wallet_txs d))"

definition payment_ok :: "db \<Rightarrow> payment \<Rightarrow> bool" where
  "payment_ok d p \<longleftrightarrow> 0 < pay_amount p
     \<and> credits d Tx_TOPUP (pay_id p)
         \<le> (if pay_type p = WALLET_TOPUP \<and> pay_status p \<in> {SUCCESS, REFUNDED} then 1 else 0)
     \<and> credits d Tx_REFUND (pay_id p) = (if pay_status p = REFUNDED then 1 else 0)"

definition backed :: "db \<Rightarrow> wallet_tx \<Rightarrow> bool" where
  "backed d x \<longleftrightarrow> (wtx_type x \<in> {Tx_TOPUP, Tx_REFUND} \<longrightarrow>
     (\<exists>p \<in> set (payments d). wtx_referenceId x = Some (pay_id p) \<and> wtx_amount x = pay_amount p))"

definition payments_ok :: "db \<Rightarrow> bool" where
  "payments_ok d \<longleftrightarrow> unique_key pay_id (payments d) \<and> list_all (payment_ok d) (payments d)
     \<and> list_all (backed d) (wallet_txs d)"

lemma payments_ok_cong:
  assumes "payments d = payments e" "wallet_txs d = wallet_txs e"
  shows "payments_ok d = payments_ok e"
proof -
  have "payment_ok d = payment_ok e" "backed d = backed e"
    using assms by (simp_all add: payment_ok_def backed_def credits_def fun_eq_iff)
  with assms show ?thesis by (simp add: payments_ok_def)
qed

lemma credits_post [simp]:
  "credits (post_wallet_tx now w ty m r d) ty' k = credits d ty' k + (if ty' = ty \<and> r = k then 1 else 0)"
  by (auto simp: credits_def post_wallet_tx_def Let_def insert_row_def)

lemma credits_cong: "wallet_txs d = wallet_txs e \<Longrightarrow> credits d = credits e"
  by (simp add: credits_def fun_eq_iff)

lemma no_credits:
  assumes "payments_ok d" "fresh_key pay_id k (payments d)" "ty \<in> {Tx_TOPUP, Tx_REFUND}"
  shows "credits d ty k = 0"
proof -
  have "\<not> (wtx_type x = ty \<and> wtx_referenceId x = Some k)" if "x \<in> set (wallet_txs d)" for x
  proof -
    have "backed d x" using that assms(1) by (simp add: payments_ok_def list_all_iff)
    then show ?thesis using assms(2,3) by (auto simp: backed_def dest: fresh_keyD)
  qed
  then show ?thesis by (simp add: credits_def filter_empty_conv)
qed

lemma payments_ok_insert:
  assumes "payments_ok d" "fresh_key pay_id (pay_id p) (payments d)" "0 < pay_amount p"
    "pay_status p \<noteq> REFUNDED" "payments e = insert_row p (payments d)" "wallet_txs e = wallet_txs d"
  shows "payments_ok e"
proof -
  have "payment_ok e q" if "q \<in> set (payments e)" for q
    using that assms no_credits [OF assms(1,2)] credits_cong [OF assms(6)]
    by (auto simp: payment_ok_def payments_ok_def list_all_iff)
  moreover have "backed e x" if "x \<in> set (wallet_txs d)" for x
    using that assms by (auto simp: payments_ok_def list_all_iff backed_def)
  ultimately show ?thesis
    using assms by (auto simp: payments_ok_def list_all_iff intro!: unique_key_insert)
qed

text \<open>One payment changes its status, perhaps with a movement of its own.\<close>

lemma payments_ok_update:
  assumes ok: "payments_ok d" and p: "p \<in> set (payments d)"
    and f: "\<And>q. pay_id (f q) = pay_id q" "\<And>q. pay_amount (f q) = pay_amount q"
    and e: "payments e = update_rows (\<lambda>q. pay_id q = pay_id p) f (payments d)"
    and others: "\<And>ty k. k \<noteq> pay_id p \<Longrightarrow> credits e ty k = credits d ty k"
    and new: "payment_ok e (f p)"
    and txs: "\<And>x. x \<in> set (wallet_txs e) \<Longrightarrow> x \<in> set (wallet_txs d)
      \<or> wtx_referenceId x = Some (pay_id p) \<and> wtx_amount x = pay_amount p"
  shows "payments_ok e"
proof -
  have u: "unique_key pay_id (payments d)" using ok by (simp add: payments_ok_def)
  have "payment_ok e q" if "q \<in> set (payments e)" for q
  proof -
    from that obtain r where r: "r \<in> set (payments d)" "q = (if pay_id r = pay_id p then f r else r)"
      unfolding e by (rule in_update_rowsE)
    show ?thesis
    proof (cases "pay_id r = pay_id p")
      case True
      then have "r = p" using unique_key_eq [OF u r(1) p] by simp
      with r new show ?thesis by simp
    next
      case False
      then show ?thesis using r ok others [OF False] by (simp add: payments_ok_def list_all_iff payment_ok_def)
    qed
  qed
  moreover have same: "\<exists>p \<in> set (payments e). i = pay_id p \<and> a = pay_amount p"
    if "q \<in> set (payments d)" "i = pay_id q" "a = pay_amount q" for q i a
    using that f by (auto simp: e bex_update_rows intro!: bexI [of _ q])
  have "backed e x" if "x \<in> set (wallet_txs e)" for x
    using txs [OF that]
  proof
    assume "x \<in> set (wallet_txs d)"
    then have "backed d x" using ok by (simp add: payments_ok_def list_all_iff)
    then show ?thesis using same by (fastforce simp: backed_def)
  next
    assume "wtx_referenceId x = Some (pay_id p) \<and> wtx_amount x = pay_amount p"
    with same [OF p] show ?thesis by (simp add: backed_def)
  qed
  moreover have "unique_key pay_id (payments e)"
    unfolding e using u f by (intro unique_key_update) auto
  ultimately show ?thesis by (simp add: payments_ok_def list_all_iff)
qed

lemma payments_ok_payment_tx:
  assumes "payments_ok d"
  shows "payments_ok (post_wallet_tx now w Tx_PAYMENT m r d)"
proof -
  let ?d = "post_wallet_tx now w Tx_PAYMENT m r d"
  have "payments ?d = payments d" by (simp add: post_wallet_tx_def Let_def)
  moreover from this have "payment_ok ?d = payment_ok d" "backed ?d = backed d"
    by (simp_all add: payment_ok_def backed_def fun_eq_iff)
  ultimately show ?thesis
    using assms by (auto simp: payments_ok_def list_all_iff post_wallet_tx_def Let_def backed_def)
qed

section \<open>Frames\<close>

lemma post_frame [frame_simps]:
  "payments (post_wallet_tx now w ty m r d) = payments d"
  "bookings (post_wallet_tx now w ty m r d) = bookings d"
  "loyalty_accounts (post_wallet_tx now w ty m r d) = loyalty_accounts d"
  "loyalty_txs (post_wallet_tx now w ty m r d) = loyalty_txs d"
  "referrals (post_wallet_tx now w ty m r d) = referrals d"
  by (simp_all add: post_wallet_tx_def Let_def)

lemma addPoints_wallets [frame_simps]:
  "wallets (addPoints n t u p r f d) = wallets d"
  "wallet_txs (addPoints n t u p r f d) = wallet_txs d"
  "payments (addPoints n t u p r f d) = payments d"
  by (simp_all add: addPoints_def upsert_account_def Let_def split: option.splits prod.splits)

lemma award_frame [frame_simps]:
  "wallets (awardPostPurchaseRewards ids t u a d) = wallets d"
  "wallet_txs (awardPostPurchaseRewards ids t u a d) = wallet_txs d"
  "payments (awardPostPurchaseRewards ids t u a d) = payments d"
  by (simp_all add: awardPostPurchaseRewards_def rewardIfEligible_def earnFromPurchase_def Let_def
      frame_simps split: prod.splits option.splits)

lemma update_booking_frame [frame_simps]:
  "wallets (update_booking k f d) = wallets d"
  "wallet_txs (update_booking k f d) = wallet_txs d"
  "payments (update_booking k f d) = payments d"
  by (simp_all add: update_booking_def)

lemma confirm_and_award_frame [frame_simps]:
  "wallets (confirm_and_award ids now u b d) = wallets d"
  "wallet_txs (confirm_and_award ids now u b d) = wallet_txs d"
  "payments (confirm_and_award ids now u b d) = payments d"
  by (simp_all add: confirm_and_award_def frame_simps)

lemma update_payment_frame [frame_simps]:
  "wallets (update_payment k f d) = wallets d"
  "wallet_txs (update_payment k f d) = wallet_txs d"
  "bookings (update_payment k f d) = bookings d"
  by (simp_all add: update_payment_def)

lemma credits_update_payment [simp]: "credits (update_payment k f d) = credits d"
  by (rule credits_cong) (simp add: frame_simps)

lemma confirm_and_award_step:
  assumes "bookings_ok (bookings d)" "b \<in> set (bookings d)" "bk_status b = PENDING"
  shows "booking_step d (confirm_and_award ids now u b d)"
  unfolding confirm_and_award_def award_step
  using assms
  by (intro update_booking_step settles_moves) (simp_all add: moves_def snapshot_def)

section \<open>Paying a deposit\<close>

lemma payFromWallet_cases:
  assumes "payFromWallet ids now n u k amt d = (r, d')"
  obtains (refused) e where "r = Inl e" "d' = d"
  | (paid) w b where "find_wallet d u = Some w" "amt \<le> wal_balance w"
      "List.find (\<lambda>b. bk_id b = k) (bookings d) = Some b"
      "r = Inr (deposit_payment now n k u amt)"
      "d' = confirm_and_award ids now u b
         ((post_wallet_tx now w Tx_PAYMENT (- amt) k d)\<lparr>payments :=
            insert_row (deposit_payment now n k u amt) (payments d)\<rparr>)"
proof (cases "find_wallet d u")
  case None
  with assms show thesis
    by (auto intro: refused simp: payFromWallet_def payFromWallet_body_def transaction_def)
next
  case (Some w)
  show thesis
  proof (cases "wal_balance w < amt \<or> List.find (\<lambda>b. bk_id b = k) (bookings d) = None")
    case True
    with assms Some have "\<exists>e. r = Inl e \<and> d' = d"
      by (cases "wal_balance w < amt")
        (auto simp: payFromWallet_def payFromWallet_body_def transaction_def Let_def frame_simps)
    then show thesis using refused by blast
  next
    case False
    then obtain b where b: "amt \<le> wal_balance w" "List.find (\<lambda>b. bk_id b = k) (bookings d) = Some b" by auto
    with assms Some False show thesis
      by (intro paid [OF Some b])
        (simp_all add: payFromWallet_def payFromWallet_body_def transaction_def Let_def frame_simps)
  qed
qed

lemma payFromWallet_ok:
  assumes "payFromWallet ids now n u k amt d = (r, d')" "wallets_ok d" "payments_ok d"
    "fresh_key pay_id n (payments d)" "0 < amt"
  shows "wallets_ok d'" "payments_ok d'"
proof -
  have "wallets_ok d' \<and> payments_ok d'"
    using assms(1)
  proof (cases rule: payFromWallet_cases)
    case refused
    with assms show ?thesis by simp
  next
    case (paid w b)
    let ?p = "post_wallet_tx now w Tx_PAYMENT (- amt) k d"
    have w: "w \<in> set (wallets d)" using find_wallet_Some [OF paid(1)] by simp
    have "wallets_ok ?p" using wallets_ok_post [OF assms(2) w] paid(2) by simp
    then have "wallets_ok d'"
      by (subst wallets_ok_cong [of _ ?p]) (simp_all add: paid(5) frame_simps)
    moreover have "payments_ok d'"
      by (rule payments_ok_insert [OF payments_ok_payment_tx [OF assms(3)]])
        (use assms in \<open>simp_all add: paid(5) frame_simps deposit_payment_def\<close>)
    ultimately show ?thesis ..
  qed
  then show "wallets_ok d'" "payments_ok d'" by blast+
qed

lemma payFromWallet_step:
  assumes "payFromWallet ids now n u k amt d = (r, d')" "bookings_ok (bookings d)"
    "\<And>b. b \<in> set (bookings d) \<Longrightarrow> bk_id b = k \<Longrightarrow> bk_status b = PENDING"
  shows "booking_step d d'"
  using assms(1)
proof (cases rule: payFromWallet_cases)
  case refused
  with assms show ?thesis by (simp add: booking_step_refl)
next
  case (paid w b)
  have b: "b \<in> set (bookings d)" "bk_id b = k" using paid(3) by (auto dest: find_SomeD)
  let ?d = "(post_wallet_tx now w Tx_PAYMENT (- amt) k d)\<lparr>payments :=
      insert_row (deposit_payment now n k u amt) (payments d)\<rparr>"
  have "booking_step ?d (confirm_and_award ids now u b ?d)"
    using assms(2,3) b by (intro confirm_and_award_step) (simp_all add: frame_simps)
  then show ?thesis by (simp add: paid(5) booking_step_def frame_simps)
qed

lemma update_rows_append: "update_rows sel f (t @ u) = update_rows sel f t @ update_rows sel f u"
  by (simp add: update_rows_def)

lemma update_rows_none: "(\<And>r. r \<in> set t \<Longrightarrow> \<not> sel r) \<Longrightarrow> update_rows sel f t = t"
  by (simp add: update_rows_def map_idI)

lemma open_session_ok:
  assumes "open_session G url uuid desc p (d, g) = (res, (d', g'))" "wallets_ok d" "payments_ok d"
    "fresh_key pay_id (pay_id p) (payments d)" "0 < pay_amount p" "pay_status p = INITIATED"
  shows "wallets_ok d'" "payments_ok d'" "bookings d' = bookings d"
proof -
  obtain ref where d': "d' = update_payment (pay_id p) (\<lambda>p. p\<lparr>pay_gatewayRefId := Some ref\<rparr>)
      (d\<lparr>payments := insert_row p (payments d)\<rparr>)"
    using assms(1) by (auto simp: open_session_def Let_def split: prod.splits)
  then have e: "payments d' = insert_row (p\<lparr>pay_gatewayRefId := Some ref\<rparr>) (payments d)"
    using assms(4) by (simp add: update_payment_def update_rows_append insert_row_def update_rows_none fresh_keyD)
  show "payments_ok d'"
    by (rule payments_ok_insert [OF assms(3) _ _ _ e]) (use assms in \<open>simp_all add: d' frame_simps\<close>)
  show "wallets_ok d'"
    using assms(2) by (subst wallets_ok_cong [of _ d]) (simp_all add: d' frame_simps)
  show "bookings d' = bookings d" by (simp add: d' frame_simps)
qed

text \<open>What \<open>initiate\<close> finds before it pays.\<close>

lemma initiate_cases:
  assumes "initiate G url uuid ids now n u dto (d, g) = (r, (d', g'))"
  obtains (refused) e where "r = Inl e" "d' = d" "g' = g"
  | (wallet) b p where "b \<in> set (bookings d)" "bk_id b = ip_bookingId dto" "bk_userId b = u"
      "bk_status b = PENDING" "0 < bk_depositRequired b" "g' = g"
      "r = Inr (PaidFromWallet p)"
      "payFromWallet ids now n u (bk_id b) (bk_depositRequired b) d = (Inr p, d')"
  | (gateway) b s where "b \<in> set (bookings d)" "bk_id b = ip_bookingId dto" "bk_userId b = u"
      "bk_status b = PENDING" "0 < bk_depositRequired b" "r = Inr (PaymentUrl s)"
      "payFromGateway G url uuid now n u (bk_id b) (bk_depositRequired b) (d, g) = (s, (d', g'))"
proof -
  consider "\<exists>e. r = Inl e" "d' = d" "g' = g"
    | b where "List.find (\<lambda>b. bk_id b = ip_bookingId dto \<and> bk_userId b = u) (bookings d) = Some b"
      "bk_status b = PENDING" "0 < bk_depositRequired b"
    using assms by (auto simp: initiate_def split: option.splits if_splits)
  then show thesis
  proof cases
    case 1
    then show thesis using refused by blast
  next
    case (2 b)
    then have b: "b \<in> set (bookings d)" "bk_id b = ip_bookingId dto" "bk_userId b = u"
      by (auto dest: find_SomeD)
    show thesis
    proof (cases "ip_method dto")
      case Via_gateway
      then show thesis using assms 2 gateway [OF b 2(2,3)] by (auto simp: initiate_def split: prod.splits)
    next
      case Via_wallet
      obtain q e where q: "payFromWallet ids now n u (bk_id b) (bk_depositRequired b) d = (q, e)"
        by (cases "payFromWallet ids now n u (bk_id b) (bk_depositRequired b) d")
      have "e = d" if "q = Inl x" for x
        using q that by (cases rule: payFromWallet_cases) auto
      then show thesis
        using assms 2 Via_wallet q refused wallet [OF b 2(2,3)]
        by (cases q) (auto simp: initiate_def b)
    qed
  qed
qed

lemma initiate_ok:
  assumes "initiate G url uuid ids now n u dto (d, g) = (r, (d', g'))" "wallets_ok d" "payments_ok d"
    "fresh_key pay_id n (payments d)" "bookings_ok (bookings d)"
  shows "wallets_ok d' \<and> payments_ok d' \<and> booking_step d d'"
  using assms(1)
proof (cases rule: initiate_cases)
  case refused
  with assms show ?thesis by (simp add: booking_step_refl)
next
  case (wallet b p)
  have "c = b" if "c \<in> set (bookings d)" "bk_id c = bk_id b" for c
    using unique_key_eq [of bk_id "bookings d" c b] that wallet(1) assms(5) by (simp add: bookings_ok_def)
  then have "booking_step d d'"
    using payFromWallet_step [OF wallet(8) assms(5)] wallet(4) by blast
  with payFromWallet_ok [OF wallet(8) assms(2,3,4) wallet(5)] show ?thesis by blast
next
  case (gateway b s)
  note ok = open_session_ok [OF gateway(7) [unfolded payFromGateway_def] assms(2,3)]
  have "wallets_ok d'" "payments_ok d'" "bookings d' = bookings d"
    using ok assms(4) gateway(5) by (simp_all add: initiated_payment_def)
  with assms(5) show ?thesis by (simp add: booking_step_refl)
qed

section \<open>Callbacks and refunds\<close>

lemma callback_payment_Some:
  "callback_payment gw ref d = Some p \<Longrightarrow> p \<in> set (payments d) \<and> pay_gateway p = gw
     \<and> (ref = None \<or> pay_gatewayRefId p = ref)"
  by (auto simp: callback_payment_def dest: find_SomeD)

lemma payment_okD:
  "payments_ok d \<Longrightarrow> p \<in> set (payments d) \<Longrightarrow> payment_ok d p"
  by (simp add: payments_ok_def list_all_iff)

lemma update_payment_ok:
  assumes "payments_ok d" "p \<in> set (payments d)" "payment_ok d (f p)"
    "\<And>q. pay_id (f q) = pay_id q" "\<And>q. pay_amount (f q) = pay_amount q"
  shows "payments_ok (update_payment (pay_id p) f d)"
proof (rule payments_ok_update [OF assms(1,2)])
  show "payment_ok (update_payment (pay_id p) f d) (f p)"
    using assms(3) by (simp add: payment_ok_def)
qed (use assms in \<open>auto simp: frame_simps, auto simp: update_payment_def\<close>)

text \<open>The movement and the status change of a payment together.\<close>

lemma credit_payment_ok:
  assumes ok: "payments_ok d" and p: "p \<in> set (payments d)"
    and f: "\<And>q. pay_id (f q) = pay_id q" "\<And>q. pay_amount (f q) = pay_amount q"
    and e: "payments e = update_rows (\<lambda>q. pay_id q = pay_id p) f (payments d)" "wallet_txs e = wallet_txs d"
    and new: "payment_ok (post_wallet_tx now w ty (pay_amount p) (pay_id p) e) (f p)"
  shows "payments_ok (post_wallet_tx now w ty (pay_amount p) (pay_id p) e)"
  by (rule payments_ok_update [OF ok p f _ _ new])
    (auto simp: e frame_simps credits_cong [OF e(2)], auto simp: post_wallet_tx_def Let_def e)

lemma apply_success_ok:
  assumes "payments_ok d" "wallets_ok d" "p \<in> set (payments d)" "pay_status p = INITIATED"
  shows "payments_ok (apply_success ids now p d)" "wallets_ok (apply_success ids now p d)"
proof -
  let ?f = "\<lambda>p. p\<lparr>pay_status := SUCCESS, pay_callbackVerifiedAt := Some now\<rparr>"
  let ?d = "update_payment (pay_id p) ?f d"
  note ok = payment_okD [OF assms(1,3)]
  have amt: "0 < pay_amount p" using ok by (simp add: payment_ok_def)
  have p1: "payments_ok ?d"
    using assms(1,3,4) ok by (intro update_payment_ok) (auto simp: payment_ok_def)
  have w1: "wallets_ok ?d" using assms(2) by (subst wallets_ok_cong [of _ d]) (simp_all add: frame_simps)
  have c: "payments_ok (confirm_and_award ids now u b ?d)" "wallets_ok (confirm_and_award ids now u b ?d)" for u b
    using p1 w1 payments_ok_cong [of "confirm_and_award ids now u b ?d" ?d]
      wallets_ok_cong [of "confirm_and_award ids now u b ?d" ?d] by (simp_all add: frame_simps)
  have t: "payments_ok (post_wallet_tx now w Tx_TOPUP (pay_amount p) (pay_id p) ?d)" if "pay_type p = WALLET_TOPUP" for w
    using assms(4) ok that
    by (intro credit_payment_ok [OF assms(1,3), where f = ?f])
      (auto simp: payment_ok_def frame_simps, auto simp: update_payment_def)
  have w: "wallets_ok (post_wallet_tx now w Tx_TOPUP (pay_amount p) (pay_id p) ?d)"
    if "find_wallet ?d u = Some w" for w u
    using find_wallet_Some [OF that] w1 amt
    by (intro wallets_ok_post) (auto simp: wallets_ok_def list_all_iff)
  show "payments_ok (apply_success ids now p d)" "wallets_ok (apply_success ids now p d)"
    using p1 w1 c t w by (auto simp: apply_success_def Let_def split: option.splits)
qed

lemma apply_success_step:
  assumes "bookings_ok (bookings d)"
  shows "booking_step d (apply_success ids now p d)"
proof -
  let ?d = "update_payment (pay_id p) (\<lambda>p. p\<lparr>pay_status := SUCCESS, pay_callbackVerifiedAt := Some now\<rparr>) d"
  have "booking_step d (confirm_and_award ids now u b ?d)"
    if "List.find (\<lambda>b. bk_id b = k) (bookings d) = Some b" "bk_status b = PENDING" for u b k
    using confirm_and_award_step [of ?d b ids now u] that assms
    by (auto simp: booking_step_def frame_simps dest: find_SomeD)
  then show ?thesis
    using assms
    by (auto simp: apply_success_def Let_def frame_simps intro!: booking_step_refl
        split: option.splits)
qed

lemma handleCallback_ok:
  assumes "handleCallback G uuid ids now gw ref (d, g) = (r, (d', g'))"
    "payments_ok d" "wallets_ok d" "bookings_ok (bookings d)"
  shows "payments_ok d' \<and> wallets_ok d' \<and> booking_step d d'"
proof (cases "callback_payment gw ref d")
  case None
  with assms show ?thesis by (simp add: handleCallback_def booking_step_refl)
next
  case (Some p)
  note p = callback_payment_Some [OF Some]
  have failed: "payments_ok (update_payment (pay_id p) (\<lambda>p. p\<lparr>pay_status := FAILED, pay_failureReason := h p\<rparr>) d)"
    if "pay_status p = INITIATED" for h
    using assms(2) p payment_okD [of d p] that by (intro update_payment_ok) (auto simp: payment_ok_def)
  have failed': "wallets_ok (update_payment k f d)" for k f
    using assms(3) by (subst wallets_ok_cong [of _ d]) (simp_all add: frame_simps)
  obtain v g1 where v: "verify G uuid ref (pay_amount p) g = (v, g1)"
    by (cases "verify G uuid ref (pay_amount p) g")
  consider "d' = d" | "d' = apply_success ids now p d" "pay_status p = INITIATED"
    | h where "d' = update_payment (pay_id p) (\<lambda>p. p\<lparr>pay_status := FAILED, pay_failureReason := h p\<rparr>) d"
      "pay_status p = INITIATED"
    using assms(1) Some v by (auto simp: handleCallback_def split: if_splits)
  then show ?thesis
  proof cases
    case 1
    with assms show ?thesis by (simp add: booking_step_refl)
  next
    case 2
    with apply_success_ok [OF assms(2,3), of p] p apply_success_step [OF assms(4)] show ?thesis by simp
  next
    case (3 h)
    with failed failed' assms(4) show ?thesis by (simp add: booking_step_refl frame_simps)
  qed
qed

lemma refund_cases:
  assumes "refund now n k admin reason d = (r, d')"
  obtains (refused) e where "r = Inl e" "d' = d"
  | (refunded) p w d2 where "p \<in> set (payments d)" "pay_id p = k" "pay_status p = SUCCESS" "r = Inr ()"
      "upsert_wallet n (pay_userId p) (update_payment k (\<lambda>p. p\<lparr>pay_status := REFUNDED\<rparr>) d) = (w, d2)"
      "payments d' = payments (post_wallet_tx now w Tx_REFUND (pay_amount p) k d2)"
      "wallets d' = wallets (post_wallet_tx now w Tx_REFUND (pay_amount p) k d2)"
      "wallet_txs d' = wallet_txs (post_wallet_tx now w Tx_REFUND (pay_amount p) k d2)"
      "bookings d' = bookings d"
proof (cases "\<exists>e. r = Inl e")
  case True
  then show thesis
    using assms refused by (auto simp: refund_def Let_def split: option.splits if_splits prod.splits)
next
  case False
  then obtain p where p: "List.find (\<lambda>p. pay_id p = k) (payments d) = Some p" "pay_status p = SUCCESS"
    using assms by (auto simp: refund_def Let_def split: option.splits if_splits prod.splits)
  then have q: "p \<in> set (payments d)" "pay_id p = k" by (auto dest: find_SomeD)
  obtain w d2 where u: "upsert_wallet n (pay_userId p) (update_payment k (\<lambda>p. p\<lparr>pay_status := REFUNDED\<rparr>) d) = (w, d2)"
    by (cases "upsert_wallet n (pay_userId p) (update_payment k (\<lambda>p. p\<lparr>pay_status := REFUNDED\<rparr>) d)")
  have "bookings d2 = bookings d" using upsert_wallet_frame [OF u] by (metis db.select_convs(12) db.surjective db.update_convs(14) update_payment_frame(3))
  with assms p q u show thesis
    by (intro refunded [OF q p(2) _ u]) (auto simp: refund_def Let_def frame_simps)
qed

lemma refund_ok:
  assumes "refund now n k admin reason d = (r, d')" "payments_ok d" "wallets_ok d"
    "fresh_key wal_id n (wallets d)"
  shows "payments_ok d'" "wallets_ok d'"
proof -
  have "payments_ok d' \<and> wallets_ok d'"
    using assms(1)
  proof (cases rule: refund_cases)
    case refused
    with assms show ?thesis by simp
  next
    case (refunded p w d2)
    let ?d1 = "update_payment k (\<lambda>p. p\<lparr>pay_status := REFUNDED\<rparr>) d"
    let ?d3 = "post_wallet_tx now w Tx_REFUND (pay_amount p) k d2"
    have ok: "payment_ok d p" using payment_okD [OF assms(2) refunded(1)] .
    note fr = upsert_wallet_frame [OF refunded(5)]
    have d2: "payments d2 = payments ?d1" "wallet_txs d2 = wallet_txs ?d1"
      by (subst fr, simp)+
    have "payments_ok (post_wallet_tx now w Tx_REFUND (pay_amount p) (pay_id p) d2)"
      using refunded(2,3) ok d2
      by (intro credit_payment_ok [OF assms(2) refunded(1), where f = "\<lambda>p. p\<lparr>pay_status := REFUNDED\<rparr>"])
        (auto simp: payment_ok_def credits_cong [OF d2(2)] frame_simps, auto simp: update_payment_def)
    then have "payments_ok d'"
      using refunded(2,6,8) payments_ok_cong [of d' ?d3] by simp
    moreover have "wallets_ok ?d1" using assms(3) by (subst wallets_ok_cong [of _ d]) (simp_all add: frame_simps)
    then have "wallets_ok d2" using wallets_ok_upsert [OF _ _ refunded(5)] assms(4) by (simp add: frame_simps)
    moreover have "w \<in> set (wallets d2)"
      using upsert_wallet_find [OF refunded(5)] find_wallet_Some by blast
    ultimately have "payments_ok d'" "wallets_ok ?d3"
      using ok by (auto simp: payment_ok_def wallets_ok_def [of d2] list_all_iff intro!: wallets_ok_post)
    with refunded(7,8) wallets_ok_cong [of d' ?d3] show ?thesis by simp
  qed
  then show "payments_ok d'" "wallets_ok d'" by blast+
qed

lemma refund_bookings: "refund now n k admin reason d = (r, d') \<Longrightarrow> bookings d' = bookings d"
  by (erule refund_cases) simp_all

lemma topup_ok:
  assumes "topup G url uuid now n u amt (d, g) = (res, (d', g'))" "wallets_ok d" "payments_ok d"
    "fresh_key pay_id n (payments d)" "valid_topup amt"
  shows "wallets_ok d'" "payments_ok d'" "bookings d' = bookings d"
  using open_session_ok [OF assms(1) [unfolded topup_def] assms(2,3)] assms(4,5)
  by (simp_all add: initiated_payment_def valid_topup_def)

lemma wallet_getMine_ok:
  assumes "wallet_getMine n u d = (r, d')" "wallets_ok d" "payments_ok d" "fresh_key wal_id n (wallets d)"
  shows "wallets_ok d'" "payments_ok d'" "bookings d' = bookings d"
proof -
  obtain w where u: "upsert_wallet n u d = (w, d')"
    using assms(1) by (auto simp: wallet_getMine_def split: prod.splits)
  show "wallets_ok d'" using wallets_ok_upsert [OF assms(2,4) u] .
  note fr = upsert_wallet_frame [OF u]
  have "payments d' = payments d" "wallet_txs d' = wallet_txs d" by (subst fr, simp)+
  then show "payments_ok d'" using assms(3) payments_ok_cong by blast
  show "bookings d' = bookings d" by (subst fr, simp)
qed

end
