(* ===== verification/Scenario.thy ===== *)
theory Scenario
  imports PaymentInv
begin

text \<open>
  A small concrete platform on which the theorems are applied: one approved business with
  one branch that is open every day from 09:00 to 12:00, one staff member, one service of
  30 minutes for 200,000 toman with a deposit of 20 percent, one coupon of 10 percent, two
  users and an open wallet. \<open>day0\<close> is 2023-12-09 at midnight.
\<close>

definition day0 :: time where
  "day0 = 19700 * 86400000"

definition nine :: time where
  "nine = day0 + 9 * 3600000"

definition demo_business :: business where
  "demo_business = \<lparr>biz_id = ''biz'', biz_ownerId = ''owner'', biz_name = ''Salon'',
     biz_category = ''beauty'', biz_description = None, biz_logoUrl = None, biz_status = APPROVED,
     biz_rejectReason = None, biz_legalId = None, biz_ibanNumber = None, biz_commissionPercent = 10,
     biz_cancellationPolicy = \<lparr>freeCancelHours = 24, feePercent = 30\<rparr>, biz_createdAt = 0\<rparr>"

definition demo_branch :: branch where
  "demo_branch = \<lparr>br_id = ''br'', br_businessId = ''biz'', br_name = ''Centre'', br_address = ''Street 1'',
     br_latitude = 35, br_longitude = 51, br_phone = None\<rparr>"

definition demo_staff :: staff_member where
  "demo_staff = \<lparr>sm_id = ''st'', sm_userId = ''worker'', sm_businessId = ''biz'', sm_branchId = Some ''br'',
     sm_role = STAFF, sm_specialty = None, sm_isActive = True\<rparr>"

definition demo_hours :: "int \<Rightarrow> working_hours" where
  "demo_hours day = \<lparr>wh_branchId = Some ''br'', wh_staffMemberId = None, wh_dayOfWeek = day,
     wh_startTime = ''09:00'', wh_endTime = ''12:00''\<rparr>"

definition demo_service :: service where
  "demo_service = \<lparr>sv_id = ''sv'', sv_businessId = ''biz'', sv_name = ''Haircut'', sv_description = None,
     sv_durationMinutes = 30, sv_price = 200000, sv_requiresDeposit = True, sv_depositPercent = Some 20,
     sv_isActive = True\<rparr>"

definition demo_coupon :: coupon where
  "demo_coupon = \<lparr>cp_id = ''cp'', cp_businessId = Some ''biz'', cp_code = ''TEN'', cp_type = PERCENTAGE,
     cp_value = 10, cp_minPurchase = None, cp_usageLimit = Some 5, cp_usageCount = 0, cp_validFrom = 0,
     cp_validTo = day0 + 86400000, cp_isActive = True\<rparr>"

definition demo_booking :: "id \<Rightarrow> BookingStatus \<Rightarrow> time \<Rightarrow> booking" where
  "demo_booking k s start =
     \<lparr>bk_id = k, bk_userId = ''ann'', bk_businessId = ''biz'', bk_branchId = ''br'',
      bk_staffMemberId = Some ''st'', bk_serviceId = ''sv'', bk_startTime = start,
      bk_endTime = start + 1800000, bk_status = s, bk_priceSnapshot = 200000,
      bk_depositRequired = 40000, bk_cancellationPolicySnapshot = \<lparr>freeCancelHours = 24, feePercent = 30\<rparr>,
      bk_holdExpiresAt = Some (day0 + 300000), bk_cancelledAt = None, bk_cancelReason = None,
      bk_recurringGroupId = None, bk_couponCode = None, bk_discountAmount = 0\<rparr>"

definition demo_db :: "booking list \<Rightarrow> db" where
  "demo_db bs = empty_db\<lparr>businesses := [demo_business], branches := [demo_branch],
     staff_members := [demo_staff], working_hours_tbl := map demo_hours [0, 1, 2, 3, 4, 5, 6],
     services := [demo_service],
     service_staffs := [\<lparr>ss_serviceId = ''sv'', ss_staffMemberId = ''st''\<rparr>],
     coupons := [demo_coupon], bookings := bs\<rparr>"

lemmas demo_defs = demo_db_def empty_db_def demo_business_def demo_branch_def demo_staff_def
  demo_service_def demo_coupon_def demo_booking_def nine_def day0_def

lemma demo_services_ok: "services_ok (demo_db bs)"
  by (simp add: services_ok_def demo_defs unique_key_def service_ok_def two_decimals_def)

lemma demo_coupons_ok: "coupons_ok (demo_db bs)"
  by (simp add: coupons_ok_def demo_defs unique_key_def usages_of_def)

lemma demo_booking_sel:
  "bk_id (demo_booking k s t) = k" "bk_userId (demo_booking k s t) = ''ann''"
  "bk_businessId (demo_booking k s t) = ''biz''" "bk_branchId (demo_booking k s t) = ''br''"
  "bk_staffMemberId (demo_booking k s t) = Some ''st''" "bk_serviceId (demo_booking k s t) = ''sv''"
  "bk_startTime (demo_booking k s t) = t" "bk_endTime (demo_booking k s t) = t + 1800000"
  "bk_status (demo_booking k s t) = s" "bk_priceSnapshot (demo_booking k s t) = 200000"
  "bk_depositRequired (demo_booking k s t) = 40000" "bk_discountAmount (demo_booking k s t) = 0"
  by (simp_all add: demo_booking_def)

lemma demo_row_ok: "row_ok (demo_booking k s t)"
  by (simp add: row_ok_def demo_booking_def)

lemma demo_bookings_ok_Nil: "bookings_ok (bookings (demo_db []))"
  by (simp add: demo_db_def empty_db_def bookings_ok_def unique_key_def no_double_booking_def)

lemma demo_bookings_ok_single: "bookings_ok (bookings (demo_db [demo_booking k s t]))"
  by (simp add: demo_db_def bookings_ok_def unique_key_def no_double_booking_def demo_row_ok)

lemma bookings_demo_db [simp]: "bookings (demo_db bs) = bs"
  by (simp add: demo_db_def)

definition demo_hold :: HoldBookingDto where
  "demo_hold = \<lparr>hb_businessId = ''biz'', hb_branchId = ''br'', hb_serviceId = ''sv'',
     hb_staffMemberId = Some ''st'', hb_startTime = nine, hb_couponCode = Some ''TEN''\<rparr>"

lemma demo_context:
  "loadAndValidateContext (demo_db bs) ''biz'' ''br'' ''sv'' (Some ''st'')
     = Inr (demo_business, demo_branch, demo_service)"
  by (simp add: loadAndValidateContext_def find_branch_def find_service_def find_staff_def demo_defs)

end
