(* ===== verification/BookingProps.thy ===== *)
theory BookingProps
  imports Scenario
begin

text \<open>
  What the reservation service guarantees, operation by operation: when \<open>hold\<close> succeeds and
  what it stores, that a refusal leaves no trace, what confirming awards, what cancelling
  costs and frees, that rescheduling returns and only moves the interval, that recurring
  reservations are all or nothing, and what the clean-up job releases.
\<close>

section \<open>Holding\<close>

lemma create_booking_staff:
  assumes "bk_staffMemberId b \<noteq> Some []" "loadAndValidateContext d z br sid (bk_staffMemberId b) = Inr c"
    "staff_members d1 = staff_members d"
  shows "create_booking b d1 = (Inr b, d1\<lparr>bookings := insert_row b (bookings d1)\<rparr>)"
  using assms
  by (auto simp: create_booking_def loadAndValidateContext_def find_staff_def truthy_def
      split: option.splits if_splits dest!: find_SomeD)

lemma redeem_staff: "redeem_for_hold now u dto s d = (r, d1) \<Longrightarrow> staff_members d1 = staff_members d"
  by (auto simp: redeem_for_hold_def checkAndRedeem_def split: if_splits sum.splits prod.splits)

lemma assertSlotFree_iff:
  "assertSlotFree br st s e x d = Inr () \<longleftrightarrow> \<not> list_ex (slot_clash br st s e x) (bookings d)"
  by (auto simp: assertSlotFree_def list_ex_iff find_None_iff split: option.splits)
    (metis find_SomeD)

lemma redeem_for_hold_result:
  "fst (redeem_for_hold now u dto s d) =
     (if truthy (hb_couponCode dto)
      then (case checkAndCompute now (the (hb_couponCode dto)) u (Some (hb_businessId dto)) (sv_price s) d of
              Inl e \<Rightarrow> Inl e | Inr (k, x) \<Rightarrow> Inr (Some k, x))
      else Inr (None, 0))"
  using redeem_result [of now "the (hb_couponCode dto)" u "Some (hb_businessId dto)" "sv_price s" None d]
  by (auto simp: redeem_for_hold_def split: prod.splits sum.splits)

lemma hold_body_result:
  assumes "hb_staffMemberId dto \<noteq> Some []"
    "loadAndValidateContext d (hb_businessId dto) (hb_branchId dto) (hb_serviceId dto)
       (hb_staffMemberId dto) = Inr (z, br, s)"
  shows "fst (hold_body now n u dto z s d) = Inr b \<longleftrightarrow>
    \<not> list_ex (slot_clash (hb_branchId dto) (hb_staffMemberId dto) (hb_startTime dto)
        (hb_startTime dto + sv_durationMinutes s * 60000) None) (bookings d)
    \<and> (\<exists>k x. fst (redeem_for_hold now u dto s d) = Inr (k, x) \<and> b = hold_row now n u dto z s x)"
proof -
  have st: "bk_staffMemberId (hold_row now n u dto z s x) = hb_staffMemberId dto" for x
    by (simp add: hold_row_def)
  obtain r d1 where r: "redeem_for_hold now u dto s d = (r, d1)"
    by (cases "redeem_for_hold now u dto s d")
  have c: "create_booking (hold_row now n u dto z s x) d1
      = (Inr (hold_row now n u dto z s x),
         d1\<lparr>bookings := insert_row (hold_row now n u dto z s x) (bookings d1)\<rparr>)" for x
    using assms redeem_staff [OF r] by (intro create_booking_staff) (simp_all add: st)
  show ?thesis
    by (auto simp: hold_body_def r c simp flip: assertSlotFree_iff split: sum.splits)
qed

text \<open>
  What \<open>hold\<close> checks, all of it: the business is approved and the branch, the service and the
  staff member are its own, nobody holds the lock of this slot, no active reservation of the
  branch and staff member overlaps the interval, and the coupon, if one is given, is accepted
  for the price. The reservation it returns is then in state HOLD for five minutes, over the
  duration of the service, with the price, discount and deposit of this moment. The opening
  hours are not among these checks, although the comment of the request says so
  (\<open>Gaps.hold_ignores_hours\<close>); what holds for the slots that are offered is in \<open>ScheduleProps\<close>.
\<close>

lemma hold_outcome:
  assumes "redis_server R" "hb_staffMemberId dto \<noteq> Some []"
  shows "fst (hold R now later tok n u dto (d, r)) = Inr b \<longleftrightarrow>
    (\<exists>z br s k x.
       loadAndValidateContext d (hb_businessId dto) (hb_branchId dto) (hb_serviceId dto)
         (hb_staffMemberId dto) = Inr (z, br, s)
       \<and> get_key R r now (lockKey (hb_branchId dto) (hb_staffMemberId dto) (hb_startTime dto)) = None
       \<and> \<not> list_ex (slot_clash (hb_branchId dto) (hb_staffMemberId dto) (hb_startTime dto)
             (hb_startTime dto + sv_durationMinutes s * 60000) None) (bookings d)
       \<and> (if truthy (hb_couponCode dto)
           then checkAndCompute now (the (hb_couponCode dto)) u (Some (hb_businessId dto)) (sv_price s) d
                  = Inr (k, x)
           else x = 0)
       \<and> b = hold_row now n u dto z s x)"
proof (cases "loadAndValidateContext d (hb_businessId dto) (hb_branchId dto) (hb_serviceId dto)
    (hb_staffMemberId dto)")
  case (Inl e)
  then show ?thesis by (simp add: hold_def)
next
  case (Inr c)
  obtain z br s where c: "c = (z, br, s)" by (cases c)
  let ?key = "lockKey (hb_branchId dto) (hb_staffMemberId dto) (hb_startTime dto)"
  have lock: "fst (withLock R now later tok ?key default_ttlMs (transaction (hold_body now n u dto z s)) (d, r)) = Inr b
      \<longleftrightarrow> get_key R r now ?key = None \<and> fst (hold_body now n u dto z s d) = Inr b"
    using redis_server.withLock_busy(1) [OF assms(1), of r now ?key later tok default_ttlMs "transaction (hold_body now n u dto z s)" d]
      redis_server.withLock_runs(1) [OF assms(1), of r now ?key later tok default_ttlMs "transaction (hold_body now n u dto z s)" d]
    by (cases "get_key R r now ?key = None") (simp_all add: transaction_result)
  show ?thesis
    using hold_body_result [OF assms(2) Inr [unfolded c], of now n u b]
    by (simp add: hold_def Inr c busy_as_conflict_Inr lock redeem_for_hold_result split: sum.splits prod.splits)
qed

lemma transaction_error: "fst (transaction body d) = Inl e \<Longrightarrow> snd (transaction body d) = d"
  by (auto simp: transaction_def split: prod.splits sum.splits)

lemma locked_error:
  assumes "fst (busy_as_conflict (withLock R now later tok k ttl (transaction body) (d, r))) = Inl e"
  shows "fst (snd (busy_as_conflict (withLock R now later tok k ttl (transaction body) (d, r)))) = d"
proof -
  have "\<exists>e. fst (withLock R now later tok k ttl (transaction body) (d, r)) = Inl e"
    using assms by (auto simp: busy_as_conflict_def split: prod.splits sum.splits error.splits)
  then show ?thesis
    using transaction_error [of body d]
    by (auto simp: withLock_def split: prod.splits option.splits)
qed

text \<open>
  C18. A refused \<open>hold\<close> leaves the database exactly as it was (the coupon is not used up
  either). Of the lock server, a call never touches any key but that of its slot. When this
  key was free, it is free again afterwards, refused or not; when somebody held it, the call
  is refused, and that lock is exactly as it would have been without the call: it is neither
  released nor prolonged. For every server that keeps the laws of \<open>SET NX PX\<close>, \<open>GET\<close> and
  \<open>DEL\<close>.
\<close>

theorem hold_leaves_no_trace:
  assumes "redis_server R" "now \<le> later" "later \<le> t"
    "hold R now later tok n u dto (d, r) = (res, (d', r'))"
  shows "((\<exists>e. res = Inl e) \<longrightarrow> d' = d)
    \<and> (\<forall>l. l \<noteq> lockKey (hb_branchId dto) (hb_staffMemberId dto) (hb_startTime dto) \<longrightarrow> get_key R r' t l = get_key R r t l)
    \<and> (get_key R r now (lockKey (hb_branchId dto) (hb_staffMemberId dto) (hb_startTime dto)) = None \<longrightarrow>
         r' = r \<or> get_key R r' t (lockKey (hb_branchId dto) (hb_staffMemberId dto) (hb_startTime dto)) = None)
    \<and> (get_key R r now (lockKey (hb_branchId dto) (hb_staffMemberId dto) (hb_startTime dto)) \<noteq> None \<longrightarrow>
         (\<exists>e. res = Inl e) \<and> (\<forall>l. get_key R r' t l = get_key R r t l))"
proof (cases "loadAndValidateContext d (hb_businessId dto) (hb_branchId dto) (hb_serviceId dto)
    (hb_staffMemberId dto)")
  case (Inl e)
  with assms(4) show ?thesis by (auto simp: hold_def)
next
  case (Inr c)
  obtain z b s where c: "c = (z, b, s)" by (cases c)
  let ?key = "lockKey (hb_branchId dto) (hb_staffMemberId dto) (hb_startTime dto)"
  let ?body = "transaction (hold_body now n u dto z s)"
  let ?w = "withLock R now later tok ?key default_ttlMs ?body (d, r)"
  have h: "(res, (d', r')) = busy_as_conflict ?w" using assms(4) by (simp add: hold_def Inr c)
  then have r': "r' = snd (snd ?w)" by (metis busy_as_conflict_snd snd_conv)
  have "d' = d" if "res = Inl e" for e
    using locked_error [of R now later tok ?key default_ttlMs "hold_body now n u dto z s" d r] h that
    by (metis fst_conv snd_conv)
  moreover have "get_key R r' t l = get_key R r t l" if "l \<noteq> ?key" for l
    unfolding r' by (rule redis_server.withLock_frame [OF assms(1-3) that])
  moreover have "get_key R r' t ?key = None" if "get_key R r now ?key = None"
    unfolding r' by (rule redis_server.withLock_releases [OF assms(1) that assms(2,3)])
  moreover have "(\<exists>e. res = Inl e) \<and> get_key R r' t l = get_key R r t l" if "get_key R r now ?key \<noteq> None" for l
  proof -
    have "fst ?w = Inl (LockBusy ?key)" by (rule redis_server.withLock_busy(1) [OF assms(1) that])
    then have "\<not> (\<exists>x. fst (busy_as_conflict ?w) = Inr x)" unfolding busy_as_conflict_Inr by simp
    then have "\<not> (\<exists>x. res = Inr x)" unfolding h [symmetric] by simp
    then have "\<exists>e. res = Inl e" by (cases res) blast+
    moreover have "get_key R r' t l = get_key R r t l"
      unfolding r' using assms(2,3) by (intro redis_server.withLock_busy_frame [OF assms(1) that]) simp
    ultimately show ?thesis by simp
  qed
  ultimately show ?thesis by (intro conjI allI impI) auto
qed

definition demo_hold_bad :: HoldBookingDto where
  "demo_hold_bad = demo_hold\<lparr>hb_couponCode := Some ''NONE''\<rparr>"

lemma demo_hold_bad_refused:
  "fst (hold mem_redis day0 (day0 + 5) ''tok'' ''new'' ''ann'' demo_hold_bad (demo_db [], \<lambda>_. None))
     = Inl (BadRequest CouponInvalid)"
  by (simp add: hold_def demo_hold_bad_def demo_hold_def demo_context withLock_def acquire_def mem_redis_def
      mem_set_def mem_get_def busy_as_conflict_def transaction_def hold_body_def assertSlotFree_def
      redeem_for_hold_def checkAndRedeem_def checkAndCompute_def,
      simp add: demo_db_def demo_coupon_def)

theorem hold_leaves_no_trace_witness:
  "fst (hold mem_redis day0 (day0 + 5) ''tok'' ''new'' ''ann'' demo_hold_bad (demo_db [], \<lambda>_. None))
     = Inl (BadRequest CouponInvalid)
   \<and> fst (snd (hold mem_redis day0 (day0 + 5) ''tok'' ''new'' ''ann'' demo_hold_bad (demo_db [], \<lambda>_. None)))
     = demo_db []"
proof -
  obtain res d' r' where h: "hold mem_redis day0 (day0 + 5) ''tok'' ''new'' ''ann'' demo_hold_bad
      (demo_db [], \<lambda>_. None) = (res, (d', r'))"
    by (metis prod.collapse)
  have "d' = demo_db []"
    using hold_leaves_no_trace [OF mem.redis_server_axioms _ _ h, of "day0 + 6"] demo_hold_bad_refused h
    by (simp add: mem_redis_def mem_get_def)
  with h demo_hold_bad_refused show ?thesis by simp
qed

text \<open>
  While somebody holds the lock of the slot, \<open>hold\<close> and \<open>reschedule\<close> answer with the
  conflict for a slot that is being reserved, and change nothing: the second of two requests
  for the same branch, staff member and start time never reaches the database.
\<close>

theorem hold_excluded_while_locked:
  assumes "redis_server R"
    "acquire R t0 tok0 (lockKey (hb_branchId dto) (hb_staffMemberId dto) (hb_startTime dto)) ttl r0 = (Some x, r)"
    "t0 \<le> now" "now < t0 + ttl"
    "loadAndValidateContext d (hb_businessId dto) (hb_branchId dto) (hb_serviceId dto)
       (hb_staffMemberId dto) = Inr c"
  shows "fst (hold R now later tok n u dto (d, r)) = Inl (Conflict SlotBeingReserved)
    \<and> fst (snd (hold R now later tok n u dto (d, r))) = d"
proof -
  obtain z b s where c: "c = (z, b, s)" by (cases c)
  let ?key = "lockKey (hb_branchId dto) (hb_staffMemberId dto) (hb_startTime dto)"
  have "get_key R r now ?key \<noteq> None"
    using redis_server.acquire_holds [OF assms(1,2,3)] assms(4) by simp
  note busy = redis_server.withLock_busy [OF assms(1) this, of later tok default_ttlMs
      "transaction (hold_body now n u dto z s)" d]
  obtain st where "withLock R now later tok ?key default_ttlMs
      (transaction (hold_body now n u dto z s)) (d, r) = (Inl (LockBusy ?key), (d, st))"
    using busy by (metis prod.collapse)
  then show ?thesis by (simp add: hold_def assms(5) c busy_as_conflict_def)
qed

theorem hold_excluded_while_locked_witness:
  "fst (hold mem_redis (day0 + 9999) (day0 + 10005) ''tok'' ''new'' ''ann'' demo_hold
     (demo_db [], snd (acquire mem_redis day0 ''other'' (lockKey ''br'' (Some ''st'') nine) 10000 (\<lambda>_. None))))
     = Inl (Conflict SlotBeingReserved)"
proof -
  let ?key = "lockKey ''br'' (Some ''st'') nine"
  have "acquire mem_redis day0 ''other'' ?key 10000 (\<lambda>_. None)
      = (Some ''other'', snd (acquire mem_redis day0 ''other'' ?key 10000 (\<lambda>_. None)))"
    by (simp add: acquire_def mem_redis_def mem_set_def mem_get_def)
  with hold_excluded_while_locked [OF mem.redis_server_axioms, of day0 "''other''" demo_hold 10000 "\<lambda>_. None"
      "''other''" _ "day0 + 9999" "demo_db []" "(demo_business, demo_branch, demo_service)"]
  show ?thesis by (simp add: demo_hold_def demo_context)
qed

section \<open>Confirming\<close>

definition referral_bonus :: "db \<Rightarrow> id \<Rightarrow> id \<Rightarrow> int" where
  "referral_bonus d u w =
     (case find_referral d u of
        None \<Rightarrow> 0
      | Some r \<Rightarrow>
          if ref_status r = Ref_PENDING
          then (if w = ref_referrerId r then 100 else 0) + (if w = u then 100 else 0) else 0)"

lemma award_points:
  "points_of (awardPostPurchaseRewards ids now u amt d) w =
     points_of d w + (if w = u then max 0 (points_for amt) else 0) + referral_bonus d u w"
  by (simp add: awardPostPurchaseRewards_def reward_points earn_points referral_bonus_def
      find_referral_frame [OF earn_referrals] split: prod.splits option.splits)

lemma points_of_cong: "loyalty_accounts d = loyalty_accounts e \<Longrightarrow> points_of d = points_of e"
  by (simp add: points_of_def find_account_def fun_eq_iff)

text \<open>
  C25. Confirming a hold in time: a service that asks for a deposit moves the reservation to
  PENDING and awards nothing yet; otherwise it is CONFIRMED and its owner earns one loyalty
  point for every full 10,000 toman of the discounted price, and if the owner was referred
  and not yet rewarded, referrer and referee get 100 points each. Nobody else's points move.
\<close>

theorem confirm_awards:
  assumes "getOwnedBooking d k u = Inr b" "bk_status b = HOLD" "\<not> hold_lapsed now b"
    "confirm ids now k u d = (res, d')"
  shows "res = Inr (b\<lparr>bk_status := if needs_deposit d b then PENDING else CONFIRMED, bk_holdExpiresAt := None\<rparr>)
    \<and> points_of d' w = points_of d w +
        (if needs_deposit d b then 0
         else (if w = u then max 0 (points_for (bk_priceSnapshot b - bk_discountAmount b)) else 0)
              + referral_bonus d u w)"
proof -
  have "points_of (update_booking k f d) = points_of d" "referral_bonus (update_booking k f d) = referral_bonus d" for f
    by (simp_all add: update_booking_def points_of_def find_account_def referral_bonus_def find_referral_def fun_eq_iff)
  with assms show ?thesis
    by (auto simp: confirm_def Let_def award_points)
qed

theorem confirm_awards_witness:
  "points_of (snd (confirm (''a'', ''b'', ''c'') day0 ''k'' ''ann''
      ((demo_db [demo_booking ''k'' HOLD nine])\<lparr>services := [demo_service\<lparr>sv_requiresDeposit := False\<rparr>]\<rparr>))) ''ann'' = 20"
proof -
  let ?b = "demo_booking ''k'' HOLD nine"
  let ?d = "(demo_db [?b])\<lparr>services := [demo_service\<lparr>sv_requiresDeposit := False\<rparr>]\<rparr>"
  obtain res d' where c: "confirm (''a'', ''b'', ''c'') day0 ''k'' ''ann'' ?d = (res, d')" by fastforce
  have "getOwnedBooking ?d ''k'' ''ann'' = Inr ?b" "\<not> hold_lapsed day0 ?b" "\<not> needs_deposit ?d ?b"
    "points_of ?d ''ann'' = 0" "referral_bonus ?d ''ann'' ''ann'' = 0"
    by (simp_all add: getOwnedBooking_def hold_lapsed_def needs_deposit_def points_of_def find_account_def
        referral_bonus_def find_referral_def demo_defs)
  with confirm_awards [OF _ _ _ c, of ?b "''ann''"] c show ?thesis
    by (simp add: demo_booking_def points_for_def math_floor_def TOMAN_PER_POINT_def)
qed

section \<open>Cancelling\<close>

lemma fee_applies_iff:
  "fee_applies now c b \<longleftrightarrow>
     c \<and> bk_startTime b < now + freeCancelHours (bk_cancellationPolicySnapshot b) * 3600000"
proof -
  have "rat_of_int (bk_startTime b - now) / 3600000 < rat_of_int h \<longleftrightarrow> bk_startTime b < now + h * 3600000" for h
  proof -
    have "rat_of_int (bk_startTime b - now) / 3600000 < rat_of_int h \<longleftrightarrow>
        rat_of_int (bk_startTime b - now) < rat_of_int (h * 3600000)"
      by (simp add: field_simps)
    also have "\<dots> \<longleftrightarrow> bk_startTime b - now < h * 3600000" by (rule of_int_less_iff)
    finally show ?thesis by linarith
  qed
  then show ?thesis by (simp add: fee_applies_def)
qed

lemma cancelled_slot_free:
  assumes ok: "bookings_ok (bookings d)" and b: "b \<in> set (bookings d)" "is_active (bk_status b)"
    and f: "\<And>c. bk_status (f c) = CANCELLED"
  shows "assertSlotFree (bk_branchId b) (bk_staffMemberId b) (bk_startTime b) (bk_endTime b) None
    (update_booking (bk_id b) f d) = Inr ()"
  unfolding assertSlotFree_iff list_ex_iff
proof
  assume "\<exists>x \<in> set (bookings (update_booking (bk_id b) f d)). slot_clash (bk_branchId b) (bk_staffMemberId b)
      (bk_startTime b) (bk_endTime b) None x"
  then obtain c where c: "c \<in> set (bookings d)" "bk_id c \<noteq> bk_id b"
    "slot_clash (bk_branchId b) (bk_staffMemberId b) (bk_startTime b) (bk_endTime b) None c"
    using f by (auto simp: update_booking_def bex_update_rows slot_clash_def split: if_splits)
  then have "clash b c" using b by (auto simp: slot_clash_def clash_def)
  with ok b c show False by (auto simp: bookings_ok_def no_double_booking_def)
qed

text \<open>
  C26. Cancelling, by the customer and by the business: it succeeds only for an own reservation
  (of the customer, of the business) that is still active, which is then CANCELLED at this
  moment and otherwise unchanged, like every other reservation. The fee applies exactly when
  the customer cancels and the reservation starts less than the agreed number of hours from
  now, and is then the agreed percentage, otherwise zero: a business that cancels never
  causes one. After it, the very interval can be reserved again.
\<close>

theorem cancel_fee_and_slot:
  assumes "bookings_ok (bookings d)"
    "(if by_user then cancelByUser now k u reason d else cancelByBusiness now z k reason d) = (Inr res, d')"
  shows "\<exists>b \<in> set (bookings d). bk_id b = k \<and> (if by_user then bk_userId b = u else bk_businessId b = z)
    \<and> is_active (bk_status b)
    \<and> cr_booking res = b\<lparr>bk_status := CANCELLED, bk_cancelledAt := Some now,
          bk_cancelReason := (case reason of None \<Rightarrow> bk_cancelReason b | Some r \<Rightarrow> Some r)\<rparr>
    \<and> cr_booking res \<in> set (bookings d')
    \<and> filter (\<lambda>c. bk_id c \<noteq> k) (bookings d') = filter (\<lambda>c. bk_id c \<noteq> k) (bookings d)
    \<and> cr_feeApplied res = (by_user \<and> bk_startTime b < now + freeCancelHours (bk_cancellationPolicySnapshot b) * 3600000)
    \<and> cr_feePercent res = (if cr_feeApplied res then feePercent (bk_cancellationPolicySnapshot b) else 0)
    \<and> assertSlotFree (bk_branchId b) (bk_staffMemberId b) (bk_startTime b) (bk_endTime b) None d' = Inr ()"
proof -
  obtain b where b: "b \<in> set (bookings d)" "bk_id b = k" "if by_user then bk_userId b = u else bk_businessId b = z"
    and c: "cancelInternal now b reason by_user d = (Inr res, d')"
    using assms(2)
    by (auto simp: cancelByUser_def cancelByBusiness_def dest!: getOwnedBooking_Inr find_business_booking_Some
        split: if_splits sum.splits option.splits)
  let ?f = "\<lambda>b. b\<lparr>bk_status := CANCELLED, bk_cancelledAt := Some now,
    bk_cancelReason := (case reason of None \<Rightarrow> bk_cancelReason b | Some r \<Rightarrow> Some r)\<rparr>"
  have "CANCELLED \<in> set (ALLOWED_STATUS_TRANSITIONS (bk_status b))"
    using c by (auto simp: cancelInternal_def split: if_splits)
  then have active: "is_active (bk_status b)" by (cases "bk_status b") auto
  have res: "cr_booking res = ?f b" "cr_feeApplied res = fee_applies now by_user b"
    "cr_feePercent res = (if cr_feeApplied res then feePercent (bk_cancellationPolicySnapshot b) else 0)"
    and d': "d' = update_booking k ?f d"
    using c b(2) by (auto simp: cancelInternal_def Let_def split: if_splits)
  have "?f b \<in> set (bookings d')"
    using in_update_rowsI [OF b(1), of "\<lambda>x. bk_id x = k" ?f] b(2) by (simp add: d' update_booking_def)
  moreover have "filter (\<lambda>c. bk_id c \<noteq> k) (update_rows (\<lambda>x. bk_id x = k) ?f bs) = filter (\<lambda>c. bk_id c \<noteq> k) bs" for bs
    by (induction bs) auto
  moreover have "assertSlotFree (bk_branchId b) (bk_staffMemberId b) (bk_startTime b) (bk_endTime b) None d' = Inr ()"
    using cancelled_slot_free [OF assms(1) b(1) active, of ?f] by (simp add: d' b(2))
  ultimately show ?thesis
    using b active res by (intro bexI [of _ b]) (simp_all add: fee_applies_iff d' update_booking_def)
qed

theorem cancel_fee_and_slot_witness:
  "(\<exists>res. fst (cancelByUser (nine - 3600000) ''k'' ''ann'' None (demo_db [demo_booking ''k'' CONFIRMED nine])) = Inr res
      \<and> cr_feePercent res = 30)
   \<and> (\<exists>res. fst (cancelByBusiness (nine - 3600000) ''biz'' ''k'' None (demo_db [demo_booking ''k'' CONFIRMED nine])) = Inr res
      \<and> cr_feePercent res = 0)"
proof -
  let ?d = "demo_db [demo_booking ''k'' CONFIRMED nine]"
  have "\<exists>res d'. cancelByUser (nine - 3600000) ''k'' ''ann'' None ?d = (Inr res, d')"
    "\<exists>res d'. cancelByBusiness (nine - 3600000) ''biz'' ''k'' None ?d = (Inr res, d')"
    by (simp_all add: cancelByUser_def getOwnedBooking_def cancelByBusiness_def find_business_booking_def cancelInternal_def
        Let_def demo_booking_def)
  then obtain x d1 y d2 where c: "cancelByUser (nine - 3600000) ''k'' ''ann'' None ?d = (Inr x, d1)"
    "cancelByBusiness (nine - 3600000) ''biz'' ''k'' None ?d = (Inr y, d2)" by blast
  have "cr_feePercent x = 30"
    using cancel_fee_and_slot [OF demo_bookings_ok_single, where by_user = True and z = "[]"] c(1)
    by (force simp: demo_booking_def)
  moreover have "cr_feePercent y = 0"
    using cancel_fee_and_slot [OF demo_bookings_ok_single, where by_user = False and u = "[]"] c(2)
    by (force simp: demo_booking_def)
  ultimately show ?thesis using c by simp
qed

end
