(* ===== verification/ScheduleProps.thy ===== *)
theory ScheduleProps
  imports BookingProps
begin

text \<open>
  Time: what \<open>getFreeSlots\<close> offers and that an offered slot can be reserved, that
  rescheduling returns and stays within the opening hours, that recurring reservations are
  weekly and all or nothing, and what the clean-up job releases.
\<close>

section \<open>Dates as keys\<close>

lemma length_toISOString: "length (toISOString t) = (if year_in_range t then 24 else 27)"
  by (simp add: toISOString_def isoDay_def isoClock_def isoYear_def year_in_range_def Let_def)

lemma toISOString_eq: "year_in_range t \<Longrightarrow> toISOString c = toISOString t \<longleftrightarrow> c = t"
  using length_toISOString [of c] length_toISOString [of t] toISOString_inject [of c t]
  by (metis numeral_eq_iff semiring_norm(88) semiring_norm(90))

text \<open>
  C37. The texts that instants are turned into lose nothing, over the years 0 to 9999: two lock
  keys of a branch and staff member are the same only for the same start time, and the day
  that rescheduling asks the availability service about reads back as the midnight of the new
  start; the texts by which slots are sorted and merged order instants exactly as in time.
\<close>

theorem iso_text_faithful:
  assumes "year_in_range t" "year_in_range u"
  shows "(lockKey br st t = lockKey br st u \<longleftrightarrow> t = u)
    \<and> parse_midnight (ca_date (reschedule_dto b t)) = Some (dayNumber t * msPerDay)
    \<and> (toISOString t \<le> toISOString u \<longleftrightarrow> t \<le> u) \<and> (toISOString t = toISOString u \<longleftrightarrow> t = u)"
  using assms by (simp add: lockKey_def reschedule_dto_def toISOString_le_iff toISOString_inject parse_midnight_iso)

lemma day0_in_range: "year_in_range (day0 + i)" if "0 \<le> i" "i < 86400000"
proof -
  have "dayNumber (day0 + i) = 19700" using that by (simp add: dayNumber_def day0_def msPerDay_def)
  moreover have "yearOfDay 19700 = 2023" by (rule yearOfDay_unique) (simp_all add: dayFromYear_def)
  ultimately show ?thesis by (simp add: year_in_range_def)
qed

theorem iso_text_faithful_witness:
  "lockKey ''br'' None nine \<noteq> lockKey ''br'' None (nine + 1800000)
     \<and> parse_midnight (ca_date (reschedule_dto (demo_booking ''k'' HOLD 0) nine)) = Some day0"
proof -
  have "year_in_range nine" "year_in_range (nine + 1800000)"
    using day0_in_range [of 32400000] day0_in_range [of 34200000] by (simp_all add: nine_def add.commute)
  from iso_text_faithful [OF this, of "''br''" None "demo_booking ''k'' HOLD 0"] show ?thesis
    by (simp add: nine_def day0_def dayNumber_def msPerDay_def)
qed

section \<open>Free slots\<close>

text \<open>Free for a staff member, read off the tables.\<close>

definition fits :: "db \<Rightarrow> time \<Rightarrow> id \<Rightarrow> int \<Rightarrow> time \<Rightarrow> id option \<Rightarrow> time \<Rightarrow> bool" where
  "fits d now br dur date st c \<longleftrightarrow>
     (\<exists>start fin i. open_window d br st date = Some (start, fin) \<and> c = start + int i * (dur * 60000)
        \<and> c + dur * 60000 \<le> fin)
     \<and> now < c
     \<and> (\<forall>b \<in> set (bookings d). bk_branchId b = br \<longrightarrow> bk_staffMemberId b = st \<longrightarrow> is_active (bk_status b)
          \<longrightarrow> on_day date (bk_startTime b) \<longrightarrow> c + dur * 60000 \<le> bk_startTime b \<or> bk_endTime b \<le> c)"

lemma free_for_fits: "0 < dur \<Longrightarrow> free_for d now br dur date st c \<longleftrightarrow> fits d now br dur date st c"
  by (auto simp: free_for_def fits_def in_slot_grid slot_free_def booked_on_def overlaps_def list_ex_iff
      not_less split: option.splits)

text \<open>
  C21. For a service of the business, one of its branches and a readable day, \<open>getFreeSlots\<close>
  returns, with every start time once and in order, and offers a staff member at an instant
  exactly when the instant lies on the grid of their opening window of that day, far enough
  from its end, in the future, and clear of their active reservations of that day.
\<close>

theorem free_slots_exact:
  assumes "services_ok d" "find_service d (ca_serviceId dto) z = Some s"
    "ca_branchId dto = Some br" "br \<noteq> []" "find_branch d br z = Some bra"
    "candidateStaff d z dto = Inr cands" "parse_midnight (ca_date dto) = Some date"
  shows "\<exists>fs. getFreeSlots now z dto d = Some (Inr fs) \<and> sorted (map fs_startTime fs)
    \<and> distinct (map fs_startTime fs)
    \<and> (\<forall>c st. year_in_range c \<longrightarrow>
         (offered fs (toISOString c) st \<longleftrightarrow> st \<in> set cands \<and> fits d now br (sv_durationMinutes s) date st c))"
proof -
  note dur = service_duration [OF assms(2,1)]
  obtain fs where fs: "getFreeSlots now z dto d = Some (Inr fs)" "slots_ok fs" "sorted (map fs_startTime fs)"
    "\<And>key st. offered fs key st \<longleftrightarrow> st \<in> set cands \<and>
       (\<exists>c. key = toISOString c \<and> free_for d now br (sv_durationMinutes s) date st c)"
    using getFreeSlots_answer [OF assms(2) dur assms(3-7)] by metis
  have "offered fs (toISOString c) st \<longleftrightarrow> st \<in> set cands \<and> fits d now br (sv_durationMinutes s) date st c"
    if "year_in_range c" for c st
    unfolding fs(4) using toISOString_eq [OF that] free_for_fits [OF dur] by metis
  then show ?thesis
    using fs(1-3) by (auto simp: slots_ok_def unique_key_def)
qed

definition demo_ask :: CheckAvailabilityDto where
  "demo_ask = \<lparr>ca_serviceId = ''sv'', ca_staffMemberId = None, ca_branchId = Some ''br'', ca_date = ''2023-12-09''\<rparr>"

lemma demo_ask_facts:
  "find_service (demo_db bs) ''sv'' ''biz'' = Some demo_service"
  "find_branch (demo_db bs) ''br'' ''biz'' = Some demo_branch"
  "candidateStaff (demo_db bs) ''biz'' demo_ask = Inr [Some ''st'']"
  by (simp_all add: find_service_def find_branch_def candidateStaff_def demo_ask_def demo_defs)

lemma demo_ask_day: "parse_midnight ''2023-12-09'' = Some day0"
  by (simp add: day0_def parse_midnight_def digit_val_def midnight_def dayFromYear_def monthStart_def leapYear_def msPerDay_def Let_def)

lemma demo_window: "open_window (demo_db bs) ''br'' (Some ''st'') day0 = Some (nine, day0 + 12 * 3600000)"
  by (simp add: open_window_def isHoliday_def resolveWorkingWindow_def demo_hours_def demo_defs window_of_def
      getUTCDay_def dayNumber_def msPerDay_def clock_fields_def js_number_def digit_val_def setUTCHours_def)

lemma demo_fits: "fits (demo_db []) day0 ''br'' 30 day0 (Some ''st'') nine"
  unfolding fits_def demo_window by (auto simp: nine_def intro!: exI [of _ 0])

theorem free_slots_exact_witness:
  "\<exists>fs. getFreeSlots day0 ''biz'' demo_ask (demo_db []) = Some (Inr fs) \<and> offered fs (toISOString nine) (Some ''st'')"
proof -
  have "year_in_range nine" using day0_in_range [of 32400000] by (simp add: nine_def day0_def)
  then show ?thesis
    using free_slots_exact [OF demo_services_ok [of "[]"], of demo_ask "''biz''" demo_service "''br''" demo_branch "[Some ''st'']" day0 day0]
      demo_ask_facts [of "[]"] demo_ask_day demo_fits
    by (auto simp: demo_ask_def demo_service_def)
qed

text \<open>
  An offered slot can be reserved: when \<open>getFreeSlots\<close> offers a staff member at an
  instant, the conflict check of \<open>hold\<close> passes for that staff member and the interval of
  the service, provided no active reservation of theirs that starts on another day reaches
  into it (such reservations are not looked at when slots are offered).
\<close>

theorem offered_slot_reservable:
  assumes "services_ok d" "find_service d (ca_serviceId dto) z = Some s"
    "ca_branchId dto = Some br" "br \<noteq> []" "find_branch d br z = Some bra"
    "candidateStaff d z dto = Inr cands" "parse_midnight (ca_date dto) = Some date"
    "getFreeSlots now z dto d = Some (Inr fs)" "offered fs (toISOString c) st" "year_in_range c"
    "\<not> list_ex (\<lambda>b. bk_branchId b = br \<and> bk_staffMemberId b = st \<and> is_active (bk_status b)
        \<and> \<not> on_day date (bk_startTime b) \<and> bk_startTime b < c + sv_durationMinutes s * 60000 \<and> c < bk_endTime b)
      (bookings d)"
  shows "assertSlotFree br st c (c + sv_durationMinutes s * 60000) None d = Inr ()"
proof -
  note dur = service_duration [OF assms(2,1)]
  obtain fs' where fs: "getFreeSlots now z dto d = Some (Inr fs')"
    "\<And>key st. offered fs' key st \<longleftrightarrow> st \<in> set cands \<and>
       (\<exists>c. key = toISOString c \<and> free_for d now br (sv_durationMinutes s) date st c)"
    using getFreeSlots_answer [OF assms(2) dur assms(3-7)] by metis
  with assms(8,9) have "\<exists>c'. toISOString c = toISOString c' \<and> free_for d now br (sv_durationMinutes s) date st c'"
    by auto
  then have "fits d now br (sv_durationMinutes s) date st c"
    using toISOString_eq [OF assms(10)] free_for_fits [OF dur] by metis
  then show ?thesis
    using assms(11) unfolding assertSlotFree_iff
    by (fastforce simp: fits_def list_ex_iff slot_clash_def)
qed

lemma demo_offers:
  "\<exists>fs. getFreeSlots day0 ''biz'' demo_ask (demo_db []) = Some (Inr fs) \<and> offered fs (toISOString nine) (Some ''st'')"
proof -
  have free: "free_for (demo_db []) day0 ''br'' 30 day0 (Some ''st'') nine"
    using demo_fits free_for_fits [of 30] by simp
  show ?thesis
    by (rule getFreeSlots_answer [of "demo_db []" demo_ask "''biz''" demo_service "''br''" demo_branch
          "[Some ''st'']" day0 day0])
      (use demo_ask_facts [of "[]"] demo_ask_day free in \<open>auto simp: demo_ask_def demo_service_def\<close>)
qed

theorem offered_slot_reservable_witness:
  "\<exists>fs. getFreeSlots day0 ''biz'' demo_ask (demo_db []) = Some (Inr fs) \<and> offered fs (toISOString nine) (Some ''st'')
     \<and> assertSlotFree ''br'' (Some ''st'') nine (nine + 1800000) None (demo_db []) = Inr ()"
proof -
  have y: "year_in_range nine" using day0_in_range [of 32400000] by (simp add: nine_def day0_def)
  obtain fs where fs: "getFreeSlots day0 ''biz'' demo_ask (demo_db []) = Some (Inr fs)"
    "offered fs (toISOString nine) (Some ''st'')" using demo_offers by blast
  from offered_slot_reservable [OF demo_services_ok [of "[]"] _ _ _ _ _ _ fs(1) fs(2) y, of demo_service "''br''" demo_branch
      "[Some ''st'']" day0] demo_ask_facts [of "[]"] demo_ask_day fs
  show ?thesis by (auto simp: demo_ask_def demo_service_def)
qed








section \<open>Rescheduling\<close>

text \<open>
  \<open>reschedule\<close> always returns when every service has a positive duration: the slot loop
  it runs through \<open>getFreeSlots\<close> ends.
\<close>

theorem reschedule_returns:
  assumes "services_ok d"
  shows "\<exists>res. reschedule R now later tok k u newStart (d, r) = Some res"
  by (rule reschedule_total [OF assms])

theorem reschedule_returns_witness:
  "\<exists>res. reschedule mem_redis day0 (day0 + 5) ''tok'' ''k'' ''ann'' (nine + 3600000)
     (demo_db [demo_booking ''k'' CONFIRMED nine], \<lambda>_. None) = Some res"
  by (rule reschedule_returns [OF demo_services_ok])

lemma reschedule_Inr:
  assumes "reschedule R now later tok k u newStart (d, r) = Some (Inr b', (d', r'))"
  obtains b s fs where "getOwnedBooking d k u = Inr b" "is_active (bk_status b)"
    "List.find (\<lambda>s. sv_id s = bk_serviceId b) (services d) = Some s"
    "getFreeSlots now (bk_businessId b) (reschedule_dto b newStart) d = Some (Inr fs)"
    "list_ex (\<lambda>f. fs_startTime f = toISOString newStart) fs"
    "reschedule_body b newStart (newStart + sv_durationMinutes s * 60000) d = (Inr b', d')"
proof -
  obtain b s fs where b: "getOwnedBooking d k u = Inr b" "is_active (bk_status b)"
    "List.find (\<lambda>s. sv_id s = bk_serviceId b) (services d) = Some s"
    "getFreeSlots now (bk_businessId b) (reschedule_dto b newStart) d = Some (Inr fs)"
    "list_ex (\<lambda>f. fs_startTime f = toISOString newStart) fs"
    and w: "(Inr b', (d', r')) = busy_as_conflict (withLock R now later tok
      (lockKey (bk_branchId b) (bk_staffMemberId b) newStart) default_ttlMs
      (transaction (reschedule_body b newStart (newStart + sv_durationMinutes s * 60000))) (d, r))"
    using assms by (auto simp: reschedule_def split: sum.splits option.splits if_splits)
  let ?w = "withLock R now later tok (lockKey (bk_branchId b) (bk_staffMemberId b) newStart) default_ttlMs
      (transaction (reschedule_body b newStart (newStart + sv_durationMinutes s * 60000))) (d, r)"
  have "fst ?w = Inr b'" "fst (snd ?w) = d'"
    using busy_as_conflict_Inr [of ?w b'] busy_as_conflict_snd [of ?w] w by (metis fst_conv snd_conv)+
  with withLock_Inr [of R now later tok _ default_ttlMs _ "(d, r)" b'] have
    "transaction (reschedule_body b newStart (newStart + sv_durationMinutes s * 60000)) d = (Inr b', d')" by fastforce
  then have "reschedule_body b newStart (newStart + sv_durationMinutes s * 60000) d = (Inr b', d')"
    by (auto elim: transaction_cases)
  with b that show thesis by blast
qed

text \<open>
  C22. A successful \<open>reschedule\<close> moves an own, active reservation to an interval of the
  duration of its service and changes nothing else of it; the new start lies in the future,
  on the slot grid of the opening window of its day (of the reservation's staff member when
  it has one), and the move keeps every reservation free of overlaps.
\<close>

theorem reschedule_stays_open:
  assumes "reschedule R now later tok k u newStart (d, r) = Some (Inr b', (d', r'))"
    "services_ok d" "bookings_ok (bookings d)" "k \<noteq> []" "year_in_range newStart"
    "\<And>b. b \<in> set (bookings d) \<Longrightarrow> bk_branchId b \<noteq> [] \<and> bk_staffMemberId b \<noteq> Some []"
  shows "\<exists>b s st. getOwnedBooking d k u = Inr b \<and> is_active (bk_status b)
    \<and> find_service d (bk_serviceId b) (bk_businessId b) = Some s
    \<and> b' = b\<lparr>bk_startTime := newStart, bk_endTime := newStart + sv_durationMinutes s * 60000\<rparr>
    \<and> (bk_staffMemberId b \<noteq> None \<longrightarrow> st = bk_staffMemberId b)
    \<and> fits d now (bk_branchId b) (sv_durationMinutes s) (dayNumber newStart * msPerDay) st newStart
    \<and> booking_step d d'"
proof -
  obtain b s fs where b: "getOwnedBooking d k u = Inr b" "is_active (bk_status b)"
    and s: "List.find (\<lambda>s. sv_id s = bk_serviceId b) (services d) = Some s"
    and fs: "getFreeSlots now (bk_businessId b) (reschedule_dto b newStart) d = Some (Inr fs)"
      "list_ex (\<lambda>f. fs_startTime f = toISOString newStart) fs"
    and body: "reschedule_body b newStart (newStart + sv_durationMinutes s * 60000) d = (Inr b', d')"
    using reschedule_Inr [OF assms(1)] by metis
  note own = getOwnedBooking_Inr [OF b(1)]
  let ?dto = "reschedule_dto b newStart"
  obtain s' bra cands where ctx: "find_service d (ca_serviceId ?dto) (bk_businessId b) = Some s'"
    "ca_branchId ?dto = Some (bk_branchId b)" "find_branch d (bk_branchId b) (bk_businessId b) = Some bra"
    "candidateStaff d (bk_businessId b) ?dto = Inr cands"
    using fs(1) by (auto simp: getFreeSlots_def Let_def reschedule_dto_def split: option.splits sum.splits if_splits)
  have day: "parse_midnight (ca_date ?dto) = Some (dayNumber newStart * msPerDay)"
    using assms(5) by (simp add: reschedule_dto_def parse_midnight_iso)
  have "s' = s"
    using ctx(1) s assms(2) unique_key_eq [of sv_id "services d" s' s]
    by (auto simp: find_service_def reschedule_dto_def services_ok_def dest!: find_SomeD)
  note dur = service_duration [OF ctx(1) assms(2)]
  have br: "bk_branchId b \<noteq> []" "bk_staffMemberId b \<noteq> Some []" using own assms(6) by blast+
  obtain fs' where fs': "getFreeSlots now (bk_businessId b) ?dto d = Some (Inr fs')" "slots_ok fs'"
    "\<And>key st. offered fs' key st \<longleftrightarrow> st \<in> set cands \<and>
       (\<exists>c. key = toISOString c \<and> free_for d now (bk_branchId b) (sv_durationMinutes s') (dayNumber newStart * msPerDay) st c)"
    using getFreeSlots_answer [OF ctx(1) dur ctx(2) br(1) ctx(3,4) day] by metis
  have "fs' = fs" using fs(1) fs'(1) by simp
  then obtain st where "offered fs' (toISOString newStart) st"
    using fs(2) fs'(2) by (auto simp: list_ex_iff slots_ok_def list_all_iff offered_def) (metis list.set_intros(1) neq_Nil_conv)
  then have st: "st \<in> set cands" "fits d now (bk_branchId b) (sv_durationMinutes s') (dayNumber newStart * msPerDay) st newStart"
    using fs'(3) toISOString_eq [OF assms(5)] free_for_fits [OF dur] by metis+
  have "bk_staffMemberId b \<noteq> None \<longrightarrow> st = bk_staffMemberId b"
    using ctx(4) st(1) br(2) by (auto simp: candidateStaff_def reschedule_dto_def split: option.splits if_splits)
  moreover have "b' = b\<lparr>bk_startTime := newStart, bk_endTime := newStart + sv_durationMinutes s * 60000\<rparr>"
    using body by (auto simp: reschedule_body_def Let_def split: sum.splits)
  moreover have "booking_step d d'"
    using reschedule_step [OF assms(1,3,2,4)] by simp
  ultimately show ?thesis
    using b ctx(1) st(2) \<open>s' = s\<close> by (auto simp: reschedule_dto_def)
qed

definition demo_ten :: time where
  "demo_ten = nine + 3600000"

lemma demo_ten_facts:
  "year_in_range demo_ten" "dayNumber demo_ten * msPerDay = day0"
  using day0_in_range [of 36000000]
  by (simp_all add: demo_ten_def nine_def day0_def dayNumber_def msPerDay_def)

lemma demo_reschedule:
  "\<exists>b' d' r'. reschedule mem_redis day0 (day0 + 5) ''tok'' ''k'' ''ann'' demo_ten
     (demo_db [demo_booking ''k'' CONFIRMED nine], \<lambda>_. None) = Some (Inr b', (d', r'))"
proof -
  let ?b = "demo_booking ''k'' CONFIRMED nine"
  let ?d = "demo_db [?b]"
  have "fits ?d day0 ''br'' 30 day0 (Some ''st'') demo_ten"
    unfolding fits_def demo_window by (auto simp: demo_ten_def demo_booking_def nine_def intro!: exI [of _ 2])
  then have free: "free_for ?d day0 ''br'' 30 day0 (Some ''st'') demo_ten" using free_for_fits [of 30] by simp
  have "\<exists>fs. getFreeSlots day0 ''biz'' (reschedule_dto ?b demo_ten) ?d = Some (Inr fs)
      \<and> offered fs (toISOString demo_ten) (Some ''st'')"
    by (rule getFreeSlots_answer [of ?d "reschedule_dto ?b demo_ten" "''biz''" demo_service "''br''" demo_branch
          "[Some ''st'']" day0 day0])
      (use demo_ask_facts(1,2) [of "[?b]"] parse_midnight_iso [OF demo_ten_facts(1)] demo_ten_facts(2) free in
        \<open>auto simp: reschedule_dto_def demo_booking_def demo_service_def candidateStaff_def find_staff_def demo_db_def demo_staff_def\<close>)
  then obtain fs where fs: "getFreeSlots day0 ''biz'' (reschedule_dto ?b demo_ten) ?d = Some (Inr fs)"
    "list_ex (\<lambda>f. fs_startTime f = toISOString demo_ten) fs"
    by (auto simp: offered_def list_ex_iff)
  have "getOwnedBooking ?d ''k'' ''ann'' = Inr ?b" by (simp add: getOwnedBooking_def demo_booking_def)
  moreover have "List.find (\<lambda>s. sv_id s = ''sv'') (services ?d) = Some demo_service"
    by (simp add: demo_db_def demo_service_def)
  moreover have "assertSlotFree ''br'' (Some ''st'') demo_ten (demo_ten + 1800000) (Some ''k'') ?d = Inr ()"
    by (simp add: assertSlotFree_def slot_clash_def demo_booking_def)
  moreover have "bk_status ?b = CONFIRMED" "bk_serviceId ?b = ''sv''" "bk_businessId ?b = ''biz''" "bk_id ?b = ''k''"
    "bk_branchId ?b = ''br''" "bk_staffMemberId ?b = Some ''st''" by (simp_all add: demo_booking_def)
  ultimately show ?thesis
    using fs by (simp add: reschedule_def withLock_def acquire_def mem_redis_def mem_set_def mem_get_def
        transaction_def reschedule_body_def demo_service_def busy_as_conflict_def Let_def)
qed

theorem reschedule_stays_open_witness:
  "\<exists>b' d' r'. reschedule mem_redis day0 (day0 + 5) ''tok'' ''k'' ''ann'' demo_ten
     (demo_db [demo_booking ''k'' CONFIRMED nine], \<lambda>_. None) = Some (Inr b', (d', r'))
     \<and> bk_startTime b' = demo_ten \<and> bookings_ok (bookings d')"
proof -
  obtain b' d' r' where h: "reschedule mem_redis day0 (day0 + 5) ''tok'' ''k'' ''ann'' demo_ten
     (demo_db [demo_booking ''k'' CONFIRMED nine], \<lambda>_. None) = Some (Inr b', (d', r'))"
    using demo_reschedule by blast
  have "bk_branchId b \<noteq> [] \<and> bk_staffMemberId b \<noteq> Some []"
    if "b \<in> set (bookings (demo_db [demo_booking ''k'' CONFIRMED nine]))" for b
    using that by (simp add: demo_booking_def)
  from reschedule_stays_open [OF h demo_services_ok demo_bookings_ok_single _ demo_ten_facts(1) this]
  have "bk_startTime b' = demo_ten" "bookings_ok (bookings d')" by (auto simp: booking_step_def)
  with h show ?thesis by blast
qed

section \<open>Recurring reservations\<close>

text \<open>
  C23. \<open>createRecurring\<close> is all or nothing: either it returns one HOLD per occurrence, the
  \<open>i\<close>-th starting \<open>i\<close> weeks after the first, all in the same group, and exactly these rows
  are added to the table, or it fails and no row of the database has changed.
\<close>

theorem recurring_all_or_nothing:
  assumes "createRecurring now ids g u dto d = (res, d')" "services_ok d" "bookings_ok (bookings d)"
    "inj ids" "\<And>i. fresh_key bk_id (ids i) (bookings d)"
  shows "case res of
      Inl e \<Rightarrow> d' = d
    | Inr bs \<Rightarrow> length bs = rb_occurrences dto \<and> bookings d' = bookings d @ bs \<and> bookings_ok (bookings d')
        \<and> (\<forall>i < rb_occurrences dto. bk_id (bs ! i) = ids i \<and> bk_status (bs ! i) = HOLD
             \<and> bk_startTime (bs ! i) = rb_startTime dto + int i * 604800000
             \<and> bk_recurringGroupId (bs ! i) = Some g \<and> bk_userId (bs ! i) = u)"
proof (cases "loadAndValidateContext d (rb_businessId dto) (rb_branchId dto) (rb_serviceId dto)
    (rb_staffMemberId dto)")
  case (Inl e)
  with assms(1) show ?thesis by (auto simp: createRecurring_def)
next
  case (Inr c)
  obtain z b s where c: "c = (z, b, s)" by (cases c)
  let ?row = "\<lambda>i. recurring_row now (ids i) g u dto z s (occurrence dto s i)"
  let ?rows = "map ?row [0..<rb_occurrences dto]"
  have "service_ok s" using context_ok(1) Inr c assms(2) by metis
  then have rows: "list_all row_ok ?rows" "distinct (map bk_id ?rows)"
    "\<And>b. b \<in> set ?rows \<Longrightarrow> fresh_key bk_id (bk_id b) (bookings d)"
    using assms(4,5)
    by (auto simp: list_all_iff recurring_row_ok comp_def distinct_map intro: inj_on_subset)
  obtain r d1 where t: "transaction (create_occurrences ?rows) d = (r, d1)"
    by (cases "transaction (create_occurrences ?rows) d")
  from t show ?thesis
  proof (cases rule: transaction_cases)
    case (rollback e)
    have "d' = d \<and> (\<exists>e'. res = Inl e')"
      using assms(1) t unfolding rollback(1,2) by (cases e) (auto simp: createRecurring_def Inr c)
    then show ?thesis by auto
  next
    case (commit bs)
    note ok = create_occurrences_step [OF commit(2) assms(3) rows]
    have "res = Inr bs" "d' = d1" using assms(1) t commit(1) by (auto simp: createRecurring_def Inr c)
    with ok show ?thesis
      by (auto simp: booking_step_def recurring_row_def occurrence_def Let_def)
  qed
qed

definition demo_recurring :: CreateRecurringBookingDto where
  "demo_recurring = \<lparr>rb_businessId = ''biz'', rb_branchId = ''br'', rb_serviceId = ''sv'',
     rb_staffMemberId = Some ''st'', rb_startTime = nine, rb_occurrences = 2\<rparr>"

definition demo_ids :: "nat \<Rightarrow> id" where
  "demo_ids i = replicate (Suc i) CHR ''x''"

theorem recurring_all_or_nothing_witness:
  "\<exists>bs. fst (createRecurring day0 demo_ids ''g'' ''ann'' demo_recurring (demo_db [])) = Inr bs
     \<and> bk_startTime (bs ! 1) = nine + 604800000"
proof -
  obtain res d' where r: "createRecurring day0 demo_ids ''g'' ''ann'' demo_recurring (demo_db []) = (res, d')"
    by fastforce
  have inj: "inj demo_ids" by (rule injI) (auto simp: demo_ids_def replicate_eq_replicate)
  have "\<exists>bs. res = Inr bs"
    using r by (simp add: createRecurring_def demo_recurring_def demo_context transaction_def numeral_2_eq_2
        assertSlotFree_def slot_clash_def recurring_row_def occurrence_def create_booking_def Let_def,
        auto simp: demo_db_def empty_db_def demo_staff_def demo_service_def assertSlotFree_def slot_clash_def
          create_booking_def insert_row_def nine_def day0_def split: if_splits)
  with recurring_all_or_nothing [OF r demo_services_ok _ inj] r show ?thesis
    using demo_bookings_ok_Nil by (auto simp: fresh_key_def demo_recurring_def)
qed

section \<open>Clean-up\<close>

lemma expired_hold_active: "expired_hold now b \<Longrightarrow> is_active (bk_status b)"
  by (simp add: expired_hold_def)

lemma released_slot_free:
  assumes ok: "bookings_ok (bookings d)" and b: "b \<in> set (bookings d)" "expired_hold now b"
  shows "assertSlotFree (bk_branchId b) (bk_staffMemberId b) (bk_startTime b) (bk_endTime b) None
    (handleExpiredHolds now d) = Inr ()"
  unfolding assertSlotFree_iff list_ex_iff
proof
  assume "\<exists>x \<in> set (bookings (handleExpiredHolds now d)). slot_clash (bk_branchId b) (bk_staffMemberId b)
      (bk_startTime b) (bk_endTime b) None x"
  then obtain c where c: "c \<in> set (bookings d)" "\<not> expired_hold now c"
    "slot_clash (bk_branchId b) (bk_staffMemberId b) (bk_startTime b) (bk_endTime b) None c"
    by (auto simp: handleExpiredHolds_def releaseExpiredHolds_def bex_update_rows slot_clash_def split: if_splits)
  then have "clash b c" using expired_hold_active [OF b(2)] by (auto simp: slot_clash_def clash_def)
  moreover have "bk_id b \<noteq> bk_id c"
    using unique_key_eq [of bk_id "bookings d" b c] ok b c by (auto simp: bookings_ok_def)
  ultimately show False using ok b c by (auto simp: bookings_ok_def no_double_booking_def)
qed

text \<open>
  C24. The clean-up job: every lapsed hold is CANCELLED, with the reason of the job and nothing
  else of it changed, and its interval can be reserved again; every other reservation is
  still there as it was, in its place, and no other table changes. Afterwards no lapsed hold
  is left, running the job again does nothing, and the reported number is the number of
  lapsed holds. In a well-formed table every hold has a deadline, so each one is released by
  the first run after it.
\<close>

theorem cleanup_releases_lapsed_holds:
  assumes "bookings_ok (bookings d)"
  shows "length (bookings (handleExpiredHolds now d)) = length (bookings d)
    \<and> (\<forall>i < length (bookings d). bookings (handleExpiredHolds now d) ! i =
         (if expired_hold now (bookings d ! i)
          then (bookings d ! i)\<lparr>bk_status := CANCELLED, bk_cancelReason := Some ''hold expired''\<rparr> else bookings d ! i))
    \<and> handleExpiredHolds now d = d\<lparr>bookings := bookings (handleExpiredHolds now d)\<rparr>
    \<and> (\<forall>b \<in> set (bookings d). expired_hold now b \<longrightarrow>
         assertSlotFree (bk_branchId b) (bk_staffMemberId b) (bk_startTime b) (bk_endTime b) None
           (handleExpiredHolds now d) = Inr ())
    \<and> (\<forall>b' \<in> set (bookings (handleExpiredHolds now d)). \<not> expired_hold now b')
    \<and> handleExpiredHolds now (handleExpiredHolds now d) = handleExpiredHolds now d
    \<and> fst (releaseExpiredHolds now d) = length (filter (expired_hold now) (bookings d))
    \<and> (\<forall>b \<in> set (bookings d). bk_status b = HOLD \<longrightarrow>
         (\<exists>e. bk_holdExpiresAt b = Some e \<and> (e < now \<longrightarrow> expired_hold now b)))"
proof (intro conjI)
  show "length (bookings (handleExpiredHolds now d)) = length (bookings d)"
    "\<forall>i < length (bookings d). bookings (handleExpiredHolds now d) ! i =
       (if expired_hold now (bookings d ! i)
        then (bookings d ! i)\<lparr>bk_status := CANCELLED, bk_cancelReason := Some ''hold expired''\<rparr> else bookings d ! i)"
    "handleExpiredHolds now d = d\<lparr>bookings := bookings (handleExpiredHolds now d)\<rparr>"
    by (simp_all add: handleExpiredHolds_def releaseExpiredHolds_def update_rows_def)
  show "\<forall>b \<in> set (bookings d). expired_hold now b \<longrightarrow>
      assertSlotFree (bk_branchId b) (bk_staffMemberId b) (bk_startTime b) (bk_endTime b) None
        (handleExpiredHolds now d) = Inr ()"
    using released_slot_free [OF assms] by simp
  have none: "\<not> expired_hold now b'" if "b' \<in> set (bookings (handleExpiredHolds now d))" for b'
    using that
    by (auto simp: handleExpiredHolds_def releaseExpiredHolds_def expired_hold_def elim!: in_update_rowsE
        split: if_splits)
  then show "\<forall>b' \<in> set (bookings (handleExpiredHolds now d)). \<not> expired_hold now b'" by blast
  show "handleExpiredHolds now (handleExpiredHolds now d) = handleExpiredHolds now d"
    using none update_rows_none [of "bookings (handleExpiredHolds now d)" "expired_hold now"]
    by (simp add: handleExpiredHolds_def [of now "handleExpiredHolds now d"] releaseExpiredHolds_def)
  show "fst (releaseExpiredHolds now d) = length (filter (expired_hold now) (bookings d))"
    by (simp add: releaseExpiredHolds_def)
  show "\<forall>b \<in> set (bookings d). bk_status b = HOLD \<longrightarrow>
      (\<exists>e. bk_holdExpiresAt b = Some e \<and> (e < now \<longrightarrow> expired_hold now b))"
    using assms by (auto simp: bookings_ok_def list_all_iff row_ok_def expired_hold_def)
qed

theorem cleanup_releases_lapsed_holds_witness:
  "expired_hold (day0 + 300001) (demo_booking ''k'' HOLD nine)
   \<and> assertSlotFree ''br'' (Some ''st'') nine (nine + 1800000) None
       (handleExpiredHolds (day0 + 300001) (demo_db [demo_booking ''k'' HOLD nine])) = Inr ()
   \<and> bk_status (bookings (handleExpiredHolds (day0 + 300001) (demo_db [demo_booking ''k'' HOLD nine])) ! 0) = CANCELLED"
proof -
  have "expired_hold (day0 + 300001) (demo_booking ''k'' HOLD nine)"
    by (simp add: expired_hold_def demo_booking_def)
  with cleanup_releases_lapsed_holds [OF demo_bookings_ok_single [of "''k''" HOLD nine], of "day0 + 300001"]
  show ?thesis by (simp add: demo_booking_sel)
qed

end
