(* ===== verification/PaymentProps.thy ===== *)
theory PaymentProps
  imports ScheduleProps
begin

text \<open>
  What the payment service guarantees: a deposit from the wallet moves exactly the deposit,
  the gateway's callback succeeds exactly when the gateway confirms the stored amount and
  is processed once, a refund credits once; and three places where the code is more
  permissive than intended (a refunded top-up is paid twice, a callback without reference
  fails someone's payment, a deposit of zero can never be paid).
\<close>

section \<open>Paying from the wallet\<close>

lemma award_balance: "balance_of (awardPostPurchaseRewards ids now u a d) = balance_of d"
  by (simp add: balance_of_def find_wallet_def frame_simps fun_eq_iff)

lemma confirm_and_award_balance: "balance_of (confirm_and_award ids now u b d) = balance_of d"
  by (simp add: balance_of_def find_wallet_def frame_simps fun_eq_iff)

lemma confirm_and_award_booking:
  assumes "List.find (\<lambda>x. bk_id x = bk_id b) (bookings d) = Some c"
  shows "List.find (\<lambda>x. bk_id x = bk_id b) (bookings (confirm_and_award ids now u b d))
    = Some (c\<lparr>bk_status := CONFIRMED\<rparr>)"
  using assms
  by (auto simp: confirm_and_award_def frame_simps update_booking_def find_key_update dest: find_SomeD)

text \<open>
  C17. Paying a deposit from the wallet: it happens only for an own reservation that waits
  for payment, and then exactly the deposit leaves the payer's wallet, which had at least
  that much, no other balance moves, a successful payment of that amount is recorded, and
  the reservation is CONFIRMED.
\<close>

theorem wallet_payment_exact:
  assumes "initiate G url uuid ids now n u dto (d, g) = (Inr (PaidFromWallet p), (d', g'))"
    "bookings_ok (bookings d)"
  shows "\<exists>b. b \<in> set (bookings d) \<and> bk_id b = ip_bookingId dto \<and> bk_userId b = u \<and> bk_status b = PENDING
    \<and> bk_depositRequired b \<le> balance_of d u
    \<and> (\<forall>v. balance_of d' v = balance_of d v - (if v = u then bk_depositRequired b else 0))
    \<and> pay_amount p = bk_depositRequired b \<and> pay_status p = SUCCESS \<and> payments d' = insert_row p (payments d)
    \<and> List.find (\<lambda>x. bk_id x = ip_bookingId dto) (bookings d') = Some (b\<lparr>bk_status := CONFIRMED\<rparr>)"
  using assms(1)
proof (cases rule: initiate_cases)
  case (wallet b q)
  have fb: "List.find (\<lambda>x. bk_id x = bk_id b) (bookings d) = Some b"
    using unique_key_find [of bk_id "bookings d" b] assms(2) wallet(1) by (simp add: bookings_ok_def)
  from wallet(8) show ?thesis
  proof (cases rule: payFromWallet_cases)
    case (paid w c)
    let ?m = "(post_wallet_tx now w Tx_PAYMENT (- bk_depositRequired b) (bk_id b) d)\<lparr>payments :=
        insert_row (deposit_payment now n (bk_id b) u (bk_depositRequired b)) (payments d)\<rparr>"
    have "c = b" using fb paid(3) by simp
    have "balance_of ?m v = balance_of d v - (if v = u then bk_depositRequired b else 0)" for v
      using post_balance [OF paid(1), of now Tx_PAYMENT "- bk_depositRequired b" "bk_id b" v]
      by (simp add: balance_of_def find_wallet_def)
    then have "balance_of d' v = balance_of d v - (if v = u then bk_depositRequired b else 0)" for v
      by (simp add: paid(5) confirm_and_award_balance)
    moreover have "List.find (\<lambda>x. bk_id x = bk_id b) (bookings d') = Some (b\<lparr>bk_status := CONFIRMED\<rparr>)"
      using confirm_and_award_booking [of b ?m b ids now u] fb \<open>c = b\<close> by (simp add: paid(5) frame_simps)
    ultimately show ?thesis
      using wallet paid(1,2,4,5)
      by (intro exI [of _ b]) (auto simp: balance_of_def deposit_payment_def frame_simps)
  qed simp
qed simp_all

definition demo_paid_db :: db where
  "demo_paid_db = (demo_db [demo_booking ''k'' PENDING nine])\<lparr>
     wallets := [\<lparr>wal_id = ''w'', wal_userId = ''ann'', wal_balance = 50000\<rparr>]\<rparr>"

lemma demo_initiate:
  "\<exists>p d'. initiate mock_gateway ''url'' ''uuid'' (''a'', ''b'', ''c'') day0 ''pay'' ''ann''
     \<lparr>ip_bookingId = ''k'', ip_method = Via_wallet\<rparr> (demo_paid_db, \<lambda>_. None)
     = (Inr (PaidFromWallet p), (d', \<lambda>_. None))"
  by (simp add: initiate_def payFromWallet_def payFromWallet_body_def transaction_def demo_paid_db_def
      demo_booking_sel find_wallet_def Let_def frame_simps)

theorem wallet_payment_exact_witness:
  "\<exists>p d'. initiate mock_gateway ''url'' ''uuid'' (''a'', ''b'', ''c'') day0 ''pay'' ''ann''
     \<lparr>ip_bookingId = ''k'', ip_method = Via_wallet\<rparr> (demo_paid_db, \<lambda>_. None)
     = (Inr (PaidFromWallet p), (d', \<lambda>_. None)) \<and> balance_of d' ''ann'' = 10000"
proof -
  obtain p d' where i: "initiate mock_gateway ''url'' ''uuid'' (''a'', ''b'', ''c'') day0 ''pay'' ''ann''
     \<lparr>ip_bookingId = ''k'', ip_method = Via_wallet\<rparr> (demo_paid_db, \<lambda>_. None)
     = (Inr (PaidFromWallet p), (d', \<lambda>_. None))" using demo_initiate by blast
  have "bookings_ok (bookings demo_paid_db)"
    using demo_bookings_ok_single [of "''k''" PENDING nine] by (simp add: demo_paid_db_def)
  from wallet_payment_exact [OF i this] have "balance_of d' ''ann'' = 10000"
    by (auto simp: demo_paid_db_def demo_booking_sel balance_of_def find_wallet_def)
  with i show ?thesis by blast
qed

section \<open>The callback\<close>

lemma apply_success_payments:
  "payments (apply_success ids now p d) =
     update_rows (\<lambda>q. pay_id q = pay_id p)
       (\<lambda>q. q\<lparr>pay_status := SUCCESS, pay_callbackVerifiedAt := Some now\<rparr>) (payments d)"
  by (simp add: apply_success_def Let_def frame_simps update_payment_def split: option.split)

lemma callback_payment_update:
  assumes "callback_payment gw ref d = Some p" "payments e = update_rows (\<lambda>q. pay_id q = pay_id p) f (payments d)"
    "\<And>q. pay_gateway (f q) = pay_gateway q \<and> pay_gatewayRefId (f q) = pay_gatewayRefId q"
  shows "callback_payment gw ref e = Some (f p)"
  using assms by (simp add: callback_payment_def find_update_rows)


definition demo_payment :: "PaymentType \<Rightarrow> PaymentStatus \<Rightarrow> payment" where
  "demo_payment ty s =
     \<lparr>pay_id = ''pay'', pay_bookingId = (if ty = WALLET_TOPUP then None else Some ''k''), pay_userId = ''ann'',
      pay_type = ty, pay_status = s, pay_amount = 40000, pay_gateway = ''mock'',
      pay_gatewayRefId = Some ''mock_1'', pay_callbackVerifiedAt = None, pay_failureReason = None,
      pay_createdAt = day0\<rparr>"

definition demo_cb_db :: "PaymentType \<Rightarrow> PaymentStatus \<Rightarrow> db" where
  "demo_cb_db ty s = demo_paid_db\<lparr>payments := [demo_payment ty s]\<rparr>"

definition demo_sessions :: sessions where
  "demo_sessions = [''mock_1'' \<mapsto> \<lparr>ms_amount = 40000, ms_used = False\<rparr>]"

lemma demo_callback_payment:
  "callback_payment ''mock'' (Some ''mock_1'') (demo_cb_db ty s) = Some (demo_payment ty s)"
  "callback_payment ''mock'' None (demo_cb_db ty s) = Some (demo_payment ty s)"
  by (simp_all add: callback_payment_def demo_cb_db_def demo_payment_def)


text \<open>
  The callback is idempotent: however a first call was decided (paid, failed or already
  processed), repeating it, at any time and whatever the gateway would answer, reports the
  recorded status as already processed and changes neither database nor gateway.
\<close>

theorem callback_idempotent:
  assumes "handleCallback G uuid ids now gw ref (d, g) = (Inr c, st')"
  shows "handleCallback G uuid' ids' now' gw ref st' = (Inr \<lparr>alreadyProcessed = True, cb_status = cb_status c\<rparr>, st')"
proof (cases "callback_payment gw ref d")
  case None
  with assms show ?thesis by (simp add: handleCallback_def)
next
  case (Some p)
  obtain v g' where v: "verify G uuid ref (pay_amount p) g = (v, g')"
    by (cases "verify G uuid ref (pay_amount p) g")
  have s: "callback_payment gw ref (apply_success ids now p d)
      = Some (p\<lparr>pay_status := SUCCESS, pay_callbackVerifiedAt := Some now\<rparr>)"
    by (rule callback_payment_update [OF Some apply_success_payments]) simp
  have f: "callback_payment gw ref (update_payment (pay_id p) (\<lambda>p. p\<lparr>pay_status := FAILED, pay_failureReason := h p\<rparr>) d)
      = Some (p\<lparr>pay_status := FAILED, pay_failureReason := h p\<rparr>)" for h
    by (rule callback_payment_update [OF Some]) (simp_all add: update_payment_def)
  show ?thesis
    using assms Some v s f by (auto simp: handleCallback_def split: if_splits)
qed

theorem callback_idempotent_witness:
  "\<exists>st'. handleCallback mock_gateway ''tx'' (''a'', ''b'', ''c'') day0 ''mock'' (Some ''mock_1'')
       (demo_cb_db DEPOSIT INITIATED, demo_sessions) = (Inr \<lparr>alreadyProcessed = False, cb_status = SUCCESS\<rparr>, st')
     \<and> handleCallback mock_gateway ''tx2'' (''e'', ''f'', ''g'') (day0 + 9) ''mock'' (Some ''mock_1'') st'
       = (Inr \<lparr>alreadyProcessed = True, cb_status = SUCCESS\<rparr>, st')"
proof -
  have "\<exists>st'. handleCallback mock_gateway ''tx'' (''a'', ''b'', ''c'') day0 ''mock'' (Some ''mock_1'')
       (demo_cb_db DEPOSIT INITIATED, demo_sessions) = (Inr \<lparr>alreadyProcessed = False, cb_status = SUCCESS\<rparr>, st')"
    by (simp add: handleCallback_def demo_callback_payment mock_gateway_def mock_verify_def demo_sessions_def
        demo_payment_def)
  then obtain st' where h: "handleCallback mock_gateway ''tx'' (''a'', ''b'', ''c'') day0 ''mock'' (Some ''mock_1'')
       (demo_cb_db DEPOSIT INITIATED, demo_sessions) = (Inr \<lparr>alreadyProcessed = False, cb_status = SUCCESS\<rparr>, st')" ..
  with callback_idempotent [OF h, of "''tx2''" "(''e'', ''f'', ''g'')" "day0 + 9"] show ?thesis by auto
qed

text \<open>
  A successful top-up callback adds exactly the stored amount to the wallet of the
  payer, when they have one, and to no other balance; without a wallet the payment is
  marked SUCCESS all the same and nothing is credited.
\<close>

theorem topup_credits_amount:
  assumes "callback_payment gw ref d = Some p" "pay_type p = WALLET_TOPUP"
    "handleCallback G uuid ids now gw ref (d, g) = (Inr \<lparr>alreadyProcessed = False, cb_status = SUCCESS\<rparr>, (d', g'))"
  shows "balance_of d' v =
    balance_of d v + (if v = pay_userId p \<and> find_wallet d v \<noteq> None then pay_amount p else 0)"
proof -
  have d': "d' = apply_success ids now p d"
    using assms by (auto simp: handleCallback_def split: prod.splits if_splits)
  let ?d1 = "update_payment (pay_id p) (\<lambda>p. p\<lparr>pay_status := SUCCESS, pay_callbackVerifiedAt := Some now\<rparr>) d"
  have same: "find_wallet ?d1 = find_wallet d" "balance_of ?d1 = balance_of d"
    by (simp_all add: find_wallet_def balance_of_def frame_simps fun_eq_iff)
  show ?thesis
  proof (cases "find_wallet d (pay_userId p)")
    case None
    then show ?thesis by (auto simp: d' apply_success_def Let_def assms(2) same)
  next
    case (Some w)
    then show ?thesis
      using post_balance [of ?d1 "pay_userId p" w now Tx_TOPUP "pay_amount p" "pay_id p" v]
      by (auto simp: d' apply_success_def Let_def assms(2) same)
  qed
qed

theorem topup_credits_amount_witness:
  "balance_of (fst (snd (handleCallback mock_gateway ''tx'' (''a'', ''b'', ''c'') day0 ''mock'' (Some ''mock_1'')
     (demo_cb_db WALLET_TOPUP INITIATED, demo_sessions)))) ''ann'' = 90000"
proof -
  have "\<exists>d' g'. handleCallback mock_gateway ''tx'' (''a'', ''b'', ''c'') day0 ''mock'' (Some ''mock_1'')
       (demo_cb_db WALLET_TOPUP INITIATED, demo_sessions)
       = (Inr \<lparr>alreadyProcessed = False, cb_status = SUCCESS\<rparr>, (d', g'))"
    by (simp add: handleCallback_def demo_callback_payment mock_gateway_def mock_verify_def demo_sessions_def
        demo_payment_def)
  then obtain d' g' where h: "handleCallback mock_gateway ''tx'' (''a'', ''b'', ''c'') day0 ''mock'' (Some ''mock_1'')
       (demo_cb_db WALLET_TOPUP INITIATED, demo_sessions)
       = (Inr \<lparr>alreadyProcessed = False, cb_status = SUCCESS\<rparr>, (d', g'))" by blast
  with topup_credits_amount [OF demo_callback_payment(1) _ h, of "''ann''"] show ?thesis
    by (simp add: demo_payment_def demo_cb_db_def demo_paid_db_def balance_of_def find_wallet_def)
qed

section \<open>Refunds\<close>

lemma find_payment_update:
  assumes "List.find (\<lambda>p. pay_id p = k) (payments d) = Some p" "\<And>q. pay_id (f q) = pay_id q"
  shows "List.find (\<lambda>p. pay_id p = k) (payments (update_payment k f d)) = Some (f p)"
  using assms by (auto simp: update_payment_def find_key_update dest: find_SomeD)

lemma refund_balance:
  assumes "List.find (\<lambda>p. pay_id p = k) (payments d) = Some p" "pay_status p = SUCCESS"
  shows "fst (refund now n k admin reason d) = Inr ()"
    "balance_of (snd (refund now n k admin reason d)) v =
       balance_of d v + (if v = pay_userId p then pay_amount p else 0)"
    "List.find (\<lambda>p. pay_id p = k) (payments (snd (refund now n k admin reason d)))
       = Some (p\<lparr>pay_status := REFUNDED\<rparr>)"
proof -
  let ?d1 = "update_payment k (\<lambda>p. p\<lparr>pay_status := REFUNDED\<rparr>) d"
  obtain w d2 where u: "upsert_wallet n (pay_userId p) ?d1 = (w, d2)"
    by (cases "upsert_wallet n (pay_userId p) ?d1")
  note uw = upsert_wallet_find [OF u]
  have f1: "find_wallet ?d1 = find_wallet d" by (simp add: find_wallet_def frame_simps fun_eq_iff)
  have b1: "balance_of ?d1 = balance_of d" by (simp add: balance_of_def f1 fun_eq_iff)
  have b2: "balance_of d2 v = balance_of d v" for v
    using uw b1 f1 by (cases "v = pay_userId p") (auto simp: balance_of_def)
  have p2: "payments d2 = payments ?d1" by (subst upsert_wallet_frame [OF u]) simp
  have k: "pay_id p = k" using assms(1) by (auto dest: find_SomeD)
  show "fst (refund now n k admin reason d) = Inr ()" by (simp add: refund_def assms u Let_def)
  show "balance_of (snd (refund now n k admin reason d)) v =
       balance_of d v + (if v = pay_userId p then pay_amount p else 0)"
    using post_balance [of d2 "pay_userId p" w now Tx_REFUND "pay_amount p" k v] uw b2 k
    by (simp add: refund_def assms u Let_def balance_of_def find_wallet_def)
  show "List.find (\<lambda>p. pay_id p = k) (payments (snd (refund now n k admin reason d)))
       = Some (p\<lparr>pay_status := REFUNDED\<rparr>)"
    using find_payment_update [OF assms(1), of "\<lambda>p. p\<lparr>pay_status := REFUNDED\<rparr>"]
    by (simp add: refund_def assms u Let_def frame_simps p2)
qed

text \<open>
  A refund succeeds exactly for a payment in state SUCCESS, credits its amount to the
  payer's wallet and to nobody else, opening the wallet if needed, and cannot be repeated:
  a second refund of the same payment is refused and changes nothing.
\<close>

theorem refund_once:
  assumes "List.find (\<lambda>p. pay_id p = k) (payments d) = Some p"
  shows "(fst (refund now n k admin reason d) = Inr ()) = (pay_status p = SUCCESS)
    \<and> balance_of (snd (refund now n k admin reason d)) v =
        balance_of d v + (if pay_status p = SUCCESS \<and> v = pay_userId p then pay_amount p else 0)
    \<and> refund now' n' k admin' reason' (snd (refund now n k admin reason d))
        = (Inl (BadRequest NotRefundable), snd (refund now n k admin reason d))"
proof (cases "pay_status p = SUCCESS")
  case True
  note r = refund_balance [OF assms True, of now n admin reason]
  have "refund now' n' k admin' reason' (snd (refund now n k admin reason d))
        = (Inl (BadRequest NotRefundable), snd (refund now n k admin reason d))"
    by (simp add: refund_def [of now' n' k admin' reason'] r(3))
  with r True show ?thesis by simp
next
  case False
  then show ?thesis using assms by (simp add: refund_def)
qed

theorem refund_once_witness:
  "balance_of (snd (refund day0 ''n'' ''pay'' ''root'' ''asked for'' (demo_cb_db DEPOSIT SUCCESS))) ''ann'' = 90000"
  using refund_once [of "''pay''" "demo_cb_db DEPOSIT SUCCESS" "demo_payment DEPOSIT SUCCESS" day0 "''n''" "''root''"
      "''asked for''" "''ann''" day0 "''n''" "''root''" "''asked for''"]
  by (simp add: demo_cb_db_def demo_payment_def demo_paid_db_def balance_of_def find_wallet_def)

section \<open>Where the code is too permissive\<close>

text \<open>
  The gateway paid once, the wallet twice: a top-up that was credited by its callback
  can still be refunded, and the refund credits the same amount again, so that the balance
  ends two amounts above where it started.
\<close>

theorem refunded_topup_counts_twice:
  assumes "unique_key pay_id (payments d)" "callback_payment gw ref d = Some p" "pay_type p = WALLET_TOPUP"
    "find_wallet d (pay_userId p) = Some w"
    "handleCallback G uuid ids now gw ref (d, g) = (Inr \<lparr>alreadyProcessed = False, cb_status = SUCCESS\<rparr>, (d', g'))"
  shows "fst (refund now' n (pay_id p) admin reason d') = Inr ()
    \<and> balance_of (snd (refund now' n (pay_id p) admin reason d')) (pay_userId p)
        = wal_balance w + 2 * pay_amount p"
proof -
  have d': "d' = apply_success ids now p d"
    using assms by (auto simp: handleCallback_def split: prod.splits if_splits)
  have "p \<in> set (payments d)" using callback_payment_Some [OF assms(2)] by simp
  then have "List.find (\<lambda>q. pay_id q = pay_id p) (payments d) = Some p"
    using unique_key_find [OF assms(1)] by simp
  then have f: "List.find (\<lambda>q. pay_id q = pay_id p) (payments d')
      = Some (p\<lparr>pay_status := SUCCESS, pay_callbackVerifiedAt := Some now\<rparr>)"
    by (simp add: d' apply_success_payments find_key_update)
  let ?d1 = "update_payment (pay_id p) (\<lambda>p. p\<lparr>pay_status := SUCCESS, pay_callbackVerifiedAt := Some now\<rparr>) d"
  have w: "find_wallet ?d1 (pay_userId p) = Some w" using assms(4) by (simp add: find_wallet_def frame_simps)
  have "balance_of d' (pay_userId p) = wal_balance w + pay_amount p"
    using post_balance [OF w, of now Tx_TOPUP "pay_amount p" "pay_id p" "pay_userId p"] w
    by (simp add: d' apply_success_def Let_def assms(3) balance_of_def)
  with refund_balance [OF f, of now' n admin reason] show ?thesis by simp
qed

theorem refunded_topup_counts_twice_witness:
  "\<exists>d' g'. handleCallback mock_gateway ''tx'' (''a'', ''b'', ''c'') day0 ''mock'' (Some ''mock_1'')
       (demo_cb_db WALLET_TOPUP INITIATED, demo_sessions)
       = (Inr \<lparr>alreadyProcessed = False, cb_status = SUCCESS\<rparr>, (d', g'))
     \<and> balance_of (snd (refund day0 ''n'' ''pay'' ''root'' ''asked for'' d')) ''ann'' = 130000"
proof -
  have "\<exists>d' g'. handleCallback mock_gateway ''tx'' (''a'', ''b'', ''c'') day0 ''mock'' (Some ''mock_1'')
       (demo_cb_db WALLET_TOPUP INITIATED, demo_sessions)
       = (Inr \<lparr>alreadyProcessed = False, cb_status = SUCCESS\<rparr>, (d', g'))"
    by (simp add: handleCallback_def demo_callback_payment mock_gateway_def mock_verify_def demo_sessions_def
        demo_payment_def)
  then obtain d' g' where h: "handleCallback mock_gateway ''tx'' (''a'', ''b'', ''c'') day0 ''mock'' (Some ''mock_1'')
       (demo_cb_db WALLET_TOPUP INITIATED, demo_sessions)
       = (Inr \<lparr>alreadyProcessed = False, cb_status = SUCCESS\<rparr>, (d', g'))" by blast
  have "unique_key pay_id (payments (demo_cb_db WALLET_TOPUP INITIATED))"
    by (simp add: demo_cb_db_def unique_key_def)
  from refunded_topup_counts_twice [OF this demo_callback_payment(1) _ _ h,
      of "\<lparr>wal_id = ''w'', wal_userId = ''ann'', wal_balance = 50000\<rparr>" day0 "''n''" "''root''" "''asked for''"] h
  show ?thesis by (auto simp: demo_cb_db_def demo_payment_def demo_paid_db_def find_wallet_def)
qed

text \<open>
  The public callback route without a reference: the missing parameter filters nothing,
  so the first payment of that gateway is taken, whoever it belongs to; if it is still
  INITIATED it is marked FAILED, and the genuine callback that follows, for a session the
  gateway holds as paid, only reports that failure.
\<close>

theorem callback_without_reference:
  assumes "payment_gateway G pending" "callback_payment gw None d = Some p" "pay_status p = INITIATED"
    "pay_gatewayRefId p = Some r" "callback_payment gw (Some r) d = Some p"
    "handleCallback G uuid ids now gw None (d, g) = (res, (d', g'))"
  shows "res = Inr \<lparr>alreadyProcessed = False, cb_status = FAILED\<rparr> \<and> pending g' = pending g
    \<and> handleCallback G uuid' ids' now' gw (Some r) (d', g')
        = (Inr \<lparr>alreadyProcessed = True, cb_status = FAILED\<rparr>, (d', g'))"
proof -
  obtain v g1 where v: "verify G uuid None (pay_amount p) g = (v, g1)"
    by (cases "verify G uuid None (pay_amount p) g")
  have nv: "\<not> verified v" using payment_gateway.verify_undefined [OF assms(1), of uuid "pay_amount p" g] v by simp
  then have pg: "pending g1 = pending g"
    using payment_gateway.verify_refused [OF assms(1), of uuid None "pay_amount p" g] v by simp
  have f: "callback_payment gw (Some r) (update_payment (pay_id p) (\<lambda>p. p\<lparr>pay_status := FAILED, pay_failureReason := h p\<rparr>) d)
      = Some (p\<lparr>pay_status := FAILED, pay_failureReason := h p\<rparr>)" for h
    by (rule callback_payment_update [OF assms(5)]) (simp_all add: update_payment_def)
  show ?thesis using assms(2,3,6) v nv pg f by (auto simp: handleCallback_def)
qed

theorem callback_without_reference_witness:
  "\<exists>d' g'. handleCallback mock_gateway ''tx'' (''a'', ''b'', ''c'') day0 ''mock'' None
       (demo_cb_db DEPOSIT INITIATED, demo_sessions)
       = (Inr \<lparr>alreadyProcessed = False, cb_status = FAILED\<rparr>, (d', g'))
     \<and> handleCallback mock_gateway ''tx2'' (''a'', ''b'', ''c'') day0 ''mock'' (Some ''mock_1'') (d', g')
       = (Inr \<lparr>alreadyProcessed = True, cb_status = FAILED\<rparr>, (d', g'))"
proof -
  obtain res d' g' where h: "handleCallback mock_gateway ''tx'' (''a'', ''b'', ''c'') day0 ''mock'' None
       (demo_cb_db DEPOSIT INITIATED, demo_sessions) = (res, (d', g'))" by (metis prod.collapse)
  from callback_without_reference [OF mock.payment_gateway_axioms demo_callback_payment(2) _ _ demo_callback_payment(1) h,
      of "''tx2''" "(''a'', ''b'', ''c'')" day0] h
  show ?thesis by (auto simp: demo_payment_def)
qed

text \<open>
  A reservation that waits for payment with nothing to pay: \<open>initiate\<close> refuses it,
  whatever the method, and changes nothing, so no payment ever confirms it.
\<close>

theorem zero_deposit_never_paid:
  assumes "bookings_ok (bookings d)" "b \<in> set (bookings d)" "bk_status b = PENDING" "bk_depositRequired b = 0"
    "ip_bookingId dto = bk_id b"
  shows "initiate G url uuid ids now n (bk_userId b) dto (d, g) = (Inl (BadRequest NothingToPay), (d, g))"
proof -
  have "c = b" if "List.find (\<lambda>x. bk_id x = bk_id b \<and> bk_userId x = bk_userId b) (bookings d) = Some c" for c
    using that unique_key_eq [of bk_id "bookings d" c b] assms(1,2)
    by (auto simp: bookings_ok_def dest!: find_SomeD)
  moreover have "List.find (\<lambda>x. bk_id x = bk_id b \<and> bk_userId x = bk_userId b) (bookings d) \<noteq> None"
    using assms(2) by (auto simp: find_None_iff)
  ultimately have "List.find (\<lambda>x. bk_id x = bk_id b \<and> bk_userId x = bk_userId b) (bookings d) = Some b"
    by auto
  then show ?thesis by (simp add: initiate_def assms(3-5))
qed

theorem zero_deposit_never_paid_witness:
  "fst (initiate mock_gateway ''url'' ''uuid'' (''a'', ''b'', ''c'') day0 ''pay'' ''ann''
     \<lparr>ip_bookingId = ''k'', ip_method = Via_gateway\<rparr>
     (demo_db [(demo_booking ''k'' PENDING nine)\<lparr>bk_depositRequired := 0\<rparr>], demo_sessions))
   = Inl (BadRequest NothingToPay)"
proof -
  let ?b = "(demo_booking ''k'' PENDING nine)\<lparr>bk_depositRequired := 0\<rparr>"
  have "bookings_ok (bookings (demo_db [?b]))"
    by (simp add: bookings_ok_def unique_key_def no_double_booking_def row_ok_def demo_booking_def)
  from zero_deposit_never_paid [OF this, of ?b "\<lparr>ip_bookingId = ''k'', ip_method = Via_gateway\<rparr>" mock_gateway
      "''url''" "''uuid''" "(''a'', ''b'', ''c'')" day0 "''pay''" demo_sessions]
  show ?thesis by (simp add: demo_booking_def)
qed

end
