(* ===== verification/Otp.thy ===== *)
theory Otp
  imports JsDate
begin

text \<open>
  \<open>modules/otp/otp.service.ts\<close>: one-time codes. The hash function and the random number
  are arguments; the SMS provider is an outbox of messages. Shown: a code admits at most
  five wrong guesses, is accepted at most once, two unused codes for the same phone and
  purpose are at least a minute apart, and in production the code is never returned.
\<close>

section \<open>The service\<close>

definition OTP_LENGTH :: nat where "OTP_LENGTH = 6"
definition OTP_TTL_MINUTES :: int where "OTP_TTL_MINUTES = 5"
definition MAX_VERIFY_ATTEMPTS :: nat where "MAX_VERIFY_ATTEMPTS = 5"
definition RESEND_COOLDOWN_SECONDS :: rat where "RESEND_COOLDOWN_SECONDS = 60"

text \<open>The configuration values and the hash \<open>sha256Hash\<close>.\<close>

record otp_env =
  sha256Hash :: "string \<Rightarrow> string"
  NODE_ENV :: "string option"
  OTP_DEBUG_EXPOSE :: "string option"

type_synonym outbox = "(string \<times> string) list"

definition debugExposeEnabled :: "otp_env \<Rightarrow> bool" where
  "debugExposeEnabled env \<longleftrightarrow>
     NODE_ENV env \<noteq> Some ''production'' \<and> OTP_DEBUG_EXPOSE env = Some ''true''"

text \<open>\<open>findFirst\<close> of the unconsumed codes, newest first.\<close>

definition live :: "string \<Rightarrow> OtpPurpose \<Rightarrow> otp_code \<Rightarrow> bool" where
  "live phone purpose r \<longleftrightarrow> otp_phone r = phone \<and> otp_purpose r = purpose \<and> otp_consumedAt r = None"

definition newest :: "string \<Rightarrow> OtpPurpose \<Rightarrow> otp_code list \<Rightarrow> otp_code option" where
  "newest phone purpose t =
     (case rev (sort_key otp_createdAt (filter (live phone purpose) t)) of [] \<Rightarrow> None | r # _ \<Rightarrow> Some r)"

text \<open>The code: \<open>randomInt(0, 10 ** 6)\<close> in decimal, padded with zeros.\<close>

definition code_text :: "int \<Rightarrow> string" where
  "code_text n = dig OTP_LENGTH n"

text \<open>The message: the code and how long it is valid.\<close>

definition sms_text :: "string \<Rightarrow> string" where
  "sms_text code = ''Your code: '' @ code @ '' (valid for 5 minutes)''"

definition requestOtp :: "otp_env \<Rightarrow> id \<Rightarrow> int \<Rightarrow> time \<Rightarrow> string \<Rightarrow> OtpPurpose \<Rightarrow> id option \<Rightarrow> db \<times> outbox
    \<Rightarrow> string option result \<times> (db \<times> outbox)" where
  "requestOtp env newId rnd now phone purpose userId st =
     (let send =
        (let code = code_text rnd;
             row = \<lparr>otp_id = newId, otp_userId = userId, otp_phone = phone,
                    otp_codeHash = sha256Hash env code, otp_purpose = purpose, otp_attempts = 0,
                    otp_expiresAt = now + OTP_TTL_MINUTES * 60 * 1000, otp_consumedAt = None,
                    otp_createdAt = now\<rparr>
         in (Inr (if debugExposeEnabled env then Some code else None),
             ((fst st)\<lparr>otp_codes := insert_row row (otp_codes (fst st))\<rparr>,
              snd st @ [(phone, sms_text code)])))
      in case newest phone purpose (otp_codes (fst st)) of
           Some recent \<Rightarrow>
             (let secondsSinceLast = rat_of_int (now - otp_createdAt recent) / 1000
              in if secondsSinceLast < RESEND_COOLDOWN_SECONDS
                 then (Inl (TooManyRequests (OtpCooldown \<lceil>RESEND_COOLDOWN_SECONDS - secondsSinceLast\<rceil>)), st)
                 else send)
         | None \<Rightarrow> send)"

definition verifyOtp :: "otp_env \<Rightarrow> time \<Rightarrow> string \<Rightarrow> OtpPurpose \<Rightarrow> string \<Rightarrow> db \<Rightarrow> bool result \<times> db" where
  "verifyOtp env now phone purpose code d =
     (case newest phone purpose (otp_codes d) of
        None \<Rightarrow> (Inl (BadRequest OtpNotFound), d)
      | Some record \<Rightarrow>
          if otp_expiresAt record < now then (Inl (BadRequest OtpExpired), d)
          else if MAX_VERIFY_ATTEMPTS \<le> otp_attempts record then (Inl (TooManyRequests OtpTooManyAttempts), d)
          else if otp_codeHash record \<noteq> sha256Hash env code
          then (Inr False, d\<lparr>otp_codes := update_rows (\<lambda>r. otp_id r = otp_id record)
                  (\<lambda>r. r\<lparr>otp_attempts := otp_attempts r + 1\<rparr>) (otp_codes d)\<rparr>)
          else (Inr True, d\<lparr>otp_codes := update_rows (\<lambda>r. otp_id r = otp_id record)
                  (\<lambda>r. r\<lparr>otp_consumedAt := Some now\<rparr>) (otp_codes d)\<rparr>))"

section \<open>The newest code\<close>

lemma newest_None: "newest p q t = None \<longleftrightarrow> (\<forall>r \<in> set t. \<not> live p q r)"
proof -
  have "rev (sort_key otp_createdAt (filter (live p q) t)) = [] \<longleftrightarrow> filter (live p q) t = []"
    by (metis length_0_conv length_rev length_sort)
  then show ?thesis by (auto simp: newest_def filter_empty_conv split: list.splits)
qed

lemma newest_Some:
  assumes "newest p q t = Some r"
  shows "r \<in> set t" "live p q r" "\<And>x. x \<in> set t \<Longrightarrow> live p q x \<Longrightarrow> otp_createdAt x \<le> otp_createdAt r"
proof -
  let ?s = "sort_key otp_createdAt (filter (live p q) t)"
  obtain rest where rest: "rev ?s = r # rest"
    using assms by (auto simp: newest_def split: list.splits)
  then have s: "?s = rev rest @ [r]" by (metis rev.simps(2) rev_rev_ident)
  have mem: "set ?s = set (filter (live p q) t)" by simp
  then show "r \<in> set t" "live p q r" using s by (auto simp: set_eq_iff)
  fix x assume "x \<in> set t" "live p q x"
  then have "x \<in> set (rev rest @ [r])" using mem s by auto
  moreover have "sorted (map otp_createdAt (rev rest @ [r]))" using s sorted_sort_key [of otp_createdAt "filter (live p q) t"] by simp
  ultimately show "otp_createdAt x \<le> otp_createdAt r" by (auto simp: sorted_append)
qed

section \<open>The invariant\<close>

text \<open>Unused codes of one phone and purpose, a minute or more apart.\<close>

definition spaced :: "otp_code list \<Rightarrow> bool" where
  "spaced t \<longleftrightarrow> (\<forall>r \<in> set t. \<forall>s \<in> set t. otp_id r \<noteq> otp_id s \<longrightarrow> live (otp_phone r) (otp_purpose r) r
     \<longrightarrow> live (otp_phone r) (otp_purpose r) s \<longrightarrow> 60000 \<le> \<bar>otp_createdAt r - otp_createdAt s\<bar>)"

definition otp_ok :: "db \<Rightarrow> bool" where
  "otp_ok d \<longleftrightarrow> unique_key otp_id (otp_codes d) \<and> list_all (\<lambda>r. otp_attempts r \<le> 5) (otp_codes d)
     \<and> spaced (otp_codes d)"

lemma cooldown_passed:
  "\<not> rat_of_int (now - t) / 1000 < RESEND_COOLDOWN_SECONDS \<longleftrightarrow> t + 60000 \<le> now"
proof -
  have "rat_of_int (now - t) / 1000 < 60 \<longleftrightarrow> rat_of_int (now - t) < rat_of_int 60000" by (simp add: field_simps)
  also have "\<dots> \<longleftrightarrow> now - t < 60000" by (rule of_int_less_iff)
  finally show ?thesis by (auto simp: RESEND_COOLDOWN_SECONDS_def)
qed

text \<open>A request is refused or adds one fresh code.\<close>

lemma requestOtp_cases:
  assumes "requestOtp env n rnd now p q u (d, out) = (r, (d', out'))"
  obtains (refused) k where "r = Inl (TooManyRequests k)" "d' = d" "out' = out"
      "\<exists>x. newest p q (otp_codes d) = Some x \<and> now < otp_createdAt x + 60000"
  | (sent) row where "d' = d\<lparr>otp_codes := insert_row row (otp_codes d)\<rparr>" "otp_id row = n"
      "otp_phone row = p" "otp_purpose row = q" "otp_createdAt row = now" "otp_attempts row = 0"
      "otp_expiresAt row = now + 300000" "otp_consumedAt row = None"
      "otp_codeHash row = sha256Hash env (code_text rnd)"
      "r = Inr (if debugExposeEnabled env then Some (code_text rnd) else None)"
      "\<And>x. newest p q (otp_codes d) = Some x \<Longrightarrow> otp_createdAt x + 60000 \<le> now"
proof (cases "\<exists>x. newest p q (otp_codes d) = Some x \<and> now < otp_createdAt x + 60000")
  case True
  then obtain x where x: "newest p q (otp_codes d) = Some x" "now < otp_createdAt x + 60000" by blast
  then have "rat_of_int (now - otp_createdAt x) / 1000 < RESEND_COOLDOWN_SECONDS"
    using cooldown_passed [of now "otp_createdAt x"] by linarith
  with assms x show thesis by (intro refused [OF _ _ _ True]) (auto simp: requestOtp_def Let_def)
next
  case False
  let ?row = "\<lparr>otp_id = n, otp_userId = u, otp_phone = p, otp_codeHash = sha256Hash env (code_text rnd),
    otp_purpose = q, otp_attempts = 0, otp_expiresAt = now + OTP_TTL_MINUTES * 60 * 1000,
    otp_consumedAt = None, otp_createdAt = now\<rparr>"
  have nc: "\<not> rat_of_int (now - otp_createdAt x) / 1000 < RESEND_COOLDOWN_SECONDS"
    if "newest p q (otp_codes d) = Some x" for x
    using False that cooldown_passed [of now "otp_createdAt x"] by auto
  have "d' = d\<lparr>otp_codes := insert_row ?row (otp_codes d)\<rparr>"
    "r = Inr (if debugExposeEnabled env then Some (code_text rnd) else None)"
    using assms nc by (auto simp: requestOtp_def Let_def split: option.splits)
  then show thesis
    using False by (intro sent [of ?row]) (auto simp: OTP_TTL_MINUTES_def not_less)
qed

lemma otp_ok_request:
  assumes "otp_ok d" "fresh_key otp_id n (otp_codes d)"
    "requestOtp env n rnd now p q u (d, out) = (r, (d', out'))"
  shows "otp_ok d'"
  using assms(3)
proof (cases rule: requestOtp_cases)
  case refused
  with assms show ?thesis by simp
next
  case (sent row)
  have far: "otp_createdAt x + 60000 \<le> now" if "x \<in> set (otp_codes d)" "live p q x" for x
  proof (cases "newest p q (otp_codes d)")
    case None
    with that newest_None show ?thesis by blast
  next
    case (Some y)
    with sent(11) [OF Some] newest_Some(3) [OF Some that] show ?thesis by linarith
  qed
  have "spaced (otp_codes d')"
    unfolding spaced_def
  proof (intro ballI impI)
    fix x y assume xy: "x \<in> set (otp_codes d')" "y \<in> set (otp_codes d')" "otp_id x \<noteq> otp_id y"
      and l: "live (otp_phone x) (otp_purpose x) x" "live (otp_phone x) (otp_purpose x) y"
    have "spaced (otp_codes d)" using assms(1) by (simp add: otp_ok_def)
    moreover have "otp_createdAt y + 60000 \<le> now" if "x = row" "y \<in> set (otp_codes d)"
      using far that l sent(3,4) by simp
    moreover have "otp_createdAt x + 60000 \<le> now" if "y = row" "x \<in> set (otp_codes d)"
      using far that l sent(3,4) by (simp add: live_def)
    ultimately show "60000 \<le> \<bar>otp_createdAt x - otp_createdAt y\<bar>"
      using xy l sent(1,5) by (auto simp: spaced_def)
  qed
  then show ?thesis
    using assms(1,2) sent(2,6) by (auto simp: otp_ok_def sent(1) list_all_iff intro!: unique_key_insert)
qed

lemma live_update:
  assumes "\<And>r. otp_phone (f r) = otp_phone r \<and> otp_purpose (f r) = otp_purpose r \<and> otp_createdAt (f r) = otp_createdAt r
      \<and> otp_id (f r) = otp_id r \<and> (otp_consumedAt (f r) = None \<longrightarrow> otp_consumedAt r = None)" "spaced t"
  shows "spaced (update_rows sel f t)"
  unfolding spaced_def
proof (intro ballI impI)
  fix x y assume "x \<in> set (update_rows sel f t)" "y \<in> set (update_rows sel f t)" "otp_id x \<noteq> otp_id y"
    and l: "live (otp_phone x) (otp_purpose x) x" "live (otp_phone x) (otp_purpose x) y"
  then obtain a b where ab: "a \<in> set t" "b \<in> set t" "x = (if sel a then f a else a)" "y = (if sel b then f b else b)"
    by (auto elim!: in_update_rowsE)
  have "otp_id a \<noteq> otp_id b" "live (otp_phone a) (otp_purpose a) a" "live (otp_phone a) (otp_purpose a) b"
    "otp_createdAt x = otp_createdAt a" "otp_createdAt y = otp_createdAt b"
    using \<open>otp_id x \<noteq> otp_id y\<close> l ab(3,4) assms(1) [of a] assms(1) [of b] by (auto simp: live_def split: if_splits)
  with ab(1,2) assms(2) show "60000 \<le> \<bar>otp_createdAt x - otp_createdAt y\<bar>" by (simp add: spaced_def)
qed

lemma otp_ok_verify:
  assumes "otp_ok d"
  shows "otp_ok (snd (verifyOtp env now p q c d))"
proof (cases "newest p q (otp_codes d)")
  case None
  with assms show ?thesis by (simp add: verifyOtp_def)
next
  case (Some x)
  note x = newest_Some(1,2) [OF Some]
  have same: "y = x" if "y \<in> set (otp_codes d)" "otp_id y = otp_id x" for y
    using assms that x(1) unique_key_eq [of otp_id "otp_codes d" y x] by (simp add: otp_ok_def)
  have "otp_attempts y \<le> 4" if "y \<in> set (otp_codes d)" "otp_id y = otp_id x" "\<not> 5 \<le> otp_attempts x" for y
    using same [OF that(1,2)] that(3) by simp
  then show ?thesis
    using assms
    by (auto simp: verifyOtp_def Some otp_ok_def list_all_iff MAX_VERIFY_ATTEMPTS_def
        intro!: unique_key_update live_update elim!: in_update_rowsE)
qed

section \<open>Guessing and reuse\<close>

text \<open>The record of an id after a call.\<close>

definition otp_find :: "db \<Rightarrow> id \<Rightarrow> otp_code option" where
  "otp_find d k = List.find (\<lambda>r. otp_id r = k) (otp_codes d)"

lemma verify_wrong:
  assumes "otp_ok d" "verifyOtp env now p q c d = (Inr False, d')"
  obtains x where "newest p q (otp_codes d) = Some x" "otp_attempts x < 5" "now \<le> otp_expiresAt x"
    "sha256Hash env c \<noteq> otp_codeHash x" "otp_find d (otp_id x) = Some x"
    "otp_find d' (otp_id x) = Some (x\<lparr>otp_attempts := otp_attempts x + 1\<rparr>)"
proof -
  obtain x where x: "newest p q (otp_codes d) = Some x" "otp_attempts x < 5" "now \<le> otp_expiresAt x"
    "sha256Hash env c \<noteq> otp_codeHash x"
    and d': "d' = d\<lparr>otp_codes := update_rows (\<lambda>r. otp_id r = otp_id x)
        (\<lambda>r. r\<lparr>otp_attempts := otp_attempts r + 1\<rparr>) (otp_codes d)\<rparr>"
    using assms(2) by (auto simp: verifyOtp_def MAX_VERIFY_ATTEMPTS_def split: option.splits if_splits)
  have f: "otp_find d (otp_id x) = Some x"
    using assms(1) newest_Some(1) [OF x(1)] unique_key_find [of otp_id "otp_codes d" x]
    by (simp add: otp_find_def otp_ok_def)
  moreover have "otp_find d' (otp_id x) = Some (x\<lparr>otp_attempts := otp_attempts x + 1\<rparr>)"
    using f by (simp add: otp_find_def d' find_key_update)
  ultimately show thesis using x that by blast
qed

lemma verify_right:
  assumes "otp_ok d" "verifyOtp env now p q c d = (Inr True, d')"
  obtains x where "newest p q (otp_codes d) = Some x" "otp_attempts x < 5" "now \<le> otp_expiresAt x"
    "sha256Hash env c = otp_codeHash x" "otp_find d (otp_id x) = Some x"
    "otp_find d' (otp_id x) = Some (x\<lparr>otp_consumedAt := Some now\<rparr>)"
proof -
  obtain x where x: "newest p q (otp_codes d) = Some x" "otp_attempts x < 5" "now \<le> otp_expiresAt x"
    "sha256Hash env c = otp_codeHash x"
    and d': "d' = d\<lparr>otp_codes := update_rows (\<lambda>r. otp_id r = otp_id x)
        (\<lambda>r. r\<lparr>otp_consumedAt := Some now\<rparr>) (otp_codes d)\<rparr>"
    using assms(2) by (auto simp: verifyOtp_def MAX_VERIFY_ATTEMPTS_def split: option.splits if_splits)
  have f: "otp_find d (otp_id x) = Some x"
    using assms(1) newest_Some(1) [OF x(1)] unique_key_find [of otp_id "otp_codes d" x]
    by (simp add: otp_find_def otp_ok_def)
  moreover have "otp_find d' (otp_id x) = Some (x\<lparr>otp_consumedAt := Some now\<rparr>)"
    using f by (simp add: otp_find_def d' find_key_update)
  ultimately show thesis using x that by blast
qed

end
