(* ===== verification/OtpProps.thy ===== *)
theory OtpProps
  imports Otp
begin

text \<open>
  One-time codes: when a request is answered and what it stores, how often a code can be
  guessed, that a code is used once, and that an older code is accepted after a newer one
  has been used.
\<close>

section \<open>Sequences of guesses\<close>

text \<open>The answers to a sequence of verifications for one phone and purpose.\<close>

fun verify_run :: "otp_env \<Rightarrow> string \<Rightarrow> OtpPurpose \<Rightarrow> (time \<times> string) list \<Rightarrow> db \<Rightarrow> bool result list \<times> db" where
  "verify_run env p q [] d = ([], d)"
| "verify_run env p q ((now, c) # tries) d =
     (case verifyOtp env now p q c d of
        (r, d1) \<Rightarrow> (case verify_run env p q tries d1 of (rs, d2) \<Rightarrow> (r # rs, d2)))"

text \<open>How many of the answers were \<open>false\<close>.\<close>

definition wrong :: "bool result list \<Rightarrow> nat" where
  "wrong rs = length (filter (\<lambda>r. r = Inr False) rs)"

text \<open>Codes that may be accepted are a minute apart, so the newest one is unique.\<close>

lemma newest_eq:
  assumes "otp_ok d" "r \<in> set (otp_codes d)" "live p q r"
    "\<And>x. x \<in> set (otp_codes d) \<Longrightarrow> live p q x \<Longrightarrow> otp_createdAt x \<le> otp_createdAt r"
  shows "newest p q (otp_codes d) = Some r"
proof (cases "newest p q (otp_codes d)")
  case None
  with assms newest_None show ?thesis by blast
next
  case (Some x)
  note x = newest_Some [OF Some]
  have eq: "otp_createdAt x = otp_createdAt r"
    using x(3) [OF assms(2,3)] assms(4) [OF x(1,2)] by simp
  have "otp_id x = otp_id r"
  proof (rule ccontr)
    assume "otp_id x \<noteq> otp_id r"
    moreover have "live (otp_phone x) (otp_purpose x) x" "live (otp_phone x) (otp_purpose x) r"
      using x(2) assms(3) by (auto simp: live_def)
    moreover have "spaced (otp_codes d)" using assms(1) by (simp add: otp_ok_def)
    ultimately have "60000 \<le> \<bar>otp_createdAt x - otp_createdAt r\<bar>"
      using x(1) assms(2) by (auto simp: spaced_def)
    with eq show False by simp
  qed
  then have "x = r"
    using assms(1,2) x(1) unique_key_eq [of otp_id "otp_codes d" x r] by (simp add: otp_ok_def)
  with Some show ?thesis by simp
qed

text \<open>One wrong guess leaves the newest code the newest, with one more attempt.\<close>

lemma newest_after_guess:
  assumes "otp_ok d" "newest p q (otp_codes d) = Some x" "sha256Hash env c \<noteq> otp_codeHash x"
    "verifyOtp env now p q c d = (r, d')"
  shows "(r = Inr False \<and> otp_attempts x < 5 \<and>
      newest p q (otp_codes d') = Some (x\<lparr>otp_attempts := otp_attempts x + 1\<rparr>))
    \<or> (r \<noteq> Inr False \<and> r \<noteq> Inr True \<and> d' = d)"
proof (cases "r = Inr False")
  case False
  with assms show ?thesis by (auto simp: verifyOtp_def split: if_splits)
next
  case True
  let ?f = "\<lambda>r. r\<lparr>otp_attempts := otp_attempts r + 1\<rparr>"
  note x = newest_Some [OF assms(2)]
  have d': "otp_codes d' = update_rows (\<lambda>r. otp_id r = otp_id x) ?f (otp_codes d)" and a: "otp_attempts x < 5"
    using assms True by (auto simp: verifyOtp_def MAX_VERIFY_ATTEMPTS_def split: if_splits)
  have "otp_ok d'" using otp_ok_verify [OF assms(1), of env now p q c] assms(4) by simp
  moreover have "?f x \<in> set (otp_codes d')" using in_update_rowsI [OF x(1), of "\<lambda>r. otp_id r = otp_id x" ?f] by (simp add: d')
  moreover have "live p q (?f x)" using x(2) by (simp add: live_def)
  moreover have "otp_createdAt y \<le> otp_createdAt (?f x)" if "y \<in> set (otp_codes d')" "live p q y" for y
  proof -
    from that(1) obtain z where "z \<in> set (otp_codes d)" "y = (if otp_id z = otp_id x then ?f z else z)"
      unfolding d' by (rule in_update_rowsE)
    with that(2) x(3) [of z] show ?thesis by (auto simp: live_def split: if_splits)
  qed
  ultimately have "newest p q (otp_codes d') = Some (?f x)" by (rule newest_eq)
  with True a show ?thesis by simp
qed

lemma wrong_Cons: "wrong (r # rs) = (if r = Inr False then 1 else 0) + wrong rs"
  by (simp add: wrong_def)

lemma guesses_bounded:
  assumes "otp_ok d" "newest p q (otp_codes d) = Some x" "list_all (\<lambda>(t, c). sha256Hash env c \<noteq> otp_codeHash x) tries"
    "verify_run env p q tries d = (rs, d')"
  shows "Inr True \<notin> set rs \<and> otp_ok d' \<and> wrong rs + otp_attempts x \<le> max 5 (otp_attempts x)
    \<and> newest p q (otp_codes d') = Some (x\<lparr>otp_attempts := otp_attempts x + wrong rs\<rparr>)"
  using assms
proof (induction tries arbitrary: d x rs)
  case Nil
  then show ?case by (simp add: wrong_def)
next
  case (Cons tc tries)
  obtain t c where tc: "tc = (t, c)" by (cases tc)
  obtain r d1 where v: "verifyOtp env t p q c d = (r, d1)" by (cases "verifyOtp env t p q c d")
  obtain rs2 where run: "verify_run env p q tries d1 = (rs2, d')" "rs = r # rs2"
    using Cons.prems(4) by (auto simp: tc v split: prod.splits)
  have ok: "otp_ok d1" using otp_ok_verify [OF Cons.prems(1), of env t p q c] v by simp
  from newest_after_guess [OF Cons.prems(1,2) _ v] Cons.prems(3) tc
  consider (hit) "r = Inr False" "otp_attempts x < 5"
      "newest p q (otp_codes d1) = Some (x\<lparr>otp_attempts := otp_attempts x + 1\<rparr>)"
    | (miss) "r \<noteq> Inr False" "r \<noteq> Inr True" "d1 = d"
    by auto
  then show ?case
  proof cases
    case hit
    from Cons.IH [OF ok hit(3) _ run(1)] Cons.prems(3) hit run(2) show ?thesis by (auto simp: wrong_Cons)
  next
    case miss
    from Cons.IH [OF ok _ _ run(1), of x] Cons.prems(2,3) miss run(2) show ?thesis by (auto simp: wrong_Cons)
  qed
qed

section \<open>Properties\<close>

text \<open>
  A one-time code can be guessed at most five times: however many verifications with
  wrong codes are made, and whenever, none succeeds, at most five of them count as an
  attempt, and once five have been counted no code at all is accepted for that phone and
  purpose until a new code is requested.
\<close>

theorem otp_guess_limit:
  assumes "otp_ok d" "newest p q (otp_codes d) = Some x" "otp_attempts x = 0"
    "list_all (\<lambda>(t, c). sha256Hash env c \<noteq> otp_codeHash x) tries"
  shows "Inr True \<notin> set (fst (verify_run env p q tries d))
    \<and> wrong (fst (verify_run env p q tries d)) \<le> 5
    \<and> (wrong (fst (verify_run env p q tries d)) = 5 \<longrightarrow>
         fst (verifyOtp env now p q c (snd (verify_run env p q tries d)))
           \<in> {Inl (BadRequest OtpExpired), Inl (TooManyRequests OtpTooManyAttempts)})"
proof -
  obtain rs d' where run: "verify_run env p q tries d = (rs, d')" by (cases "verify_run env p q tries d")
  note b = guesses_bounded [OF assms(1,2,4) run]
  then have "fst (verifyOtp env now p q c d') \<in> {Inl (BadRequest OtpExpired), Inl (TooManyRequests OtpTooManyAttempts)}"
    if "wrong rs = 5"
    using that assms(3) by (simp add: verifyOtp_def MAX_VERIFY_ATTEMPTS_def)
  with b assms(3) show ?thesis by (simp add: run)
qed

text \<open>
  A one-time code is accepted at most once: a verification that succeeds accepted the
  newest unused code, unexpired and with fewer than five wrong attempts, and uses it up; a
  code that can be accepted afterwards is a different one, sent at least a minute earlier.
\<close>

theorem otp_single_use:
  assumes "otp_ok d" "verifyOtp env now p q c d = (Inr True, d')"
  shows "\<exists>x. newest p q (otp_codes d) = Some x \<and> otp_codeHash x = sha256Hash env c
      \<and> otp_attempts x < 5 \<and> now \<le> otp_expiresAt x
      \<and> otp_find d' (otp_id x) = Some (x\<lparr>otp_consumedAt := Some now\<rparr>)
      \<and> (\<forall>y. newest p q (otp_codes d') = Some y \<longrightarrow>
           otp_id y \<noteq> otp_id x \<and> otp_createdAt y + 60000 \<le> otp_createdAt x)"
proof -
  obtain x where x: "newest p q (otp_codes d) = Some x" "otp_attempts x < 5" "now \<le> otp_expiresAt x"
    "sha256Hash env c = otp_codeHash x" "otp_find d' (otp_id x) = Some (x\<lparr>otp_consumedAt := Some now\<rparr>)"
    using verify_right [OF assms] by blast
  have "otp_id y \<noteq> otp_id x \<and> otp_createdAt y + 60000 \<le> otp_createdAt x"
    if y: "newest p q (otp_codes d') = Some y" for y
  proof -
    let ?f = "\<lambda>r. r\<lparr>otp_consumedAt := Some now\<rparr>"
    have d': "otp_codes d' = update_rows (\<lambda>r. otp_id r = otp_id x) ?f (otp_codes d)"
      using assms(2) x(1,2,3,4) by (auto simp: verifyOtp_def split: if_splits)
    note n = newest_Some [OF y]
    from n(1) obtain z where z: "z \<in> set (otp_codes d)" "y = (if otp_id z = otp_id x then ?f z else z)"
      unfolding d' by (rule in_update_rowsE)
    then have yz: "y = z" "otp_id z \<noteq> otp_id x" using n(2) by (auto simp: live_def split: if_splits)
    have le: "otp_createdAt z \<le> otp_createdAt x" using newest_Some(3) [OF x(1) z(1)] n(2) yz(1) by simp
    have "spaced (otp_codes d)" using assms(1) by (simp add: otp_ok_def)
    then have "60000 \<le> \<bar>otp_createdAt z - otp_createdAt x\<bar>"
      using z(1) yz newest_Some(1,2) [OF x(1)] n(2) by (auto simp: spaced_def live_def)
    with le yz show ?thesis by auto
  qed
  with x show ?thesis by auto
qed

text \<open>
  Requesting a code: it is refused exactly when an unused code for the same phone and
  purpose was sent less than a minute before, and then nothing changes; otherwise exactly
  one message goes to that phone, one code valid for five minutes is stored as a hash, and
  the code itself is in the answer only outside production with the debug switch on.
\<close>

theorem otp_request:
  assumes "requestOtp env n rnd now p q u (d, out) = (r, (d', out'))"
  shows "((\<exists>e. r = Inl e) \<longleftrightarrow> (\<exists>x. newest p q (otp_codes d) = Some x \<and> now < otp_createdAt x + 60000))
    \<and> (case r of
         Inl e \<Rightarrow> d' = d \<and> out' = out \<and> (\<exists>s. e = TooManyRequests (OtpCooldown s) \<and> 0 < s)
       | Inr v \<Rightarrow> out' = out @ [(p, sms_text (code_text rnd))]
           \<and> (\<exists>row. otp_codes d' = otp_codes d @ [row] \<and> live p q row \<and> otp_createdAt row = now
                \<and> otp_expiresAt row = now + 300000 \<and> otp_codeHash row = sha256Hash env (code_text rnd))
           \<and> (v \<noteq> None \<longrightarrow> NODE_ENV env \<noteq> Some ''production'' \<and> OTP_DEBUG_EXPOSE env = Some ''true''))"
proof -
  have refused: "d' = d \<and> out' = out \<and> (\<exists>s. e = TooManyRequests (OtpCooldown s) \<and> 0 < s)" if "r = Inl e" for e
    using assms that by (auto simp: requestOtp_def Let_def split: option.splits if_splits)
  have sent: "out' = out @ [(p, sms_text (code_text rnd))]" if "r = Inr v" for v
    using assms that by (auto simp: requestOtp_def Let_def split: option.splits if_splits)
  show ?thesis
    using assms
  proof (cases rule: requestOtp_cases)
    case refused': refused
    with refused show ?thesis by auto
  next
    case sent': (sent row)
    moreover have "debugExposeEnabled env \<longrightarrow> NODE_ENV env \<noteq> Some ''production'' \<and> OTP_DEBUG_EXPOSE env = Some ''true''"
      by (simp add: debugExposeEnabled_def)
    ultimately show ?thesis using sent by (fastforce simp: insert_row_def live_def not_less)
  qed
qed

section \<open>Concrete codes\<close>

text \<open>Identity in place of the hash; two codes for one phone, two minutes apart.\<close>

definition demo_otp_env :: otp_env where
  "demo_otp_env = \<lparr>sha256Hash = (\<lambda>s. s), NODE_ENV = Some ''production'', OTP_DEBUG_EXPOSE = Some ''true''\<rparr>"

definition demo_code :: "id \<Rightarrow> string \<Rightarrow> time \<Rightarrow> otp_code" where
  "demo_code k c t = \<lparr>otp_id = k, otp_userId = None, otp_phone = ''09120000000'', otp_codeHash = c,
     otp_purpose = LOGIN, otp_attempts = 0, otp_expiresAt = t + 300000, otp_consumedAt = None, otp_createdAt = t\<rparr>"

definition demo_otps :: db where
  "demo_otps = empty_db\<lparr>otp_codes := [demo_code ''a'' ''111111'' 0, demo_code ''b'' ''222222'' 120000]\<rparr>"

lemmas demo_otp_defs = demo_otps_def demo_otp_env_def demo_code_def empty_db_def

lemma demo_otp_ok: "otp_ok demo_otps"
  by (simp add: otp_ok_def demo_otp_defs unique_key_def spaced_def live_def)

lemma demo_newest: "newest ''09120000000'' LOGIN (otp_codes demo_otps) = Some (demo_code ''b'' ''222222'' 120000)"
  by (simp add: newest_def demo_otp_defs live_def)

theorem otp_guess_limit_witness:
  "wrong (fst (verify_run demo_otp_env ''09120000000'' LOGIN (replicate 7 (130000, ''111111'')) demo_otps)) \<le> 5"
  using otp_guess_limit [OF demo_otp_ok demo_newest, of demo_otp_env "replicate 7 (130000, ''111111'')"]
  by (simp add: demo_otp_env_def demo_code_def list_all_iff)

text \<open>
  A newer code does not cancel an older one: with two unexpired codes sent two minutes
  apart, the newer one is accepted first and the older one, refused until then, is accepted
  after it. Each request therefore leaves its code usable until it expires.
\<close>

theorem older_code_accepted_again:
  "fst (verifyOtp demo_otp_env 130000 ''09120000000'' LOGIN ''111111'' demo_otps) = Inr False
   \<and> fst (verify_run demo_otp_env ''09120000000'' LOGIN [(130000, ''222222''), (140000, ''111111'')] demo_otps)
     = [Inr True, Inr True]"
  by (simp add: verifyOtp_def newest_def live_def demo_otp_defs MAX_VERIFY_ATTEMPTS_def)

theorem otp_single_use_witness:
  "\<exists>d'. verifyOtp demo_otp_env 130000 ''09120000000'' LOGIN ''222222'' demo_otps = (Inr True, d')
     \<and> (\<forall>y. newest ''09120000000'' LOGIN (otp_codes d') = Some y \<longrightarrow> otp_id y \<noteq> ''b'')"
proof -
  obtain d' where d': "verifyOtp demo_otp_env 130000 ''09120000000'' LOGIN ''222222'' demo_otps = (Inr True, d')"
    by (simp add: verifyOtp_def demo_newest) (simp add: demo_otp_defs MAX_VERIFY_ATTEMPTS_def)
  from otp_single_use [OF demo_otp_ok this] have "\<forall>y. newest ''09120000000'' LOGIN (otp_codes d') = Some y \<longrightarrow> otp_id y \<noteq> ''b''"
    by (auto simp: demo_newest) (simp add: demo_code_def)
  with d' show ?thesis by blast
qed

theorem otp_request_witness:
  "\<exists>d' out'. requestOtp demo_otp_env ''c'' 7 200000 ''09120000000'' LOGIN None (demo_otps, []) = (Inr None, (d', out'))
     \<and> out' = [(''09120000000'', ''Your code: 000007 (valid for 5 minutes)'')]"
proof -
  obtain r d' out' where q: "requestOtp demo_otp_env ''c'' 7 200000 ''09120000000'' LOGIN None (demo_otps, []) = (r, (d', out'))"
    by (metis prod.exhaust)
  have r: "r = Inr None"
    using q by (simp add: requestOtp_def demo_newest Let_def)
      (simp add: demo_otp_defs debugExposeEnabled_def RESEND_COOLDOWN_SECONDS_def)
  have "code_text 7 = ''000007''" by code_simp
  with otp_request [OF q] q r show ?thesis by (simp add: sms_text_def)
qed

end
