(* ===== verification/Auth.thy ===== *)
theory Auth
  imports Otp Referral Wallet
begin

text \<open>
  \<open>modules/auth/auth.service.ts\<close>, \<open>auth/strategies/jwt.strategy.ts\<close> and
  \<open>modules/users/users.service.ts\<close>: registration, login, password reset, the rotation of
  refresh tokens, and the user's own account. Password hashing (bcrypt), SHA-256 and the
  signing of access tokens are parameters; random tokens are arguments.
\<close>

section \<open>Requests, answers and the environment\<close>

record VerifyRegisterDto =
  vr_phone :: string
  vr_code :: string
  vr_fullName :: string
  vr_password :: string
  vr_referralCode :: "string option"

record LoginDto =
  lg_phone :: string
  lg_password :: string

record ResetPasswordDto =
  rp_phone :: string
  rp_code :: string
  rp_newPassword :: string

record UpdateProfileDto =
  up_fullName :: "string option"
  up_email :: "string option"
  up_avatarUrl :: "string option"

record TokenPair =
  accessToken :: string
  refreshToken :: string

record DeviceContext =
  deviceInfo :: "string option"
  ipAddress :: "string option"

text \<open>
  \<open>hashPassword salt plain\<close> and \<open>verifyPassword plain hash\<close> are bcrypt's; \<open>signAsync\<close> signs
  the payload at a time; \<open>JWT_REFRESH_EXPIRES_IN\<close> defaults to \<open>30d\<close>.
\<close>

record auth_env = otp_env +
  hashPassword :: "string \<Rightarrow> string \<Rightarrow> string"
  verifyPassword :: "string \<Rightarrow> string \<Rightarrow> bool"
  signAsync :: "time \<Rightarrow> id \<Rightarrow> GlobalRole \<Rightarrow> string"
  JWT_REFRESH_EXPIRES_IN :: string

text \<open>The fresh random values of a call: row ids and the raw refresh token.\<close>

record fresh_ids =
  new_user :: id
  new_wallet :: id
  new_account_id :: id
  new_referral :: id
  new_token_id :: id
  raw_token :: string

section \<open>Tokens\<close>

text \<open>\<open>/^(\d+)d$/\<close>: the digits before a final \<open>d\<close>, otherwise 30.\<close>

definition parseDays :: "string \<Rightarrow> int" where
  "parseDays value =
     (if value \<noteq> [] \<and> last value = CHR ''d'' \<and> butlast value \<noteq> []
      then (case read_num 0 (butlast value) of Some n \<Rightarrow> n | None \<Rightarrow> 30) else 30)"

definition find_token :: "db \<Rightarrow> string \<Rightarrow> refresh_token option" where
  "find_token d tokenHash = List.find (\<lambda>t. rt_tokenHash t = tokenHash) (refresh_tokens d)"

definition issueTokenPair :: "auth_env \<Rightarrow> time \<Rightarrow> id \<Rightarrow> string \<Rightarrow> id \<Rightarrow> GlobalRole \<Rightarrow> DeviceContext \<Rightarrow> db
    \<Rightarrow> TokenPair result \<times> db" where
  "issueTokenPair env now newId raw userId role ctx d =
     (let h = sha256Hash env raw;
          refreshDays = parseDays (JWT_REFRESH_EXPIRES_IN env);
          row = \<lparr>rt_id = newId, rt_userId = userId, rt_tokenHash = h, rt_deviceInfo = deviceInfo ctx,
                 rt_ipAddress = ipAddress ctx, rt_expiresAt = now + refreshDays * 24 * 60 * 60 * 1000,
                 rt_revokedAt = None, rt_createdAt = now\<rparr>
      in if find_token d h \<noteq> None then (Inl UniqueViolation, d)
         else (Inr \<lparr>accessToken = signAsync env now userId role, refreshToken = raw\<rparr>,
               d\<lparr>refresh_tokens := insert_row row (refresh_tokens d)\<rparr>))"

definition revoke_where :: "(refresh_token \<Rightarrow> bool) \<Rightarrow> time \<Rightarrow> db \<Rightarrow> db" where
  "revoke_where sel now d =
     d\<lparr>refresh_tokens := update_rows sel (\<lambda>t. t\<lparr>rt_revokedAt := Some now\<rparr>) (refresh_tokens d)\<rparr>"

definition find_user :: "db \<Rightarrow> id \<Rightarrow> user option" where
  "find_user d userId = List.find (\<lambda>u. usr_id u = userId) (users d)"

definition find_phone :: "db \<Rightarrow> string \<Rightarrow> user option" where
  "find_phone d phone = List.find (\<lambda>u. usr_phone u = phone) (users d)"

definition refreshTokens :: "auth_env \<Rightarrow> time \<Rightarrow> id \<Rightarrow> string \<Rightarrow> string \<Rightarrow> DeviceContext \<Rightarrow> db \<Rightarrow> TokenPair result \<times> db" where
  "refreshTokens env now newId newRaw rawRefreshToken ctx d =
     (case find_token d (sha256Hash env rawRefreshToken) of
        None \<Rightarrow> (Inl (Unauthorized SessionExpired), d)
      | Some record \<Rightarrow>
          if rt_revokedAt record \<noteq> None \<or> rt_expiresAt record < now
          then (Inl (Unauthorized SessionExpired), d)
          else (case find_user d (rt_userId record) of
             None \<Rightarrow> (Inl (Unauthorized AccountInvalid), d)
           | Some user \<Rightarrow>
               if usr_status user \<noteq> Acc_ACTIVE then (Inl (Unauthorized AccountInvalid), d)
               else issueTokenPair env now newId newRaw (usr_id user) (usr_globalRole user) ctx
                      (revoke_where (\<lambda>t. rt_id t = rt_id record) now d)))"

definition logout :: "auth_env \<Rightarrow> time \<Rightarrow> string \<Rightarrow> db \<Rightarrow> db" where
  "logout env now rawRefreshToken d =
     revoke_where (\<lambda>t. rt_tokenHash t = sha256Hash env rawRefreshToken \<and> rt_revokedAt t = None) now d"

section \<open>Registration\<close>

definition requestRegisterOtp :: "auth_env \<Rightarrow> id \<Rightarrow> int \<Rightarrow> time \<Rightarrow> string \<Rightarrow> db \<times> outbox
    \<Rightarrow> string option result \<times> (db \<times> outbox)" where
  "requestRegisterOtp env newId rnd now phone st =
     (case find_phone (fst st) phone of
        Some _ \<Rightarrow> (Inl (Conflict PhoneTaken), st)
      | None \<Rightarrow> requestOtp (otp_env.truncate env) newId rnd now phone REGISTER None st)"

definition verifyRegisterAndCreateUser :: "auth_env \<Rightarrow> fresh_ids \<Rightarrow> string \<Rightarrow> time \<Rightarrow> VerifyRegisterDto \<Rightarrow> DeviceContext
    \<Rightarrow> db \<Rightarrow> TokenPair result \<times> db" where
  "verifyRegisterAndCreateUser env ids salt now dto ctx d =
     (case verifyOtp (otp_env.truncate env) now (vr_phone dto) REGISTER (vr_code dto) d of
        (Inl e, d1) \<Rightarrow> (Inl e, d1)
      | (Inr False, d1) \<Rightarrow> (Inl (BadRequest CodeWrong), d1)
      | (Inr True, d1) \<Rightarrow>
          (case find_phone d1 (vr_phone dto) of
             Some _ \<Rightarrow> (Inl (Conflict PhoneTaken), d1)
           | None \<Rightarrow>
               (let user = \<lparr>usr_id = new_user ids, usr_phone = vr_phone dto, usr_email = None,
                            usr_passwordHash = hashPassword env salt (vr_password dto),
                            usr_fullName = vr_fullName dto, usr_avatarUrl = None, usr_globalRole = USER,
                            usr_status = Acc_ACTIVE, usr_phoneVerified = True, usr_emailVerified = False,
                            usr_deletedAt = None\<rparr>;
                    d2 = d1\<lparr>users := insert_row user (users d1),
                            wallets := insert_row \<lparr>wal_id = new_wallet ids, wal_userId = new_user ids,
                                                   wal_balance = 0\<rparr> (wallets d1),
                            loyalty_accounts := insert_row (new_account (new_account_id ids) (new_user ids))
                                                  (loyalty_accounts d1)\<rparr>;
                    d3 = (if truthy (vr_referralCode dto)
                          then registerReferral (new_referral ids) (the (vr_referralCode dto)) (new_user ids) d2
                          else d2)
                in issueTokenPair env now (new_token_id ids) (raw_token ids) (new_user ids) USER ctx d3)))"

section \<open>Login\<close>

definition loginWithPassword :: "auth_env \<Rightarrow> time \<Rightarrow> id \<Rightarrow> string \<Rightarrow> LoginDto \<Rightarrow> DeviceContext \<Rightarrow> db
    \<Rightarrow> TokenPair result \<times> db" where
  "loginWithPassword env now newId raw dto ctx d =
     (case find_phone d (lg_phone dto) of
        None \<Rightarrow> (Inl (Unauthorized BadCredentials), d)
      | Some user \<Rightarrow>
          if usr_status user \<noteq> Acc_ACTIVE then (Inl (Unauthorized BadCredentials), d)
          else if \<not> verifyPassword env (lg_password dto) (usr_passwordHash user)
          then (Inl (Unauthorized BadCredentials), d)
          else issueTokenPair env now newId raw (usr_id user) (usr_globalRole user) ctx d)"

definition requestLoginOtp :: "auth_env \<Rightarrow> id \<Rightarrow> int \<Rightarrow> time \<Rightarrow> string \<Rightarrow> db \<times> outbox
    \<Rightarrow> string option result \<times> (db \<times> outbox)" where
  "requestLoginOtp env newId rnd now phone st =
     (case find_phone (fst st) phone of
        None \<Rightarrow> (Inr None, st)
      | Some user \<Rightarrow>
          if usr_status user \<noteq> Acc_ACTIVE then (Inr None, st)
          else requestOtp (otp_env.truncate env) newId rnd now phone LOGIN (Some (usr_id user)) st)"

definition verifyLoginOtp :: "auth_env \<Rightarrow> time \<Rightarrow> id \<Rightarrow> string \<Rightarrow> string \<Rightarrow> string \<Rightarrow> DeviceContext \<Rightarrow> db
    \<Rightarrow> TokenPair result \<times> db" where
  "verifyLoginOtp env now newId raw phone code ctx d =
     (case find_phone d phone of
        None \<Rightarrow> (Inl (Unauthorized LoginFailed), d)
      | Some user \<Rightarrow>
          if usr_status user \<noteq> Acc_ACTIVE then (Inl (Unauthorized LoginFailed), d)
          else (case verifyOtp (otp_env.truncate env) now phone LOGIN code d of
             (Inl e, d1) \<Rightarrow> (Inl e, d1)
           | (Inr False, d1) \<Rightarrow> (Inl (BadRequest CodeWrong), d1)
           | (Inr True, d1) \<Rightarrow> issueTokenPair env now newId raw (usr_id user) (usr_globalRole user) ctx d1))"

section \<open>Password reset\<close>

definition forgotPassword :: "auth_env \<Rightarrow> id \<Rightarrow> int \<Rightarrow> time \<Rightarrow> string \<Rightarrow> db \<times> outbox
    \<Rightarrow> string option result \<times> (db \<times> outbox)" where
  "forgotPassword env newId rnd now phone st =
     (case find_phone (fst st) phone of
        None \<Rightarrow> (Inr None, st)
      | Some user \<Rightarrow> requestOtp (otp_env.truncate env) newId rnd now phone RESET_PASSWORD (Some (usr_id user)) st)"

definition resetPassword :: "auth_env \<Rightarrow> string \<Rightarrow> time \<Rightarrow> ResetPasswordDto \<Rightarrow> db \<Rightarrow> unit result \<times> db" where
  "resetPassword env salt now dto d =
     (case find_phone d (rp_phone dto) of
        None \<Rightarrow> (Inl (BadRequest BadRequestGiven), d)
      | Some user \<Rightarrow>
          (case verifyOtp (otp_env.truncate env) now (rp_phone dto) RESET_PASSWORD (rp_code dto) d of
             (Inl e, d1) \<Rightarrow> (Inl e, d1)
           | (Inr False, d1) \<Rightarrow> (Inl (BadRequest CodeWrong), d1)
           | (Inr True, d1) \<Rightarrow>
               (let h = hashPassword env salt (rp_newPassword dto);
                    d2 = d1\<lparr>users := update_rows (\<lambda>u. usr_id u = usr_id user)
                            (\<lambda>u. u\<lparr>usr_passwordHash := h\<rparr>) (users d1)\<rparr>
                in (Inr (), revoke_where (\<lambda>t. rt_userId t = usr_id user \<and> rt_revokedAt t = None) now d2))))"

section \<open>The account\<close>

definition getMe :: "id \<Rightarrow> db \<Rightarrow> user result" where
  "getMe userId d =
     (case find_user d userId of None \<Rightarrow> Inl (Unauthorized UserNotFound) | Some u \<Rightarrow> Inr u)"

text \<open>\<open>JwtStrategy.validate\<close>: the user of a token whose signature has been checked.\<close>

definition jwt_validate :: "id \<Rightarrow> db \<Rightarrow> (id \<times> GlobalRole) result" where
  "jwt_validate sub d =
     (case find_user d sub of
        None \<Rightarrow> Inl (Unauthorized AccountInvalid)
      | Some user \<Rightarrow>
          if usr_status user \<noteq> Acc_ACTIVE then Inl (Unauthorized AccountInvalid)
          else Inr (usr_id user, usr_globalRole user))"

definition update_user :: "id \<Rightarrow> (user \<Rightarrow> user) \<Rightarrow> db \<Rightarrow> user result \<times> db" where
  "update_user userId f d =
     (case find_user d userId of
        None \<Rightarrow> (Inl RecordNotFound, d)
      | Some u \<Rightarrow> (Inr (f u), d\<lparr>users := update_rows (\<lambda>u. usr_id u = userId) f (users d)\<rparr>))"

definition updateProfile :: "id \<Rightarrow> UpdateProfileDto \<Rightarrow> db \<Rightarrow> user result \<times> db" where
  "updateProfile userId dto d =
     (if truthy (up_email dto) \<and>
         (case List.find (\<lambda>u. usr_email u = up_email dto) (users d) of
            None \<Rightarrow> False | Some existing \<Rightarrow> usr_id existing \<noteq> userId)
      then (Inl (Conflict EmailTaken), d)
      else update_user userId
             (\<lambda>u. u\<lparr>usr_fullName := (case up_fullName dto of None \<Rightarrow> usr_fullName u | Some x \<Rightarrow> x),
                    usr_email := (case up_email dto of None \<Rightarrow> usr_email u | Some x \<Rightarrow> Some x),
                    usr_avatarUrl := (case up_avatarUrl dto of None \<Rightarrow> usr_avatarUrl u | Some x \<Rightarrow> Some x),
                    usr_emailVerified := (if truthy (up_email dto) then False else usr_emailVerified u)\<rparr>) d)"

definition listSessions :: "time \<Rightarrow> id \<Rightarrow> db \<Rightarrow> refresh_token list" where
  "listSessions now userId d =
     rev (sort_key rt_createdAt
       (filter (\<lambda>t. rt_userId t = userId \<and> rt_revokedAt t = None \<and> now < rt_expiresAt t) (refresh_tokens d)))"

definition revokeSession :: "time \<Rightarrow> id \<Rightarrow> id \<Rightarrow> db \<Rightarrow> unit result \<times> db" where
  "revokeSession now userId sessionId d =
     (case List.find (\<lambda>t. rt_id t = sessionId) (refresh_tokens d) of
        None \<Rightarrow> (Inl (NotFound SessionNotFound), d)
      | Some session \<Rightarrow>
          if rt_userId session \<noteq> userId then (Inl (NotFound SessionNotFound), d)
          else (Inr (), revoke_where (\<lambda>t. rt_id t = sessionId) now d))"

definition requestAccountDeletion :: "time \<Rightarrow> id \<Rightarrow> db \<Rightarrow> unit result \<times> db" where
  "requestAccountDeletion now userId d =
     (case update_user userId
             (\<lambda>u. u\<lparr>usr_status := Acc_DELETED, usr_deletedAt := Some now, usr_email := None\<rparr>) d of
        (Inl e, d1) \<Rightarrow> (Inl e, d1)
      | (Inr _, d1) \<Rightarrow> (Inr (), revoke_where (\<lambda>t. rt_userId t = userId \<and> rt_revokedAt t = None) now d1))"

end
