(* ===== verification/AccountInv.thy ===== *)
theory AccountInv
  imports Auth PaymentInv
begin

text \<open>
  Accounts and sessions: the keys that the account operations keep (\<open>accounts_ok\<close>), the
  cases of opening and rotating a session and of a registration, and the revocation of all
  sessions of a user.
\<close>

section \<open>Keys of the account tables\<close>

definition accounts_ok :: "db \<Rightarrow> bool" where
  "accounts_ok d \<longleftrightarrow> unique_key usr_id (users d) \<and> unique_key usr_phone (users d)
     \<and> unique_key rt_id (refresh_tokens d) \<and> unique_key rt_tokenHash (refresh_tokens d)"

lemma accounts_ok_cong:
  "users d = users e \<Longrightarrow> refresh_tokens d = refresh_tokens e \<Longrightarrow> accounts_ok d = accounts_ok e"
  by (simp add: accounts_ok_def)

lemma verifyOtp_frame: "\<exists>t. snd (verifyOtp env now p q c d) = d\<lparr>otp_codes := t\<rparr>"
proof -
  have "\<exists>t. d = d\<lparr>otp_codes := t\<rparr>" by (rule exI [of _ "otp_codes d"]) simp
  then show ?thesis by (auto simp: verifyOtp_def split: option.splits)
qed

lemma verifyOtp_state:
  assumes "verifyOtp env now p q c d = (r, d')"
  obtains t where "d' = d\<lparr>otp_codes := t\<rparr>"
  using verifyOtp_frame [of env now p q c d] assms by auto

lemma accounts_frame [simp]:
  "find_phone (d\<lparr>otp_codes := t\<rparr>) = find_phone d" "find_user (d\<lparr>otp_codes := t\<rparr>) = find_user d"
  "find_token (d\<lparr>otp_codes := t\<rparr>) = find_token d"
  "find_token (d\<lparr>users := us\<rparr>) = find_token d"
  "find_user (d\<lparr>refresh_tokens := ts\<rparr>) = find_user d" "find_phone (d\<lparr>refresh_tokens := ts\<rparr>) = find_phone d"
  "find_user (revoke_where sel now d) = find_user d" "find_phone (revoke_where sel now d) = find_phone d"
  by (simp_all add: find_phone_def find_user_def find_token_def revoke_where_def fun_eq_iff)

lemma find_token_revoke:
  "find_token (revoke_where sel now d) h =
     map_option (\<lambda>t. if sel t then t\<lparr>rt_revokedAt := Some now\<rparr> else t) (find_token d h)"
  by (simp add: find_token_def revoke_where_def find_key_update)

lemma find_token_Some: "find_token d h = Some t \<Longrightarrow> t \<in> set (refresh_tokens d) \<and> rt_tokenHash t = h"
  by (auto simp: find_token_def dest: find_SomeD)

lemma accounts_ok_revoke: "accounts_ok d \<Longrightarrow> accounts_ok (revoke_where sel now d)"
  by (auto simp: accounts_ok_def revoke_where_def intro!: unique_key_update)

lemma issue_cases:
  assumes "issueTokenPair env now n raw u role ctx d = (r, d')"
  obtains (taken) "r = Inl UniqueViolation" "d' = d" "find_token d (sha256Hash env raw) \<noteq> None"
  | (issued) t where "r = Inr \<lparr>accessToken = signAsync env now u role, refreshToken = raw\<rparr>"
      "find_token d (sha256Hash env raw) = None" "d' = d\<lparr>refresh_tokens := insert_row t (refresh_tokens d)\<rparr>"
      "rt_id t = n" "rt_userId t = u" "rt_tokenHash t = sha256Hash env raw" "rt_revokedAt t = None"
      "rt_expiresAt t = now + parseDays (JWT_REFRESH_EXPIRES_IN env) * 86400000"
  using assms by (auto simp: issueTokenPair_def Let_def split: if_splits)

lemma accounts_ok_issue:
  assumes "accounts_ok d" "fresh_key rt_id n (refresh_tokens d)" "issueTokenPair env now n raw u role ctx d = (r, d')"
  shows "accounts_ok d'"
  using assms(3)
proof (cases rule: issue_cases)
  case (issued t)
  with assms(1,2) show ?thesis
    by (auto simp: accounts_ok_def find_token_def fresh_key_find [of rt_tokenHash] intro!: unique_key_insert)
qed (use assms in simp)

lemma find_token_issued:
  assumes "d' = d\<lparr>refresh_tokens := insert_row t (refresh_tokens d)\<rparr>" "find_token d (rt_tokenHash t) = None"
  shows "find_token d' h = (if h = rt_tokenHash t then Some t else find_token d h)"
  using assms by (auto simp: find_token_def find_insert_row split: option.splits)

lemma revoked_refused:
  assumes "find_token d (sha256Hash env raw) = Some t" "rt_revokedAt t \<noteq> None"
  shows "refreshTokens env now n new raw ctx d = (Inl (Unauthorized SessionExpired), d)"
  using assms by (auto simp: refreshTokens_def)

lemma refresh_cases:
  assumes "refreshTokens env now n new old ctx d = (r, d')"
  obtains (refused) e where "r = Inl (Unauthorized e)" "d' = d"
  | (taken) "r = Inl UniqueViolation" "\<exists>t :: refresh_token. d' = revoke_where (\<lambda>x. rt_id x = rt_id t) now d"
  | (rotated) t u where "find_token d (sha256Hash env old) = Some t" "rt_revokedAt t = None" "now \<le> rt_expiresAt t"
      "find_user d (rt_userId t) = Some u" "usr_status u = Acc_ACTIVE"
      "issueTokenPair env now n new (usr_id u) (usr_globalRole u) ctx (revoke_where (\<lambda>x. rt_id x = rt_id t) now d) = (r, d')"
      "r = Inr \<lparr>accessToken = signAsync env now (usr_id u) (usr_globalRole u), refreshToken = new\<rparr>"
proof (cases "\<exists>e. r = Inl (Unauthorized e)")
  case True
  then obtain e where "r = Inl (Unauthorized e)" by blast
  with assms show thesis
    by (intro refused [of e]) (auto simp: refreshTokens_def issueTokenPair_def Let_def split: option.splits if_splits)
next
  case False
  then obtain t u where t: "find_token d (sha256Hash env old) = Some t" "rt_revokedAt t = None" "now \<le> rt_expiresAt t"
      "find_user d (rt_userId t) = Some u" "usr_status u = Acc_ACTIVE"
      "issueTokenPair env now n new (usr_id u) (usr_globalRole u) ctx (revoke_where (\<lambda>x. rt_id x = rt_id t) now d) = (r, d')"
    using assms by (fastforce simp: refreshTokens_def split: option.splits if_splits)
  from t(6) show thesis
  proof (cases rule: issue_cases)
    case taken': taken
    then show thesis by (intro taken exI [of _ t])
  next
    case issued
    then show thesis using t by (intro rotated [of t u])
  qed
qed

section \<open>Invariance\<close>

lemma accounts_ok_refresh:
  assumes "accounts_ok d" "fresh_key rt_id n (refresh_tokens d)" "refreshTokens env now n new old ctx d = (r, d')"
  shows "accounts_ok d'"
  using assms(3)
proof (cases rule: refresh_cases)
  case (rotated t u)
  have "fresh_key rt_id n (refresh_tokens (revoke_where (\<lambda>x. rt_id x = rt_id t) now d))"
    using assms(2) by (auto simp: fresh_key_def revoke_where_def image_update_rows_same)
  then show ?thesis using accounts_ok_issue [OF accounts_ok_revoke [OF assms(1)] _ rotated(6)] by blast
qed (use assms(1) accounts_ok_revoke in auto)

lemma update_user_cases:
  assumes "update_user u f d = (r, d')"
  obtains (none) "r = Inl RecordNotFound" "d' = d"
  | (updated) x where "find_user d u = Some x" "r = Inr (f x)"
      "d' = d\<lparr>users := update_rows (\<lambda>x. usr_id x = u) f (users d)\<rparr>"
  using assms by (auto simp: update_user_def split: option.splits)

lemma accounts_ok_update_user:
  assumes "accounts_ok d" "\<And>x. usr_id (f x) = usr_id x" "\<And>x. usr_phone (f x) = usr_phone x"
  shows "accounts_ok (snd (update_user u f d))"
  using assms by (auto simp: update_user_def accounts_ok_def intro!: unique_key_update split: option.splits)

lemma find_phone_user:
  assumes "accounts_ok d" "find_user d k = Some u"
  shows "find_phone d (usr_phone u) = Some u"
  using assms unique_key_find [of usr_phone "users d" u]
  by (auto simp: accounts_ok_def find_user_def find_phone_def dest: find_SomeD)

lemma find_user_phone:
  assumes "accounts_ok d" "find_phone d p = Some u"
  shows "find_user d (usr_id u) = Some u" "usr_phone u = p"
  using assms unique_key_find [of usr_id "users d" u]
  by (auto simp: accounts_ok_def find_user_def find_phone_def dest: find_SomeD)

section \<open>Revoking every session\<close>

text \<open>Every session of a user is revoked.\<close>

definition all_revoked :: "db \<Rightarrow> id \<Rightarrow> bool" where
  "all_revoked d u \<longleftrightarrow> list_all (\<lambda>t. rt_userId t = u \<longrightarrow> rt_revokedAt t \<noteq> None) (refresh_tokens d)"

lemma revoke_all: "all_revoked (revoke_where (\<lambda>t. rt_userId t = u \<and> rt_revokedAt t = None) now d) u"
  by (auto simp: all_revoked_def revoke_where_def list_all_iff elim!: in_update_rowsE split: if_splits)

lemma all_revoked_refused:
  assumes "all_revoked d u" "find_token d (sha256Hash env raw) = Some t" "rt_userId t = u"
  shows "refreshTokens env now n new raw ctx d = (Inl (Unauthorized SessionExpired), d)"
  using assms find_token_Some [OF assms(2)]
  by (intro revoked_refused [OF assms(2)]) (auto simp: all_revoked_def list_all_iff)

lemma all_revoked_sessions: "all_revoked d u \<Longrightarrow> listSessions now u d = []"
  by (auto simp: all_revoked_def listSessions_def list_all_iff filter_empty_conv)

lemma token_owner_revoke:
  assumes "find_token d h = Some t"
  shows "\<exists>x. find_token (revoke_where sel now d) h = Some x \<and> rt_userId x = rt_userId t"
  using assms by (auto simp: find_token_revoke)

section \<open>Registration\<close>

text \<open>The ids of a registration are new: random UUIDs that no row carries yet.\<close>

definition registration_fresh :: "db \<Rightarrow> fresh_ids \<Rightarrow> bool" where
  "registration_fresh d ids \<longleftrightarrow> fresh_key usr_id (new_user ids) (users d)
     \<and> fresh_key wal_id (new_wallet ids) (wallets d) \<and> fresh_key wal_userId (new_user ids) (wallets d)
     \<and> fresh_key la_id (new_account_id ids) (loyalty_accounts d)
     \<and> fresh_key la_userId (new_user ids) (loyalty_accounts d)
     \<and> fresh_key ref_id (new_referral ids) (referrals d) \<and> fresh_key ref_refereeId (new_user ids) (referrals d)
     \<and> fresh_key rt_id (new_token_id ids) (refresh_tokens d)"

text \<open>The row and the state before the session is opened.\<close>

definition registered_user :: "auth_env \<Rightarrow> fresh_ids \<Rightarrow> string \<Rightarrow> VerifyRegisterDto \<Rightarrow> user" where
  "registered_user env ids salt dto =
     \<lparr>usr_id = new_user ids, usr_phone = vr_phone dto, usr_email = None,
      usr_passwordHash = hashPassword env salt (vr_password dto), usr_fullName = vr_fullName dto,
      usr_avatarUrl = None, usr_globalRole = USER, usr_status = Acc_ACTIVE, usr_phoneVerified = True,
      usr_emailVerified = False, usr_deletedAt = None\<rparr>"

definition registered_db :: "auth_env \<Rightarrow> fresh_ids \<Rightarrow> string \<Rightarrow> VerifyRegisterDto \<Rightarrow> db \<Rightarrow> db" where
  "registered_db env ids salt dto d =
     (let d2 = d\<lparr>users := insert_row (registered_user env ids salt dto) (users d),
                 wallets := insert_row \<lparr>wal_id = new_wallet ids, wal_userId = new_user ids, wal_balance = 0\<rparr> (wallets d),
                 loyalty_accounts := insert_row (new_account (new_account_id ids) (new_user ids)) (loyalty_accounts d)\<rparr>
      in if truthy (vr_referralCode dto)
         then registerReferral (new_referral ids) (the (vr_referralCode dto)) (new_user ids) d2 else d2)"

lemma register_cases:
  assumes "verifyRegisterAndCreateUser env ids salt now dto ctx d = (r, d')"
  obtains (refused) e t v where "r = Inl e" "d' = d\<lparr>otp_codes := t\<rparr>"
      "verifyOtp (otp_env.truncate env) now (vr_phone dto) REGISTER (vr_code dto) d = (v, d')"
  | (created) t where
      "verifyOtp (otp_env.truncate env) now (vr_phone dto) REGISTER (vr_code dto) d = (Inr True, d\<lparr>otp_codes := t\<rparr>)"
      "find_phone d (vr_phone dto) = None"
      "issueTokenPair env now (new_token_id ids) (raw_token ids) (new_user ids) USER ctx
         (registered_db env ids salt dto (d\<lparr>otp_codes := t\<rparr>)) = (r, d')"
proof -
  obtain v d1 where v: "verifyOtp (otp_env.truncate env) now (vr_phone dto) REGISTER (vr_code dto) d = (v, d1)"
    by (cases "verifyOtp (otp_env.truncate env) now (vr_phone dto) REGISTER (vr_code dto) d")
  obtain t where t: "d1 = d\<lparr>otp_codes := t\<rparr>" using v by (rule verifyOtp_state)
  show thesis
  proof (cases "v = Inr True \<and> find_phone d (vr_phone dto) = None")
    case True
    with assms v t show thesis
      by (intro created [of t])
        (simp_all add: verifyRegisterAndCreateUser_def registered_db_def registered_user_def Let_def)
  next
    case False
    with assms v t have "\<exists>e. r = Inl e" "d' = d1"
      by (auto simp: verifyRegisterAndCreateUser_def split: sum.splits bool.splits option.splits)
    with t v refused show thesis by blast
  qed
qed

lemma registerReferral_frame:
  "users (registerReferral n c u d) = users d" "wallets (registerReferral n c u d) = wallets d"
  "wallet_txs (registerReferral n c u d) = wallet_txs d" "refresh_tokens (registerReferral n c u d) = refresh_tokens d"
  "loyalty_accounts (registerReferral n c u d) = loyalty_accounts d"
  "loyalty_txs (registerReferral n c u d) = loyalty_txs d" "bookings (registerReferral n c u d) = bookings d"
  by (simp_all add: registerReferral_def split: option.splits)

lemma registered_frame:
  "users (registered_db env ids salt dto d) = insert_row (registered_user env ids salt dto) (users d)"
  "wallets (registered_db env ids salt dto d) =
     insert_row \<lparr>wal_id = new_wallet ids, wal_userId = new_user ids, wal_balance = 0\<rparr> (wallets d)"
  "loyalty_accounts (registered_db env ids salt dto d) =
     insert_row (new_account (new_account_id ids) (new_user ids)) (loyalty_accounts d)"
  "wallet_txs (registered_db env ids salt dto d) = wallet_txs d"
  "loyalty_txs (registered_db env ids salt dto d) = loyalty_txs d"
  "refresh_tokens (registered_db env ids salt dto d) = refresh_tokens d"
  "bookings (registered_db env ids salt dto d) = bookings d"
  by (simp_all add: registered_db_def Let_def registerReferral_frame)

lemma registered_ok:
  assumes "registration_fresh d ids" "find_phone d (vr_phone dto) = None"
  shows "accounts_ok d \<Longrightarrow> accounts_ok (registered_db env ids salt dto d)"
    "wallets_ok d \<Longrightarrow> wallets_ok (registered_db env ids salt dto d)"
    "loyalty_ok d \<Longrightarrow> loyalty_ok (registered_db env ids salt dto d)"
    "referrals_ok d \<Longrightarrow> referrals_ok (registered_db env ids salt dto d)"
proof -
  have ph: "fresh_key usr_phone (vr_phone dto) (users d)"
    using assms(2) by (simp add: find_phone_def fresh_key_find)
  then show "accounts_ok d \<Longrightarrow> accounts_ok (registered_db env ids salt dto d)"
    using assms(1) by (auto simp: accounts_ok_def registered_frame registration_fresh_def registered_user_def
        intro!: unique_key_insert)
  show "wallets_ok d \<Longrightarrow> wallets_ok (registered_db env ids salt dto d)"
    using assms(1) by (auto simp: wallets_ok_def registered_frame registration_fresh_def list_all_iff
        intro!: money.open_account)
  show "loyalty_ok d \<Longrightarrow> loyalty_ok (registered_db env ids salt dto d)"
    using assms(1) by (auto simp: loyalty_ok_def registered_frame registration_fresh_def list_all_iff
        new_account_def tier_for_eq intro!: points.open_account)
  show "referrals_ok d \<Longrightarrow> referrals_ok (registered_db env ids salt dto d)"
    using assms(1) referrals_ok_register
    by (auto simp: registered_db_def registration_fresh_def referrals_ok_def Let_def)
qed

lemma registered_referral:
  assumes "registration_fresh d ids"
  shows "find_referral (registered_db env ids salt dto d) (new_user ids) =
    (if truthy (vr_referralCode dto) \<and> find_user d (the (vr_referralCode dto)) \<noteq> None
     then Some \<lparr>ref_id = new_referral ids, ref_referrerId = the (vr_referralCode dto),
                ref_refereeId = new_user ids, ref_status = Ref_PENDING, ref_rewardedAt = None\<rparr>
     else None)"
proof -
  have new: "find_referral d (new_user ids) = None" "find_user d (new_user ids) = None"
    using assms by (simp_all add: registration_fresh_def find_referral_def find_user_def fresh_key_find)
  then show ?thesis
    by (auto simp: registered_db_def registerReferral_def find_referral_def find_user_def find_insert_row
        registered_user_def Let_def split: option.splits)
qed

end
