(* ===== verification/AccountProps.thy ===== *)
theory AccountProps
  imports AccountInv
begin

text \<open>
  Accounts and sessions: when a login succeeds, the rotation of refresh tokens, what a
  password reset and the deletion of an account do to the sessions, and what a registration
  creates.
\<close>

section \<open>Properties\<close>

text \<open>
  A password login succeeds exactly for an active account and a password that the
  stored hash accepts; every other attempt gets the same answer and changes nothing, so it
  does not reveal whether the phone is registered.
\<close>

theorem login_iff:
  assumes "find_token d (sha256Hash env raw) = None"
  shows "case loginWithPassword env now n raw dto ctx d of (r, d') \<Rightarrow>
    if \<exists>u. find_phone d (lg_phone dto) = Some u \<and> usr_status u = Acc_ACTIVE
         \<and> verifyPassword env (lg_password dto) (usr_passwordHash u)
    then (\<exists>p. r = Inr p \<and> refreshToken p = raw)
    else r = Inl (Unauthorized BadCredentials) \<and> d' = d"
proof (cases "find_phone d (lg_phone dto)")
  case None
  then show ?thesis by (simp add: loginWithPassword_def)
next
  case (Some u)
  with assms show ?thesis
    by (cases "usr_status u = Acc_ACTIVE"; cases "verifyPassword env (lg_password dto) (usr_passwordHash u)")
      (simp_all add: loginWithPassword_def issueTokenPair_def Let_def)
qed

text \<open>
  C28. Rotation: a refresh token buys a new pair exactly once. After a successful refresh the
  old token is refused at every later time, the new one is good for the configured number
  of days, and every other session is as it was.
\<close>

theorem refresh_rotates:
  assumes "accounts_ok d" "refreshTokens env now n new old ctx d = (Inr p, d')"
  shows "refreshToken p = new
    \<and> fst (refreshTokens env later n' new' old ctx' d') = Inl (Unauthorized SessionExpired)
    \<and> (\<exists>t x. find_token d (sha256Hash env old) = Some t \<and> rt_revokedAt t = None \<and> now \<le> rt_expiresAt t
         \<and> find_token d' (sha256Hash env new) = Some x \<and> rt_userId x = rt_userId t \<and> rt_revokedAt x = None
         \<and> rt_expiresAt x = now + parseDays (JWT_REFRESH_EXPIRES_IN env) * 86400000)
    \<and> (h \<noteq> sha256Hash env old \<and> h \<noteq> sha256Hash env new \<longrightarrow> find_token d' h = find_token d h)"
  using assms(2)
proof (cases rule: refresh_cases)
  case (rotated t u)
  let ?d = "revoke_where (\<lambda>x. rt_id x = rt_id t) now d"
  have u: "usr_id u = rt_userId t" using rotated(4) by (auto simp: find_user_def dest: find_SomeD)
  have d1: "find_token ?d h = (if h = sha256Hash env old then Some (t\<lparr>rt_revokedAt := Some now\<rparr>) else find_token d h)" for h
  proof -
    have "rt_id x \<noteq> rt_id t" if "find_token d h = Some x" "h \<noteq> sha256Hash env old" for x
      using that find_token_Some [OF rotated(1)] find_token_Some [OF that(1)] assms(1)
        unique_key_eq [of rt_id "refresh_tokens d" x t] by (auto simp: accounts_ok_def)
    then show ?thesis using rotated(1) by (cases "find_token d h") (auto simp: find_token_revoke)
  qed
  from rotated(6) show ?thesis
  proof (cases rule: issue_cases)
    case (issued x)
    have f: "find_token d' h = (if h = sha256Hash env new then Some x else find_token ?d h)" for h
      using find_token_issued [OF issued(3), of h] issued(2,6) by simp
    have ne: "sha256Hash env old \<noteq> sha256Hash env new" using issued(2) d1 by auto
    have "find_token d' (sha256Hash env old) = Some (t\<lparr>rt_revokedAt := Some now\<rparr>)" using f d1 ne by simp
    from revoked_refused [OF this] rotated issued f d1 ne u show ?thesis by auto
  qed simp
qed auto

text \<open>
  A password reset takes a valid one-time code, ends every session of the account (each
  of its refresh tokens is refused from then on and none is listed), and the new password
  logs in; the password check accepting what the hash made of the same password is bcrypt's
  contract.
\<close>

theorem reset_password_ends_sessions:
  assumes "accounts_ok d" "resetPassword env salt now dto d = (Inr (), d')"
    "\<And>s pw. verifyPassword env pw (hashPassword env s pw)"
  shows "\<exists>u d1. find_phone d (rp_phone dto) = Some u
      \<and> verifyOtp (otp_env.truncate env) now (rp_phone dto) RESET_PASSWORD (rp_code dto) d = (Inr True, d1)
      \<and> (\<forall>raw t. find_token d (sha256Hash env raw) = Some t \<and> rt_userId t = usr_id u \<longrightarrow>
           fst (refreshTokens env later n new raw ctx d') = Inl (Unauthorized SessionExpired))
      \<and> listSessions later (usr_id u) d' = []
      \<and> (usr_status u = Acc_ACTIVE \<and> find_token d' (sha256Hash env new) = None \<longrightarrow>
           (\<exists>p. fst (loginWithPassword env later n new
              \<lparr>lg_phone = rp_phone dto, lg_password = rp_newPassword dto\<rparr> ctx d') = Inr p))"
proof -
  obtain u d1 where u: "find_phone d (rp_phone dto) = Some u"
    and v: "verifyOtp (otp_env.truncate env) now (rp_phone dto) RESET_PASSWORD (rp_code dto) d = (Inr True, d1)"
    using assms(2) by (auto simp: resetPassword_def split: option.splits prod.splits sum.splits bool.splits)
  obtain c where d1: "d1 = d\<lparr>otp_codes := c\<rparr>" using v by (rule verifyOtp_state)
  let ?h = "hashPassword env salt (rp_newPassword dto)"
  let ?d2 = "d1\<lparr>users := update_rows (\<lambda>x. usr_id x = usr_id u) (\<lambda>x. x\<lparr>usr_passwordHash := ?h\<rparr>) (users d1)\<rparr>"
  have d': "d' = revoke_where (\<lambda>t. rt_userId t = usr_id u \<and> rt_revokedAt t = None) now ?d2"
    using assms(2) by (simp add: resetPassword_def u v Let_def)
  have rev: "all_revoked d' (usr_id u)" unfolding d' by (rule revoke_all)
  have "fst (refreshTokens env later n new raw ctx d') = Inl (Unauthorized SessionExpired)"
    if t: "find_token d (sha256Hash env raw) = Some t" "rt_userId t = usr_id u" for raw t
  proof -
    have "find_token ?d2 (sha256Hash env raw) = Some t" using t(1) by (simp add: d1)
    from token_owner_revoke [OF this] obtain x where "find_token d' (sha256Hash env raw) = Some x" "rt_userId x = usr_id u"
      unfolding d' using t(2) by fastforce
    from all_revoked_refused [OF rev this] show ?thesis by simp
  qed
  moreover have "find_phone d' (rp_phone dto) = Some (u\<lparr>usr_passwordHash := ?h\<rparr>)"
    using u by (simp add: d' d1 find_phone_def find_key_update)
  then have "fst (loginWithPassword env later n new \<lparr>lg_phone = rp_phone dto, lg_password = rp_newPassword dto\<rparr> ctx d')
      = Inr \<lparr>accessToken = signAsync env later (usr_id u) (usr_globalRole u), refreshToken = new\<rparr>"
    if "usr_status u = Acc_ACTIVE" "find_token d' (sha256Hash env new) = None"
    using that assms(3) by (simp add: loginWithPassword_def issueTokenPair_def Let_def)
  ultimately show ?thesis using u v all_revoked_sessions [OF rev] by (intro exI [of _ u] exI [of _ d1]) auto
qed

text \<open>
  A password reset leaves the status of an account alone.
\<close>

lemma reset_keeps_status:
  assumes "resetPassword env salt now dto d = (r, d')" "find_phone d p = Some u"
  shows "\<exists>u'. find_phone d' p = Some u' \<and> usr_status u' = usr_status u"
proof -
  obtain v d1 where v: "verifyOtp (otp_env.truncate env) now (rp_phone dto) RESET_PASSWORD (rp_code dto) d = (v, d1)" by fastforce
  obtain c where d1: "d1 = d\<lparr>otp_codes := c\<rparr>" using v by (rule verifyOtp_state)
  have "users d' = users d \<or> (\<exists>sel h. users d' = update_rows sel (usr_passwordHash_update (\<lambda>_. h)) (users d))"
  proof (cases "v = Inr True \<and> find_phone d (rp_phone dto) \<noteq> None")
    case True
    then obtain w where "find_phone d (rp_phone dto) = Some w" by blast
    with True have "users d' = update_rows (\<lambda>x. usr_id x = usr_id w)
        (usr_passwordHash_update (\<lambda>_. hashPassword env salt (rp_newPassword dto))) (users d)"
      using assms(1) by (auto simp: resetPassword_def v d1 Let_def revoke_where_def)
    then show ?thesis by blast
  next
    case False
    then show ?thesis using assms(1)
      by (intro disjI1) (auto simp: resetPassword_def v d1 split: option.splits sum.splits bool.splits)
  qed
  then show ?thesis using assms(2) by (auto simp: find_phone_def find_key_update split: if_splits)
qed

text \<open>
  C31. A deleted account is locked out completely: its access tokens are refused on every
  request, no session is listed, and each of the four ways to get new tokens is closed at any
  later time: its refresh tokens are refused, its password
  does not log in, no login code is sent to its phone and none that was sent before the
  deletion is accepted, and its phone cannot be registered again. A password reset, which
  the code still allows, opens none of them.
\<close>

theorem deletion_locks_out:
  assumes "accounts_ok d" "requestAccountDeletion now k d = (Inr (), d')"
  shows "jwt_validate k d' = Inl (Unauthorized AccountInvalid)
    \<and> listSessions later k d' = []
    \<and> (\<exists>u. find_user d k = Some u
        \<and> (\<forall>raw t. find_token d (sha256Hash env raw) = Some t \<and> rt_userId t = k \<longrightarrow>
             fst (refreshTokens env later n new raw ctx d') = Inl (Unauthorized SessionExpired))
        \<and> loginWithPassword env later n new \<lparr>lg_phone = usr_phone u, lg_password = pw\<rparr> ctx d'
            = (Inl (Unauthorized BadCredentials), d')
        \<and> requestLoginOtp env n rnd later (usr_phone u) (d', out) = (Inr None, (d', out))
        \<and> verifyLoginOtp env later n new (usr_phone u) code ctx d' = (Inl (Unauthorized LoginFailed), d')
        \<and> requestRegisterOtp env n rnd later (usr_phone u) (d', out) = (Inl (Conflict PhoneTaken), (d', out))
        \<and> (\<exists>e. fst (verifyRegisterAndCreateUser env ids salt later (dto\<lparr>vr_phone := usr_phone u\<rparr>) ctx d') = Inl e)
        \<and> (\<forall>x d''. resetPassword env salt later \<lparr>rp_phone = usr_phone u, rp_code = code, rp_newPassword = pw\<rparr> d' = (x, d'') \<longrightarrow>
             loginWithPassword env t n new \<lparr>lg_phone = usr_phone u, lg_password = pw\<rparr> ctx d'' = (Inl (Unauthorized BadCredentials), d'')
             \<and> verifyLoginOtp env t n new (usr_phone u) code' ctx d'' = (Inl (Unauthorized LoginFailed), d'')))"
proof -
  let ?f = "\<lambda>u. u\<lparr>usr_status := Acc_DELETED, usr_deletedAt := Some now, usr_email := None\<rparr>"
  obtain u where u: "find_user d k = Some u" using assms(2)
    by (auto simp: requestAccountDeletion_def update_user_def split: option.splits)
  let ?d1 = "d\<lparr>users := update_rows (\<lambda>u. usr_id u = k) ?f (users d)\<rparr>"
  have d': "d' = revoke_where (\<lambda>t. rt_userId t = k \<and> rt_revokedAt t = None) now ?d1"
    using assms(2) u by (simp add: requestAccountDeletion_def update_user_def)
  have rev: "all_revoked d' k" unfolding d' by (rule revoke_all)
  have k: "usr_id u = k" using u by (auto simp: find_user_def dest: find_SomeD)
  have user: "find_user d' k = Some (?f u)" using u k by (simp add: d' find_user_def find_key_update)
  have phone: "find_phone d' (usr_phone u) = Some (?f u)"
    using find_phone_user [OF assms(1) u] k by (simp add: d' find_phone_def find_key_update)
  have closed: "loginWithPassword env s n new \<lparr>lg_phone = usr_phone u, lg_password = pw\<rparr> ctx e = (Inl (Unauthorized BadCredentials), e)"
    "verifyLoginOtp env s n new (usr_phone u) c ctx e = (Inl (Unauthorized LoginFailed), e)"
    if "find_phone e (usr_phone u) = Some x" "usr_status x = Acc_DELETED" for e s c x
    using that by (simp_all add: loginWithPassword_def verifyLoginOtp_def)
  have refresh: "fst (refreshTokens env later n new raw ctx d') = Inl (Unauthorized SessionExpired)"
    if t: "find_token d (sha256Hash env raw) = Some t" "rt_userId t = k" for raw t
  proof -
    have "find_token ?d1 (sha256Hash env raw) = Some t" using t(1) by simp
    from token_owner_revoke [OF this] obtain x where "find_token d' (sha256Hash env raw) = Some x" "rt_userId x = k"
      unfolding d' using t(2) by fastforce
    from all_revoked_refused [OF rev this] show ?thesis by simp
  qed
  have register: "\<exists>e. fst (verifyRegisterAndCreateUser env ids salt later (dto\<lparr>vr_phone := usr_phone u\<rparr>) ctx d') = Inl e"
  proof -
    obtain r e where r: "verifyRegisterAndCreateUser env ids salt later (dto\<lparr>vr_phone := usr_phone u\<rparr>) ctx d' = (r, e)" by fastforce
    then show ?thesis by (cases rule: register_cases) (use r phone in simp_all)
  qed
  have reset: "loginWithPassword env t n new \<lparr>lg_phone = usr_phone u, lg_password = pw\<rparr> ctx e = (Inl (Unauthorized BadCredentials), e)
      \<and> verifyLoginOtp env t n new (usr_phone u) code' ctx e = (Inl (Unauthorized LoginFailed), e)"
    if "resetPassword env salt later \<lparr>rp_phone = usr_phone u, rp_code = code, rp_newPassword = pw\<rparr> d' = (x, e)" for x e
  proof -
    from reset_keeps_status [OF that phone] obtain y where "find_phone e (usr_phone u) = Some y" "usr_status y = Acc_DELETED" by auto
    from closed [OF this] show ?thesis by simp
  qed
  have "jwt_validate k d' = Inl (Unauthorized AccountInvalid)" using user by (simp add: jwt_validate_def)
  moreover have "requestLoginOtp env n rnd later (usr_phone u) (d', out) = (Inr None, (d', out))"
    "requestRegisterOtp env n rnd later (usr_phone u) (d', out) = (Inl (Conflict PhoneTaken), (d', out))"
    using phone by (simp_all add: requestLoginOtp_def requestRegisterOtp_def)
  ultimately show ?thesis
    using u refresh closed [OF phone] register reset all_revoked_sessions [OF rev] by (intro conjI exI [of _ u]) simp_all
qed

text \<open>
  C32. A registration proves the phone with a one-time code and then creates everything an
  account needs: the active user, an empty wallet, a loyalty account without points, the
  pending referral when the code names an existing user, and a session whose token works;
  and it keeps the keys, the ledgers and the referrals consistent.
\<close>

theorem registration_complete:
  assumes "registration_fresh d ids" "verifyRegisterAndCreateUser env ids salt now dto ctx d = (Inr p, d')"
    "accounts_ok d" "wallets_ok d" "loyalty_ok d" "referrals_ok d"
  shows "(\<exists>d1. verifyOtp (otp_env.truncate env) now (vr_phone dto) REGISTER (vr_code dto) d = (Inr True, d1))
    \<and> find_phone d (vr_phone dto) = None \<and> jwt_validate (new_user ids) d' = Inr (new_user ids, USER)
    \<and> find_phone d' (vr_phone dto) = Some (registered_user env ids salt dto)
    \<and> map_option wal_balance (find_wallet d' (new_user ids)) = Some 0
    \<and> map_option la_points (find_account d' (new_user ids)) = Some 0
    \<and> ((\<exists>r. find_referral d' (new_user ids) = Some r) \<longleftrightarrow>
         truthy (vr_referralCode dto) \<and> find_user d (the (vr_referralCode dto)) \<noteq> None)
    \<and> map_option rt_userId (find_token d' (sha256Hash env (refreshToken p))) = Some (new_user ids)
    \<and> accounts_ok d' \<and> wallets_ok d' \<and> loyalty_ok d' \<and> referrals_ok d'"
  using assms(2)
proof (cases rule: register_cases)
  case (created t)
  let ?d = "d\<lparr>otp_codes := t\<rparr>"
  let ?e = "registered_db env ids salt dto ?d"
  have fresh: "registration_fresh ?d ids" using assms(1) by (simp add: registration_fresh_def)
  have ph: "find_phone ?d (vr_phone dto) = None" using created(2) by simp
  have old: "accounts_ok ?d" "wallets_ok ?d" "loyalty_ok ?d" "referrals_ok ?d"
    using assms(3-6) by (simp_all add: accounts_ok_def wallets_ok_def loyalty_ok_def referrals_ok_def)
  note ok = registered_ok(1) [OF fresh ph old(1), of env salt] registered_ok(2) [OF fresh ph old(2), of env salt]
    registered_ok(3) [OF fresh ph old(3), of env salt] registered_ok(4) [OF fresh ph old(4), of env salt]
  have nt: "fresh_key rt_id (new_token_id ids) (refresh_tokens ?e)"
    using assms(1) by (simp add: registered_frame registration_fresh_def)
  have find: "find_user ?e (new_user ids) = Some (registered_user env ids salt dto)"
    "find_phone ?e (vr_phone dto) = Some (registered_user env ids salt dto)"
    "find_wallet ?e (new_user ids) = Some \<lparr>wal_id = new_wallet ids, wal_userId = new_user ids, wal_balance = 0\<rparr>"
    "find_account ?e (new_user ids) = Some (new_account (new_account_id ids) (new_user ids))"
    using fresh ph
    by (simp_all add: find_user_def find_phone_def find_wallet_def find_account_def registered_frame
        find_insert_row registration_fresh_def fresh_key_find registered_user_def new_account_def)
  from created(3) show ?thesis
  proof (cases rule: issue_cases)
    case (issued x)
    have tok: "find_token d' (sha256Hash env (raw_token ids)) = Some x"
      using find_token_issued [OF issued(3)] issued(2,6) by simp
    have keep: "wallets d' = wallets ?e" "wallet_txs d' = wallet_txs ?e" "loyalty_accounts d' = loyalty_accounts ?e"
      "loyalty_txs d' = loyalty_txs ?e" "referrals d' = referrals ?e" "users d' = users ?e"
      by (simp_all add: issued(3))
    have "find_user d' = find_user ?e" "find_phone d' = find_phone ?e" "find_wallet d' = find_wallet ?e"
      "find_account d' = find_account ?e" "find_referral d' = find_referral ?e"
      by (simp_all add: fun_eq_iff find_user_def find_phone_def find_wallet_def find_account_def find_referral_def keep)
    moreover have "accounts_ok d'" using accounts_ok_issue [OF ok(1) nt created(3)] .
    moreover have "wallets_ok d'" "loyalty_ok d'" "referrals_ok d'"
      using ok(2-4) by (simp_all add: wallets_ok_def loyalty_ok_def referrals_ok_def keep)
    moreover have "((\<exists>r. find_referral ?e (new_user ids) = Some r) \<longleftrightarrow>
         truthy (vr_referralCode dto) \<and> find_user d (the (vr_referralCode dto)) \<noteq> None)"
      using registered_referral [OF fresh, of env salt dto] by simp
    ultimately show ?thesis
      using created(1,2) find tok issued(1,5)
      by (simp add: jwt_validate_def registered_user_def new_account_def)
  qed simp
qed simp

text \<open>
  The request for a login code tells registered phones from unknown ones: within a
  minute of a first request, a second one is answered with 429 for an active account and
  with success for every unregistered phone, although the answers are meant to be the same.
\<close>

theorem login_code_reveals_account:
  assumes "find_phone d p = Some u" "usr_status u = Acc_ACTIVE" "find_phone d p' = None"
    "newest p LOGIN (otp_codes d) = Some x" "now < otp_createdAt x + 60000"
  shows "(\<exists>k. fst (requestLoginOtp env n rnd now p (d, out)) = Inl (TooManyRequests k))
    \<and> fst (requestLoginOtp env n rnd now p' (d, out)) = Inr None"
proof -
  obtain r d' out' where q: "requestOtp (otp_env.truncate env) n rnd now p LOGIN (Some (usr_id u)) (d, out) = (r, (d', out'))"
    by (metis prod.exhaust)
  then have "\<exists>k. r = Inl (TooManyRequests k)"
  proof (cases rule: requestOtp_cases)
    case (sent row)
    with assms(4,5) show ?thesis by fastforce
  qed blast
  with q assms show ?thesis by (simp add: requestLoginOtp_def)
qed

section \<open>A concrete account\<close>

text \<open>
  The identity in place of the hashes (it satisfies bcrypt's law), one user with one session
  and codes for a login, a reset and the registration of a second phone.
\<close>

definition demo_auth :: auth_env where
  "demo_auth = \<lparr>sha256Hash = (\<lambda>s. s), NODE_ENV = Some ''production'', OTP_DEBUG_EXPOSE = None,
     hashPassword = (\<lambda>salt pw. pw), verifyPassword = (\<lambda>pw h. pw = h),
     signAsync = (\<lambda>t u r. u), JWT_REFRESH_EXPIRES_IN = ''7d''\<rparr>"

definition demo_user :: user where
  "demo_user = \<lparr>usr_id = ''ann'', usr_phone = ''09121111111'', usr_email = None, usr_passwordHash = ''secret'',
     usr_fullName = ''Ann'', usr_avatarUrl = None, usr_globalRole = USER, usr_status = Acc_ACTIVE,
     usr_phoneVerified = True, usr_emailVerified = False, usr_deletedAt = None\<rparr>"

definition demo_otp :: "id \<Rightarrow> string \<Rightarrow> OtpPurpose \<Rightarrow> otp_code" where
  "demo_otp k p q = \<lparr>otp_id = k, otp_userId = None, otp_phone = p, otp_codeHash = ''123456'',
     otp_purpose = q, otp_attempts = 0, otp_expiresAt = 300000, otp_consumedAt = None, otp_createdAt = 0\<rparr>"

definition demo_accounts :: db where
  "demo_accounts = empty_db\<lparr>users := [demo_user],
     otp_codes := [demo_otp ''o1'' ''09121111111'' LOGIN, demo_otp ''o2'' ''09121111111'' RESET_PASSWORD,
       demo_otp ''o3'' ''09122222222'' REGISTER],
     refresh_tokens := [\<lparr>rt_id = ''t1'', rt_userId = ''ann'', rt_tokenHash = ''old'', rt_deviceInfo = None,
       rt_ipAddress = None, rt_expiresAt = 1000000, rt_revokedAt = None, rt_createdAt = 0\<rparr>]\<rparr>"

lemmas demo_account_defs = demo_accounts_def demo_auth_def demo_user_def demo_otp_def empty_db_def
  find_token_def find_user_def find_phone_def

lemma demo_accounts_ok: "accounts_ok demo_accounts"
  by (simp add: accounts_ok_def unique_key_def demo_account_defs)

definition no_device :: DeviceContext where
  "no_device = \<lparr>deviceInfo = None, ipAddress = None\<rparr>"

theorem login_iff_witness:
  "\<exists>p. fst (loginWithPassword demo_auth 5 ''t2'' ''new'' \<lparr>lg_phone = ''09121111111'', lg_password = ''secret''\<rparr>
     no_device demo_accounts) = Inr p \<and> refreshToken p = ''new''"
proof -
  have f: "find_token demo_accounts (sha256Hash demo_auth ''new'') = None" by (simp add: demo_account_defs)
  from login_iff [OF f, of "\<lparr>lg_phone = ''09121111111'', lg_password = ''secret''\<rparr>" 5 "''t2''" no_device]
  show ?thesis by (auto simp: demo_account_defs split: prod.splits)
qed

theorem refresh_rotates_witness:
  "\<exists>p d'. refreshTokens demo_auth 5 ''t2'' ''new'' ''old'' no_device demo_accounts = (Inr p, d')
     \<and> fst (refreshTokens demo_auth 6 ''t3'' ''newer'' ''old'' no_device d') = Inl (Unauthorized SessionExpired)"
proof -
  have "\<exists>p d'. refreshTokens demo_auth 5 ''t2'' ''new'' ''old'' no_device demo_accounts = (Inr p, d')"
    by (simp add: refreshTokens_def issueTokenPair_def revoke_where_def demo_account_defs Let_def)
  then obtain p d' where r: "refreshTokens demo_auth 5 ''t2'' ''new'' ''old'' no_device demo_accounts = (Inr p, d')"
    by blast
  with refresh_rotates [OF demo_accounts_ok r, of 6 "''t3''" "''newer''" no_device] show ?thesis by blast
qed

lemma demo_verify_True:
  assumes "(p, q) \<in> {(''09121111111'', RESET_PASSWORD), (''09122222222'', REGISTER)}"
  shows "\<exists>t. verifyOtp (otp_env.truncate demo_auth) 5 p q ''123456'' demo_accounts
    = (Inr True, demo_accounts\<lparr>otp_codes := t\<rparr>)"
  using assms
  by (auto simp: verifyOtp_def newest_def live_def demo_account_defs otp_env.defs MAX_VERIFY_ATTEMPTS_def)

theorem reset_password_ends_sessions_witness:
  "\<exists>d'. resetPassword demo_auth ''salt'' 5 \<lparr>rp_phone = ''09121111111'', rp_code = ''123456'', rp_newPassword = ''changed''\<rparr>
      demo_accounts = (Inr (), d') \<and> listSessions 6 ''ann'' d' = []"
proof -
  let ?dto = "\<lparr>rp_phone = ''09121111111'', rp_code = ''123456'', rp_newPassword = ''changed''\<rparr>"
  have u: "find_phone demo_accounts ''09121111111'' = Some demo_user" by (simp add: demo_account_defs)
  obtain d' where r: "resetPassword demo_auth ''salt'' 5 ?dto demo_accounts = (Inr (), d')"
    using demo_verify_True [of "''09121111111''" RESET_PASSWORD] by (auto simp: resetPassword_def u Let_def)
  have "\<And>s pw. verifyPassword demo_auth pw (hashPassword demo_auth s pw)" by (simp add: demo_auth_def)
  from reset_password_ends_sessions [OF demo_accounts_ok r this, of 6] u have "listSessions 6 ''ann'' d' = []"
    by (auto simp: demo_user_def)
  with r show ?thesis by blast
qed

theorem deletion_locks_out_witness:
  "\<exists>d'. requestAccountDeletion 5 ''ann'' demo_accounts = (Inr (), d')
     \<and> jwt_validate ''ann'' d' = Inl (Unauthorized AccountInvalid)"
proof -
  obtain d' where r: "requestAccountDeletion 5 ''ann'' demo_accounts = (Inr (), d')"
    by (simp add: requestAccountDeletion_def update_user_def demo_account_defs)
  with deletion_locks_out [OF demo_accounts_ok r] show ?thesis by blast
qed

theorem registration_complete_witness:
  "\<exists>p d'. verifyRegisterAndCreateUser demo_auth
       \<lparr>new_user = ''bob'', new_wallet = ''w'', new_account_id = ''l'', new_referral = ''r'', new_token_id = ''t2'',
        raw_token = ''new''\<rparr> ''salt'' 5
       \<lparr>vr_phone = ''09122222222'', vr_code = ''123456'', vr_fullName = ''Bob'', vr_password = ''pw'',
        vr_referralCode = Some ''ann''\<rparr> no_device demo_accounts = (Inr p, d')
     \<and> jwt_validate ''bob'' d' = Inr (''bob'', USER) \<and> (\<exists>r. find_referral d' ''bob'' = Some r)"
proof -
  let ?ids = "\<lparr>new_user = ''bob'', new_wallet = ''w'', new_account_id = ''l'', new_referral = ''r'',
    new_token_id = ''t2'', raw_token = ''new''\<rparr>"
  let ?dto = "\<lparr>vr_phone = ''09122222222'', vr_code = ''123456'', vr_fullName = ''Bob'', vr_password = ''pw'',
    vr_referralCode = Some ''ann''\<rparr>"
  have fresh: "registration_fresh demo_accounts ?ids"
    by (simp add: registration_fresh_def demo_account_defs fresh_key_def)
  have ok: "wallets_ok demo_accounts" "loyalty_ok demo_accounts" "referrals_ok demo_accounts"
    by (simp_all add: wallets_ok_def loyalty_ok_def referrals_ok_def balanced_def unique_key_def demo_account_defs)
  obtain r d' where reg: "verifyRegisterAndCreateUser demo_auth ?ids ''salt'' 5 ?dto no_device demo_accounts = (r, d')"
    by (cases "verifyRegisterAndCreateUser demo_auth ?ids ''salt'' 5 ?dto no_device demo_accounts")
  obtain t where t: "verifyOtp (otp_env.truncate demo_auth) 5 ''09122222222'' REGISTER ''123456'' demo_accounts
      = (Inr True, demo_accounts\<lparr>otp_codes := t\<rparr>)"
    using demo_verify_True [of "''09122222222''" REGISTER] by auto
  have "find_phone demo_accounts ''09122222222'' = None" "find_token demo_accounts ''new'' = None"
    by (simp_all add: demo_account_defs)
  then have "\<exists>p. r = Inr p"
    using reg t by (auto simp: verifyRegisterAndCreateUser_def issueTokenPair_def Let_def find_token_def
        registerReferral_frame demo_auth_def split: if_splits)
  then obtain p where "r = Inr p" by blast
  with registration_complete [OF fresh reg [unfolded this] demo_accounts_ok ok] reg
  show ?thesis by (auto simp: demo_account_defs)
qed

theorem login_code_reveals_account_witness:
  "(\<exists>k. fst (requestLoginOtp demo_auth ''n'' 1 30000 ''09121111111'' (demo_accounts, [])) = Inl (TooManyRequests k))
   \<and> fst (requestLoginOtp demo_auth ''n'' 1 30000 ''09129999999'' (demo_accounts, [])) = Inr None"
  by (rule login_code_reveals_account [of demo_accounts _ demo_user _ "demo_otp ''o1'' ''09121111111'' LOGIN"])
    (simp_all add: demo_account_defs newest_def live_def)

end
