(* ===== verification/Business.thy ===== *)
theory Business
  imports Schema
begin

text \<open>
  \<open>modules/business/business.service.ts\<close>, \<open>common/audit/audit.service.ts\<close> and
  \<open>modules/branch/branch.service.ts\<close>: businesses, their review by an administrator, their
  documents and branches. The case-insensitive text search of the database (\<open>contains\<close> with
  \<open>mode: 'insensitive'\<close>) is a parameter.
\<close>

section \<open>Requests\<close>

record CreateBusinessDto =
  cb_name :: string
  cb_category :: string
  cb_description :: "string option"
  cb_logoUrl :: "string option"

record UpdateBusinessDto =
  ub_name :: "string option"
  ub_category :: "string option"
  ub_description :: "string option"
  ub_logoUrl :: "string option"
  ub_legalId :: "string option"
  ub_ibanNumber :: "string option"

record CancellationPolicyDto =
  cpd_freeCancelHours :: int
  cpd_feePercent :: int

definition valid_policy :: "CancellationPolicyDto \<Rightarrow> bool" where
  "valid_policy dto \<longleftrightarrow> 0 \<le> cpd_freeCancelHours dto \<and> cpd_freeCancelHours dto \<le> 168
     \<and> 0 \<le> cpd_feePercent dto \<and> cpd_feePercent dto \<le> 100"

record SearchBusinessDto =
  sb_query :: "string option"
  sb_category :: "string option"
  sb_city :: "string option"
  sb_page :: "nat option"
  sb_pageSize :: "nat option"

record search_result =
  sr_items :: "business list"
  sr_total :: nat
  sr_page :: nat
  sr_pageSize :: nat

record CreateBranchDto =
  cbr_name :: string
  cbr_address :: string
  cbr_latitude :: rat
  cbr_longitude :: rat
  cbr_phone :: "string option"

record UpdateBranchDto =
  ubr_name :: "string option"
  ubr_address :: "string option"
  ubr_latitude :: "rat option"
  ubr_longitude :: "rat option"
  ubr_phone :: "string option"

section \<open>Businesses\<close>

definition DEFAULT_CANCELLATION_POLICY :: policy where
  "DEFAULT_CANCELLATION_POLICY = \<lparr>freeCancelHours = 24, feePercent = 20\<rparr>"

definition new_business :: "time \<Rightarrow> id \<Rightarrow> id \<Rightarrow> CreateBusinessDto \<Rightarrow> business" where
  "new_business now newId ownerId dto =
     \<lparr>biz_id = newId, biz_ownerId = ownerId, biz_name = cb_name dto, biz_category = cb_category dto,
      biz_description = cb_description dto, biz_logoUrl = cb_logoUrl dto, biz_status = PENDING_REVIEW,
      biz_rejectReason = None, biz_legalId = None, biz_ibanNumber = None, biz_commissionPercent = 10,
      biz_cancellationPolicy = DEFAULT_CANCELLATION_POLICY, biz_createdAt = now\<rparr>"

definition business_create :: "time \<Rightarrow> id \<Rightarrow> id \<Rightarrow> id \<Rightarrow> CreateBusinessDto \<Rightarrow> db \<Rightarrow> business result \<times> db" where
  "business_create now newId newStaffId ownerId dto =
     transaction (\<lambda>d.
       let business = new_business now newId ownerId dto;
           d1 = d\<lparr>businesses := insert_row business (businesses d)\<rparr>
       in if list_ex (\<lambda>m. sm_userId m = ownerId \<and> sm_businessId m = newId) (staff_members d1)
          then (Inl UniqueViolation, d1)
          else (Inr business, d1\<lparr>staff_members := insert_row
                 \<lparr>sm_id = newStaffId, sm_userId = ownerId, sm_businessId = newId, sm_branchId = None,
                  sm_role = OWNER, sm_specialty = None, sm_isActive = True\<rparr> (staff_members d1)\<rparr>))"

definition find_business :: "db \<Rightarrow> id \<Rightarrow> business option" where
  "find_business d businessId = List.find (\<lambda>b. biz_id b = businessId) (businesses d)"

text \<open>The active memberships of a user with the business (if it exists) and the user's role in it.\<close>

definition findMine :: "id \<Rightarrow> db \<Rightarrow> (business option \<times> StaffRole) list" where
  "findMine userId d =
     map (\<lambda>m. (find_business d (sm_businessId m), sm_role m))
       (filter (\<lambda>m. sm_userId m = userId \<and> sm_isActive m) (staff_members d))"

definition assertExists :: "db \<Rightarrow> id \<Rightarrow> business result" where
  "assertExists d businessId =
     (case find_business d businessId of None \<Rightarrow> Inl (NotFound BusinessNotFound) | Some b \<Rightarrow> Inr b)"

definition findOneForOwner :: "id \<Rightarrow> db \<Rightarrow> (business \<times> branch list \<times> service list \<times> document list) result" where
  "findOneForOwner businessId d =
     (case find_business d businessId of
        None \<Rightarrow> Inl (NotFound BusinessNotFound)
      | Some b \<Rightarrow> Inr (b, filter (\<lambda>r. br_businessId r = businessId) (branches d),
          filter (\<lambda>s. sv_businessId s = businessId) (services d),
          filter (\<lambda>x. doc_businessId x = businessId) (documents d)))"

text \<open>The reviews that the public view includes are written by no service of this code base.\<close>

definition findOnePublic :: "id \<Rightarrow> db \<Rightarrow> (business \<times> branch list \<times> service list) result" where
  "findOnePublic businessId d =
     (case find_business d businessId of
        None \<Rightarrow> Inl (NotFound BusinessNotFound)
      | Some b \<Rightarrow>
          if biz_status b \<noteq> APPROVED then Inl (NotFound BusinessNotFound)
          else Inr (b, filter (\<lambda>r. br_businessId r = businessId) (branches d),
            filter (\<lambda>s. sv_businessId s = businessId \<and> sv_isActive s) (services d)))"

definition update_business :: "id \<Rightarrow> (business \<Rightarrow> business) \<Rightarrow> db \<Rightarrow> business result \<times> db" where
  "update_business businessId f d =
     (case assertExists d businessId of
        Inl e \<Rightarrow> (Inl e, d)
      | Inr b \<Rightarrow> (Inr (f b), d\<lparr>businesses := update_rows (\<lambda>b. biz_id b = businessId) f (businesses d)\<rparr>))"

definition business_update :: "id \<Rightarrow> UpdateBusinessDto \<Rightarrow> db \<Rightarrow> business result \<times> db" where
  "business_update businessId dto =
     update_business businessId
       (\<lambda>b. b\<lparr>biz_name := (case ub_name dto of None \<Rightarrow> biz_name b | Some x \<Rightarrow> x),
              biz_category := (case ub_category dto of None \<Rightarrow> biz_category b | Some x \<Rightarrow> x),
              biz_description := (case ub_description dto of None \<Rightarrow> biz_description b | Some x \<Rightarrow> Some x),
              biz_logoUrl := (case ub_logoUrl dto of None \<Rightarrow> biz_logoUrl b | Some x \<Rightarrow> Some x),
              biz_legalId := (case ub_legalId dto of None \<Rightarrow> biz_legalId b | Some x \<Rightarrow> Some x),
              biz_ibanNumber := (case ub_ibanNumber dto of None \<Rightarrow> biz_ibanNumber b | Some x \<Rightarrow> Some x)\<rparr>)"

definition updateCancellationPolicy :: "id \<Rightarrow> CancellationPolicyDto \<Rightarrow> db \<Rightarrow> business result \<times> db" where
  "updateCancellationPolicy businessId dto =
     update_business businessId
       (\<lambda>b. b\<lparr>biz_cancellationPolicy :=
                \<lparr>freeCancelHours = cpd_freeCancelHours dto, feePercent = cpd_feePercent dto\<rparr>\<rparr>)"

definition addDocument :: "id \<Rightarrow> id \<Rightarrow> DocumentType \<Rightarrow> string \<Rightarrow> db \<Rightarrow> document result \<times> db" where
  "addDocument newId businessId type fileUrl d =
     (case assertExists d businessId of
        Inl e \<Rightarrow> (Inl e, d)
      | Inr _ \<Rightarrow>
          (let x = \<lparr>doc_id = newId, doc_businessId = businessId, doc_type = type, doc_fileUrl = fileUrl\<rparr>
           in (Inr x, d\<lparr>documents := insert_row x (documents d)\<rparr>)))"

section \<open>Search\<close>

definition search_matches :: "(string \<Rightarrow> string \<Rightarrow> bool) \<Rightarrow> SearchBusinessDto \<Rightarrow> db \<Rightarrow> business \<Rightarrow> bool" where
  "search_matches contains dto d b \<longleftrightarrow> biz_status b = APPROVED
     \<and> (truthy (sb_query dto) \<longrightarrow> contains (the (sb_query dto)) (biz_name b))
     \<and> (truthy (sb_category dto) \<longrightarrow> biz_category b = the (sb_category dto))
     \<and> (truthy (sb_city dto) \<longrightarrow>
          list_ex (\<lambda>r. br_businessId r = biz_id b \<and> contains (the (sb_city dto)) (br_address r)) (branches d))"

definition business_search :: "(string \<Rightarrow> string \<Rightarrow> bool) \<Rightarrow> SearchBusinessDto \<Rightarrow> db \<Rightarrow> search_result" where
  "business_search contains dto d =
     (let page = (case sb_page dto of None \<Rightarrow> 1 | Some p \<Rightarrow> p);
          pageSize = (case sb_pageSize dto of None \<Rightarrow> 20 | Some n \<Rightarrow> n);
          hits = filter (search_matches contains dto d) (businesses d)
      in \<lparr>sr_items = take pageSize (drop ((page - 1) * pageSize) (rev (sort_key biz_createdAt hits))),
          sr_total = length hits, sr_page = page, sr_pageSize = pageSize\<rparr>)"

section \<open>Review by an administrator\<close>

definition audit_log_create :: "id option \<Rightarrow> string \<Rightarrow> string \<Rightarrow> id \<Rightarrow> (string \<times> json) list \<Rightarrow> db \<Rightarrow> db" where
  "audit_log_create actorId action entityType entityId metadata d =
     d\<lparr>audit_logs := insert_row
         \<lparr>al_actorId = actorId, al_action = action, al_entityType = entityType, al_entityId = entityId,
          al_metadata = metadata\<rparr> (audit_logs d)\<rparr>"

definition listPendingForAdmin :: "db \<Rightarrow> business list" where
  "listPendingForAdmin d = sort_key biz_createdAt (filter (\<lambda>b. biz_status b = PENDING_REVIEW) (businesses d))"

text \<open>An update of the status and the entry in the audit log after it.\<close>

definition review :: "id \<Rightarrow> id \<Rightarrow> BusinessStatus \<Rightarrow> string option \<Rightarrow> string \<Rightarrow> (string \<times> json) list \<Rightarrow> db
    \<Rightarrow> business result \<times> db" where
  "review businessId adminId status reason action metadata d =
     (case update_business businessId (\<lambda>b. b\<lparr>biz_status := status, biz_rejectReason := reason\<rparr>) d of
        (Inl e, d1) \<Rightarrow> (Inl e, d1)
      | (Inr b, d1) \<Rightarrow> (Inr b, audit_log_create (Some adminId) action ''Business'' businessId metadata d1))"

definition approve :: "id \<Rightarrow> id \<Rightarrow> db \<Rightarrow> business result \<times> db" where
  "approve businessId adminId = review businessId adminId APPROVED None ''BUSINESS_APPROVED'' []"

definition reject :: "id \<Rightarrow> id \<Rightarrow> string \<Rightarrow> db \<Rightarrow> business result \<times> db" where
  "reject businessId adminId reason =
     review businessId adminId REJECTED (Some reason) ''BUSINESS_REJECTED'' [(''reason'', JStr reason)]"

definition suspend :: "id \<Rightarrow> id \<Rightarrow> string \<Rightarrow> db \<Rightarrow> business result \<times> db" where
  "suspend businessId adminId reason =
     review businessId adminId SUSPENDED (Some reason) ''BUSINESS_SUSPENDED'' [(''reason'', JStr reason)]"

section \<open>Branches\<close>

definition branch_create :: "id \<Rightarrow> id \<Rightarrow> CreateBranchDto \<Rightarrow> db \<Rightarrow> branch result \<times> db" where
  "branch_create newId businessId dto d =
     (let r = \<lparr>br_id = newId, br_businessId = businessId, br_name = cbr_name dto, br_address = cbr_address dto,
               br_latitude = cbr_latitude dto, br_longitude = cbr_longitude dto, br_phone = cbr_phone dto\<rparr>
      in if \<not> business_exists d businessId then (Inl ForeignKeyViolation, d)
         else (Inr r, d\<lparr>branches := insert_row r (branches d)\<rparr>))"

definition branch_findAll :: "id \<Rightarrow> db \<Rightarrow> branch list" where
  "branch_findAll businessId d = filter (\<lambda>r. br_businessId r = businessId) (branches d)"

definition branch_assertBelongs :: "db \<Rightarrow> id \<Rightarrow> id \<Rightarrow> branch result" where
  "branch_assertBelongs d businessId branchId =
     (case List.find (\<lambda>r. br_id r = branchId) (branches d) of
        None \<Rightarrow> Inl (NotFound BranchNotFound)
      | Some r \<Rightarrow> if br_businessId r \<noteq> businessId then Inl (NotFound BranchNotFound) else Inr r)"

definition branch_update :: "id \<Rightarrow> id \<Rightarrow> UpdateBranchDto \<Rightarrow> db \<Rightarrow> branch result \<times> db" where
  "branch_update businessId branchId dto d =
     (case branch_assertBelongs d businessId branchId of
        Inl e \<Rightarrow> (Inl e, d)
      | Inr r \<Rightarrow>
          (let f = (\<lambda>r. r\<lparr>br_name := (case ubr_name dto of None \<Rightarrow> br_name r | Some x \<Rightarrow> x),
                          br_address := (case ubr_address dto of None \<Rightarrow> br_address r | Some x \<Rightarrow> x),
                          br_latitude := (case ubr_latitude dto of None \<Rightarrow> br_latitude r | Some x \<Rightarrow> x),
                          br_longitude := (case ubr_longitude dto of None \<Rightarrow> br_longitude r | Some x \<Rightarrow> x),
                          br_phone := (case ubr_phone dto of None \<Rightarrow> br_phone r | Some x \<Rightarrow> Some x)\<rparr>)
           in (Inr (f r), d\<lparr>branches := update_rows (\<lambda>r. br_id r = branchId) f (branches d)\<rparr>)))"

end
