(* ===== verification/Staff.thy ===== *)
theory Staff
  imports Business
begin

text \<open>
  \<open>modules/staff/staff.service.ts\<close>, \<open>modules/working-hours/working-hours.service.ts\<close> and the
  guards that decide who may call what: \<open>JwtAuthGuard\<close>, \<open>RolesGuard\<close> and
  \<open>BusinessRoleGuard\<close>, in the order in which \<open>app.module.ts\<close> registers them.
\<close>

section \<open>Requests\<close>

record InviteStaffDto =
  is_phone :: string
  is_role :: StaffRole
  is_specialty :: "string option"
  is_branchId :: "id option"

definition valid_invite_role :: "InviteStaffDto \<Rightarrow> bool" where
  "valid_invite_role dto \<longleftrightarrow> is_role dto \<in> {MANAGER, STAFF}"

record WorkingHourEntryDto =
  he_dayOfWeek :: int
  he_startTime :: string
  he_endTime :: string

record SetWorkingHoursDto =
  sw_branchId :: "id option"
  sw_staffMemberId :: "id option"
  sw_hours :: "WorkingHourEntryDto list"

record AddHolidayDto =
  ah_branchId :: "id option"
  ah_staffMemberId :: "id option"
  ah_date :: time
  ah_reason :: "string option"

section \<open>Staff\<close>

definition find_membership :: "db \<Rightarrow> id \<Rightarrow> id \<Rightarrow> staff_member option" where
  "find_membership d userId businessId =
     List.find (\<lambda>m. sm_userId m = userId \<and> sm_businessId m = businessId) (staff_members d)"

definition invite :: "id \<Rightarrow> id \<Rightarrow> InviteStaffDto \<Rightarrow> db \<Rightarrow> staff_member result \<times> db" where
  "invite newId businessId dto d =
     (case List.find (\<lambda>u. usr_phone u = is_phone dto) (users d) of
        None \<Rightarrow> (Inl (BadRequest NotRegisteredYet), d)
      | Some user \<Rightarrow>
          (case find_membership d (usr_id user) businessId of
             Some _ \<Rightarrow> (Inl (Conflict AlreadyMember), d)
           | None \<Rightarrow>
               (let branch_ok = (truthy (is_branchId dto) \<longrightarrow>
                      (case List.find (\<lambda>r. br_id r = the (is_branchId dto)) (branches d) of
                         None \<Rightarrow> False | Some r \<Rightarrow> br_businessId r = businessId));
                    m = \<lparr>sm_id = newId, sm_userId = usr_id user, sm_businessId = businessId,
                         sm_branchId = is_branchId dto, sm_role = is_role dto,
                         sm_specialty = is_specialty dto, sm_isActive = True\<rparr>
                in if \<not> branch_ok then (Inl (NotFound BranchNotFound), d)
                   else if \<not> (business_exists d businessId
                              \<and> (case is_branchId dto of None \<Rightarrow> True | Some r \<Rightarrow> r \<in> br_id ` set (branches d)))
                   then (Inl ForeignKeyViolation, d)
                   else (Inr m, d\<lparr>staff_members := insert_row m (staff_members d)\<rparr>))))"

definition staff_findAll :: "id \<Rightarrow> db \<Rightarrow> staff_member list" where
  "staff_findAll businessId d = filter (\<lambda>m. sm_businessId m = businessId) (staff_members d)"

definition deactivate :: "id \<Rightarrow> id \<Rightarrow> db \<Rightarrow> staff_member result \<times> db" where
  "deactivate businessId staffMemberId d =
     (case List.find (\<lambda>m. sm_id m = staffMemberId) (staff_members d) of
        None \<Rightarrow> (Inl (NotFound StaffNotFound), d)
      | Some m \<Rightarrow>
          if sm_businessId m \<noteq> businessId then (Inl (NotFound StaffNotFound), d)
          else if sm_role m = OWNER then (Inl (BadRequest OwnerNotRemovable), d)
          else (Inr (m\<lparr>sm_isActive := False\<rparr>),
                d\<lparr>staff_members := update_rows (\<lambda>m. sm_id m = staffMemberId)
                    (\<lambda>m. m\<lparr>sm_isActive := False\<rparr>) (staff_members d)\<rparr>))"

section \<open>Working hours and holidays\<close>

definition resolveTarget :: "db \<Rightarrow> id \<Rightarrow> id option \<Rightarrow> id option \<Rightarrow> (id option \<times> id option) result" where
  "resolveTarget d businessId branchId staffMemberId =
     (if truthy branchId = truthy staffMemberId then Inl (BadRequest ExactlyOneTarget)
      else if truthy branchId then
        (case List.find (\<lambda>r. br_id r = the branchId) (branches d) of
           None \<Rightarrow> Inl (NotFound BranchNotFound)
         | Some r \<Rightarrow> if br_businessId r \<noteq> businessId then Inl (NotFound BranchNotFound)
                     else Inr (branchId, None))
      else
        (case List.find (\<lambda>m. sm_id m = the staffMemberId) (staff_members d) of
           None \<Rightarrow> Inl (NotFound StaffNotFound)
         | Some m \<Rightarrow> if sm_businessId m \<noteq> businessId then Inl (NotFound StaffNotFound)
                     else Inr (None, staffMemberId)))"

text \<open>The rows of the target: of the branch when one is given, otherwise of the staff member.\<close>

definition hours_of :: "id option \<Rightarrow> id option \<Rightarrow> working_hours \<Rightarrow> bool" where
  "hours_of branchId staffMemberId h =
     (if truthy branchId then wh_branchId h = branchId else wh_staffMemberId h = staffMemberId)"

definition setWorkingHours :: "id \<Rightarrow> SetWorkingHoursDto \<Rightarrow> db \<Rightarrow> working_hours list result \<times> db" where
  "setWorkingHours businessId dto d =
     (case resolveTarget d businessId (sw_branchId dto) (sw_staffMemberId dto) of
        Inl e \<Rightarrow> (Inl e, d)
      | Inr (branchId, staffMemberId) \<Rightarrow>
          if list_ex (\<lambda>h. he_endTime h \<le> he_startTime h) (sw_hours dto)
          then (Inl (BadRequest HoursReversed), d)
          else
            (let kept = filter (\<lambda>h. \<not> hours_of branchId staffMemberId h) (working_hours_tbl d);
                 t = kept @ map (\<lambda>h. \<lparr>wh_branchId = branchId, wh_staffMemberId = staffMemberId,
                       wh_dayOfWeek = he_dayOfWeek h, wh_startTime = he_startTime h,
                       wh_endTime = he_endTime h\<rparr>) (sw_hours dto)
             in (Inr (filter (hours_of branchId staffMemberId) t), d\<lparr>working_hours_tbl := t\<rparr>)))"

definition addHoliday :: "id \<Rightarrow> AddHolidayDto \<Rightarrow> db \<Rightarrow> holiday result \<times> db" where
  "addHoliday businessId dto d =
     (case resolveTarget d businessId (ah_branchId dto) (ah_staffMemberId dto) of
        Inl e \<Rightarrow> (Inl e, d)
      | Inr (branchId, staffMemberId) \<Rightarrow>
          (let h = \<lparr>hol_branchId = branchId, hol_staffMemberId = staffMemberId, hol_date = ah_date dto,
                    hol_reason = ah_reason dto\<rparr>
           in (Inr h, d\<lparr>holidays := insert_row h (holidays d)\<rparr>)))"

definition listHolidays :: "id \<Rightarrow> id option \<Rightarrow> id option \<Rightarrow> db \<Rightarrow> holiday list result" where
  "listHolidays businessId branchId staffMemberId d =
     (case resolveTarget d businessId branchId staffMemberId of
        Inl e \<Rightarrow> Inl e
      | Inr (b, s) \<Rightarrow>
          Inr (sort_key hol_date
                (filter (\<lambda>h. if truthy b then hol_branchId h = b else hol_staffMemberId h = s) (holidays d))))"

section \<open>Guards\<close>

text \<open>
  What the guards read of a route: whether it is \<open>@Public()\<close>, the roles of \<open>@Roles\<close> and of
  \<open>@BusinessRoles\<close> (empty when the decorator is absent), and of a request: the user that a
  valid token stands for and the business id in the path.
\<close>

record route =
  isPublic :: bool
  globalRoles :: "GlobalRole list"
  businessRoles :: "StaffRole list"

type_synonym request_user = "id \<times> GlobalRole"

text \<open>\<open>JwtAuthGuard\<close>: passport's answer for the request's token is an argument.\<close>

definition jwt_canActivate :: "route \<Rightarrow> request_user result \<Rightarrow> request_user option result" where
  "jwt_canActivate rt token =
     (if isPublic rt then Inr None
      else case token of Inl e \<Rightarrow> Inl e | Inr u \<Rightarrow> Inr (Some u))"

definition roles_canActivate :: "route \<Rightarrow> request_user option \<Rightarrow> unit result" where
  "roles_canActivate rt u =
     (if globalRoles rt = [] then Inr ()
      else case u of
        None \<Rightarrow> Inl (Forbidden NoPermission)
      | Some (_, role) \<Rightarrow> if role \<notin> set (globalRoles rt) then Inl (Forbidden NoPermission) else Inr ())"

definition business_canActivate :: "route \<Rightarrow> request_user option \<Rightarrow> id option \<Rightarrow> db \<Rightarrow> unit result" where
  "business_canActivate rt u businessId d =
     (if businessRoles rt = [] then Inr ()
      else case u of
        None \<Rightarrow> Inl (Forbidden NoPermission)
      | Some (userId, role) \<Rightarrow>
          if role = ADMIN then Inr ()
          else if \<not> truthy businessId then Inl (Forbidden NoBusinessInPath)
          else (case find_membership d userId (the businessId) of
             None \<Rightarrow> Inl (Forbidden NoPermission)
           | Some m \<Rightarrow>
               if \<not> sm_isActive m \<or> sm_role m \<notin> set (businessRoles rt)
               then Inl (Forbidden NoPermission) else Inr ()))"

definition guards :: "route \<Rightarrow> request_user result \<Rightarrow> id option \<Rightarrow> db \<Rightarrow> request_user option result" where
  "guards rt token businessId d =
     (case jwt_canActivate rt token of
        Inl e \<Rightarrow> Inl e
      | Inr u \<Rightarrow>
          (case roles_canActivate rt u of
             Inl e \<Rightarrow> Inl e
           | Inr _ \<Rightarrow>
               (case business_canActivate rt u businessId d of Inl e \<Rightarrow> Inl e | Inr _ \<Rightarrow> Inr u)))"

section \<open>The staff invariant\<close>

text \<open>One membership per user and business, and every owner is active.\<close>

definition staff_ok :: "db \<Rightarrow> bool" where
  "staff_ok d \<longleftrightarrow> unique_key sm_id (staff_members d)
     \<and> unique_key (\<lambda>m. (sm_userId m, sm_businessId m)) (staff_members d)
     \<and> list_all (\<lambda>m. sm_role m = OWNER \<longrightarrow> sm_isActive m) (staff_members d)
     \<and> list_all (\<lambda>b. \<exists>m \<in> set (staff_members d). sm_businessId m = biz_id b \<and> sm_userId m = biz_ownerId b
         \<and> sm_role m = OWNER) (businesses d)"

lemma staff_ok_invite:
  assumes "staff_ok d" "fresh_key sm_id n (staff_members d)" "valid_invite_role dto"
  shows "staff_ok (snd (invite n z dto d))"
proof -
  have key: "fresh_key (\<lambda>m. (sm_userId m, sm_businessId m)) (u, z) (staff_members d)"
    if "find_membership d u z = None" for u
    using that by (auto simp: find_membership_def fresh_key_def find_None_iff)
  show ?thesis
    using assms key
    by (auto simp: invite_def staff_ok_def valid_invite_role_def Let_def list_all_iff
        intro!: unique_key_insert split: option.splits if_splits)
qed

lemma staff_ok_deactivate:
  assumes "staff_ok d"
  shows "staff_ok (snd (deactivate z k d))"
proof (cases "\<exists>m. fst (deactivate z k d) = Inr m")
  case False
  then show ?thesis using assms by (auto simp: deactivate_def split: option.splits if_splits)
next
  case True
  then obtain m where m: "List.find (\<lambda>m. sm_id m = k) (staff_members d) = Some m" "sm_role m \<noteq> OWNER"
    and d': "snd (deactivate z k d) = d\<lparr>staff_members := update_rows (\<lambda>m. sm_id m = k)
        (\<lambda>m. m\<lparr>sm_isActive := False\<rparr>) (staff_members d)\<rparr>"
    by (auto simp: deactivate_def split: option.splits if_splits)
  let ?S = "staff_members (snd (deactivate z k d))"
  have kept: "sm_role x \<noteq> OWNER" if "x \<in> set (staff_members d)" "sm_id x = k" for x
  proof -
    have "x = m"
      using that assms find_SomeD [OF m(1)] by (intro unique_key_eq [of sm_id "staff_members d"]) (simp_all add: staff_ok_def)
    then show ?thesis using m(2) by simp
  qed
  have S: "?S = update_rows (\<lambda>m. sm_id m = k) (\<lambda>m. m\<lparr>sm_isActive := False\<rparr>) (staff_members d)"
    by (simp add: d')
  have "unique_key sm_id ?S" "unique_key (\<lambda>m. (sm_userId m, sm_businessId m)) ?S"
    unfolding S using assms by (auto simp: staff_ok_def intro!: unique_key_update)
  moreover have "\<forall>x \<in> set ?S. sm_role x = OWNER \<longrightarrow> sm_isActive x"
    unfolding S ball_update_rows using assms kept by (simp add: staff_ok_def list_all_iff)
  moreover have "(\<exists>x \<in> set ?S. sm_businessId x = u \<and> sm_userId x = v \<and> sm_role x = OWNER)
      \<longleftrightarrow> (\<exists>x \<in> set (staff_members d). sm_businessId x = u \<and> sm_userId x = v \<and> sm_role x = OWNER)" for u v
    unfolding S bex_update_rows by (rule bex_cong) auto
  ultimately show ?thesis
    using assms by (simp add: staff_ok_def list_all_iff d')
qed

lemma staff_ok_create:
  assumes "staff_ok d" "fresh_key sm_id m (staff_members d)"
  shows "staff_ok (snd (business_create now n m u dto d))"
proof -
  have "fresh_key (\<lambda>m. (sm_userId m, sm_businessId m)) (u, n) (staff_members d)"
    if "\<not> list_ex (\<lambda>m. sm_userId m = u \<and> sm_businessId m = n) (staff_members d)"
    using that by (auto simp: fresh_key_def list_ex_iff)
  then show ?thesis
    using assms
    by (auto simp: business_create_def transaction_def Let_def staff_ok_def list_all_iff new_business_def
        intro!: unique_key_insert)
qed

end
