(* ===== verification/Settlement.thy ===== *)
theory Settlement
  imports Schema
begin

text \<open>
  \<open>modules/settlement/settlement.service.ts\<close>: what the platform owes a business for a
  period. Shown: gross, commission and net always add up and the commission is the
  business's percentage rounded to whole toman; a batch settles every approved business
  once; nothing marks a payment as settled, so the same payments can be settled again.
\<close>

record RunSettlementDto =
  rs_businessId :: "id option"
  rs_periodStart :: time
  rs_periodEnd :: time

section \<open>The service\<close>

text \<open>The filter \<open>booking: { businessId }\<close>: the payment's reservation belongs to the business.\<close>

definition payment_of_business :: "db \<Rightarrow> id \<Rightarrow> payment \<Rightarrow> bool" where
  "payment_of_business d businessId p =
     (case pay_bookingId p of
        None \<Rightarrow> False
      | Some k \<Rightarrow>
          (case List.find (\<lambda>b. bk_id b = k) (bookings d) of
             None \<Rightarrow> False | Some b \<Rightarrow> bk_businessId b = businessId))"

definition settled_payments :: "db \<Rightarrow> id \<Rightarrow> time \<Rightarrow> time \<Rightarrow> payment list" where
  "settled_payments d businessId periodStart periodEnd =
     filter (\<lambda>p. pay_status p = SUCCESS \<and> pay_type p \<in> {DEPOSIT, FULL_PAYMENT}
         \<and> periodStart \<le> pay_createdAt p \<and> pay_createdAt p \<le> periodEnd
         \<and> payment_of_business d businessId p) (payments d)"

definition runForBusiness :: "id \<Rightarrow> time \<Rightarrow> time \<Rightarrow> db \<Rightarrow> settlement result \<times> db" where
  "runForBusiness businessId periodStart periodEnd d =
     (case List.find (\<lambda>b. biz_id b = businessId) (businesses d) of
        None \<Rightarrow> (Inl (NotFound BusinessNotFound), d)
      | Some business \<Rightarrow>
          (let amounts = map pay_amount (settled_payments d businessId periodStart periodEnd);
               grossAmount = foldl (+) 0 amounts;
               commissionAmount = math_round (grossAmount * biz_commissionPercent business / 100);
               netAmount = grossAmount - commissionAmount;
               s = \<lparr>stl_businessId = businessId, stl_periodStart = periodStart, stl_periodEnd = periodEnd,
                    stl_grossAmount = grossAmount, stl_commissionAmount = commissionAmount,
                    stl_netAmount = netAmount, stl_status = Set_PENDING\<rparr>
           in (Inr s, d\<lparr>settlements := insert_row s (settlements d)\<rparr>)))"

fun run_each :: "id list \<Rightarrow> time \<Rightarrow> time \<Rightarrow> db \<Rightarrow> settlement list result \<times> db" where
  "run_each [] periodStart periodEnd d = (Inr [], d)"
| "run_each (b # bs) periodStart periodEnd d =
     (case runForBusiness b periodStart periodEnd d of
        (Inl e, d1) \<Rightarrow> (Inl e, d1)
      | (Inr s, d1) \<Rightarrow>
          (case run_each bs periodStart periodEnd d1 of
             (Inl e, d2) \<Rightarrow> (Inl e, d2) | (Inr ss, d2) \<Rightarrow> (Inr (s # ss), d2)))"

definition runBatch :: "RunSettlementDto \<Rightarrow> db \<Rightarrow> settlement list result \<times> db" where
  "runBatch dto d =
     (if truthy (rs_businessId dto)
      then run_each [the (rs_businessId dto)] (rs_periodStart dto) (rs_periodEnd dto) d
      else run_each (map biz_id (filter (\<lambda>b. biz_status b = APPROVED) (businesses d)))
             (rs_periodStart dto) (rs_periodEnd dto) d)"

definition settlement_listForBusiness :: "id \<Rightarrow> db \<Rightarrow> settlement list" where
  "settlement_listForBusiness businessId d =
     rev (sort_key stl_periodStart (filter (\<lambda>s. stl_businessId s = businessId) (settlements d)))"

section \<open>Amounts\<close>

definition gross_of :: "db \<Rightarrow> id \<Rightarrow> time \<Rightarrow> time \<Rightarrow> money" where
  "gross_of d b s e = sum_list (map pay_amount (settled_payments d b s e))"

lemma foldl_sum: "foldl (+) a xs = a + sum_list xs" for a :: rat
  by (induction xs arbitrary: a) (auto simp: algebra_simps)

lemma run_ok:
  assumes "runForBusiness b s e d = (Inr x, d')"
  shows "stl_businessId x = b" "stl_grossAmount x = gross_of d b s e"
    "stl_commissionAmount x + stl_netAmount x = stl_grossAmount x"
    "d' = d\<lparr>settlements := insert_row x (settlements d)\<rparr>"
    "\<exists>z \<in> set (businesses d). biz_id z = b
       \<and> stl_commissionAmount x = math_round (stl_grossAmount x * biz_commissionPercent z / 100)"
  using assms
  by (auto simp: runForBusiness_def Let_def gross_of_def foldl_sum split: option.splits dest!: find_SomeD)

lemma payment_of_business_frame: "payment_of_business (d\<lparr>settlements := t\<rparr>) = payment_of_business d"
  by (intro ext) (simp add: payment_of_business_def split: option.split)

lemma run_frame:
  "settled_payments (d\<lparr>settlements := t\<rparr>) = settled_payments d"
  "gross_of (d\<lparr>settlements := t\<rparr>) = gross_of d"
  by (simp_all add: settled_payments_def payment_of_business_frame gross_of_def fun_eq_iff)

lemma run_returns:
  "b \<in> biz_id ` set (businesses d) \<Longrightarrow> \<exists>x d'. runForBusiness b s e d = (Inr x, d')"
  by (auto simp: runForBusiness_def Let_def find_None_iff split: option.split)

text \<open>The amounts of a settlement are those of its business and its period.\<close>

definition adds_up :: "db \<Rightarrow> time \<Rightarrow> time \<Rightarrow> settlement \<Rightarrow> bool" where
  "adds_up d s e x \<longleftrightarrow> stl_grossAmount x = gross_of d (stl_businessId x) s e
     \<and> stl_commissionAmount x + stl_netAmount x = stl_grossAmount x
     \<and> (\<exists>z \<in> set (businesses d). biz_id z = stl_businessId x
          \<and> stl_commissionAmount x = math_round (stl_grossAmount x * biz_commissionPercent z / 100))"

lemma adds_up_frame: "adds_up (d\<lparr>settlements := t\<rparr>) = adds_up d"
  by (simp add: adds_up_def fun_eq_iff run_frame)

lemma run_each_ok:
  assumes "set bs \<subseteq> biz_id ` set (businesses d)"
  shows "\<exists>xs. run_each bs s e d = (Inr xs, d\<lparr>settlements := settlements d @ xs\<rparr>)
    \<and> map stl_businessId xs = bs \<and> list_all (adds_up d s e) xs"
  using assms
proof (induction bs arbitrary: d)
  case (Cons b bs)
  obtain x d1 where r: "runForBusiness b s e d = (Inr x, d1)" using run_returns [of b d s e] Cons.prems by auto
  note ok = run_ok [OF r]
  have "set bs \<subseteq> biz_id ` set (businesses d1)" using Cons.prems by (simp add: ok(4))
  from Cons.IH [OF this] obtain xs where
    xs: "run_each bs s e d1 = (Inr xs, d1\<lparr>settlements := settlements d1 @ xs\<rparr>)" "map stl_businessId xs = bs"
    "list_all (adds_up d1 s e) xs"
    by blast
  have "adds_up d s e x" using ok(1,2,3,5) by (simp add: adds_up_def)
  moreover have "adds_up d1 = adds_up d" by (simp add: ok(4) adds_up_frame)
  moreover have "run_each (b # bs) s e d = (Inr (x # xs), d\<lparr>settlements := settlements d @ (x # xs)\<rparr>)"
    by (simp add: r xs(1)) (simp add: ok(4) insert_row_def)
  ultimately show ?case
    using xs(2,3) ok(1) by (intro exI [of _ "x # xs"]) simp
next
  case Nil
  show ?case by (rule exI [of _ "[]"]) simp
qed

end
