(* ===== verification/OrgProps.thy ===== *)
theory OrgProps
  imports Staff Booking Settlement
begin

text \<open>
  Who may act for a business: the guards decide exactly by token, global role and active
  membership, and removing a member takes effect at once.
\<close>

section \<open>Guards\<close>

lemma guards_eq:
  "guards rt token z d =
     (if isPublic rt then
        (if globalRoles rt = [] \<and> businessRoles rt = [] then Inr None else Inl (Forbidden NoPermission))
      else case token of
        Inl e \<Rightarrow> Inl e
      | Inr (u, role) \<Rightarrow>
          if (globalRoles rt = [] \<or> role \<in> set (globalRoles rt))
            \<and> (businessRoles rt = [] \<or> role = ADMIN
               \<or> truthy z \<and> (\<exists>m. find_membership d u (the z) = Some m \<and> sm_isActive m
                    \<and> sm_role m \<in> set (businessRoles rt)))
          then Inr (Some (u, role))
          else if (globalRoles rt = [] \<or> role \<in> set (globalRoles rt)) \<and> \<not> truthy z
          then Inl (Forbidden NoBusinessInPath)
          else Inl (Forbidden NoPermission))"
  by (auto simp: guards_def jwt_canActivate_def roles_canActivate_def business_canActivate_def
      split: sum.splits option.splits prod.splits)

text \<open>
  The three guards together let a request through exactly when the route is public, or
  the token stands for a user whose global role the route asks for (if it asks for one)
  and who, on a route with business roles, is an administrator or an active member of the
  business in the path with one of these roles.
\<close>

theorem guards_exact:
  "guards rt token z d =
     (if isPublic rt then
        (if globalRoles rt = [] \<and> businessRoles rt = [] then Inr None else Inl (Forbidden NoPermission))
      else case token of
        Inl e \<Rightarrow> Inl e
      | Inr (u, role) \<Rightarrow>
          if (globalRoles rt = [] \<or> role \<in> set (globalRoles rt))
            \<and> (businessRoles rt = [] \<or> role = ADMIN
               \<or> truthy z \<and> (\<exists>m. find_membership d u (the z) = Some m \<and> sm_isActive m
                    \<and> sm_role m \<in> set (businessRoles rt)))
          then Inr (Some (u, role))
          else if (globalRoles rt = [] \<or> role \<in> set (globalRoles rt)) \<and> \<not> truthy z
          then Inl (Forbidden NoBusinessInPath)
          else Inl (Forbidden NoPermission))"
  by (rule guards_eq)

text \<open>
  A removed staff member is shut out at once: after a successful \<open>deactivate\<close> every
  route that asks for a role in that business refuses the member, unless the user is a
  platform administrator.
\<close>

theorem deactivated_member_refused:
  assumes "staff_ok d" "deactivate z k d = (Inr m, d')" "z \<noteq> []" "\<not> isPublic rt" "businessRoles rt \<noteq> []"
    "role \<noteq> ADMIN"
  shows "guards rt (Inr (sm_userId m, role)) (Some z) d' = Inl (Forbidden NoPermission)"
proof -
  obtain x where x: "List.find (\<lambda>m. sm_id m = k) (staff_members d) = Some x" "sm_businessId x = z"
    "m = x\<lparr>sm_isActive := False\<rparr>"
    "d' = d\<lparr>staff_members := update_rows (\<lambda>m. sm_id m = k) (\<lambda>m. m\<lparr>sm_isActive := False\<rparr>) (staff_members d)\<rparr>"
    using assms(2) by (auto simp: deactivate_def split: option.splits if_splits)
  have inx: "x \<in> set (staff_members d)" "sm_id x = k" using find_SomeD [OF x(1)] by simp_all
  have "unique_key (\<lambda>m. (sm_userId m, sm_businessId m)) (staff_members d)"
    using assms(1) by (simp add: staff_ok_def)
  from unique_key_find [OF this inx(1)] have "find_membership d (sm_userId x) z = Some x"
    using x(2) by (simp add: find_membership_def)
  moreover have "find_membership d' u z = map_option (\<lambda>r. if sm_id r = k then r\<lparr>sm_isActive := False\<rparr> else r)
      (find_membership d u z)" for u
    unfolding x(4) find_membership_def by (simp add: find_update_rows)
  ultimately have "find_membership d' (sm_userId m) z = Some m" using x(3) inx(2) by simp
  moreover have "\<not> sm_isActive m" using x(3) by simp
  ultimately show ?thesis using assms(3-6) by (auto simp: guards_eq)
qed

end
