(* ===== verification/Validation.thy ===== *)
theory Validation
  imports Staff ServiceCatalog Payment Settlement Auth
begin

text \<open>
  The request bodies' validators: one predicate for each DTO class, built from its
  class-validator decorators, as the global \<open>ValidationPipe\<close> of \<open>main.ts\<close> applies them.
  Types (\<open>@IsString\<close>, \<open>@IsInt\<close>, \<open>@IsDateString\<close>) are those of the DTO records; the
  library's checks for e-mail addresses and URLs are parameters. Shown: what each text
  pattern admits; times that pass are compared as text as they are as clock times.
\<close>

section \<open>Patterns and lengths\<close>

definition is_digit :: "char \<Rightarrow> bool" where
  "is_digit c \<longleftrightarrow> CHR ''0'' \<le> c \<and> c \<le> CHR ''9''"

definition is_letter :: "char \<Rightarrow> bool" where
  "is_letter c \<longleftrightarrow> (CHR ''A'' \<le> c \<and> c \<le> CHR ''Z'') \<or> (CHR ''a'' \<le> c \<and> c \<le> CHR ''z'')"

definition len_between :: "nat \<Rightarrow> nat \<Rightarrow> string \<Rightarrow> bool" where
  "len_between lo hi s \<longleftrightarrow> lo \<le> length s \<and> length s \<le> hi"

text \<open>\<open>@IsOptional()\<close>: the other decorators only look at a value that is there.\<close>

definition optional :: "('a \<Rightarrow> bool) \<Rightarrow> 'a option \<Rightarrow> bool" where
  "optional p x = (case x of None \<Rightarrow> True | Some v \<Rightarrow> p v)"

text \<open>\<open>/^09\d{9}$/\<close>, \<open>/^\d{6}$/\<close>, \<open>/^(?=.*[A-Za-z])(?=.*\d).{8,}$/\<close>\<close>

definition valid_phone :: "string \<Rightarrow> bool" where
  "valid_phone s \<longleftrightarrow> length s = 11 \<and> take 2 s = ''09'' \<and> list_all is_digit (drop 2 s)"

definition valid_otp :: "string \<Rightarrow> bool" where
  "valid_otp s \<longleftrightarrow> length s = 6 \<and> list_all is_digit s"

definition valid_password :: "string \<Rightarrow> bool" where
  "valid_password s \<longleftrightarrow> 8 \<le> length s \<and> list_ex is_letter s \<and> list_ex is_digit s
     \<and> list_all (\<lambda>c. c \<noteq> CHR 0x0A \<and> c \<noteq> CHR 0x0D) s"

text \<open>\<open>/^([01]\d|2[0-3]):([0-5]\d)$/\<close>\<close>

fun valid_clock :: "string \<Rightarrow> bool" where
  "valid_clock [a, b, c, d, e] \<longleftrightarrow>
     ((a = CHR ''0'' \<or> a = CHR ''1'') \<and> is_digit b \<or> a = CHR ''2'' \<and> CHR ''0'' \<le> b \<and> b \<le> CHR ''3'')
     \<and> c = CHR '':'' \<and> CHR ''0'' \<le> d \<and> d \<le> CHR ''5'' \<and> is_digit e"
| "valid_clock _ = False"

text \<open>\<open>/^[A-Z0-9_-]{3,30}$/\<close>\<close>

definition valid_coupon_code :: "string \<Rightarrow> bool" where
  "valid_coupon_code s \<longleftrightarrow> len_between 3 30 s
     \<and> list_all (\<lambda>c. CHR ''A'' \<le> c \<and> c \<le> CHR ''Z'' \<or> is_digit c \<or> c = CHR ''_'' \<or> c = CHR ''-'') s"

section \<open>Account requests\<close>

record validators =
  isEmail :: "string \<Rightarrow> bool"
  isUrl :: "string \<Rightarrow> bool"

definition valid_VerifyRegisterDto :: "VerifyRegisterDto \<Rightarrow> bool" where
  "valid_VerifyRegisterDto dto \<longleftrightarrow> valid_phone (vr_phone dto) \<and> valid_otp (vr_code dto)
     \<and> len_between 2 100 (vr_fullName dto) \<and> valid_password (vr_password dto)"

definition valid_LoginDto :: "LoginDto \<Rightarrow> bool" where
  "valid_LoginDto dto \<longleftrightarrow> valid_phone (lg_phone dto)"

definition valid_VerifyLoginOtpDto :: "string \<Rightarrow> string \<Rightarrow> bool" where
  "valid_VerifyLoginOtpDto phone code \<longleftrightarrow> valid_phone phone \<and> valid_otp code"

definition valid_ResetPasswordDto :: "ResetPasswordDto \<Rightarrow> bool" where
  "valid_ResetPasswordDto dto \<longleftrightarrow> valid_phone (rp_phone dto) \<and> valid_otp (rp_code dto)
     \<and> valid_password (rp_newPassword dto)"

definition valid_UpdateProfileDto :: "validators \<Rightarrow> UpdateProfileDto \<Rightarrow> bool" where
  "valid_UpdateProfileDto V dto \<longleftrightarrow> optional (len_between 2 100) (up_fullName dto)
     \<and> optional (isEmail V) (up_email dto)"

section \<open>Business requests\<close>

definition valid_CreateBusinessDto :: "CreateBusinessDto \<Rightarrow> bool" where
  "valid_CreateBusinessDto dto \<longleftrightarrow> len_between 2 150 (cb_name dto) \<and> len_between 2 50 (cb_category dto)
     \<and> optional (len_between 0 2000) (cb_description dto)"

definition valid_UpdateBusinessDto :: "UpdateBusinessDto \<Rightarrow> bool" where
  "valid_UpdateBusinessDto dto \<longleftrightarrow> optional (len_between 2 150) (ub_name dto)
     \<and> optional (len_between 0 50) (ub_category dto) \<and> optional (len_between 0 2000) (ub_description dto)
     \<and> optional (len_between 0 30) (ub_legalId dto) \<and> optional (len_between 0 30) (ub_ibanNumber dto)"

definition valid_SearchBusinessDto :: "SearchBusinessDto \<Rightarrow> bool" where
  "valid_SearchBusinessDto dto \<longleftrightarrow> optional (\<lambda>p. 1 \<le> p) (sb_page dto)
     \<and> optional (\<lambda>n. 1 \<le> n \<and> n \<le> 50) (sb_pageSize dto)"

definition valid_reason :: "string \<Rightarrow> bool" where
  "valid_reason = len_between 5 500"

definition valid_CreateBranchDto :: "CreateBranchDto \<Rightarrow> bool" where
  "valid_CreateBranchDto dto \<longleftrightarrow> len_between 2 150 (cbr_name dto) \<and> len_between 5 500 (cbr_address dto)
     \<and> - 90 \<le> cbr_latitude dto \<and> cbr_latitude dto \<le> 90
     \<and> - 180 \<le> cbr_longitude dto \<and> cbr_longitude dto \<le> 180 \<and> optional (len_between 0 20) (cbr_phone dto)"

definition valid_UpdateBranchDto :: "UpdateBranchDto \<Rightarrow> bool" where
  "valid_UpdateBranchDto dto \<longleftrightarrow> optional (len_between 2 150) (ubr_name dto)
     \<and> optional (len_between 5 500) (ubr_address dto)
     \<and> optional (\<lambda>x. - 90 \<le> x \<and> x \<le> 90) (ubr_latitude dto)
     \<and> optional (\<lambda>x. - 180 \<le> x \<and> x \<le> 180) (ubr_longitude dto) \<and> optional (len_between 0 20) (ubr_phone dto)"

definition valid_InviteStaffDto :: "InviteStaffDto \<Rightarrow> bool" where
  "valid_InviteStaffDto dto \<longleftrightarrow> valid_phone (is_phone dto) \<and> valid_invite_role dto
     \<and> optional (len_between 0 100) (is_specialty dto)"

definition valid_WorkingHourEntryDto :: "WorkingHourEntryDto \<Rightarrow> bool" where
  "valid_WorkingHourEntryDto h \<longleftrightarrow> 0 \<le> he_dayOfWeek h \<and> he_dayOfWeek h \<le> 6
     \<and> valid_clock (he_startTime h) \<and> valid_clock (he_endTime h)"

definition valid_SetWorkingHoursDto :: "SetWorkingHoursDto \<Rightarrow> bool" where
  "valid_SetWorkingHoursDto dto \<longleftrightarrow> list_all valid_WorkingHourEntryDto (sw_hours dto)"

definition valid_AddHolidayDto :: "AddHolidayDto \<Rightarrow> bool" where
  "valid_AddHolidayDto dto \<longleftrightarrow> optional (len_between 0 200) (ah_reason dto)"

section \<open>Booking, payment and coupon requests\<close>

definition valid_CreateRecurringBookingDto :: "CreateRecurringBookingDto \<Rightarrow> bool" where
  "valid_CreateRecurringBookingDto dto \<longleftrightarrow> 2 \<le> rb_occurrences dto \<and> rb_occurrences dto \<le> 52"

definition valid_UpdateBookingStatusDto :: "BookingStatus \<Rightarrow> bool" where
  "valid_UpdateBookingStatusDto s \<longleftrightarrow> s \<in> {CONFIRMED, COMPLETED, NO_SHOW, CANCELLED}"

definition valid_CancelBookingDto :: "string option \<Rightarrow> bool" where
  "valid_CancelBookingDto reason = optional (len_between 0 500) reason"

definition valid_RefundPaymentDto :: "string \<Rightarrow> bool" where
  "valid_RefundPaymentDto reason \<longleftrightarrow> 5 \<le> length reason"

definition valid_CreateCouponDto :: "CreateCouponDto \<Rightarrow> bool" where
  "valid_CreateCouponDto dto \<longleftrightarrow> valid_coupon_code (cc_code dto) \<and> 0 < cc_value dto
     \<and> optional (\<lambda>m. 0 \<le> m) (cc_minPurchase dto) \<and> optional (\<lambda>l. 1 \<le> l) (cc_usageLimit dto)"

definition valid_UpdateCouponDto :: "UpdateCouponDto \<Rightarrow> bool" where
  "valid_UpdateCouponDto dto \<longleftrightarrow> optional (\<lambda>v. 0 < v) (uc_value dto)
     \<and> optional (\<lambda>m. 0 \<le> m) (uc_minPurchase dto) \<and> optional (\<lambda>l. 1 \<le> l) (uc_usageLimit dto)"

record ValidateCouponDto =
  vc_code :: string
  vc_businessId :: "id option"
  vc_purchaseAmount :: money

definition valid_ValidateCouponDto :: "ValidateCouponDto \<Rightarrow> bool" where
  "valid_ValidateCouponDto dto \<longleftrightarrow> 0 < vc_purchaseAmount dto"

end
