(* ===== verification/Api.thy ===== *)
theory Api
  imports Validation Otp
begin

text \<open>
  The HTTP interface: for each controller a datatype with one constructor per route (its
  path parameters and the body it reads), the access rule that the decorators of the route
  declare, the validation of the body, and the controller method. \<open>serve\<close> runs the guards,
  the \<open>ValidationPipe\<close> and the method in the order in which Nest does. The state is the
  database, the Redis server, the payment gateway and the outbox of text messages; an answer
  keeps of the response whether it is a success or which exception it reports, and is absent
  only when a loop of the method does not end.
\<close>

section \<open>The state and the environment\<close>

record ('r, 'g) world =
  w_db :: db
  w_redis :: 'r
  w_gateway :: 'g
  w_outbox :: outbox

type_synonym ('r, 'g) answer = "(unit result \<times> ('r, 'g) world) option"

record ('r, 'g) environment =
  E_auth :: auth_env
  E_redis :: "'r redis"
  E_gateway :: "'g gateway"
  E_publicUrl :: string
  E_contains :: "string \<Rightarrow> string \<Rightarrow> bool"
  E_validators :: validators

text \<open>
  What one request draws from outside: the clock when it starts, when it releases its lock
  and in the rounds of a loop, random ids and tokens, the random number of a one-time code, the salt of a password
  hash, and the description of the device.
\<close>

record draws =
  now_of :: time
  later_of :: time
  clock_of :: "nat \<Rightarrow> time"
  uuid :: "nat \<Rightarrow> id"
  lock_token :: string
  gateway_uuid :: string
  session_token :: string
  salt_of :: string
  otp_number :: int
  device :: DeviceContext

text \<open>Ids for the loyalty accounts that the \<open>i\<close>-th confirmation of a request may create.\<close>

definition award_uuids :: "draws \<Rightarrow> nat \<Rightarrow> award_ids" where
  "award_uuids dr i = (uuid dr (3 * i + 1), uuid dr (3 * i + 2), uuid dr (3 * i + 3))"

definition registration_ids :: "draws \<Rightarrow> fresh_ids" where
  "registration_ids dr = \<lparr>new_user = uuid dr 0, new_wallet = uuid dr 1, new_account_id = uuid dr 2,
     new_referral = uuid dr 3, new_token_id = uuid dr 4, raw_token = session_token dr\<rparr>"

section \<open>Running a service method\<close>

definition status_of :: "'a result \<Rightarrow> unit result" where
  "status_of r = (case r of Inl e \<Rightarrow> Inl e | Inr _ \<Rightarrow> Inr ())"

definition on_read :: "'a result \<Rightarrow> ('r, 'g) world \<Rightarrow> ('r, 'g) answer" where
  "on_read r w = Some (status_of r, w)"

definition on_db :: "(db \<Rightarrow> 'a result \<times> db) \<Rightarrow> ('r, 'g) world \<Rightarrow> ('r, 'g) answer" where
  "on_db f w = (case f (w_db w) of (r, d) \<Rightarrow> Some (status_of r, w\<lparr>w_db := d\<rparr>))"

definition on_sms :: "(db \<times> outbox \<Rightarrow> 'a result \<times> (db \<times> outbox)) \<Rightarrow> ('r, 'g) world \<Rightarrow> ('r, 'g) answer" where
  "on_sms f w = (case f (w_db w, w_outbox w) of
     (r, (d, out)) \<Rightarrow> Some (status_of r, w\<lparr>w_db := d, w_outbox := out\<rparr>))"

definition on_lock :: "(db \<times> 'r \<Rightarrow> 'a result \<times> (db \<times> 'r)) \<Rightarrow> ('r, 'g) world \<Rightarrow> ('r, 'g) answer" where
  "on_lock f w = (case f (w_db w, w_redis w) of
     (r, (d, red)) \<Rightarrow> Some (status_of r, w\<lparr>w_db := d, w_redis := red\<rparr>))"

definition on_lock_option :: "(db \<times> 'r \<Rightarrow> ('a result \<times> (db \<times> 'r)) option) \<Rightarrow> ('r, 'g) world \<Rightarrow> ('r, 'g) answer" where
  "on_lock_option f w = (case f (w_db w, w_redis w) of
     None \<Rightarrow> None | Some x \<Rightarrow> on_lock (\<lambda>_. x) w)"

definition on_gateway :: "(db \<times> 'g \<Rightarrow> 'a result \<times> (db \<times> 'g)) \<Rightarrow> ('r, 'g) world \<Rightarrow> ('r, 'g) answer" where
  "on_gateway f w = (case f (w_db w, w_gateway w) of
     (r, (d, g)) \<Rightarrow> Some (status_of r, w\<lparr>w_db := d, w_gateway := g\<rparr>))"

text \<open>A method that never throws.\<close>

definition ok :: "('s \<Rightarrow> 'a \<times> 's) \<Rightarrow> 's \<Rightarrow> 'a result \<times> 's" where
  "ok f s = (case f s of (x, s') \<Rightarrow> (Inr x, s'))"

section \<open>Access rules\<close>

text \<open>\<open>@Public()\<close>, no decorator, \<open>@Roles('ADMIN')\<close> and \<open>@BusinessRoles(...)\<close>.\<close>

definition public_route :: route where
  "public_route = \<lparr>isPublic = True, globalRoles = [], businessRoles = []\<rparr>"

definition user_route :: route where
  "user_route = \<lparr>isPublic = False, globalRoles = [], businessRoles = []\<rparr>"

definition admin_route :: route where
  "admin_route = \<lparr>isPublic = False, globalRoles = [ADMIN], businessRoles = []\<rparr>"

definition member_route :: "StaffRole list \<Rightarrow> route" where
  "member_route roles = \<lparr>isPublic = False, globalRoles = [], businessRoles = roles\<rparr>"

text \<open>\<open>req.cookies?.[REFRESH_COOKIE_NAME] ?? dto?.refreshToken\<close>\<close>

definition raw_token_of :: "string option \<Rightarrow> string option \<Rightarrow> string option" where
  "raw_token_of cookie body = (case cookie of Some c \<Rightarrow> Some c | None \<Rightarrow> body)"

section \<open>\<open>auth/auth.controller.ts\<close>\<close>

datatype AuthController =
    Auth_requestRegisterOtp string
  | Auth_verifyRegister VerifyRegisterDto
  | Auth_login LoginDto
  | Auth_requestLoginOtp string
  | Auth_verifyLoginOtp string string
  | Auth_refresh "string option" "string option"
  | Auth_logout "string option" "string option"
  | Auth_forgotPassword string
  | Auth_resetPassword ResetPasswordDto
  | Auth_me

fun AuthController_route :: "AuthController \<Rightarrow> route" where
  "AuthController_route (Auth_requestRegisterOtp _) = public_route"
| "AuthController_route (Auth_verifyRegister _) = public_route"
| "AuthController_route (Auth_login _) = public_route"
| "AuthController_route (Auth_requestLoginOtp _) = public_route"
| "AuthController_route (Auth_verifyLoginOtp _ _) = public_route"
| "AuthController_route (Auth_refresh _ _) = public_route"
| "AuthController_route (Auth_logout _ _) = public_route"
| "AuthController_route (Auth_forgotPassword _) = public_route"
| "AuthController_route (Auth_resetPassword _) = public_route"
| "AuthController_route Auth_me = user_route"

text \<open>
  The body of \<open>refresh\<close> and \<open>logout\<close> is declared as \<open>RefreshTokenDto | undefined\<close>. Of a union
  the compiler emits the type \<open>Object\<close> (with \<open>strictNullChecks\<close>), which the pipe does not
  validate: the rules of that class are never applied.
\<close>

fun AuthController_valid :: "validators \<Rightarrow> AuthController \<Rightarrow> bool" where
  "AuthController_valid V (Auth_requestRegisterOtp phone) = valid_phone phone"
| "AuthController_valid V (Auth_verifyRegister dto) = valid_VerifyRegisterDto dto"
| "AuthController_valid V (Auth_login dto) = valid_LoginDto dto"
| "AuthController_valid V (Auth_requestLoginOtp phone) = valid_phone phone"
| "AuthController_valid V (Auth_verifyLoginOtp phone code) = valid_VerifyLoginOtpDto phone code"
| "AuthController_valid V (Auth_refresh _ body) = True"
| "AuthController_valid V (Auth_logout _ body) = True"
| "AuthController_valid V (Auth_forgotPassword phone) = valid_phone phone"
| "AuthController_valid V (Auth_resetPassword dto) = valid_ResetPasswordDto dto"
| "AuthController_valid V _ = True"

fun AuthController_handle :: "('r, 'g) environment \<Rightarrow> draws \<Rightarrow> id \<Rightarrow> AuthController \<Rightarrow> ('r, 'g) world
    \<Rightarrow> ('r, 'g) answer" where
  "AuthController_handle E dr user (Auth_requestRegisterOtp phone) w =
     on_sms (requestRegisterOtp (E_auth E) (uuid dr 0) (otp_number dr) (now_of dr) phone) w"
| "AuthController_handle E dr user (Auth_verifyRegister dto) w =
     on_db (verifyRegisterAndCreateUser (E_auth E) (registration_ids dr) (salt_of dr) (now_of dr) dto (device dr)) w"
| "AuthController_handle E dr user (Auth_login dto) w =
     on_db (loginWithPassword (E_auth E) (now_of dr) (uuid dr 0) (session_token dr) dto (device dr)) w"
| "AuthController_handle E dr user (Auth_requestLoginOtp phone) w =
     on_sms (requestLoginOtp (E_auth E) (uuid dr 0) (otp_number dr) (now_of dr) phone) w"
| "AuthController_handle E dr user (Auth_verifyLoginOtp phone code) w =
     on_db (verifyLoginOtp (E_auth E) (now_of dr) (uuid dr 0) (session_token dr) phone code (device dr)) w"
| "AuthController_handle E dr user (Auth_refresh cookie body) w =
     (if truthy (raw_token_of cookie body)
      then on_db (refreshTokens (E_auth E) (now_of dr) (uuid dr 0) (session_token dr) (the (raw_token_of cookie body)) (device dr)) w
      else Some (Inr (), w))"
| "AuthController_handle E dr user (Auth_logout cookie body) w =
     (if truthy (raw_token_of cookie body)
      then on_db (\<lambda>d. (Inr (), logout (E_auth E) (now_of dr) (the (raw_token_of cookie body)) d)) w
      else Some (Inr (), w))"
| "AuthController_handle E dr user (Auth_forgotPassword phone) w =
     on_sms (forgotPassword (E_auth E) (uuid dr 0) (otp_number dr) (now_of dr) phone) w"
| "AuthController_handle E dr user (Auth_resetPassword dto) w =
     on_db (resetPassword (E_auth E) (salt_of dr) (now_of dr) dto) w"
| "AuthController_handle E dr user Auth_me w =
     on_read (getMe user (w_db w)) w"

section \<open>\<open>users/users.controller.ts\<close>\<close>

datatype UsersController =
    Users_updateProfile UpdateProfileDto
  | Users_listSessions
  | Users_revokeSession id
  | Users_deleteAccount

fun UsersController_route :: "UsersController \<Rightarrow> route" where
  "UsersController_route (Users_updateProfile _) = user_route"
| "UsersController_route Users_listSessions = user_route"
| "UsersController_route (Users_revokeSession _) = user_route"
| "UsersController_route Users_deleteAccount = user_route"

fun UsersController_valid :: "validators \<Rightarrow> UsersController \<Rightarrow> bool" where
  "UsersController_valid V (Users_updateProfile dto) = valid_UpdateProfileDto V dto"
| "UsersController_valid V _ = True"

fun UsersController_handle :: "('r, 'g) environment \<Rightarrow> draws \<Rightarrow> id \<Rightarrow> UsersController \<Rightarrow> ('r, 'g) world
    \<Rightarrow> ('r, 'g) answer" where
  "UsersController_handle E dr user (Users_updateProfile dto) w =
     on_db (updateProfile user dto) w"
| "UsersController_handle E dr user Users_listSessions w =
     on_read (Inr (listSessions (now_of dr) user (w_db w))) w"
| "UsersController_handle E dr user (Users_revokeSession k) w =
     on_db (revokeSession (now_of dr) user k) w"
| "UsersController_handle E dr user Users_deleteAccount w =
     on_db (requestAccountDeletion (now_of dr) user) w"

section \<open>\<open>booking/booking.controller.ts\<close>\<close>

datatype BookingController =
    Booking_hold HoldBookingDto
  | Booking_createRecurring CreateRecurringBookingDto
  | Booking_confirm id
  | Booking_confirmGroup id
  | Booking_cancel id "string option"
  | Booking_reschedule id time
  | Booking_listMine

fun BookingController_route :: "BookingController \<Rightarrow> route" where
  "BookingController_route (Booking_hold _) = user_route"
| "BookingController_route (Booking_createRecurring _) = user_route"
| "BookingController_route (Booking_confirm _) = user_route"
| "BookingController_route (Booking_confirmGroup _) = user_route"
| "BookingController_route (Booking_cancel _ _) = user_route"
| "BookingController_route (Booking_reschedule _ _) = user_route"
| "BookingController_route Booking_listMine = user_route"

fun BookingController_valid :: "validators \<Rightarrow> BookingController \<Rightarrow> bool" where
  "BookingController_valid V (Booking_createRecurring dto) = valid_CreateRecurringBookingDto dto"
| "BookingController_valid V (Booking_cancel _ reason) = valid_CancelBookingDto reason"
| "BookingController_valid V _ = True"

fun BookingController_handle :: "('r, 'g) environment \<Rightarrow> draws \<Rightarrow> id \<Rightarrow> BookingController \<Rightarrow> ('r, 'g) world
    \<Rightarrow> ('r, 'g) answer" where
  "BookingController_handle E dr user (Booking_hold dto) w =
     on_lock (hold (E_redis E) (now_of dr) (later_of dr) (lock_token dr) (uuid dr 0) user dto) w"
| "BookingController_handle E dr user (Booking_createRecurring dto) w =
     on_db (createRecurring (now_of dr) (\<lambda>i. uuid dr (Suc i)) (uuid dr 0) user dto) w"
| "BookingController_handle E dr user (Booking_confirm k) w =
     on_db (confirm (award_uuids dr 0) (now_of dr) k user) w"
| "BookingController_handle E dr user (Booking_confirmGroup g) w =
     on_db (confirmGroup (award_uuids dr) (clock_of dr) g user) w"
| "BookingController_handle E dr user (Booking_cancel k reason) w =
     on_db (cancelByUser (now_of dr) k user reason) w"
| "BookingController_handle E dr user (Booking_reschedule k start) w =
     on_lock_option (reschedule (E_redis E) (now_of dr) (later_of dr) (lock_token dr) k user start) w"
| "BookingController_handle E dr user Booking_listMine w =
     on_read (Inr (listMine user (w_db w))) w"

section \<open>\<open>booking/booking.controller.ts\<close>\<close>

datatype AvailabilityController =
    Availability_getFreeSlots id CheckAvailabilityDto

fun AvailabilityController_route :: "AvailabilityController \<Rightarrow> route" where
  "AvailabilityController_route (Availability_getFreeSlots _ _) = public_route"

fun AvailabilityController_handle :: "('r, 'g) environment \<Rightarrow> draws \<Rightarrow> id \<Rightarrow> AvailabilityController \<Rightarrow> ('r, 'g) world
    \<Rightarrow> ('r, 'g) answer" where
  "AvailabilityController_handle E dr user (Availability_getFreeSlots z dto) w =
     (case getFreeSlots (now_of dr) z dto (w_db w) of None \<Rightarrow> None | Some r \<Rightarrow> on_read r w)"

section \<open>\<open>booking/business-booking.controller.ts\<close>\<close>

datatype BusinessBookingController =
    BusinessBooking_list id ListBusinessBookingsDto
  | BusinessBooking_updateStatus id id BookingStatus
  | BusinessBooking_cancel id id "string option"

fun BusinessBookingController_route :: "BusinessBookingController \<Rightarrow> route" where
  "BusinessBookingController_route (BusinessBooking_list _ _) = member_route [OWNER, MANAGER, STAFF]"
| "BusinessBookingController_route (BusinessBooking_updateStatus _ _ _) = member_route [OWNER, MANAGER]"
| "BusinessBookingController_route (BusinessBooking_cancel _ _ _) = member_route [OWNER, MANAGER]"

fun BusinessBookingController_valid :: "validators \<Rightarrow> BusinessBookingController \<Rightarrow> bool" where
  "BusinessBookingController_valid V (BusinessBooking_updateStatus _ _ s) = valid_UpdateBookingStatusDto s"
| "BusinessBookingController_valid V (BusinessBooking_cancel _ _ reason) = valid_CancelBookingDto reason"
| "BusinessBookingController_valid V _ = True"

fun BusinessBookingController_handle :: "('r, 'g) environment \<Rightarrow> draws \<Rightarrow> id \<Rightarrow> BusinessBookingController \<Rightarrow> ('r, 'g) world
    \<Rightarrow> ('r, 'g) answer" where
  "BusinessBookingController_handle E dr user (BusinessBooking_list z dto) w =
     on_read (Inr (listForBusiness z dto (w_db w))) w"
| "BusinessBookingController_handle E dr user (BusinessBooking_updateStatus z k s) w =
     on_db (updateStatus (now_of dr) z k s) w"
| "BusinessBookingController_handle E dr user (BusinessBooking_cancel z k reason) w =
     on_db (cancelByBusiness (now_of dr) z k reason) w"

section \<open>\<open>business/business.controller.ts\<close>\<close>

datatype BusinessController =
    Business_create CreateBusinessDto
  | Business_findMine
  | Business_findOneForOwner id
  | Business_update id UpdateBusinessDto
  | Business_updateCancellationPolicy id CancellationPolicyDto
  | Business_addDocument id DocumentType string

fun BusinessController_route :: "BusinessController \<Rightarrow> route" where
  "BusinessController_route (Business_create _) = user_route"
| "BusinessController_route Business_findMine = user_route"
| "BusinessController_route (Business_findOneForOwner _) = member_route [OWNER, MANAGER, STAFF]"
| "BusinessController_route (Business_update _ _) = member_route [OWNER, MANAGER]"
| "BusinessController_route (Business_updateCancellationPolicy _ _) = member_route [OWNER]"
| "BusinessController_route (Business_addDocument _ _ _) = member_route [OWNER]"

fun BusinessController_valid :: "validators \<Rightarrow> BusinessController \<Rightarrow> bool" where
  "BusinessController_valid V (Business_create dto) = valid_CreateBusinessDto dto"
| "BusinessController_valid V (Business_update _ dto) = valid_UpdateBusinessDto dto"
| "BusinessController_valid V (Business_updateCancellationPolicy _ dto) = valid_policy dto"
| "BusinessController_valid V (Business_addDocument _ _ url) = isUrl V url"
| "BusinessController_valid V _ = True"

fun BusinessController_handle :: "('r, 'g) environment \<Rightarrow> draws \<Rightarrow> id \<Rightarrow> BusinessController \<Rightarrow> ('r, 'g) world
    \<Rightarrow> ('r, 'g) answer" where
  "BusinessController_handle E dr user (Business_create dto) w =
     on_db (business_create (now_of dr) (uuid dr 0) (uuid dr 1) user dto) w"
| "BusinessController_handle E dr user Business_findMine w =
     on_read (Inr (findMine user (w_db w))) w"
| "BusinessController_handle E dr user (Business_findOneForOwner z) w =
     on_read (findOneForOwner z (w_db w)) w"
| "BusinessController_handle E dr user (Business_update z dto) w =
     on_db (business_update z dto) w"
| "BusinessController_handle E dr user (Business_updateCancellationPolicy z dto) w =
     on_db (updateCancellationPolicy z dto) w"
| "BusinessController_handle E dr user (Business_addDocument z ty url) w =
     on_db (addDocument (uuid dr 0) z ty url) w"

section \<open>\<open>branch/branch.controller.ts\<close>\<close>

datatype BranchController =
    Branch_create id CreateBranchDto
  | Branch_findAll id
  | Branch_update id id UpdateBranchDto

fun BranchController_route :: "BranchController \<Rightarrow> route" where
  "BranchController_route (Branch_create _ _) = member_route [OWNER, MANAGER]"
| "BranchController_route (Branch_findAll _) = member_route [OWNER, MANAGER, STAFF]"
| "BranchController_route (Branch_update _ _ _) = member_route [OWNER, MANAGER]"

fun BranchController_valid :: "validators \<Rightarrow> BranchController \<Rightarrow> bool" where
  "BranchController_valid V (Branch_create _ dto) = valid_CreateBranchDto dto"
| "BranchController_valid V (Branch_update _ _ dto) = valid_UpdateBranchDto dto"
| "BranchController_valid V _ = True"

fun BranchController_handle :: "('r, 'g) environment \<Rightarrow> draws \<Rightarrow> id \<Rightarrow> BranchController \<Rightarrow> ('r, 'g) world
    \<Rightarrow> ('r, 'g) answer" where
  "BranchController_handle E dr user (Branch_create z dto) w =
     on_db (branch_create (uuid dr 0) z dto) w"
| "BranchController_handle E dr user (Branch_findAll z) w =
     on_read (Inr (branch_findAll z (w_db w))) w"
| "BranchController_handle E dr user (Branch_update z r dto) w =
     on_db (branch_update z r dto) w"

section \<open>\<open>service/service-catalog.controller.ts\<close>\<close>

datatype ServiceCatalogController =
    Service_create id CreateServiceDto
  | Service_findAll id
  | Service_update id id UpdateServiceDto
  | Service_assignStaff id id id
  | Service_unassignStaff id id id

fun ServiceCatalogController_route :: "ServiceCatalogController \<Rightarrow> route" where
  "ServiceCatalogController_route (Service_create _ _) = member_route [OWNER, MANAGER]"
| "ServiceCatalogController_route (Service_findAll _) = member_route [OWNER, MANAGER, STAFF]"
| "ServiceCatalogController_route (Service_update _ _ _) = member_route [OWNER, MANAGER]"
| "ServiceCatalogController_route (Service_assignStaff _ _ _) = member_route [OWNER, MANAGER]"
| "ServiceCatalogController_route (Service_unassignStaff _ _ _) = member_route [OWNER, MANAGER]"

fun ServiceCatalogController_valid :: "validators \<Rightarrow> ServiceCatalogController \<Rightarrow> bool" where
  "ServiceCatalogController_valid V (Service_create _ dto) = valid_CreateServiceDto dto"
| "ServiceCatalogController_valid V (Service_update _ _ dto) = valid_UpdateServiceDto dto"
| "ServiceCatalogController_valid V _ = True"

fun ServiceCatalogController_handle :: "('r, 'g) environment \<Rightarrow> draws \<Rightarrow> id \<Rightarrow> ServiceCatalogController \<Rightarrow> ('r, 'g) world
    \<Rightarrow> ('r, 'g) answer" where
  "ServiceCatalogController_handle E dr user (Service_create z dto) w =
     on_db (service_create (uuid dr 0) z dto) w"
| "ServiceCatalogController_handle E dr user (Service_findAll z) w =
     on_read (Inr (service_findAll z (w_db w))) w"
| "ServiceCatalogController_handle E dr user (Service_update z s dto) w =
     on_db (service_update z s dto) w"
| "ServiceCatalogController_handle E dr user (Service_assignStaff z s m) w =
     on_db (assignStaff z s m) w"
| "ServiceCatalogController_handle E dr user (Service_unassignStaff z s m) w =
     on_db (unassignStaff z s m) w"

section \<open>\<open>staff/staff.controller.ts\<close>\<close>

datatype StaffController =
    Staff_invite id InviteStaffDto
  | Staff_findAll id
  | Staff_deactivate id id

fun StaffController_route :: "StaffController \<Rightarrow> route" where
  "StaffController_route (Staff_invite _ _) = member_route [OWNER, MANAGER]"
| "StaffController_route (Staff_findAll _) = member_route [OWNER, MANAGER, STAFF]"
| "StaffController_route (Staff_deactivate _ _) = member_route [OWNER, MANAGER]"

fun StaffController_valid :: "validators \<Rightarrow> StaffController \<Rightarrow> bool" where
  "StaffController_valid V (Staff_invite _ dto) = valid_InviteStaffDto dto"
| "StaffController_valid V _ = True"

fun StaffController_handle :: "('r, 'g) environment \<Rightarrow> draws \<Rightarrow> id \<Rightarrow> StaffController \<Rightarrow> ('r, 'g) world
    \<Rightarrow> ('r, 'g) answer" where
  "StaffController_handle E dr user (Staff_invite z dto) w =
     on_db (invite (uuid dr 0) z dto) w"
| "StaffController_handle E dr user (Staff_findAll z) w =
     on_read (Inr (staff_findAll z (w_db w))) w"
| "StaffController_handle E dr user (Staff_deactivate z m) w =
     on_db (deactivate z m) w"

section \<open>\<open>working-hours/working-hours.controller.ts\<close>\<close>

datatype WorkingHoursController =
    WorkingHours_set id SetWorkingHoursDto
  | WorkingHours_addHoliday id AddHolidayDto
  | WorkingHours_listHolidays id "id option" "id option"

fun WorkingHoursController_route :: "WorkingHoursController \<Rightarrow> route" where
  "WorkingHoursController_route (WorkingHours_set _ _) = member_route [OWNER, MANAGER]"
| "WorkingHoursController_route (WorkingHours_addHoliday _ _) = member_route [OWNER, MANAGER]"
| "WorkingHoursController_route (WorkingHours_listHolidays _ _ _) = member_route [OWNER, MANAGER, STAFF]"

fun WorkingHoursController_valid :: "validators \<Rightarrow> WorkingHoursController \<Rightarrow> bool" where
  "WorkingHoursController_valid V (WorkingHours_set _ dto) = valid_SetWorkingHoursDto dto"
| "WorkingHoursController_valid V (WorkingHours_addHoliday _ dto) = valid_AddHolidayDto dto"
| "WorkingHoursController_valid V _ = True"

fun WorkingHoursController_handle :: "('r, 'g) environment \<Rightarrow> draws \<Rightarrow> id \<Rightarrow> WorkingHoursController \<Rightarrow> ('r, 'g) world
    \<Rightarrow> ('r, 'g) answer" where
  "WorkingHoursController_handle E dr user (WorkingHours_set z dto) w =
     on_db (setWorkingHours z dto) w"
| "WorkingHoursController_handle E dr user (WorkingHours_addHoliday z dto) w =
     on_db (addHoliday z dto) w"
| "WorkingHoursController_handle E dr user (WorkingHours_listHolidays z b m) w =
     on_read (listHolidays z b m (w_db w)) w"

section \<open>\<open>discovery/discovery.controller.ts\<close>\<close>

datatype DiscoveryController =
    Discovery_search SearchBusinessDto
  | Discovery_findOne id

fun DiscoveryController_route :: "DiscoveryController \<Rightarrow> route" where
  "DiscoveryController_route (Discovery_search _) = public_route"
| "DiscoveryController_route (Discovery_findOne _) = public_route"

fun DiscoveryController_valid :: "validators \<Rightarrow> DiscoveryController \<Rightarrow> bool" where
  "DiscoveryController_valid V (Discovery_search dto) = valid_SearchBusinessDto dto"
| "DiscoveryController_valid V _ = True"

fun DiscoveryController_handle :: "('r, 'g) environment \<Rightarrow> draws \<Rightarrow> id \<Rightarrow> DiscoveryController \<Rightarrow> ('r, 'g) world
    \<Rightarrow> ('r, 'g) answer" where
  "DiscoveryController_handle E dr user (Discovery_search dto) w =
     on_read (Inr (business_search (E_contains E) dto (w_db w))) w"
| "DiscoveryController_handle E dr user (Discovery_findOne z) w =
     on_read (findOnePublic z (w_db w)) w"

section \<open>\<open>payment/payment.controller.ts\<close>\<close>

datatype PaymentController =
    Payment_initiate InitiatePaymentDto
  | Payment_callback string "string option"
  | Payment_refund id string

fun PaymentController_route :: "PaymentController \<Rightarrow> route" where
  "PaymentController_route (Payment_initiate _) = user_route"
| "PaymentController_route (Payment_callback _ _) = public_route"
| "PaymentController_route (Payment_refund _ _) = admin_route"

fun PaymentController_valid :: "validators \<Rightarrow> PaymentController \<Rightarrow> bool" where
  "PaymentController_valid V (Payment_refund _ reason) = valid_RefundPaymentDto reason"
| "PaymentController_valid V _ = True"

fun PaymentController_handle :: "('r, 'g) environment \<Rightarrow> draws \<Rightarrow> id \<Rightarrow> PaymentController \<Rightarrow> ('r, 'g) world
    \<Rightarrow> ('r, 'g) answer" where
  "PaymentController_handle E dr user (Payment_initiate dto) w =
     on_gateway (initiate (E_gateway E) (E_publicUrl E) (gateway_uuid dr) (award_uuids dr 0) (now_of dr) (uuid dr 0) user dto) w"
| "PaymentController_handle E dr user (Payment_callback gw ref) w =
     on_gateway (handleCallback (E_gateway E) (gateway_uuid dr) (award_uuids dr 0) (now_of dr) gw ref) w"
| "PaymentController_handle E dr user (Payment_refund k reason) w =
     on_db (refund (now_of dr) (uuid dr 0) k user reason) w"

section \<open>\<open>wallet/wallet.controller.ts\<close>\<close>

datatype WalletController =
    Wallet_getMine
  | Wallet_topup money

fun WalletController_route :: "WalletController \<Rightarrow> route" where
  "WalletController_route Wallet_getMine = user_route"
| "WalletController_route (Wallet_topup _) = user_route"

fun WalletController_valid :: "validators \<Rightarrow> WalletController \<Rightarrow> bool" where
  "WalletController_valid V (Wallet_topup amount) = valid_topup amount"
| "WalletController_valid V _ = True"

fun WalletController_handle :: "('r, 'g) environment \<Rightarrow> draws \<Rightarrow> id \<Rightarrow> WalletController \<Rightarrow> ('r, 'g) world
    \<Rightarrow> ('r, 'g) answer" where
  "WalletController_handle E dr user Wallet_getMine w =
     on_db (ok (wallet_getMine (uuid dr 0) user)) w"
| "WalletController_handle E dr user (Wallet_topup amount) w =
     on_gateway (ok (topup (E_gateway E) (E_publicUrl E) (gateway_uuid dr) (now_of dr) (uuid dr 0) user amount)) w"

section \<open>\<open>settlement/settlement.controller.ts\<close>\<close>

datatype BusinessSettlementController =
    BusinessSettlement_list id

fun BusinessSettlementController_route :: "BusinessSettlementController \<Rightarrow> route" where
  "BusinessSettlementController_route (BusinessSettlement_list _) = member_route [OWNER]"

fun BusinessSettlementController_handle :: "('r, 'g) environment \<Rightarrow> draws \<Rightarrow> id \<Rightarrow> BusinessSettlementController \<Rightarrow> ('r, 'g) world
    \<Rightarrow> ('r, 'g) answer" where
  "BusinessSettlementController_handle E dr user (BusinessSettlement_list z) w =
     on_read (Inr (settlement_listForBusiness z (w_db w))) w"

section \<open>\<open>settlement/settlement.controller.ts\<close>\<close>

datatype AdminSettlementController =
    AdminSettlement_run RunSettlementDto

fun AdminSettlementController_route :: "AdminSettlementController \<Rightarrow> route" where
  "AdminSettlementController_route (AdminSettlement_run _) = admin_route"

fun AdminSettlementController_handle :: "('r, 'g) environment \<Rightarrow> draws \<Rightarrow> id \<Rightarrow> AdminSettlementController \<Rightarrow> ('r, 'g) world
    \<Rightarrow> ('r, 'g) answer" where
  "AdminSettlementController_handle E dr user (AdminSettlement_run dto) w =
     on_db (runBatch dto) w"

section \<open>\<open>coupon/business-coupon.controller.ts\<close>\<close>

datatype BusinessCouponController =
    BusinessCoupon_create id CreateCouponDto
  | BusinessCoupon_list id
  | BusinessCoupon_update id id UpdateCouponDto

fun BusinessCouponController_route :: "BusinessCouponController \<Rightarrow> route" where
  "BusinessCouponController_route (BusinessCoupon_create _ _) = member_route [OWNER, MANAGER]"
| "BusinessCouponController_route (BusinessCoupon_list _) = member_route [OWNER, MANAGER]"
| "BusinessCouponController_route (BusinessCoupon_update _ _ _) = member_route [OWNER, MANAGER]"

fun BusinessCouponController_valid :: "validators \<Rightarrow> BusinessCouponController \<Rightarrow> bool" where
  "BusinessCouponController_valid V (BusinessCoupon_create _ dto) = valid_CreateCouponDto dto"
| "BusinessCouponController_valid V (BusinessCoupon_update _ _ dto) = valid_UpdateCouponDto dto"
| "BusinessCouponController_valid V _ = True"

fun BusinessCouponController_handle :: "('r, 'g) environment \<Rightarrow> draws \<Rightarrow> id \<Rightarrow> BusinessCouponController \<Rightarrow> ('r, 'g) world
    \<Rightarrow> ('r, 'g) answer" where
  "BusinessCouponController_handle E dr user (BusinessCoupon_create z dto) w =
     on_db (createForBusiness (uuid dr 0) z dto) w"
| "BusinessCouponController_handle E dr user (BusinessCoupon_list z) w =
     on_read (Inr (coupon_listForBusiness z (w_db w))) w"
| "BusinessCouponController_handle E dr user (BusinessCoupon_update z k dto) w =
     on_db (coupon_update k dto) w"

section \<open>\<open>coupon/coupon.controller.ts\<close>\<close>

datatype CouponController =
    Coupon_validate ValidateCouponDto

fun CouponController_route :: "CouponController \<Rightarrow> route" where
  "CouponController_route (Coupon_validate _) = user_route"

fun CouponController_valid :: "validators \<Rightarrow> CouponController \<Rightarrow> bool" where
  "CouponController_valid V (Coupon_validate dto) = valid_ValidateCouponDto dto"

fun CouponController_handle :: "('r, 'g) environment \<Rightarrow> draws \<Rightarrow> id \<Rightarrow> CouponController \<Rightarrow> ('r, 'g) world
    \<Rightarrow> ('r, 'g) answer" where
  "CouponController_handle E dr user (Coupon_validate dto) w =
     on_db (coupon_validate (now_of dr) (vc_code dto) user (vc_businessId dto) (vc_purchaseAmount dto)) w"

section \<open>\<open>coupon/coupon.controller.ts\<close>\<close>

datatype AdminCouponController =
    AdminCoupon_create CreateCouponDto
  | AdminCoupon_list
  | AdminCoupon_update id UpdateCouponDto

fun AdminCouponController_route :: "AdminCouponController \<Rightarrow> route" where
  "AdminCouponController_route (AdminCoupon_create _) = admin_route"
| "AdminCouponController_route AdminCoupon_list = admin_route"
| "AdminCouponController_route (AdminCoupon_update _ _) = admin_route"

fun AdminCouponController_valid :: "validators \<Rightarrow> AdminCouponController \<Rightarrow> bool" where
  "AdminCouponController_valid V (AdminCoupon_create dto) = valid_CreateCouponDto dto"
| "AdminCouponController_valid V (AdminCoupon_update _ dto) = valid_UpdateCouponDto dto"
| "AdminCouponController_valid V _ = True"

fun AdminCouponController_handle :: "('r, 'g) environment \<Rightarrow> draws \<Rightarrow> id \<Rightarrow> AdminCouponController \<Rightarrow> ('r, 'g) world
    \<Rightarrow> ('r, 'g) answer" where
  "AdminCouponController_handle E dr user (AdminCoupon_create dto) w =
     on_db (createGlobal (uuid dr 0) dto) w"
| "AdminCouponController_handle E dr user AdminCoupon_list w =
     on_read (Inr (listGlobal (w_db w))) w"
| "AdminCouponController_handle E dr user (AdminCoupon_update k dto) w =
     on_db (coupon_update k dto) w"

section \<open>\<open>loyalty/loyalty.controller.ts\<close>\<close>

datatype LoyaltyController =
    Loyalty_getMine

fun LoyaltyController_route :: "LoyaltyController \<Rightarrow> route" where
  "LoyaltyController_route Loyalty_getMine = user_route"

fun LoyaltyController_handle :: "('r, 'g) environment \<Rightarrow> draws \<Rightarrow> id \<Rightarrow> LoyaltyController \<Rightarrow> ('r, 'g) world
    \<Rightarrow> ('r, 'g) answer" where
  "LoyaltyController_handle E dr user Loyalty_getMine w =
     on_db (ok (loyalty_getMine (uuid dr 0) user)) w"

section \<open>\<open>referral/referral.controller.ts\<close>\<close>

datatype ReferralController =
    Referral_getMyCode

fun ReferralController_route :: "ReferralController \<Rightarrow> route" where
  "ReferralController_route Referral_getMyCode = user_route"

fun ReferralController_handle :: "('r, 'g) environment \<Rightarrow> draws \<Rightarrow> id \<Rightarrow> ReferralController \<Rightarrow> ('r, 'g) world
    \<Rightarrow> ('r, 'g) answer" where
  "ReferralController_handle E dr user Referral_getMyCode w =
     on_read (Inr (getMyCode user)) w"

section \<open>\<open>admin/business/admin-business.controller.ts\<close>\<close>

datatype AdminBusinessController =
    AdminBusiness_listPending
  | AdminBusiness_approve id
  | AdminBusiness_reject id string
  | AdminBusiness_suspend id string

fun AdminBusinessController_route :: "AdminBusinessController \<Rightarrow> route" where
  "AdminBusinessController_route AdminBusiness_listPending = admin_route"
| "AdminBusinessController_route (AdminBusiness_approve _) = admin_route"
| "AdminBusinessController_route (AdminBusiness_reject _ _) = admin_route"
| "AdminBusinessController_route (AdminBusiness_suspend _ _) = admin_route"

fun AdminBusinessController_valid :: "validators \<Rightarrow> AdminBusinessController \<Rightarrow> bool" where
  "AdminBusinessController_valid V (AdminBusiness_reject _ reason) = valid_reason reason"
| "AdminBusinessController_valid V (AdminBusiness_suspend _ reason) = valid_reason reason"
| "AdminBusinessController_valid V _ = True"

fun AdminBusinessController_handle :: "('r, 'g) environment \<Rightarrow> draws \<Rightarrow> id \<Rightarrow> AdminBusinessController \<Rightarrow> ('r, 'g) world
    \<Rightarrow> ('r, 'g) answer" where
  "AdminBusinessController_handle E dr user AdminBusiness_listPending w =
     on_read (Inr (listPendingForAdmin (w_db w))) w"
| "AdminBusinessController_handle E dr user (AdminBusiness_approve z) w =
     on_db (approve z user) w"
| "AdminBusinessController_handle E dr user (AdminBusiness_reject z reason) w =
     on_db (reject z user reason) w"
| "AdminBusinessController_handle E dr user (AdminBusiness_suspend z reason) w =
     on_db (suspend z user reason) w"
section \<open>All routes\<close>

datatype endpoint =
    AuthRoute AuthController
  | UsersRoute UsersController
  | BookingRoute BookingController
  | AvailabilityRoute AvailabilityController
  | BusinessBookingRoute BusinessBookingController
  | BusinessRoute BusinessController
  | BranchRoute BranchController
  | ServiceRoute ServiceCatalogController
  | StaffRoute StaffController
  | WorkingHoursRoute WorkingHoursController
  | DiscoveryRoute DiscoveryController
  | PaymentRoute PaymentController
  | WalletRoute WalletController
  | BusinessSettlementRoute BusinessSettlementController
  | AdminSettlementRoute AdminSettlementController
  | BusinessCouponRoute BusinessCouponController
  | CouponRoute CouponController
  | AdminCouponRoute AdminCouponController
  | LoyaltyRoute LoyaltyController
  | ReferralRoute ReferralController
  | AdminBusinessRoute AdminBusinessController

fun route_of :: "endpoint \<Rightarrow> route" where
  "route_of (AuthRoute r) = AuthController_route r"
| "route_of (UsersRoute r) = UsersController_route r"
| "route_of (BookingRoute r) = BookingController_route r"
| "route_of (AvailabilityRoute r) = AvailabilityController_route r"
| "route_of (BusinessBookingRoute r) = BusinessBookingController_route r"
| "route_of (BusinessRoute r) = BusinessController_route r"
| "route_of (BranchRoute r) = BranchController_route r"
| "route_of (ServiceRoute r) = ServiceCatalogController_route r"
| "route_of (StaffRoute r) = StaffController_route r"
| "route_of (WorkingHoursRoute r) = WorkingHoursController_route r"
| "route_of (DiscoveryRoute r) = DiscoveryController_route r"
| "route_of (PaymentRoute r) = PaymentController_route r"
| "route_of (WalletRoute r) = WalletController_route r"
| "route_of (BusinessSettlementRoute r) = BusinessSettlementController_route r"
| "route_of (AdminSettlementRoute r) = AdminSettlementController_route r"
| "route_of (BusinessCouponRoute r) = BusinessCouponController_route r"
| "route_of (CouponRoute r) = CouponController_route r"
| "route_of (AdminCouponRoute r) = AdminCouponController_route r"
| "route_of (LoyaltyRoute r) = LoyaltyController_route r"
| "route_of (ReferralRoute r) = ReferralController_route r"
| "route_of (AdminBusinessRoute r) = AdminBusinessController_route r"

fun valid_request :: "validators \<Rightarrow> endpoint \<Rightarrow> bool" where
  "valid_request V (AuthRoute r) = AuthController_valid V r"
| "valid_request V (UsersRoute r) = UsersController_valid V r"
| "valid_request V (BookingRoute r) = BookingController_valid V r"
| "valid_request V (BusinessBookingRoute r) = BusinessBookingController_valid V r"
| "valid_request V (BusinessRoute r) = BusinessController_valid V r"
| "valid_request V (BranchRoute r) = BranchController_valid V r"
| "valid_request V (ServiceRoute r) = ServiceCatalogController_valid V r"
| "valid_request V (StaffRoute r) = StaffController_valid V r"
| "valid_request V (WorkingHoursRoute r) = WorkingHoursController_valid V r"
| "valid_request V (DiscoveryRoute r) = DiscoveryController_valid V r"
| "valid_request V (PaymentRoute r) = PaymentController_valid V r"
| "valid_request V (WalletRoute r) = WalletController_valid V r"
| "valid_request V (BusinessCouponRoute r) = BusinessCouponController_valid V r"
| "valid_request V (CouponRoute r) = CouponController_valid V r"
| "valid_request V (AdminCouponRoute r) = AdminCouponController_valid V r"
| "valid_request V (AdminBusinessRoute r) = AdminBusinessController_valid V r"
| "valid_request V _ = True"

text \<open>\<open>request.params.id ?? request.params.businessId\<close>\<close>

fun path_id :: "endpoint \<Rightarrow> id option" where
  "path_id (UsersRoute (Users_revokeSession k)) = Some k"
| "path_id (BookingRoute (Booking_confirm k)) = Some k"
| "path_id (BookingRoute (Booking_cancel k _)) = Some k"
| "path_id (BookingRoute (Booking_reschedule k _)) = Some k"
| "path_id (AvailabilityRoute (Availability_getFreeSlots z _)) = Some z"
| "path_id (BusinessBookingRoute (BusinessBooking_list z _)) = Some z"
| "path_id (BusinessBookingRoute (BusinessBooking_updateStatus z _ _)) = Some z"
| "path_id (BusinessBookingRoute (BusinessBooking_cancel z _ _)) = Some z"
| "path_id (BusinessRoute (Business_findOneForOwner z)) = Some z"
| "path_id (BusinessRoute (Business_update z _)) = Some z"
| "path_id (BusinessRoute (Business_updateCancellationPolicy z _)) = Some z"
| "path_id (BusinessRoute (Business_addDocument z _ _)) = Some z"
| "path_id (BranchRoute (Branch_create z _)) = Some z"
| "path_id (BranchRoute (Branch_findAll z)) = Some z"
| "path_id (BranchRoute (Branch_update z _ _)) = Some z"
| "path_id (ServiceRoute (Service_create z _)) = Some z"
| "path_id (ServiceRoute (Service_findAll z)) = Some z"
| "path_id (ServiceRoute (Service_update z _ _)) = Some z"
| "path_id (ServiceRoute (Service_assignStaff z _ _)) = Some z"
| "path_id (ServiceRoute (Service_unassignStaff z _ _)) = Some z"
| "path_id (StaffRoute (Staff_invite z _)) = Some z"
| "path_id (StaffRoute (Staff_findAll z)) = Some z"
| "path_id (StaffRoute (Staff_deactivate z _)) = Some z"
| "path_id (WorkingHoursRoute (WorkingHours_set z _)) = Some z"
| "path_id (WorkingHoursRoute (WorkingHours_addHoliday z _)) = Some z"
| "path_id (WorkingHoursRoute (WorkingHours_listHolidays z _ _)) = Some z"
| "path_id (DiscoveryRoute (Discovery_findOne z)) = Some z"
| "path_id (PaymentRoute (Payment_refund k _)) = Some k"
| "path_id (BusinessSettlementRoute (BusinessSettlement_list z)) = Some z"
| "path_id (BusinessCouponRoute (BusinessCoupon_create z _)) = Some z"
| "path_id (BusinessCouponRoute (BusinessCoupon_list z)) = Some z"
| "path_id (BusinessCouponRoute (BusinessCoupon_update z _ _)) = Some z"
| "path_id (AdminBusinessRoute (AdminBusiness_approve z)) = Some z"
| "path_id (AdminBusinessRoute (AdminBusiness_reject z _)) = Some z"
| "path_id (AdminBusinessRoute (AdminBusiness_suspend z _)) = Some z"
| "path_id _ = None"

fun handle :: "('r, 'g) environment \<Rightarrow> draws \<Rightarrow> id \<Rightarrow> endpoint \<Rightarrow> ('r, 'g) world \<Rightarrow> ('r, 'g) answer" where
  "handle E dr user (AuthRoute r) w = AuthController_handle E dr user r w"
| "handle E dr user (UsersRoute r) w = UsersController_handle E dr user r w"
| "handle E dr user (BookingRoute r) w = BookingController_handle E dr user r w"
| "handle E dr user (AvailabilityRoute r) w = AvailabilityController_handle E dr user r w"
| "handle E dr user (BusinessBookingRoute r) w = BusinessBookingController_handle E dr user r w"
| "handle E dr user (BusinessRoute r) w = BusinessController_handle E dr user r w"
| "handle E dr user (BranchRoute r) w = BranchController_handle E dr user r w"
| "handle E dr user (ServiceRoute r) w = ServiceCatalogController_handle E dr user r w"
| "handle E dr user (StaffRoute r) w = StaffController_handle E dr user r w"
| "handle E dr user (WorkingHoursRoute r) w = WorkingHoursController_handle E dr user r w"
| "handle E dr user (DiscoveryRoute r) w = DiscoveryController_handle E dr user r w"
| "handle E dr user (PaymentRoute r) w = PaymentController_handle E dr user r w"
| "handle E dr user (WalletRoute r) w = WalletController_handle E dr user r w"
| "handle E dr user (BusinessSettlementRoute r) w = BusinessSettlementController_handle E dr user r w"
| "handle E dr user (AdminSettlementRoute r) w = AdminSettlementController_handle E dr user r w"
| "handle E dr user (BusinessCouponRoute r) w = BusinessCouponController_handle E dr user r w"
| "handle E dr user (CouponRoute r) w = CouponController_handle E dr user r w"
| "handle E dr user (AdminCouponRoute r) w = AdminCouponController_handle E dr user r w"
| "handle E dr user (LoyaltyRoute r) w = LoyaltyController_handle E dr user r w"
| "handle E dr user (ReferralRoute r) w = ReferralController_handle E dr user r w"
| "handle E dr user (AdminBusinessRoute r) w = AdminBusinessController_handle E dr user r w"

section \<open>A request\<close>

text \<open>
  The token of a request stands for a user id when its signature and expiry are good
  (\<open>ignoreExpiration: false\<close>), which passport checks; the strategy then loads the user.
\<close>

definition authenticate :: "id option \<Rightarrow> db \<Rightarrow> request_user result" where
  "authenticate sub d =
     (case sub of None \<Rightarrow> Inl (Unauthorized NotAuthenticated) | Some k \<Rightarrow> jwt_validate k d)"

definition user_id :: "request_user option \<Rightarrow> id" where
  "user_id u = (case u of Some (k, _) \<Rightarrow> k | None \<Rightarrow> [])"

text \<open>An empty path segment matches no route.\<close>

definition serve :: "('r, 'g) environment \<Rightarrow> draws \<Rightarrow> id option \<Rightarrow> endpoint \<Rightarrow> ('r, 'g) world \<Rightarrow> ('r, 'g) answer" where
  "serve E dr sub ep w =
     (if path_id ep = Some [] then Some (Inl (NotFound NoRoute), w)
      else case guards (route_of ep) (authenticate sub (w_db w)) (path_id ep) (w_db w) of
        Inl e \<Rightarrow> Some (Inl e, w)
      | Inr u \<Rightarrow>
          if \<not> valid_request (E_validators E) ep then Some (Inl (BadRequest ValidationFailed), w)
          else handle E dr (user_id u) ep w)"

end
