(* ===== verification/DbInv.thy ===== *)
theory DbInv
  imports PaymentInv AccountInv Staff ServiceCatalog Settlement
begin

text \<open>
  The invariant of the whole database, \<open>db_ok\<close>, and for every service operation the
  guarantee \<open>db_step\<close>: it keeps the invariant, and every reservation stays, with its
  agreement unchanged and its status moved along the allowed transitions.
\<close>

definition db_ok :: "db \<Rightarrow> bool" where
  "db_ok d \<longleftrightarrow> accounts_ok d \<and> otp_ok d \<and> staff_ok d \<and> services_ok d \<and> coupons_ok d
     \<and> bookings_ok (bookings d) \<and> wallets_ok d \<and> payments_ok d \<and> loyalty_ok d \<and> referrals_ok d"

text \<open>
  The life of a payment: it is initiated, succeeds or fails, and what succeeded may be
  refunded. Who pays, for which reservation, and how much never changes.
\<close>

fun payment_transitions :: "PaymentStatus \<Rightarrow> PaymentStatus list" where
  "payment_transitions INITIATED = [SUCCESS, FAILED]"
| "payment_transitions SUCCESS = [REFUNDED]"
| "payment_transitions FAILED = []"
| "payment_transitions REFUNDED = []"

definition pay_moves :: "PaymentStatus \<Rightarrow> PaymentStatus \<Rightarrow> bool" where
  "pay_moves s s' \<longleftrightarrow> s' \<in> set (payment_transitions s)"

definition pay_terms :: "payment \<Rightarrow> (id \<times> id option \<times> id) \<times> PaymentType \<times> money \<times> string" where
  "pay_terms p = ((pay_id p, pay_bookingId p, pay_userId p), pay_type p, pay_amount p, pay_gateway p)"

definition pays_evolve :: "payment list \<Rightarrow> payment list \<Rightarrow> bool" where
  "pays_evolve t t' \<longleftrightarrow> (\<forall>p \<in> set t. \<exists>p' \<in> set t'. pay_terms p' = pay_terms p
     \<and> pay_moves\<^sup>*\<^sup>* (pay_status p) (pay_status p'))"

lemma pays_evolve_refl [simp]: "pays_evolve t t"
  by (auto simp: pays_evolve_def)

lemma pays_evolve_trans: "pays_evolve t u \<Longrightarrow> pays_evolve u v \<Longrightarrow> pays_evolve t v"
  unfolding pays_evolve_def by (metis rtranclp_trans)

lemma pays_evolve_insert: "pays_evolve t (insert_row p t)"
  by (auto simp: pays_evolve_def)

lemma pays_evolve_update:
  assumes "unique_key pay_id t" "p \<in> set t" "pay_terms (f p) = pay_terms p"
    "pay_status (f p) = pay_status p \<or> pay_moves (pay_status p) (pay_status (f p))"
  shows "pays_evolve t (update_rows (\<lambda>q. pay_id q = pay_id p) f t)"
  unfolding pays_evolve_def
proof (intro ballI bexI conjI)
  fix q assume q: "q \<in> set t"
  then show "(if pay_id q = pay_id p then f q else q) \<in> set (update_rows (\<lambda>q. pay_id q = pay_id p) f t)"
    by (rule in_update_rowsI)
  have same: "pay_id q = pay_id p \<Longrightarrow> q = p" using unique_key_eq [OF assms(1) q assms(2)] .
  show "pay_terms (if pay_id q = pay_id p then f q else q) = pay_terms q"
    using same assms(3) by auto
  show "pay_moves\<^sup>*\<^sup>* (pay_status q) (pay_status (if pay_id q = pay_id p then f q else q))"
    using same assms(4) by auto
qed

text \<open>A refunded or failed payment stays what it is.\<close>

lemma pay_final: "pay_moves\<^sup>*\<^sup>* s s' \<Longrightarrow> payment_transitions s = [] \<Longrightarrow> s' = s"
  by (induction rule: rtranclp_induct) (auto simp: pay_moves_def)

definition db_step :: "db \<Rightarrow> db \<Rightarrow> bool" where
  "db_step d d' \<longleftrightarrow> db_ok d' \<and> evolves (bookings d) (bookings d') \<and> pays_evolve (payments d) (payments d')"

lemma db_okD:
  assumes "db_ok d"
  shows "accounts_ok d" "otp_ok d" "staff_ok d" "services_ok d" "coupons_ok d" "bookings_ok (bookings d)"
    "wallets_ok d" "payments_ok d" "loyalty_ok d" "referrals_ok d"
  using assms by (simp_all add: db_ok_def)

lemma db_step_refl: "db_ok d \<Longrightarrow> db_step d d"
  by (simp add: db_step_def)

lemma db_step_trans: "db_step d e \<Longrightarrow> db_step e f \<Longrightarrow> db_step d f"
  using evolves_trans pays_evolve_trans by (auto simp: db_step_def)

section \<open>Each part of the invariant depends on its tables only\<close>

lemma otp_ok_cong: "otp_codes d = otp_codes e \<Longrightarrow> otp_ok d = otp_ok e"
  by (simp add: otp_ok_def)

lemma staff_ok_cong:
  assumes "staff_members d = staff_members e"
    "map (\<lambda>b. (biz_id b, biz_ownerId b)) (businesses d) = map (\<lambda>b. (biz_id b, biz_ownerId b)) (businesses e)"
  shows "staff_ok d = staff_ok e"
proof -
  let ?P = "\<lambda>z u. \<exists>m \<in> set (staff_members e). sm_businessId m = z \<and> sm_userId m = u \<and> sm_role m = OWNER"
  have "list_all (\<lambda>b. ?P (biz_id b) (biz_ownerId b)) t = list_all (\<lambda>(x, y). ?P x y) (map (\<lambda>b. (biz_id b, biz_ownerId b)) t)"
    for t :: "business list" by (simp add: list_all_iff)
  note this [of "businesses d"] this [of "businesses e"]
  then have "list_all (\<lambda>b. ?P (biz_id b) (biz_ownerId b)) (businesses d)
      = list_all (\<lambda>b. ?P (biz_id b) (biz_ownerId b)) (businesses e)"
    by (simp only: assms(2))
  with assms(1) show ?thesis by (simp add: staff_ok_def)
qed

lemma services_ok_cong:
  "services d = services e \<Longrightarrow> service_staffs d = service_staffs e \<Longrightarrow> services_ok d = services_ok e"
  by (simp add: services_ok_def)

lemma coupons_ok_cong:
  "coupons d = coupons e \<Longrightarrow> coupon_usages d = coupon_usages e \<Longrightarrow> coupons_ok d = coupons_ok e"
  by (simp add: coupons_ok_def usages_of_def)

lemma referrals_ok_cong: "referrals d = referrals e \<Longrightarrow> referrals_ok d = referrals_ok e"
  by (simp add: referrals_ok_def)

text \<open>A step either leaves the tables of a part alone or establishes the part.\<close>

lemma db_stepI:
  assumes "db_ok d"
    "users e = users d \<and> refresh_tokens e = refresh_tokens d \<or> accounts_ok e"
    "otp_codes e = otp_codes d \<or> otp_ok e"
    "staff_members e = staff_members d \<and> map (\<lambda>b. (biz_id b, biz_ownerId b)) (businesses e)
       = map (\<lambda>b. (biz_id b, biz_ownerId b)) (businesses d) \<or> staff_ok e"
    "services e = services d \<and> service_staffs e = service_staffs d \<or> services_ok e"
    "coupons e = coupons d \<and> coupon_usages e = coupon_usages d \<or> coupons_ok e"
    "bookings e = bookings d \<or> booking_step d e"
    "wallets e = wallets d \<and> wallet_txs e = wallet_txs d \<or> wallets_ok e"
    "payments e = payments d \<and> wallet_txs e = wallet_txs d \<or> payments_ok e"
    "loyalty_accounts e = loyalty_accounts d \<and> loyalty_txs e = loyalty_txs d \<or> loyalty_ok e"
    "referrals e = referrals d \<or> referrals_ok e"
    "payments e = payments d \<or> pays_evolve (payments d) (payments e)"
  shows "db_step d e"
proof -
  note ok = db_okD [OF assms(1)]
  have "accounts_ok e" using assms(2) ok(1) accounts_ok_cong by blast
  moreover have "otp_ok e" using assms(3) ok(2) otp_ok_cong by blast
  moreover have "staff_ok e" using assms(4) ok(3) staff_ok_cong by blast
  moreover have "services_ok e" using assms(5) ok(4) services_ok_cong by blast
  moreover have "coupons_ok e" using assms(6) ok(5) coupons_ok_cong by blast
  moreover have "bookings_ok (bookings e)" "evolves (bookings d) (bookings e)"
    using assms(7) ok(6) by (auto simp: booking_step_def)
  moreover have "wallets_ok e" using assms(8) ok(7) wallets_ok_cong by blast
  moreover have "payments_ok e" using assms(9) ok(8) payments_ok_cong by blast
  moreover have "loyalty_ok e" using assms(10) ok(9) loyalty_ok_cong by blast
  moreover have "referrals_ok e" using assms(11) ok(10) referrals_ok_cong by blast
  moreover have "pays_evolve (payments d) (payments e)" using assms(12) by auto
  ultimately show ?thesis by (simp add: db_step_def db_ok_def)
qed

section \<open>Businesses, branches, staff, hours, settlements\<close>

lemma owner_keys_update [table_simps]:
  assumes "\<And>b. biz_id (f b) = biz_id b \<and> biz_ownerId (f b) = biz_ownerId b"
  shows "map (\<lambda>b. (biz_id b, biz_ownerId b)) (update_rows sel f t) = map (\<lambda>b. (biz_id b, biz_ownerId b)) t"
  using assms by (simp add: map_update_rows_same)

lemma update_business_db:
  assumes "db_ok d" "\<And>b. biz_id (f b) = biz_id b \<and> biz_ownerId (f b) = biz_ownerId b"
  shows "db_step d (snd (update_business z f d))"
  using assms(1) owner_keys_update [of f] assms(2)
  by (auto simp: update_business_def db_step_refl split: sum.splits intro!: db_stepI)

lemma business_update_db: "db_ok d \<Longrightarrow> db_step d (snd (business_update z dto d))"
  unfolding business_update_def by (rule update_business_db) simp_all

lemma updateCancellationPolicy_db: "db_ok d \<Longrightarrow> db_step d (snd (updateCancellationPolicy z dto d))"
  unfolding updateCancellationPolicy_def by (rule update_business_db) simp_all

lemma addDocument_db: "db_ok d \<Longrightarrow> db_step d (snd (addDocument n z ty url d))"
  by (auto simp: addDocument_def Let_def db_step_refl split: sum.splits intro!: db_stepI)

lemma audit_db: "db_step d e \<Longrightarrow> db_ok d \<Longrightarrow> db_step d (audit_log_create a ac ty k m e)"
  by (rule db_step_trans, assumption, rule db_stepI) (auto simp: db_step_def audit_log_create_def)

lemma review_db:
  assumes "db_ok d"
  shows "db_step d (snd (review z admin st reason act m d))"
proof -
  let ?f = "\<lambda>b. b\<lparr>biz_status := st, biz_rejectReason := reason\<rparr>"
  obtain r e where u: "update_business z ?f d = (r, e)" by (cases "update_business z ?f d")
  have "db_step d (snd (update_business z ?f d))" using assms by (rule update_business_db) simp_all
  then have step: "db_step d e" by (simp add: u)
  then show ?thesis using audit_db [OF step assms] by (cases r) (simp_all add: review_def u)
qed

lemma business_create_db:
  assumes "db_ok d" "fresh_key sm_id m (staff_members d)"
  shows "db_step d (snd (business_create now n m u dto d))"
  using staff_ok_create [OF db_okD(3) [OF assms(1)] assms(2), of now n u dto]
  by (intro db_stepI [OF assms(1)]) (auto simp: business_create_def transaction_def Let_def)

lemma branch_create_db: "db_ok d \<Longrightarrow> db_step d (snd (branch_create n z dto d))"
  by (auto simp: branch_create_def Let_def intro!: db_stepI)

lemma branch_update_db: "db_ok d \<Longrightarrow> db_step d (snd (branch_update z r dto d))"
  by (auto simp: branch_update_def Let_def db_step_refl split: sum.splits intro!: db_stepI)

lemma invite_db:
  assumes "db_ok d" "fresh_key sm_id n (staff_members d)" "valid_invite_role dto"
  shows "db_step d (snd (invite n z dto d))"
  using staff_ok_invite [OF db_okD(3) [OF assms(1)] assms(2,3), of z]
  by (intro db_stepI [OF assms(1)]) (auto simp: invite_def Let_def split: option.splits)

lemma deactivate_db:
  assumes "db_ok d"
  shows "db_step d (snd (deactivate z k d))"
  using staff_ok_deactivate [OF db_okD(3) [OF assms], of z k]
  by (intro db_stepI [OF assms]) (auto simp: deactivate_def split: option.splits)

lemma setWorkingHours_db: "db_ok d \<Longrightarrow> db_step d (snd (setWorkingHours z dto d))"
  by (auto simp: setWorkingHours_def Let_def db_step_refl split: sum.splits prod.splits intro!: db_stepI)

lemma addHoliday_db: "db_ok d \<Longrightarrow> db_step d (snd (addHoliday z dto d))"
  by (auto simp: addHoliday_def Let_def db_step_refl split: sum.splits prod.splits intro!: db_stepI)

lemma run_each_db: "db_ok d \<Longrightarrow> db_step d (snd (run_each bs s e d))"
proof (induction bs arbitrary: d)
  case (Cons b bs)
  have step: "db_step d (snd (runForBusiness b s e d))"
    using Cons.prems by (auto simp: runForBusiness_def Let_def db_step_refl split: option.splits intro!: db_stepI)
  then have "db_ok (snd (runForBusiness b s e d))" by (simp add: db_step_def)
  from db_step_trans [OF step Cons.IH [OF this]]
  have "db_step d (snd (run_each bs s e (snd (runForBusiness b s e d))))" .
  with step show ?case by (auto split: prod.splits sum.splits)
qed (simp add: db_step_refl)

lemma runBatch_db: "db_ok d \<Longrightarrow> db_step d (snd (runBatch dto d))"
  by (auto simp: runBatch_def run_each_db simp del: run_each.simps)

section \<open>Services and coupons\<close>

lemma service_create_db:
  assumes "db_ok d" "valid_CreateServiceDto dto" "fresh_key sv_id n (services d)"
  shows "db_step d (snd (service_create n z dto d))"
  using services_ok_create [OF db_okD(4) [OF assms(1)] assms(2,3), of z]
  by (intro db_stepI [OF assms(1)]) (auto simp: service_create_def Let_def)

lemma service_update_db:
  assumes "db_ok d" "valid_UpdateServiceDto dto"
  shows "db_step d (snd (service_update z s dto d))"
  using services_ok_update [OF db_okD(4) [OF assms(1)] assms(2), of z s]
  by (intro db_stepI [OF assms(1)]) (auto simp: service_update_def split: sum.split)

lemma assignStaff_db:
  assumes "db_ok d"
  shows "db_step d (snd (assignStaff z s m d))"
  using services_ok_assign [OF db_okD(4) [OF assms], of z s m]
  by (intro db_stepI [OF assms]) (auto simp: assignStaff_def split: sum.split option.split)

lemma unassignStaff_db:
  assumes "db_ok d"
  shows "db_step d (snd (unassignStaff z s m d))"
  using services_ok_unassign [OF db_okD(4) [OF assms], of z s m]
  by (intro db_stepI [OF assms]) (auto simp: unassignStaff_def split: sum.split)

lemma coupon_create_db:
  assumes "db_ok d" "fresh_key cp_id n (coupons d)" "0 \<le> cc_value dto"
  shows "db_step d (snd (coupon_create n dto b d))"
  using coupons_ok_create [OF db_okD(5) [OF assms(1)] assms(2,3), of b]
  by (intro db_stepI [OF assms(1)]) (auto simp: coupon_create_def Let_def split: option.split if_split)

lemma coupon_update_db:
  assumes "db_ok d" "\<And>v. uc_value dto = Some v \<Longrightarrow> 0 \<le> v"
  shows "db_step d (snd (coupon_update k dto d))"
  using coupons_ok_update [OF db_okD(5) [OF assms(1)], of dto k] assms(2)
  by (intro db_stepI [OF assms(1)]) (auto simp: coupon_update_def split: option.split)

section \<open>Accounts and one-time codes\<close>

text \<open>An operation that only writes users, sessions and codes.\<close>

lemma account_step:
  assumes "db_ok d" "e = d\<lparr>users := us, refresh_tokens := ts, otp_codes := cs\<rparr>" "accounts_ok e" "otp_ok e"
  shows "db_step d e"
  using assms by (intro db_stepI [OF assms(1)]) simp_all

lemma verifyOtp_db:
  assumes "db_ok d" "verifyOtp env now p q c d = (r, d1)"
  shows "db_step d d1"
proof -
  obtain t where t: "d1 = d\<lparr>otp_codes := t\<rparr>" using assms(2) by (rule verifyOtp_state)
  have "otp_ok d1" using otp_ok_verify [OF db_okD(2) [OF assms(1)], of env now p q c] assms(2) by simp
  then show ?thesis by (intro db_stepI [OF assms(1)]) (simp_all add: t)
qed

lemma requestOtp_db:
  assumes "db_ok d" "fresh_key otp_id n (otp_codes d)" "requestOtp env n rnd now p q u (d, out) = (r, (d', out'))"
  shows "db_step d d'"
proof -
  have "otp_ok d'" using otp_ok_request [OF db_okD(2) [OF assms(1)] assms(2,3)] .
  moreover have "\<exists>t. d' = d\<lparr>otp_codes := t\<rparr>"
    using assms(3)
  proof (cases rule: requestOtp_cases)
    case refused
    then show ?thesis by (intro exI [of _ "otp_codes d"]) simp
  next
    case (sent row)
    then show ?thesis by blast
  qed
  ultimately show ?thesis by (intro db_stepI [OF assms(1)]) auto
qed

lemma issue_db:
  assumes "db_ok d" "fresh_key rt_id n (refresh_tokens d)" "issueTokenPair env now n raw u role ctx d = (r, d')"
  shows "db_step d d'"
  using assms(3)
proof (cases rule: issue_cases)
  case (issued t)
  then show ?thesis
    using accounts_ok_issue [OF db_okD(1) [OF assms(1)] assms(2,3)] by (intro db_stepI [OF assms(1)]) simp_all
qed (simp add: assms(1) db_step_refl)

lemma revoke_db: "db_ok d \<Longrightarrow> db_step d (revoke_where sel now d)"
  using accounts_ok_revoke [OF db_okD(1)] by (intro db_stepI) (auto simp: revoke_where_def)

lemma update_user_db:
  assumes "db_ok d" "\<And>x. usr_id (f x) = usr_id x" "\<And>x. usr_phone (f x) = usr_phone x"
  shows "db_step d (snd (update_user u f d))"
  using accounts_ok_update_user [OF db_okD(1) [OF assms(1)] assms(2,3), of u]
  by (intro db_stepI [OF assms(1)]) (auto simp: update_user_def split: option.split)

lemma fresh_token_keys [simp]:
  "fresh_key rt_id n (refresh_tokens (revoke_where sel now d)) = fresh_key rt_id n (refresh_tokens d)"
  by (simp add: fresh_key_def revoke_where_def map_update_rows_same del: set_map list.set_map)

lemma refresh_db:
  assumes "db_ok d" "fresh_key rt_id n (refresh_tokens d)" "refreshTokens env now n new old ctx d = (r, d')"
  shows "db_step d d'"
  using assms(3)
proof (cases rule: refresh_cases)
  case (rotated t u)
  have step: "db_step d (revoke_where (\<lambda>x. rt_id x = rt_id t) now d)" using revoke_db assms(1) .
  then have "db_step (revoke_where (\<lambda>x. rt_id x = rt_id t) now d) d'"
    using assms(2) by (intro issue_db [OF _ _ rotated(6)]) (simp_all add: db_step_def)
  with step show ?thesis by (rule db_step_trans)
next
  case taken
  then show ?thesis using revoke_db [OF assms(1)] by auto
qed (simp add: assms(1) db_step_refl)

lemma login_db:
  assumes "db_ok d" "fresh_key rt_id n (refresh_tokens d)" "loginWithPassword env now n raw dto ctx d = (r, d')"
  shows "db_step d d'"
  using assms
  by (auto simp: loginWithPassword_def db_step_refl split: option.splits if_splits intro: issue_db)

lemma verifyLoginOtp_db:
  assumes "db_ok d" "fresh_key rt_id n (refresh_tokens d)" "verifyLoginOtp env now n raw p c ctx d = (r, d')"
  shows "db_step d d'"
proof -
  obtain v d1 where v: "verifyOtp (otp_env.truncate env) now p LOGIN c d = (v, d1)"
    by (cases "verifyOtp (otp_env.truncate env) now p LOGIN c d")
  obtain t where t: "d1 = d\<lparr>otp_codes := t\<rparr>" using v by (rule verifyOtp_state)
  have step: "db_step d d1" using verifyOtp_db [OF assms(1) v] .
  have "db_step d1 d'" if "issueTokenPair env now n raw (usr_id u) (usr_globalRole u) ctx d1 = (r, d')" for u
    using step assms(2) by (intro issue_db [OF _ _ that]) (simp_all add: db_step_def t)
  with step have "db_step d d'" if "issueTokenPair env now n raw (usr_id u) (usr_globalRole u) ctx d1 = (r, d')" for u
    using that db_step_trans by blast
  then show ?thesis
    using assms(1,3) step
    by (auto simp: verifyLoginOtp_def v db_step_refl split: option.splits if_splits sum.splits bool.splits)
qed

lemma resetPassword_db:
  assumes "db_ok d" "resetPassword env salt now dto d = (r, d')"
  shows "db_step d d'"
proof -
  obtain v d1 where v: "verifyOtp (otp_env.truncate env) now (rp_phone dto) RESET_PASSWORD (rp_code dto) d = (v, d1)"
    by (cases "verifyOtp (otp_env.truncate env) now (rp_phone dto) RESET_PASSWORD (rp_code dto) d")
  have step: "db_step d d1" using verifyOtp_db [OF assms(1) v] .
  have "db_step d1 (d1\<lparr>users := update_rows sel (\<lambda>u. u\<lparr>usr_passwordHash := h\<rparr>) (users d1)\<rparr>)" for sel h
    using step by (intro db_stepI) (auto simp: db_step_def db_ok_def accounts_ok_def intro!: unique_key_update)
  with step have "db_step d (d1\<lparr>users := update_rows sel (\<lambda>u. u\<lparr>usr_passwordHash := h\<rparr>) (users d1)\<rparr>)" for sel h
    using db_step_trans by blast
  then have "db_step d (revoke_where s now (d1\<lparr>users := update_rows sel (\<lambda>u. u\<lparr>usr_passwordHash := h\<rparr>) (users d1)\<rparr>))" for s sel h
    using db_step_trans revoke_db by (metis db_step_def)
  then show ?thesis
    using assms step
    by (auto simp: resetPassword_def v db_step_refl Let_def split: option.splits sum.splits bool.splits)
qed

lemma updateProfile_db: "db_ok d \<Longrightarrow> db_step d (snd (updateProfile u dto d))"
  by (auto simp: updateProfile_def db_step_refl intro!: update_user_db)

lemma revokeSession_db: "db_ok d \<Longrightarrow> db_step d (snd (revokeSession now u k d))"
  by (auto simp: revokeSession_def db_step_refl revoke_db split: option.split)

lemma deletion_db:
  assumes "db_ok d"
  shows "db_step d (snd (requestAccountDeletion now u d))"
proof -
  let ?f = "\<lambda>u. u\<lparr>usr_status := Acc_DELETED, usr_deletedAt := Some now, usr_email := None\<rparr>"
  have step: "db_step d (snd (update_user u ?f d))" using assms by (rule update_user_db) simp_all
  then have "db_step d (revoke_where sel now (snd (update_user u ?f d)))" for sel
    using db_step_trans revoke_db by (metis db_step_def)
  with step show ?thesis by (auto simp: requestAccountDeletion_def split: prod.splits sum.splits)
qed

lemma referral_free_frame:
  "otp_codes (registered_db env ids salt dto d) = otp_codes d"
  "staff_members (registered_db env ids salt dto d) = staff_members d"
  "businesses (registered_db env ids salt dto d) = businesses d"
  "services (registered_db env ids salt dto d) = services d"
  "service_staffs (registered_db env ids salt dto d) = service_staffs d"
  "coupons (registered_db env ids salt dto d) = coupons d"
  "coupon_usages (registered_db env ids salt dto d) = coupon_usages d"
  "payments (registered_db env ids salt dto d) = payments d"
  by (simp_all add: registered_db_def registerReferral_def Let_def split: option.splits)

lemma registered_step:
  assumes "db_ok d" "registration_fresh d ids" "find_phone d (vr_phone dto) = None"
  shows "db_step d (registered_db env ids salt dto d)"
  using registered_ok [OF assms(2,3)] db_okD [OF assms(1)]
  by (intro db_stepI [OF assms(1)]) (simp_all add: referral_free_frame registered_frame)

lemma register_db:
  assumes "db_ok d" "registration_fresh d ids" "verifyRegisterAndCreateUser env ids salt now dto ctx d = (r, d')"
  shows "db_step d d'"
  using assms(3)
proof (cases rule: register_cases)
  case (refused e t v)
  then show ?thesis using verifyOtp_db [OF assms(1)] by blast
next
  case (created t)
  let ?d1 = "d\<lparr>otp_codes := t\<rparr>"
  have step: "db_step d ?d1" using verifyOtp_db [OF assms(1) created(1)] .
  have fresh: "registration_fresh ?d1 ids" using assms(2) by (simp add: registration_fresh_def)
  have step2: "db_step ?d1 (registered_db env ids salt dto ?d1)"
    using step fresh created(2) by (intro registered_step) (simp_all add: db_step_def)
  have "db_step (registered_db env ids salt dto ?d1) d'"
    using step2 fresh by (intro issue_db [OF _ _ created(3)])
      (simp_all add: db_step_def registered_frame registration_fresh_def)
  with step step2 show ?thesis using db_step_trans by blast
qed

section \<open>Requests for codes, log-out, first looks\<close>

lemma requestRegisterOtp_db:
  assumes "db_ok d" "fresh_key otp_id n (otp_codes d)" "requestRegisterOtp env n rnd now p (d, out) = (r, (d', out'))"
  shows "db_step d d'"
  using assms(3) requestOtp_db [OF assms(1,2)] db_step_refl [OF assms(1)]
  by (auto simp: requestRegisterOtp_def split: option.splits)

lemma requestLoginOtp_db:
  assumes "db_ok d" "fresh_key otp_id n (otp_codes d)" "requestLoginOtp env n rnd now p (d, out) = (r, (d', out'))"
  shows "db_step d d'"
  using assms(3) requestOtp_db [OF assms(1,2)] db_step_refl [OF assms(1)]
  by (auto simp: requestLoginOtp_def split: option.splits if_splits)

lemma forgotPassword_db:
  assumes "db_ok d" "fresh_key otp_id n (otp_codes d)" "forgotPassword env n rnd now p (d, out) = (r, (d', out'))"
  shows "db_step d d'"
  using assms(3) requestOtp_db [OF assms(1,2)] db_step_refl [OF assms(1)]
  by (auto simp: forgotPassword_def split: option.splits)

lemma logout_db: "db_ok d \<Longrightarrow> db_step d (logout env now raw d)"
  by (simp add: logout_def revoke_db)

lemma wallet_getMine_db:
  assumes "db_ok d" "fresh_key wal_id n (wallets d)"
  shows "db_step d (snd (wallet_getMine n u d))"
proof -
  obtain w d' where u: "upsert_wallet n u d = (w, d')" by (cases "upsert_wallet n u d")
  have ok: "wallets_ok d'" using wallets_ok_upsert [OF db_okD(7) [OF assms(1)] assms(2) u] .
  have "db_step d d'"
    using ok u by (intro db_stepI [OF assms(1)]) (auto simp: upsert_wallet_def Let_def split: option.splits)
  with u show ?thesis by (simp add: wallet_getMine_def)
qed

lemma loyalty_getMine_db:
  assumes "db_ok d" "fresh_account d n"
  shows "db_step d (snd (loyalty_getMine n u d))"
proof -
  obtain a d' where u: "upsert_account n u d = (a, d')" by (cases "upsert_account n u d")
  have ok: "loyalty_ok d'" using loyalty_ok_upsert(1) [OF db_okD(9) [OF assms(1)] assms(2) u] .
  have "db_step d d'"
    using ok u by (intro db_stepI [OF assms(1)]) (auto simp: upsert_account_def split: option.splits)
  with u show ?thesis by (simp add: loyalty_getMine_def)
qed

end
