(* ===== verification/DbBooking.thy ===== *)
theory DbBooking
  imports DbInv
begin

text \<open>
  The guarantee \<open>db_step\<close> for the reservation and payment services: how the rewards that
  follow a purchase use fresh ids (\<open>fresh_award\<close>), and every operation of
  \<open>booking.service.ts\<close>, \<open>payment.service.ts\<close> and \<open>wallet.service.ts\<close>.
\<close>

section \<open>Rewards\<close>

definition fresh_award :: "db \<Rightarrow> award_ids \<Rightarrow> bool" where
  "fresh_award d ids \<longleftrightarrow> (case ids of (n0, n1, n2) \<Rightarrow>
     fresh_account d n0 \<and> fresh_account d n1 \<and> fresh_account d n2 \<and> distinct [n0, n1, n2])"

lemma earn_fresh:
  "fresh_account d m \<Longrightarrow> m \<noteq> n \<Longrightarrow> fresh_account (earnFromPurchase n t u a r f d) m"
  by (simp add: earnFromPurchase_def Let_def addPoints_fresh)

lemma award_loyalty_ok:
  assumes "loyalty_ok d" "fresh_award d ids"
  shows "loyalty_ok (awardPostPurchaseRewards ids t u a d)"
  using assms
  by (auto simp: awardPostPurchaseRewards_def fresh_award_def earn_fresh
      intro!: loyalty_ok_reward loyalty_ok_earn split: prod.splits)

lemma award_referrals_ok: "referrals_ok d \<Longrightarrow> referrals_ok (awardPostPurchaseRewards ids t u a d)"
  using referrals_ok_cong [OF earn_referrals]
  by (simp add: awardPostPurchaseRewards_def referrals_ok_reward split: prod.splits)

lemma reward_fresh:
  assumes "fresh_account d m" "m \<noteq> n1" "m \<noteq> n2"
  shows "fresh_account (rewardIfEligible n1 n2 t u d) m"
proof -
  have "fresh_account (d'\<lparr>referrals := x\<rparr>) m = fresh_account d' m" for d' x
    by (simp add: fresh_account_def)
  then show ?thesis using assms by (simp add: rewardIfEligible_def Let_def addPoints_fresh split: option.split)
qed

lemma award_fresh:
  assumes "fresh_account d m" "m \<notin> {fst ids, fst (snd ids), snd (snd ids)}"
  shows "fresh_account (awardPostPurchaseRewards ids t u a d) m"
  using assms by (auto simp: awardPostPurchaseRewards_def reward_fresh earn_fresh split: prod.splits)

text \<open>The rewards write points and referrals only.\<close>

definition no_rewards :: "db \<Rightarrow> db" where
  "no_rewards d = d\<lparr>loyalty_accounts := [], loyalty_txs := [], referrals := []\<rparr>"

lemma addPoints_writes: "no_rewards (addPoints n t u p r f d) = no_rewards d"
  by (simp add: no_rewards_def addPoints_def upsert_account_def Let_def split: option.splits prod.splits)

lemma no_rewards_referrals: "no_rewards (d\<lparr>referrals := x\<rparr>) = no_rewards d"
  by (simp add: no_rewards_def)

lemma award_writes: "no_rewards (awardPostPurchaseRewards ids t u a d) = no_rewards d"
  by (simp add: awardPostPurchaseRewards_def rewardIfEligible_def earnFromPurchase_def Let_def
      addPoints_writes no_rewards_referrals split: prod.splits option.splits)

lemma no_rewards_frame:
  assumes "no_rewards e = no_rewards d"
  shows "users e = users d" "refresh_tokens e = refresh_tokens d" "otp_codes e = otp_codes d"
    "staff_members e = staff_members d" "businesses e = businesses d" "services e = services d"
    "service_staffs e = service_staffs d" "coupons e = coupons d" "coupon_usages e = coupon_usages d"
    "bookings e = bookings d" "wallets e = wallets d" "wallet_txs e = wallet_txs d" "payments e = payments d"
  using assms by (cases d, cases e, simp add: no_rewards_def)+

lemma award_db:
  assumes "db_ok d" "fresh_award d ids"
  shows "db_step d (awardPostPurchaseRewards ids t u a d)"
  using award_loyalty_ok [OF db_okD(9) [OF assms(1)] assms(2), of t u a]
    award_referrals_ok [OF db_okD(10) [OF assms(1)], of ids t u a]
  by (intro db_stepI [OF assms(1)]) (simp_all add: no_rewards_frame [OF award_writes])

section \<open>Reservations\<close>

text \<open>An operation that writes reservations only.\<close>

lemma bookings_db:
  assumes "db_ok d" "booking_step d e" "e = d\<lparr>bookings := bookings e\<rparr>"
  shows "db_step d e"
proof -
  have "db_step d (d\<lparr>bookings := bookings e\<rparr>)"
    using assms(1,2) by (intro db_stepI) (simp_all add: booking_step_def)
  with assms(3) show ?thesis by simp
qed

lemma update_booking_writes: "update_booking k f d = d\<lparr>bookings := bookings (update_booking k f d)\<rparr>"
  by (simp add: update_booking_def)

lemma confirm_db:
  assumes "db_ok d" "fresh_award d ids"
  shows "db_step d (snd (confirm ids now k u d))"
proof (cases "snd (confirm ids now k u d) = d")
  case False
  note step = confirm_step [OF db_okD(6) [OF assms(1)], of ids now k u]
  from False obtain f a where "snd (confirm ids now k u d) = update_booking k f d
      \<or> snd (confirm ids now k u d) = awardPostPurchaseRewards ids now u a (update_booking k f d)"
    by (auto simp: confirm_def Let_def split: sum.splits if_splits)
  then show ?thesis
  proof
    assume "snd (confirm ids now k u d) = update_booking k f d"
    with step show ?thesis using bookings_db [OF assms(1)] update_booking_writes by metis
  next
    assume e: "snd (confirm ids now k u d) = awardPostPurchaseRewards ids now u a (update_booking k f d)"
    then have "booking_step d (update_booking k f d)" using step by simp
    then have 1: "db_step d (update_booking k f d)" using bookings_db [OF assms(1)] update_booking_writes by blast
    have "fresh_award (update_booking k f d) ids"
      using assms(2) by (simp add: fresh_award_def fresh_account_def update_booking_def)
    with 1 have "db_step (update_booking k f d) (awardPostPurchaseRewards ids now u a (update_booking k f d))"
      by (intro award_db) (simp add: db_step_def)
    with 1 e show ?thesis using db_step_trans by metis
  qed
qed (simp add: assms(1) db_step_refl)

lemma confirm_fresh:
  assumes "fresh_account d m" "m \<notin> {fst ids, fst (snd ids), snd (snd ids)}"
  shows "fresh_account (snd (confirm ids now k u d)) m"
proof -
  have "fresh_account (update_booking k f d) m" for f
    using assms(1) by (simp add: fresh_account_def update_booking_def)
  then show ?thesis using assms by (auto simp: confirm_def Let_def award_fresh split: sum.split)
qed

text \<open>Each confirmation of a group has ids of its own.\<close>

definition apart :: "(nat \<Rightarrow> award_ids) \<Rightarrow> bool" where
  "apart ids \<longleftrightarrow> (\<forall>i j. i < j \<longrightarrow> {fst (ids i), fst (snd (ids i)), snd (snd (ids i))}
     \<inter> {fst (ids j), fst (snd (ids j)), snd (snd (ids j))} = {})"

lemma confirm_each_db:
  assumes "db_ok d" "\<And>i. fresh_award d (ids i)" "apart ids"
  shows "db_step d (snd (confirm_each ids clock u bs d))"
  using assms
proof (induction bs arbitrary: ids clock d)
  case (Cons b bs)
  let ?d1 = "snd (confirm (ids 0) (clock 0) (bk_id b) u d)"
  have step: "db_step d ?d1" using Cons.prems(1,2) by (rule confirm_db)
  have "fresh_award ?d1 (ids (Suc i))" for i
  proof -
    have "{fst (ids 0), fst (snd (ids 0)), snd (snd (ids 0))}
        \<inter> {fst (ids (Suc i)), fst (snd (ids (Suc i))), snd (snd (ids (Suc i)))} = {}"
      using Cons.prems(3) zero_less_Suc unfolding apart_def by blast
    then show ?thesis
      using Cons.prems(2) [of "Suc i"] by (auto simp: fresh_award_def intro!: confirm_fresh split: prod.splits)
  qed
  then have "db_step ?d1 (snd (confirm_each (\<lambda>i. ids (Suc i)) (\<lambda>i. clock (Suc i)) u bs ?d1))"
    using step Cons.prems(3) by (intro Cons.IH) (auto simp: db_step_def apart_def)
  with step have "db_step d (snd (confirm_each (\<lambda>i. ids (Suc i)) (\<lambda>i. clock (Suc i)) u bs ?d1))" by (rule db_step_trans)
  with step show ?case by (auto split: prod.splits sum.splits)
qed (simp add: db_step_refl)

lemma confirmGroup_db:
  assumes "db_ok d" "\<And>i. fresh_award d (ids i)" "apart ids"
  shows "db_step d (snd (confirmGroup ids now g u d))"
  using assms confirm_each_db by (auto simp: confirmGroup_def Let_def db_step_refl)

lemma cancelInternal_writes:
  "snd (cancelInternal now b r c d) = d\<lparr>bookings := bookings (snd (cancelInternal now b r c d))\<rparr>"
  by (simp add: cancelInternal_def Let_def update_booking_def)

lemma cancelByUser_db:
  assumes "db_ok d"
  shows "db_step d (snd (cancelByUser now k u r d))"
  using cancelByUser_step [OF db_okD(6) [OF assms]]
  by (rule bookings_db [OF assms]) (simp add: cancelByUser_def cancelInternal_def Let_def update_booking_def split: sum.split)

lemma cancelByBusiness_db:
  assumes "db_ok d"
  shows "db_step d (snd (cancelByBusiness now z k r d))"
  using cancelByBusiness_step [OF db_okD(6) [OF assms]]
  by (rule bookings_db [OF assms]) (simp add: cancelByBusiness_def cancelInternal_def Let_def update_booking_def split: option.split)

lemma updateStatus_db:
  assumes "db_ok d"
  shows "db_step d (snd (updateStatus now z k s d))"
  using updateStatus_step [OF db_okD(6) [OF assms]]
  by (rule bookings_db [OF assms]) (simp add: updateStatus_def Let_def update_booking_def split: option.split)

lemma release_db:
  assumes "db_ok d"
  shows "db_step d (handleExpiredHolds now d)"
  using release_step [OF db_okD(6) [OF assms]] unfolding handleExpiredHolds_def
  by (rule bookings_db [OF assms]) (simp add: releaseExpiredHolds_def)

lemma create_occurrences_writes:
  "create_occurrences bs d = (r, e) \<Longrightarrow> \<exists>t. e = d\<lparr>bookings := t\<rparr>"
proof (induction bs arbitrary: r d)
  case Nil
  then show ?case by (intro exI [of _ "bookings d"]) simp
next
  case (Cons b bs)
  have same: "\<exists>t. d = d\<lparr>bookings := t\<rparr>" by (rule exI [of _ "bookings d"]) simp
  obtain x f where c: "create_booking b d = (x, f)" by (cases "create_booking b d")
  then obtain t where t: "f = d\<lparr>bookings := t\<rparr>"
    using same by (auto simp: create_booking_def split: option.splits if_splits)
  have "e = d \<or> e = f \<or> (\<exists>r. create_occurrences bs f = (r, e))"
    using Cons.prems c by (auto split: sum.splits prod.splits)
  then show ?case using Cons.IH [of f] same t by fastforce
qed

lemma createRecurring_db:
  assumes "db_ok d" "inj ids" "\<And>i. fresh_key bk_id (ids i) (bookings d)"
  shows "db_step d (snd (createRecurring now ids g u dto d))"
proof -
  obtain r e where c: "createRecurring now ids g u dto d = (r, e)" by fastforce
  have same: "\<exists>t. d = d\<lparr>bookings := t\<rparr>" by (rule exI [of _ "bookings d"]) simp
  have "e = d \<or> (\<exists>r bs. create_occurrences bs d = (r, e))"
    using c by (auto simp: createRecurring_def transaction_def split: sum.splits prod.splits error.splits)
  then obtain t where t: "e = d\<lparr>bookings := t\<rparr>" using create_occurrences_writes same by metis
  have "booking_step d e" using createRecurring_step [OF db_okD(6,4) [OF assms(1)] assms(2,3), of now g u dto] c by simp
  then have "db_step d e" by (rule bookings_db [OF assms(1)]) (simp add: t)
  with c show ?thesis by simp
qed

text \<open>A locked transaction does what its body does, or nothing.\<close>

lemma locked_transaction_db:
  assumes "db_ok d" and "\<And>x d'. body d = (Inr x, d') \<Longrightarrow> db_step d d'"
  shows "db_step d (fst (snd (busy_as_conflict (withLock R t l tok k ttl (transaction body) (d, r)))))"
  using withLock_db [of R t l tok k ttl "transaction body" "(d, r)"] assms
    db_step_refl [of d] transaction_preserves [of "db_step d" d body]
  by auto

lemma link_usage_ok:
  assumes "coupons_ok d"
  shows "coupons_ok (link_usage k u b d)"
proof -
  let ?t = "update_rows (\<lambda>x. cu_couponId x = the k \<and> cu_userId x = u) (\<lambda>x. x\<lparr>cu_bookingId := Some b\<rparr>) (coupon_usages d)"
  have "length (filter (\<lambda>u. cu_couponId u = c) (update_rows sel (\<lambda>x. x\<lparr>cu_bookingId := Some b\<rparr>) t))
      = length (filter (\<lambda>u. cu_couponId u = c) t)" for sel c and t :: "coupon_usage list"
    by (induction t) auto
  then have "usages_of (d\<lparr>coupon_usages := ?t\<rparr>) = usages_of d" by (simp add: usages_of_def fun_eq_iff)
  then have "coupons_ok (d\<lparr>coupon_usages := ?t\<rparr>)"
    using assms by (auto simp: coupons_ok_def list_all_iff ball_update_rows intro!: unique_key_update) metis
  with assms show ?thesis by (simp add: link_usage_def)
qed

lemma redeem_for_hold_writes:
  assumes "redeem_for_hold now u dto s d = (r, d')"
  shows "\<exists>us cs. d' = d\<lparr>coupon_usages := us, coupons := cs\<rparr>"
proof -
  have same: "\<exists>us cs. d = d\<lparr>coupon_usages := us, coupons := cs\<rparr>"
    by (intro exI [of _ "coupon_usages d"] exI [of _ "coupons d"]) simp
  obtain q e where q: "checkAndRedeem now (the (hb_couponCode dto)) u (Some (hb_businessId dto)) (sv_price s) None d = (q, e)"
    by fastforce
  then have "d' = d \<or> d' = e"
    using assms by (auto simp: redeem_for_hold_def split: sum.splits if_splits)
  moreover have "e = d \<or> (\<exists>us cs. e = d\<lparr>coupon_usages := us, coupons := cs\<rparr>)"
    using q redeem_error redeem_ok(3) by (cases q) fastforce+
  ultimately show ?thesis using same by blast
qed

lemma hold_body_writes:
  assumes "hold_body now n u dto z s d = (Inr b, d')" "coupons_ok d" "service_ok s"
  shows "coupons_ok d'" "\<exists>us cs t. d' = d\<lparr>coupon_usages := us, coupons := cs, bookings := t\<rparr>"
proof -
  obtain k x d1 d2 where r: "redeem_for_hold now u dto s d = (Inr (k, x), d1)"
    and c: "create_booking (hold_row now n u dto z s x) d1 = (Inr b, d2)" and d': "d' = link_usage k u (bk_id b) d2"
    using assms(1) by (auto simp: hold_body_def split: sum.splits prod.splits)
  obtain us cs where d1: "d1 = d\<lparr>coupon_usages := us, coupons := cs\<rparr>" using redeem_for_hold_writes [OF r] by blast
  have d2: "d2 = d1\<lparr>bookings := bookings d2\<rparr>"
    using c by (auto simp: create_booking_def split: option.splits if_splits)
  have "coupons_ok d1" using redeem_for_hold_ok(5) [OF r assms(2,3)] .
  then have "coupons_ok d2" by (subst d2) (simp add: coupons_ok_def usages_of_def)
  then show "coupons_ok d'" by (simp add: d' link_usage_ok)
  obtain t where "d2 = d\<lparr>coupon_usages := us, coupons := cs, bookings := t\<rparr>" using d2 d1 by auto
  then have "d' = d\<lparr>coupon_usages := coupon_usages d', coupons := cs, bookings := t\<rparr>" by (simp add: d' link_usage_def)
  then show "\<exists>us cs t. d' = d\<lparr>coupon_usages := us, coupons := cs, bookings := t\<rparr>" by blast
qed

lemma hold_body_db:
  assumes "hold_body now n u dto z s d = (Inr b, d')" "db_ok d" "service_ok s" "fresh_key bk_id n (bookings d)"
  shows "db_step d d'"
proof -
  note w = hold_body_writes [OF assms(1) db_okD(5) [OF assms(2)] assms(3)]
  have "booking_step d d'"
    using hold_body_step [OF assms(1) db_okD(6,5) [OF assms(2)] assms(3,4)] .
  with w show ?thesis by (intro db_stepI [OF assms(2)]) auto
qed

lemma hold_db:
  assumes "db_ok d" "fresh_key bk_id n (bookings d)"
  shows "db_step d (fst (snd (hold R now later tok n u dto (d, r))))"
proof (cases "loadAndValidateContext d (hb_businessId dto) (hb_branchId dto) (hb_serviceId dto) (hb_staffMemberId dto)")
  case (Inl e)
  with assms show ?thesis by (simp add: hold_def db_step_refl)
next
  case (Inr c)
  obtain z b s where c: "c = (z, b, s)" by (cases c)
  have "service_ok s" using context_ok(1) Inr c db_okD(4) [OF assms(1)] by metis
  then have "db_step d d'" if "hold_body now n u dto z s d = (Inr x, d')" for x d'
    using hold_body_db [OF that assms(1) _ assms(2)] by simp
  from locked_transaction_db [OF assms(1) this] show ?thesis by (simp add: hold_def Inr c)
qed

lemma reschedule_db:
  assumes "db_ok d" "reschedule R now later tok k u s (d, r) = Some res" "k \<noteq> []"
  shows "db_step d (fst (snd res))"
proof -
  have "fst (snd res) = d \<or> (\<exists>b f. fst (snd res) = update_booking b f d)"
  proof (cases "fst (snd res) = d")
    case False
    then obtain b e key where res: "res = busy_as_conflict (withLock R now later tok key default_ttlMs
        (transaction (reschedule_body b s e)) (d, r))"
      using assms(2) by (auto simp: reschedule_def split: sum.splits option.splits if_splits)
    have "fst (snd res) = snd (transaction (reschedule_body b s e) d)"
      using False withLock_db [of R now later tok key default_ttlMs "transaction (reschedule_body b s e)" "(d, r)"]
      by (auto simp: res)
    with False show ?thesis
      by (auto simp: transaction_def reschedule_body_def Let_def split: sum.splits prod.splits)
  qed simp
  then have "fst (snd res) = d\<lparr>bookings := bookings (fst (snd res))\<rparr>" by (auto simp: update_booking_def)
  with reschedule_step [OF assms(2) db_okD(6,4) [OF assms(1)] assms(3)] show ?thesis
    by (rule bookings_db [OF assms(1)])
qed

section \<open>Payments\<close>

text \<open>Wallets, payments and the audit log are all that money movements write.\<close>

definition no_money :: "db \<Rightarrow> db" where
  "no_money d = d\<lparr>payments := [], wallets := [], wallet_txs := [], audit_logs := []\<rparr>"

lemma no_money_ops:
  "no_money (post_wallet_tx now w ty m r d) = no_money d"
  "no_money (update_payment k f d) = no_money d"
  "no_money (d\<lparr>payments := ps\<rparr>) = no_money d"
  "no_money (d\<lparr>audit_logs := al\<rparr>) = no_money d"
  "no_money (snd (upsert_wallet n u d)) = no_money d"
  by (simp_all add: no_money_def post_wallet_tx_def update_payment_def upsert_wallet_def Let_def split: option.split)

lemma no_money_frame:
  assumes "no_money e = no_money d"
  shows "users e = users d" "refresh_tokens e = refresh_tokens d" "otp_codes e = otp_codes d"
    "staff_members e = staff_members d" "businesses e = businesses d" "services e = services d"
    "service_staffs e = service_staffs d" "coupons e = coupons d" "coupon_usages e = coupon_usages d"
    "bookings e = bookings d" "loyalty_accounts e = loyalty_accounts d" "loyalty_txs e = loyalty_txs d"
    "referrals e = referrals d"
  using assms by (cases d, cases e, simp add: no_money_def)+

lemma money_db:
  assumes "db_ok d" "no_money e = no_money d" "wallets_ok e" "payments_ok e" "pays_evolve (payments d) (payments e)"
  shows "db_step d e"
  by (rule db_stepI [OF assms(1)]) (simp_all add: no_money_frame [OF assms(2)] assms(3-5))

text \<open>A movement, then the confirmation of a reservation and its rewards.\<close>

lemma paid_db:
  assumes "db_ok d" "fresh_award d ids" "e = confirm_and_award ids now u b d1" "no_money d1 = no_money d"
    "wallets_ok e" "payments_ok e" "booking_step d e" "pays_evolve (payments d) (payments e)"
  shows "db_step d e"
proof -
  note fr = no_money_frame [OF assms(4)]
  let ?d2 = "update_booking (bk_id b) (\<lambda>b. b\<lparr>bk_status := CONFIRMED\<rparr>) d1"
  have d2: "loyalty_ok ?d2" "referrals_ok ?d2" "fresh_award ?d2 ids"
    using db_okD(9,10) [OF assms(1)] assms(2) fr
      loyalty_ok_cong [of ?d2 d] referrals_ok_cong [of ?d2 d]
    by (simp_all add: update_booking_def fresh_award_def fresh_account_def)
  have "loyalty_ok e" "referrals_ok e"
    using award_loyalty_ok [OF d2(1,3)] award_referrals_ok [OF d2(2)]
    by (simp_all add: assms(3) confirm_and_award_def)
  moreover have "users e = users d" "refresh_tokens e = refresh_tokens d" "otp_codes e = otp_codes d"
    "staff_members e = staff_members d" "businesses e = businesses d" "services e = services d"
    "service_staffs e = service_staffs d" "coupons e = coupons d" "coupon_usages e = coupon_usages d"
    by (simp_all add: assms(3) confirm_and_award_def no_rewards_frame [OF award_writes] update_booking_def fr)
  ultimately show ?thesis using assms(5-8) by (intro db_stepI [OF assms(1)]) simp_all
qed

lemma payFromWallet_db:
  assumes "db_ok d" "payFromWallet ids now n u k amt d = (r, d')" "fresh_key pay_id n (payments d)"
    "fresh_award d ids" "0 < amt" "\<And>b. b \<in> set (bookings d) \<Longrightarrow> bk_id b = k \<Longrightarrow> bk_status b = PENDING"
  shows "db_step d d'"
  using assms(2)
proof (cases rule: payFromWallet_cases)
  case refused
  then show ?thesis using assms(1) by (simp add: db_step_refl)
next
  case (paid w b)
  show ?thesis
    using payFromWallet_ok [OF assms(2) db_okD(7,8) [OF assms(1)] assms(3,5)]
      payFromWallet_step [OF assms(2) db_okD(6) [OF assms(1)] assms(6)]
    by (intro paid_db [OF assms(1,4) paid(5)]) (simp_all add: no_money_ops paid(5) frame_simps pays_evolve_insert)
qed

lemma open_session_writes:
  "open_session G url uuid desc p (d, g) = (res, (d', g')) \<Longrightarrow> no_money d' = no_money d"
  by (auto simp: open_session_def Let_def no_money_ops split: prod.splits)

lemma open_session_payments:
  assumes "open_session G url uuid desc p (d, g) = (res, (d', g'))" "fresh_key pay_id (pay_id p) (payments d)"
  shows "pays_evolve (payments d) (payments d')"
proof -
  obtain ref where "payments d' = insert_row (p\<lparr>pay_gatewayRefId := Some ref\<rparr>) (payments d)"
    using assms by (auto simp: open_session_def Let_def update_payment_def update_rows_append insert_row_def
        update_rows_none fresh_keyD split: prod.splits)
  then show ?thesis by (simp add: pays_evolve_insert)
qed

lemma initiate_db:
  assumes "db_ok d" "fresh_key pay_id n (payments d)" "fresh_award d ids"
    "initiate G url uuid ids now n u dto (d, g) = (r, (d', g'))"
  shows "db_step d d'"
  using assms(4)
proof (cases rule: initiate_cases)
  case refused
  then show ?thesis using assms(1) by (simp add: db_step_refl)
next
  case (wallet b p)
  have "c = b" if "c \<in> set (bookings d)" "bk_id c = bk_id b" for c
    using unique_key_eq [of bk_id "bookings d" c b] that wallet(1) db_okD(6) [OF assms(1)] by (simp add: bookings_ok_def)
  then show ?thesis using wallet(4,5) by (intro payFromWallet_db [OF assms(1) wallet(8) assms(2,3)]) blast+
next
  case (gateway b s)
  have "wallets_ok d' \<and> payments_ok d' \<and> booking_step d d'"
    using initiate_ok [OF assms(4) db_okD(7,8) [OF assms(1)] assms(2) db_okD(6) [OF assms(1)]] .
  then show ?thesis
    using gateway(7) assms(2) open_session_payments [OF gateway(7) [unfolded payFromGateway_def]]
    by (intro money_db [OF assms(1)]) (auto simp: payFromGateway_def open_session_writes initiated_payment_def)
qed

lemma apply_success_payments_eq:
  "payments (apply_success ids now p d) = update_rows (\<lambda>q. pay_id q = pay_id p)
     (\<lambda>p. p\<lparr>pay_status := SUCCESS, pay_callbackVerifiedAt := Some now\<rparr>) (payments d)"
  by (simp add: apply_success_def Let_def frame_simps update_payment_def split: option.split)

lemma callback_payments:
  assumes "payments_ok d" "handleCallback G uuid ids now gw ref (d, g) = (r, (d', g'))"
  shows "pays_evolve (payments d) (payments d')"
proof (cases "callback_payment gw ref d")
  case None
  with assms(2) show ?thesis by (simp add: handleCallback_def)
next
  case (Some p)
  have "unique_key pay_id (payments d)" "p \<in> set (payments d)"
    using assms(1) callback_payment_Some [OF Some] by (simp_all add: payments_ok_def)
  note update = pays_evolve_update [OF this]
  show ?thesis
    using assms(2)
    by (auto simp: handleCallback_def Some apply_success_payments_eq update_payment_def pay_terms_def pay_moves_def
        intro!: update split: if_splits prod.splits)
qed

lemma handleCallback_db:
  assumes "db_ok d" "fresh_award d ids" "handleCallback G uuid ids now gw ref (d, g) = (r, (d', g'))"
  shows "db_step d d'"
proof -
  have ok: "payments_ok d'" "wallets_ok d'" "booking_step d d'"
    using handleCallback_ok [OF assms(3) db_okD(8,7,6) [OF assms(1)]] by blast+
  have success: "no_money (apply_success ids now p d) = no_money d
      \<or> (\<exists>u b d1. apply_success ids now p d = confirm_and_award ids now u b d1 \<and> no_money d1 = no_money d)" for p
    unfolding apply_success_def Let_def
    by (simp add: no_money_ops split: option.split) (metis no_money_ops(2))
  then have "no_money d' = no_money d
      \<or> (\<exists>u b d1. d' = confirm_and_award ids now u b d1 \<and> no_money d1 = no_money d)"
    using assms(3) by (auto simp: handleCallback_def no_money_ops split: option.splits if_splits prod.splits)
  moreover have "pays_evolve (payments d) (payments d')"
    using callback_payments [OF db_okD(8) [OF assms(1)] assms(3)] .
  ultimately show ?thesis using money_db [OF assms(1) _ ok(2,1)] paid_db [OF assms(1,2) _ _ ok(2,1,3)] by blast
qed

lemma refund_db:
  assumes "db_ok d" "fresh_key wal_id n (wallets d)"
  shows "db_step d (snd (refund now n k admin reason d))"
proof -
  obtain r d' where c: "refund now n k admin reason d = (r, d')" by fastforce
  have up: "no_money x = no_money e" if "upsert_wallet n u e = (w, x)" for w x u e
    using no_money_ops(5) [of n u e] that by simp
  have "no_money d' = no_money d"
    using c by (auto simp: refund_def Let_def no_money_ops dest!: up split: option.splits if_splits prod.splits)
  moreover have "pays_evolve (payments d) (payments d')"
    using c
  proof (cases rule: refund_cases)
    case (refunded p w d2)
    have "payments d2 = payments (update_payment k (\<lambda>p. p\<lparr>pay_status := REFUNDED\<rparr>) d)"
      using refunded(5) by (auto simp: upsert_wallet_def Let_def split: option.splits)
    then have "payments d' = update_rows (\<lambda>q. pay_id q = pay_id p) (\<lambda>p. p\<lparr>pay_status := REFUNDED\<rparr>) (payments d)"
      using refunded(2,6) by (simp add: frame_simps update_payment_def)
    moreover have "unique_key pay_id (payments d)" using db_okD(8) [OF assms(1)] by (simp add: payments_ok_def)
    ultimately show ?thesis using refunded(1,3) by (auto simp: pay_terms_def pay_moves_def intro!: pays_evolve_update)
  qed simp
  ultimately show ?thesis
    using money_db [OF assms(1)] refund_ok [OF c db_okD(8,7) [OF assms(1)] assms(2)] c by simp
qed

lemma topup_db:
  assumes "db_ok d" "fresh_key pay_id n (payments d)" "valid_topup amt"
    "topup G url uuid now n u amt (d, g) = (res, (d', g'))"
  shows "db_step d d'"
  using topup_ok [OF assms(4) db_okD(7,8) [OF assms(1)] assms(2,3)] assms(4)
    open_session_payments [OF assms(4) [unfolded topup_def]] assms(2)
  by (intro money_db [OF assms(1)]) (auto simp: topup_def open_session_writes initiated_payment_def)

end
