(* ===== verification/Platform.thy ===== *)
theory Platform
  imports Api DbBooking
begin

text \<open>
  The backend as a transition system: a transition serves one request (with random ids that
  no row carries yet) or runs the clean-up job. Shown: every transition of every route keeps
  the invariant of the database and moves reservations and payments along their allowed
  statuses only; what follows for every sequence of requests is proved once, in the locale
  \<open>transition_system\<close>.
\<close>

section \<open>Fresh random values\<close>

text \<open>A UUID is not the empty text and occurs in no table. All ids that the tables with a primary key or a unique reference to a user carry.\<close>

definition ids_of :: "db \<Rightarrow> id list" where
  "ids_of d = map usr_id (users d) @ map otp_id (otp_codes d) @ map rt_id (refresh_tokens d)
     @ map sm_id (staff_members d) @ map sv_id (services d) @ map bk_id (bookings d)
     @ map pay_id (payments d) @ map wal_id (wallets d) @ map wal_userId (wallets d)
     @ map cp_id (coupons d) @ map la_id (loyalty_accounts d) @ map la_userId (loyalty_accounts d)
     @ map ref_id (referrals d) @ map ref_refereeId (referrals d)
     @ map biz_id (businesses d) @ map br_id (branches d) @ map doc_id (documents d)"

definition fresh_draws :: "db \<Rightarrow> draws \<Rightarrow> bool" where
  "fresh_draws d dr \<longleftrightarrow> inj (uuid dr) \<and> (\<forall>i. uuid dr i \<noteq> [] \<and> uuid dr i \<notin> set (ids_of d))"

lemma fresh_drawsD:
  assumes "fresh_draws d dr"
  shows "fresh_key usr_id (uuid dr i) (users d)" "fresh_key otp_id (uuid dr i) (otp_codes d)"
    "fresh_key rt_id (uuid dr i) (refresh_tokens d)" "fresh_key sm_id (uuid dr i) (staff_members d)"
    "fresh_key sv_id (uuid dr i) (services d)" "fresh_key bk_id (uuid dr i) (bookings d)"
    "fresh_key pay_id (uuid dr i) (payments d)" "fresh_key wal_id (uuid dr i) (wallets d)"
    "fresh_key wal_userId (uuid dr i) (wallets d)" "fresh_key cp_id (uuid dr i) (coupons d)"
    "fresh_account d (uuid dr i)" "fresh_key la_id (uuid dr i) (loyalty_accounts d)"
    "fresh_key la_userId (uuid dr i) (loyalty_accounts d)"
    "fresh_key ref_id (uuid dr i) (referrals d)" "fresh_key ref_refereeId (uuid dr i) (referrals d)"
    "fresh_key biz_id (uuid dr i) (businesses d)" "fresh_key br_id (uuid dr i) (branches d)" "uuid dr i \<noteq> []"
proof -
  have "uuid dr i \<notin> set (ids_of d)" "uuid dr i \<noteq> []" using assms by (auto simp: fresh_draws_def)
  then show "fresh_key usr_id (uuid dr i) (users d)" "fresh_key otp_id (uuid dr i) (otp_codes d)"
    "fresh_key rt_id (uuid dr i) (refresh_tokens d)" "fresh_key sm_id (uuid dr i) (staff_members d)"
    "fresh_key sv_id (uuid dr i) (services d)" "fresh_key bk_id (uuid dr i) (bookings d)"
    "fresh_key pay_id (uuid dr i) (payments d)" "fresh_key wal_id (uuid dr i) (wallets d)"
    "fresh_key wal_userId (uuid dr i) (wallets d)" "fresh_key cp_id (uuid dr i) (coupons d)"
    "fresh_account d (uuid dr i)" "fresh_key la_id (uuid dr i) (loyalty_accounts d)"
    "fresh_key la_userId (uuid dr i) (loyalty_accounts d)"
    "fresh_key ref_id (uuid dr i) (referrals d)" "fresh_key ref_refereeId (uuid dr i) (referrals d)"
    "fresh_key biz_id (uuid dr i) (businesses d)" "fresh_key br_id (uuid dr i) (branches d)" "uuid dr i \<noteq> []"
    by (simp_all add: ids_of_def fresh_key_def fresh_account_def)
qed

lemma uuid_eq: "fresh_draws d dr \<Longrightarrow> uuid dr i = uuid dr j \<longleftrightarrow> i = j"
  by (auto simp: fresh_draws_def dest: injD)

lemma fresh_registration: "fresh_draws d dr \<Longrightarrow> registration_fresh d (registration_ids dr)"
  by (simp add: registration_fresh_def registration_ids_def fresh_drawsD)

lemma fresh_awards: "fresh_draws d dr \<Longrightarrow> fresh_award d (award_uuids dr i)"
  by (simp add: fresh_award_def award_uuids_def fresh_drawsD uuid_eq)

lemma awards_apart: "fresh_draws d dr \<Longrightarrow> apart (award_uuids dr)"
  by (auto simp: apart_def award_uuids_def uuid_eq)

lemma inj_later_uuids: "fresh_draws d dr \<Longrightarrow> inj (\<lambda>i. uuid dr (Suc i))"
  by (auto simp: inj_def uuid_eq)

section \<open>What the handlers do to the database\<close>

lemma on_read_db: "on_read r w = Some (res, w') \<Longrightarrow> db_ok (w_db w) \<Longrightarrow> db_step (w_db w) (w_db w')"
  by (auto simp: on_read_def db_step_refl)

lemma on_db_db: "on_db f w = Some (res, w') \<Longrightarrow> db_step (w_db w) (snd (f (w_db w))) \<Longrightarrow> db_step (w_db w) (w_db w')"
  by (auto simp: on_db_def split: prod.splits)

lemma on_sms_db:
  assumes "on_sms f w = Some (res, w')"
    "\<And>r d' out'. f (w_db w, w_outbox w) = (r, (d', out')) \<Longrightarrow> db_step (w_db w) d'"
  shows "db_step (w_db w) (w_db w')"
  using assms by (auto simp: on_sms_def split: prod.splits)

lemma on_lock_db:
  assumes "on_lock f w = Some (res, w')" "db_step (w_db w) (fst (snd (f (w_db w, w_redis w))))"
  shows "db_step (w_db w) (w_db w')"
  using assms by (auto simp: on_lock_def split: prod.splits)

lemma on_lock_option_db:
  assumes "on_lock_option f w = Some (res, w')"
    "\<And>x. f (w_db w, w_redis w) = Some x \<Longrightarrow> db_step (w_db w) (fst (snd x))"
  shows "db_step (w_db w) (w_db w')"
  using assms by (auto simp: on_lock_option_def on_lock_def split: option.splits prod.splits)

lemma on_gateway_db:
  assumes "on_gateway f w = Some (res, w')"
    "\<And>r d' g'. f (w_db w, w_gateway w) = (r, (d', g')) \<Longrightarrow> db_step (w_db w) d'"
  shows "db_step (w_db w) (w_db w')"
  using assms by (auto simp: on_gateway_def split: prod.splits)

lemma ok_snd: "snd (ok f s) = snd (f s)"
  by (simp add: ok_def split: prod.split)

lemma ok_eq: "ok f s = (r, t) \<longleftrightarrow> (\<exists>x. r = Inr x \<and> f s = (x, t))"
  by (auto simp: ok_def split: prod.splits)

section \<open>Every controller keeps the guarantee\<close>

lemma auth_step:
  assumes "AuthController_handle E dr u r w = Some (res, w')" "db_ok (w_db w)" "fresh_draws (w_db w) dr"
  shows "db_step (w_db w) (w_db w')"
proof (cases r)
  case (Auth_requestRegisterOtp p)
  with assms requestRegisterOtp_db [OF assms(2) fresh_drawsD(2) [OF assms(3)]] show ?thesis by (auto elim!: on_sms_db)
next
  case (Auth_verifyRegister dto)
  with assms register_db [OF assms(2) fresh_registration [OF assms(3)]] show ?thesis
    by (auto elim!: on_db_db simp: prod_eq_iff) 
next
  case (Auth_login dto)
  with assms login_db [OF assms(2) fresh_drawsD(3) [OF assms(3)]] show ?thesis
    by (auto elim!: on_db_db simp: prod_eq_iff)
next
  case (Auth_requestLoginOtp p)
  with assms requestLoginOtp_db [OF assms(2) fresh_drawsD(2) [OF assms(3)]] show ?thesis by (auto elim!: on_sms_db)
next
  case (Auth_verifyLoginOtp p c)
  with assms verifyLoginOtp_db [OF assms(2) fresh_drawsD(3) [OF assms(3)]] show ?thesis
    by (auto elim!: on_db_db simp: prod_eq_iff)
next
  case (Auth_refresh cookie body)
  with assms refresh_db [OF assms(2) fresh_drawsD(3) [OF assms(3)]] db_step_refl [OF assms(2)] show ?thesis
    by (auto elim!: on_db_db simp: prod_eq_iff split: if_splits)
next
  case (Auth_logout cookie body)
  with assms logout_db [OF assms(2)] db_step_refl [OF assms(2)] show ?thesis
    by (auto elim!: on_db_db split: if_splits)
next
  case (Auth_forgotPassword p)
  with assms forgotPassword_db [OF assms(2) fresh_drawsD(2) [OF assms(3)]] show ?thesis by (auto elim!: on_sms_db)
next
  case (Auth_resetPassword dto)
  with assms resetPassword_db [OF assms(2)] show ?thesis by (auto elim!: on_db_db simp: prod_eq_iff)
next
  case Auth_me
  with assms show ?thesis by (auto elim!: on_read_db)
qed

lemma users_step:
  assumes "UsersController_handle E dr u r w = Some (res, w')" "db_ok (w_db w)"
  shows "db_step (w_db w) (w_db w')"
  using assms updateProfile_db revokeSession_db deletion_db
  by (cases r) (auto elim!: on_db_db on_read_db)

lemma booking_controller_step:
  assumes "BookingController_handle E dr u r w = Some (res, w')" "db_ok (w_db w)" "fresh_draws (w_db w) dr"
    "path_id (BookingRoute r) \<noteq> Some []"
  shows "db_step (w_db w) (w_db w')"
proof (cases r)
  case (Booking_hold dto)
  with assms hold_db [OF assms(2) fresh_drawsD(6) [OF assms(3)]] show ?thesis by (auto elim!: on_lock_db)
next
  case (Booking_createRecurring dto)
  with assms createRecurring_db [OF assms(2) inj_later_uuids [OF assms(3)]] fresh_drawsD(6) [OF assms(3)]
  show ?thesis by (auto elim!: on_db_db)
next
  case (Booking_confirm k)
  with assms confirm_db [OF assms(2) fresh_awards [OF assms(3)]] show ?thesis by (auto elim!: on_db_db)
next
  case (Booking_confirmGroup g)
  with assms confirmGroup_db [OF assms(2) fresh_awards [OF assms(3)] awards_apart [OF assms(3)]]
  show ?thesis by (auto elim!: on_db_db)
next
  case (Booking_cancel k reason)
  with assms cancelByUser_db show ?thesis by (auto elim!: on_db_db)
next
  case (Booking_reschedule k s)
  with assms reschedule_db [OF assms(2)] show ?thesis by (auto elim!: on_lock_option_db)
next
  case Booking_listMine
  with assms show ?thesis by (auto elim!: on_read_db)
qed

lemma availability_step:
  assumes "AvailabilityController_handle E dr u r w = Some (res, w')" "db_ok (w_db w)"
  shows "db_step (w_db w) (w_db w')"
  using assms by (cases r) (auto elim!: on_read_db split: option.splits)

lemma business_booking_step:
  assumes "BusinessBookingController_handle E dr u r w = Some (res, w')" "db_ok (w_db w)"
  shows "db_step (w_db w) (w_db w')"
  using assms updateStatus_db cancelByBusiness_db
  by (cases r) (auto elim!: on_db_db on_read_db)

lemma business_step:
  assumes "BusinessController_handle E dr u r w = Some (res, w')" "db_ok (w_db w)" "fresh_draws (w_db w) dr"
  shows "db_step (w_db w) (w_db w')"
  using assms(1,2) business_create_db [OF assms(2) fresh_drawsD(4) [OF assms(3)]] business_update_db
    updateCancellationPolicy_db addDocument_db
  by (cases r) (auto elim!: on_db_db on_read_db)

lemma branch_step:
  assumes "BranchController_handle E dr u r w = Some (res, w')" "db_ok (w_db w)"
  shows "db_step (w_db w) (w_db w')"
  using assms branch_create_db branch_update_db by (cases r) (auto elim!: on_db_db on_read_db)

lemma service_step:
  assumes "ServiceCatalogController_handle E dr u r w = Some (res, w')" "db_ok (w_db w)" "fresh_draws (w_db w) dr"
    "ServiceCatalogController_valid V r"
  shows "db_step (w_db w) (w_db w')"
  using assms(1,2,4) service_create_db [OF assms(2) _ fresh_drawsD(5) [OF assms(3)]] service_update_db
    assignStaff_db unassignStaff_db
  by (cases r) (auto elim!: on_db_db on_read_db)

lemma staff_step:
  assumes "StaffController_handle E dr u r w = Some (res, w')" "db_ok (w_db w)" "fresh_draws (w_db w) dr"
    "StaffController_valid V r"
  shows "db_step (w_db w) (w_db w')"
  using assms(1,2,4) invite_db [OF assms(2) fresh_drawsD(4) [OF assms(3)]] deactivate_db
  by (cases r) (auto simp: valid_InviteStaffDto_def elim!: on_db_db on_read_db)

lemma hours_step:
  assumes "WorkingHoursController_handle E dr u r w = Some (res, w')" "db_ok (w_db w)"
  shows "db_step (w_db w) (w_db w')"
  using assms setWorkingHours_db addHoliday_db by (cases r) (auto elim!: on_db_db on_read_db)

lemma discovery_step:
  assumes "DiscoveryController_handle E dr u r w = Some (res, w')" "db_ok (w_db w)"
  shows "db_step (w_db w) (w_db w')"
  using assms by (cases r) (auto elim!: on_read_db)

lemma payment_step:
  assumes "PaymentController_handle E dr u r w = Some (res, w')" "db_ok (w_db w)" "fresh_draws (w_db w) dr"
  shows "db_step (w_db w) (w_db w')"
proof (cases r)
  case (Payment_initiate dto)
  with assms initiate_db [OF assms(2) fresh_drawsD(7) [OF assms(3)] fresh_awards [OF assms(3)]]
  show ?thesis by (auto elim!: on_gateway_db)
next
  case (Payment_callback gw ref)
  with assms handleCallback_db [OF assms(2) fresh_awards [OF assms(3)]] show ?thesis by (auto elim!: on_gateway_db)
next
  case (Payment_refund k reason)
  with assms refund_db [OF assms(2) fresh_drawsD(8) [OF assms(3)]] show ?thesis by (auto elim!: on_db_db)
qed

lemma wallet_step:
  assumes "WalletController_handle E dr u r w = Some (res, w')" "db_ok (w_db w)" "fresh_draws (w_db w) dr"
    "WalletController_valid V r"
  shows "db_step (w_db w) (w_db w')"
proof (cases r)
  case Wallet_getMine
  with assms wallet_getMine_db [OF assms(2) fresh_drawsD(8) [OF assms(3)]] show ?thesis
    by (auto simp: ok_snd elim!: on_db_db)
next
  case (Wallet_topup amt)
  with assms topup_db [OF assms(2) fresh_drawsD(7) [OF assms(3)]] show ?thesis
    by (auto simp: ok_eq elim!: on_gateway_db)
qed

lemma settlement_step:
  assumes "BusinessSettlementController_handle E dr u r w = Some (res, w')" "db_ok (w_db w)"
  shows "db_step (w_db w) (w_db w')"
  using assms by (cases r) (auto elim!: on_read_db)

lemma settlement_run_step:
  assumes "AdminSettlementController_handle E dr u r w = Some (res, w')" "db_ok (w_db w)"
  shows "db_step (w_db w) (w_db w')"
  using assms runBatch_db by (cases r) (auto elim!: on_db_db)

lemma coupon_update_valid_db:
  "db_ok d \<Longrightarrow> valid_UpdateCouponDto dto \<Longrightarrow> db_step d (snd (coupon_update k dto d))"
  by (rule coupon_update_db) (auto simp: valid_UpdateCouponDto_def optional_def)

lemma coupon_create_valid_db:
  "db_ok d \<Longrightarrow> fresh_key cp_id n (coupons d) \<Longrightarrow> valid_CreateCouponDto dto \<Longrightarrow> db_step d (snd (coupon_create n dto b d))"
  by (rule coupon_create_db) (auto simp: valid_CreateCouponDto_def)

lemma business_coupon_step:
  assumes "BusinessCouponController_handle E dr u r w = Some (res, w')" "db_ok (w_db w)" "fresh_draws (w_db w) dr"
    "BusinessCouponController_valid V r"
  shows "db_step (w_db w) (w_db w')"
  using assms coupon_create_valid_db [OF assms(2) fresh_drawsD(10) [OF assms(3)]] coupon_update_valid_db
  by (cases r) (auto simp: createForBusiness_def elim!: on_db_db on_read_db)

lemma admin_coupon_step:
  assumes "AdminCouponController_handle E dr u r w = Some (res, w')" "db_ok (w_db w)" "fresh_draws (w_db w) dr"
    "AdminCouponController_valid V r"
  shows "db_step (w_db w) (w_db w')"
  using assms coupon_create_valid_db [OF assms(2) fresh_drawsD(10) [OF assms(3)]] coupon_update_valid_db
  by (cases r) (auto simp: createGlobal_def elim!: on_db_db on_read_db)

lemma coupon_step:
  assumes "CouponController_handle E dr u r w = Some (res, w')" "db_ok (w_db w)"
  shows "db_step (w_db w) (w_db w')"
  using assms by (cases r) (auto simp: coupon_validate_def db_step_refl elim!: on_db_db)

lemma loyalty_step:
  assumes "LoyaltyController_handle E dr u r w = Some (res, w')" "db_ok (w_db w)" "fresh_draws (w_db w) dr"
  shows "db_step (w_db w) (w_db w')"
  using assms loyalty_getMine_db [OF assms(2) fresh_drawsD(11) [OF assms(3)]]
  by (cases r) (auto simp: ok_snd elim!: on_db_db)

lemma referral_step:
  assumes "ReferralController_handle E dr u r w = Some (res, w')" "db_ok (w_db w)"
  shows "db_step (w_db w) (w_db w')"
  using assms by (cases r) (auto elim!: on_read_db)

lemma admin_business_step:
  assumes "AdminBusinessController_handle E dr u r w = Some (res, w')" "db_ok (w_db w)"
  shows "db_step (w_db w) (w_db w')"
  using assms review_db
  by (cases r) (auto simp: approve_def reject_def suspend_def elim!: on_db_db on_read_db)

lemma handle_step:
  assumes "handle E dr u ep w = Some (res, w')" "db_ok (w_db w)" "fresh_draws (w_db w) dr"
    "valid_request V ep" "path_id ep \<noteq> Some []"
  shows "db_step (w_db w) (w_db w')"
  using assms
  by (cases ep)
    (auto intro: auth_step users_step booking_controller_step availability_step business_booking_step
      business_step branch_step service_step staff_step hours_step discovery_step payment_step wallet_step
      settlement_step settlement_run_step business_coupon_step coupon_step admin_coupon_step loyalty_step
      referral_step admin_business_step)

text \<open>Guards, validation and routing only refuse.\<close>

lemma serve_cases:
  assumes "serve E dr sub ep w = Some (res, w')"
  obtains (refused) e where "res = Inl e" "w' = w"
  | (handled) u where "guards (route_of ep) (authenticate sub (w_db w)) (path_id ep) (w_db w) = Inr u"
      "valid_request (E_validators E) ep" "path_id ep \<noteq> Some []"
      "handle E dr (user_id u) ep w = Some (res, w')"
  using assms that by (auto simp: serve_def split: if_splits sum.splits)

lemma serve_step:
  assumes "serve E dr sub ep w = Some (res, w')" "db_ok (w_db w)" "fresh_draws (w_db w) dr"
  shows "db_step (w_db w) (w_db w')"
  using assms(1)
proof (cases rule: serve_cases)
  case refused
  with assms(2) show ?thesis by (simp add: db_step_refl)
next
  case handled
  then show ?thesis using handle_step assms(2,3) by blast
qed

end
