(* ===== verification/Runs.thy ===== *)
theory Runs
  imports Main
begin

text \<open>
  Runs of a labelled transition system, as lists of events, and the two contracts under
  which a fact about single transitions holds for every run: an invariant with a guarantee
  (\<open>transition_system\<close>) and a fact that nothing takes back (\<open>stable_fact\<close>).
\<close>

inductive run :: "('s \<Rightarrow> 'e \<Rightarrow> 's \<Rightarrow> bool) \<Rightarrow> 's \<Rightarrow> 'e list \<Rightarrow> 's \<Rightarrow> bool"
  for step :: "'s \<Rightarrow> 'e \<Rightarrow> 's \<Rightarrow> bool" where
  stop: "run step s [] s"
| move: "step s e t \<Longrightarrow> run step t es u \<Longrightarrow> run step s (e # es) u"

inductive_cases run_ConsE: "run step s (e # es) u"
inductive_cases run_NilE: "run step s [] u"
inductive_simps run_Nil [simp]: "run step s [] u"
inductive_simps run_Cons: "run step s (e # es) u"

lemma run_append: "run step s (es @ fs) u \<longleftrightarrow> (\<exists>t. run step s es t \<and> run step t fs u)"
  by (induction es arbitrary: s) (auto simp: run_Cons)

locale transition_system =
  fixes step :: "'s \<Rightarrow> 'e \<Rightarrow> 's \<Rightarrow> bool" and inv :: "'s \<Rightarrow> bool" and guarantee :: "'s \<Rightarrow> 's \<Rightarrow> bool"
  assumes step_inv: "step s e t \<Longrightarrow> inv s \<Longrightarrow> inv t"
    and step_guarantee: "step s e t \<Longrightarrow> inv s \<Longrightarrow> guarantee s t"
    and guarantee_refl: "inv s \<Longrightarrow> guarantee s s"
    and guarantee_trans: "guarantee s t \<Longrightarrow> guarantee t u \<Longrightarrow> guarantee s u"
begin

lemma run_inv: "run step s es t \<Longrightarrow> inv s \<Longrightarrow> inv t"
  by (induction rule: run.induct) (auto dest: step_inv)

lemma run_guarantee: "run step s es t \<Longrightarrow> inv s \<Longrightarrow> guarantee s t"
proof (induction rule: run.induct)
  case (move s e t es u)
  then have "guarantee s t" "guarantee t u" using step_guarantee step_inv by blast+
  then show ?case by (rule guarantee_trans)
qed (rule guarantee_refl)

end

locale stable_fact = transition_system +
  fixes fact :: "'a \<Rightarrow> 'x \<Rightarrow> bool"
  assumes fact_kept: "inv s \<Longrightarrow> guarantee s t \<Longrightarrow> fact s x \<Longrightarrow> fact t x"
begin

lemma run_fact: "run step s es t \<Longrightarrow> inv s \<Longrightarrow> fact s x \<Longrightarrow> fact t x"
  using run_guarantee fact_kept by blast

text \<open>Once the fact holds somewhere on a run, it holds at its end.\<close>

lemma run_fact_from:
  assumes "run step s (es @ fs) u" "inv s"
  obtains t where "run step s es t" "run step t fs u" "inv t" "\<And>x. fact t x \<Longrightarrow> fact u x"
  using assms run_append [of step s es fs u] run_inv run_fact by metis

end

end
