(* ===== verification/System.thy ===== *)
theory System
  imports Platform Runs OrgProps
begin

text \<open>
  The transition system of the backend and what holds in every state it reaches, whatever
  requests arrive in whatever order: no double booking, agreements and life cycles of
  reservations and payments, ledgers that add up, owners that keep their access, and an
  answer to every request.
\<close>

section \<open>Transitions\<close>

text \<open>
  The last of the four global guards, the throttler of the library, counts the requests that
  passed the other three and may refuse any of them: when it does is left open.
\<close>

datatype event = Request draws "id option" endpoint "unit result" | CleanUp time

inductive transition :: "('r, 'g) environment \<Rightarrow> ('r, 'g) world \<Rightarrow> event \<Rightarrow> ('r, 'g) world \<Rightarrow> bool"
  for E :: "('r, 'g) environment" where
  request: "fresh_draws (w_db w) dr \<Longrightarrow> serve E dr sub ep w = Some (res, w')
    \<Longrightarrow> transition E w (Request dr sub ep res) w'"
| throttled: "guards (route_of ep) (authenticate sub (w_db w)) (path_id ep) (w_db w) = Inr u \<Longrightarrow> path_id ep \<noteq> Some []
    \<Longrightarrow> transition E w (Request dr sub ep (Inl (TooManyRequests RequestLimit))) w"
| clean_up: "transition E w (CleanUp now) (w\<lparr>w_db := handleExpiredHolds now (w_db w)\<rparr>)"

inductive_cases requestE: "transition E w (Request dr sub ep res) w'"
inductive_cases clean_upE: "transition E w (CleanUp now) w'"
inductive_simps transition_simps: "transition E w (Request dr sub ep res) w'" "transition E w (CleanUp now) w'"

lemma transition_db:
  assumes "transition E w e w'" "db_ok (w_db w)"
  shows "db_step (w_db w) (w_db w')"
  using assms
proof (cases rule: transition.cases)
  case (request dr sub ep res)
  then show ?thesis using serve_step assms(2) by blast
next
  case throttled
  with assms(2) show ?thesis by (simp add: db_step_refl)
next
  case (clean_up now)
  with release_db [OF assms(2)] show ?thesis by simp
qed

definition sound :: "('r, 'g) world \<Rightarrow> bool" where
  "sound w \<longleftrightarrow> db_ok (w_db w)"

definition guaranteed :: "('r, 'g) world \<Rightarrow> ('r, 'g) world \<Rightarrow> bool" where
  "guaranteed w w' \<longleftrightarrow> evolves (bookings (w_db w)) (bookings (w_db w')) \<and> pays_evolve (payments (w_db w)) (payments (w_db w'))"

interpretation platform: transition_system "transition E" sound guaranteed for E :: "('r, 'g) environment"
proof
  fix w w' :: "('r, 'g) world" and e
  assume "transition E w e w'" "sound w"
  then have "db_step (w_db w) (w_db w')" by (simp add: sound_def transition_db)
  then show "sound w'" "guaranteed w w'" by (simp_all add: db_step_def sound_def guaranteed_def)
next
  fix w :: "('r, 'g) world"
  show "guaranteed w w" by (simp add: guaranteed_def)
next
  fix w w' w'' :: "('r, 'g) world"
  assume "guaranteed w w'" "guaranteed w' w''"
  then show "guaranteed w w''" using evolves_trans pays_evolve_trans by (auto simp: guaranteed_def)
qed

text \<open>A closed reservation and a settled payment, described by all that must not change.\<close>

definition closed_booking :: "('r, 'g) world \<Rightarrow> _ \<Rightarrow> bool" where
  "closed_booking w x \<longleftrightarrow> (\<exists>b \<in> set (bookings (w_db w)). x = (snapshot b, bk_status b) \<and> \<not> is_active (bk_status b))"

definition settled_payment :: "('r, 'g) world \<Rightarrow> _ \<Rightarrow> bool" where
  "settled_payment w x \<longleftrightarrow> (\<exists>p \<in> set (payments (w_db w)).
     x = (pay_terms p, pay_status p) \<and> payment_transitions (pay_status p) = [])"

interpretation reservations: stable_fact "transition E" sound guaranteed closed_booking for E :: "('r, 'g) environment"
proof
  fix w w' :: "('r, 'g) world" and x
  assume "guaranteed w w'" "closed_booking w x"
  then obtain b b' where b: "x = (snapshot b, bk_status b)" "\<not> is_active (bk_status b)"
    and b': "b' \<in> set (bookings (w_db w'))" "snapshot b' = snapshot b" "moves\<^sup>*\<^sup>* (bk_status b) (bk_status b')"
    unfolding closed_booking_def guaranteed_def evolves_def by blast
  from terminal_final [OF b'(3) b(2)] b b'(1,2) show "closed_booking w' x"
    unfolding closed_booking_def by (intro bexI [of _ b']) simp_all
qed

interpretation receipts: stable_fact "transition E" sound guaranteed settled_payment for E :: "('r, 'g) environment"
proof
  fix w w' :: "('r, 'g) world" and x
  assume "guaranteed w w'" "settled_payment w x"
  then obtain p p' where p: "x = (pay_terms p, pay_status p)" "payment_transitions (pay_status p) = []"
    and p': "p' \<in> set (payments (w_db w'))" "pay_terms p' = pay_terms p" "pay_moves\<^sup>*\<^sup>* (pay_status p) (pay_status p')"
    unfolding settled_payment_def guaranteed_def pays_evolve_def by blast
  from pay_final [OF p'(3) p(2)] p p'(1,2) show "settled_payment w' x"
    unfolding settled_payment_def by (intro bexI [of _ p']) simp_all
qed

lemma reached_ok: "run (transition E) w es w' \<Longrightarrow> db_ok (w_db w) \<Longrightarrow> db_ok (w_db w')"
  using platform.run_inv by (auto simp: sound_def)

lemma reached_evolves:
  assumes "run (transition E) w es w'" "db_ok (w_db w)"
  shows "evolves (bookings (w_db w)) (bookings (w_db w'))" "pays_evolve (payments (w_db w)) (payments (w_db w'))"
  using platform.run_guarantee [OF assms(1)] assms(2) by (simp_all add: sound_def guaranteed_def)

end
