(* ===== verification/SystemProps.thy ===== *)
theory SystemProps
  imports System AccountProps Scenario
begin

text \<open>
  Properties of every history of the backend: whatever requests were served, by whom and in
  which order, and whenever the clean-up job ran in between.
\<close>

section \<open>A concrete platform\<close>

text \<open>The business of the scenario with its owner, a customer and two payments.\<close>

definition citizen :: "id \<Rightarrow> string \<Rightarrow> user" where
  "citizen k phone = demo_user\<lparr>usr_id := k, usr_phone := phone\<rparr>"

definition city_owner :: staff_member where
  "city_owner = \<lparr>sm_id = ''own'', sm_userId = ''owner'', sm_businessId = ''biz'', sm_branchId = None,
     sm_role = OWNER, sm_specialty = None, sm_isActive = True\<rparr>"

definition city_payment :: "id \<Rightarrow> PaymentStatus \<Rightarrow> payment" where
  "city_payment k s = \<lparr>pay_id = k, pay_bookingId = None, pay_userId = ''ann'', pay_type = WALLET_TOPUP,
     pay_status = s, pay_amount = 50000, pay_gateway = ''MOCK'', pay_gatewayRefId = Some k,
     pay_callbackVerifiedAt = None, pay_failureReason = None, pay_createdAt = 0\<rparr>"

definition city_wallet :: wallet where
  "city_wallet = \<lparr>wal_id = ''w1'', wal_userId = ''ann'', wal_balance = 50000\<rparr>"

definition city_credit :: wallet_tx where
  "city_credit = \<lparr>wtx_walletId = ''w1'', wtx_type = Tx_TOPUP, wtx_amount = 50000, wtx_balanceAfter = 50000,
     wtx_referenceId = Some ''p1'', wtx_createdAt = 0\<rparr>"

definition city :: "booking list \<Rightarrow> db" where
  "city bs = (demo_db bs)\<lparr>users := [citizen ''ann'' ''09120000001'', citizen ''owner'' ''09120000002'',
       citizen ''worker'' ''09120000003''],
     staff_members := [city_owner, demo_staff], payments := [city_payment ''p1'' SUCCESS, city_payment ''p2'' FAILED],
     wallets := [city_wallet], wallet_txs := [city_credit]\<rparr>"

lemmas city_defs = city_def citizen_def city_owner_def city_payment_def city_wallet_def city_credit_def
  demo_user_def

lemma bookings_city [simp]: "bookings (city bs) = bs"
  by (simp add: city_def)

lemma city_ok:
  assumes "bookings_ok bs"
  shows "db_ok (city bs)"
proof -
  have "accounts_ok (city bs)" by (simp add: accounts_ok_def city_defs demo_db_def empty_db_def unique_key_def)
  moreover have "otp_ok (city bs)"
    by (simp add: otp_ok_def city_def demo_db_def empty_db_def unique_key_def spaced_def)
  moreover have "staff_ok (city bs)"
    by (simp add: staff_ok_def city_defs demo_db_def demo_business_def demo_staff_def unique_key_def)
  moreover have "services_ok (city bs)"
    using demo_services_ok [of bs] services_ok_cong [of "city bs" "demo_db bs"] by (simp add: city_def)
  moreover have "coupons_ok (city bs)"
    using demo_coupons_ok [of bs] coupons_ok_cong [of "city bs" "demo_db bs"] by (simp add: city_def)
  moreover have "wallets_ok (city bs)"
    by (simp add: wallets_ok_def balanced_def city_defs unique_key_def total_of_def)
  moreover have "payments_ok (city bs)"
    by (simp add: payments_ok_def payment_ok_def backed_def credits_def city_defs unique_key_def)
  moreover have "loyalty_ok (city bs)"
    by (simp add: loyalty_ok_def balanced_def city_def demo_db_def empty_db_def unique_key_def)
  moreover have "referrals_ok (city bs)"
    by (simp add: referrals_ok_def city_def demo_db_def empty_db_def unique_key_def)
  ultimately show ?thesis using assms by (simp add: db_ok_def)
qed

definition city_env :: "(mem_store, sessions) environment" where
  "city_env = \<lparr>E_auth = demo_auth, E_redis = mem_redis, E_gateway = mock_gateway, E_publicUrl = ''https://x'',
     E_contains = (\<lambda>x y. x = y), E_validators = \<lparr>isEmail = (\<lambda>_. True), isUrl = (\<lambda>_. True)\<rparr>\<rparr>"

definition city_world :: "booking list \<Rightarrow> (mem_store, sessions) world" where
  "city_world bs = \<lparr>w_db = city bs, w_redis = (\<lambda>_. None), w_gateway = (\<lambda>_. None), w_outbox = []\<rparr>"

lemma w_db_city [simp]: "w_db (city_world bs) = city bs"
  by (simp add: city_world_def)

definition city_draws :: "time \<Rightarrow> draws" where
  "city_draws t = \<lparr>now_of = t, later_of = t + 5, clock_of = (\<lambda>_. t), uuid = (\<lambda>i. CHR ''#'' # replicate i (CHR ''1'')),
     lock_token = ''tok'', gateway_uuid = ''g'', session_token = ''session'', salt_of = ''salt'',
     otp_number = 1, device = no_device\<rparr>"

lemma city_fresh:
  assumes "\<And>b. b \<in> set bs \<Longrightarrow> bk_id b \<in> {''k'', ''k2''}"
  shows "fresh_draws (city bs) (city_draws t)"
proof -
  have "inj (uuid (city_draws t))" by (auto simp: city_draws_def inj_def)
  moreover have "\<forall>b \<in> set bs. hd (bk_id b) \<noteq> CHR ''#''" using assms by fastforce
  then have "\<forall>x \<in> set (ids_of (city bs)). hd x \<noteq> CHR ''#''"
    by (simp add: ids_of_def ball_Un city_defs demo_db_def empty_db_def demo_staff_def demo_service_def demo_coupon_def
        demo_business_def demo_branch_def)
  moreover have "hd (uuid (city_draws t) i) = CHR ''#''" "uuid (city_draws t) i \<noteq> []" for i
    by (simp_all add: city_draws_def)
  ultimately show ?thesis unfolding fresh_draws_def by metis
qed

text \<open>Ann cancels a confirmed reservation; the answer and the state after it.\<close>

lemma city_cancel:
  "serve city_env (city_draws day0) (Some ''ann'') (BookingRoute (Booking_cancel ''k'' None))
     (city_world (demo_booking ''k'' CONFIRMED nine # bs))
   = Some (Inr (), (city_world (demo_booking ''k'' CONFIRMED nine # bs))\<lparr>w_db :=
       snd (cancelByUser day0 ''k'' ''ann'' None (city (demo_booking ''k'' CONFIRMED nine # bs)))\<rparr>)"
proof -
  let ?w = "city_world (demo_booking ''k'' CONFIRMED nine # bs)"
  have "find_user (w_db ?w) ''ann'' = Some (citizen ''ann'' ''09120000001'')"
    by (simp add: find_user_def city_def citizen_def)
  then have "authenticate (Some ''ann'') (w_db ?w) = Inr (''ann'', USER)"
    by (simp add: authenticate_def jwt_validate_def citizen_def demo_user_def)
  moreover have "guards user_route (Inr (''ann'', USER)) z d = Inr (Some (''ann'', USER))" for z d
    by (simp add: guards_eq user_route_def)
  moreover have "getOwnedBooking (w_db ?w) ''k'' ''ann'' = Inr (demo_booking ''k'' CONFIRMED nine)"
    by (simp add: getOwnedBooking_def demo_booking_def)
  then have "\<exists>res. fst (cancelByUser day0 ''k'' ''ann'' None (w_db ?w)) = Inr res"
    by (simp add: cancelByUser_def cancelInternal_def Let_def demo_booking_def)
  ultimately show ?thesis
    by (auto simp: serve_def user_id_def valid_CancelBookingDto_def optional_def on_db_def status_of_def
        city_draws_def split: prod.split)
qed

definition city_history :: "event list" where
  "city_history = [Request (city_draws day0) (Some ''ann'') (BookingRoute (Booking_cancel ''k'' None)) (Inr ()),
     CleanUp (day0 + 600000)]"

lemma city_run:
  assumes "\<And>b. b \<in> set bs \<Longrightarrow> bk_id b \<in> {''k'', ''k2''}"
  shows "\<exists>w. run (transition city_env) (city_world (demo_booking ''k'' CONFIRMED nine # bs)) city_history w
    \<and> bookings (w_db w) = update_rows (expired_hold (day0 + 600000))
        (\<lambda>b. b\<lparr>bk_status := CANCELLED, bk_cancelReason := Some ''hold expired''\<rparr>)
        (update_rows (\<lambda>b. bk_id b = ''k'') (\<lambda>b. b\<lparr>bk_status := CANCELLED, bk_cancelledAt := Some day0\<rparr>)
           (demo_booking ''k'' CONFIRMED nine # bs))"
proof -
  let ?bs = "demo_booking ''k'' CONFIRMED nine # bs"
  let ?w1 = "(city_world ?bs)\<lparr>w_db := snd (cancelByUser day0 ''k'' ''ann'' None (city ?bs))\<rparr>"
  have "fresh_draws (w_db (city_world ?bs)) (city_draws day0)"
    using assms by (intro city_fresh [of ?bs, folded w_db_city]) (auto simp: demo_booking_def)
  note 1 = transition.request [OF this city_cancel [of bs]]
  have "run (transition city_env) (city_world ?bs) city_history (?w1\<lparr>w_db := handleExpiredHolds (day0 + 600000) (w_db ?w1)\<rparr>)"
    unfolding city_history_def by (rule run.move, rule 1, rule run.move, rule transition.clean_up, rule run.stop)
  moreover have "w_db ?w1 = update_booking ''k''
      (\<lambda>b. b\<lparr>bk_status := CANCELLED, bk_cancelledAt := Some day0, bk_cancelReason := bk_cancelReason b\<rparr>) (city ?bs)"
    by (simp add: cancelByUser_def getOwnedBooking_def cancelInternal_def Let_def demo_booking_def)
  ultimately show ?thesis
    by (intro exI [of _ "?w1\<lparr>w_db := handleExpiredHolds (day0 + 600000) (w_db ?w1)\<rparr>"])
      (simp add: handleExpiredHolds_def releaseExpiredHolds_def update_booking_def)
qed

lemma empty_db_ok: "db_ok empty_db"
  by (simp add: db_ok_def empty_db_def accounts_ok_def otp_ok_def spaced_def staff_ok_def services_ok_def coupons_ok_def
      bookings_ok_def no_double_booking_def wallets_ok_def payments_ok_def loyalty_ok_def referrals_ok_def balanced_def
      unique_key_def)

lemma city_two_ok: "bookings_ok [demo_booking ''k'' CONFIRMED nine, demo_booking ''k2'' CONFIRMED (nine + 1800000)]"
  by (simp add: bookings_ok_def unique_key_def no_double_booking_def demo_row_ok clash_def demo_booking_sel)

section \<open>Reservations\<close>

text \<open>
  C1. No double booking, ever: in every state the backend reaches from a sound database (the
  empty one is sound), two different active reservations of the same branch and the same
  staff member, or both without one, never overlap. The requests may come from anyone, in
  any order, with the clean-up job running at any time in between.
\<close>

theorem no_double_booking_ever:
  assumes "run (transition E) w es w'" "db_ok (w_db w)"
    "b \<in> set (bookings (w_db w'))" "c \<in> set (bookings (w_db w'))" "bk_id b \<noteq> bk_id c"
    "is_active (bk_status b)" "is_active (bk_status c)"
    "bk_branchId b = bk_branchId c" "bk_staffMemberId b = bk_staffMemberId c"
  shows "bk_endTime b \<le> bk_startTime c \<or> bk_endTime c \<le> bk_startTime b"
proof -
  have "bookings_ok (bookings (w_db w'))" using reached_ok [OF assms(1,2)] by (rule db_okD)
  then have "\<not> clash b c" using assms(3-5) by (simp add: bookings_ok_def no_double_booking_def)
  with assms(6-9) show ?thesis by (auto simp: clash_def)
qed

theorem no_double_booking_ever_witness:
  "\<exists>w'. run (transition city_env) (city_world [demo_booking ''k'' CONFIRMED nine, demo_booking ''k2'' CONFIRMED (nine + 1800000)])
       [CleanUp day0] w'
     \<and> (\<forall>b \<in> set (bookings (w_db w')). \<forall>c \<in> set (bookings (w_db w')). bk_id b \<noteq> bk_id c \<longrightarrow>
          bk_endTime b \<le> bk_startTime c \<or> bk_endTime c \<le> bk_startTime b)"
proof -
  let ?bs = "[demo_booking ''k'' CONFIRMED nine, demo_booking ''k2'' CONFIRMED (nine + 1800000)]"
  let ?w = "(city_world ?bs)\<lparr>w_db := handleExpiredHolds day0 (w_db (city_world ?bs))\<rparr>"
  have r: "run (transition city_env) (city_world ?bs) [CleanUp day0] ?w"
    by (rule run.move, rule transition.clean_up, rule run.stop)
  have bs: "bookings (w_db ?w) = ?bs"
    by (simp add: handleExpiredHolds_def releaseExpiredHolds_def expired_hold_def demo_booking_sel)
  from no_double_booking_ever [OF r] city_ok [OF city_two_ok] r bs show ?thesis
    by (intro exI [of _ ?w]) (simp add: demo_booking_sel)
qed

text \<open>
  C4. What was agreed on stays agreed on: in every history a reservation keeps its customer,
  business, branch, staff member, service, price, discount, deposit, coupon, group and
  cancellation policy, its status only moves along the allowed transitions, and once it is
  completed, cancelled or a no-show it stays that.
\<close>

theorem reservation_life:
  assumes "run (transition E) w es w'" "db_ok (w_db w)" "b \<in> set (bookings (w_db w))"
  shows "\<exists>b' \<in> set (bookings (w_db w')). snapshot b' = snapshot b \<and> moves\<^sup>*\<^sup>* (bk_status b) (bk_status b')
    \<and> (bk_status b \<in> {COMPLETED, CANCELLED, NO_SHOW} \<longrightarrow> bk_status b' = bk_status b)"
proof -
  obtain b' where b': "b' \<in> set (bookings (w_db w'))" "snapshot b' = snapshot b" "moves\<^sup>*\<^sup>* (bk_status b) (bk_status b')"
    using reached_evolves(1) [OF assms(1,2)] assms(3) by (auto simp: evolves_def)
  moreover have "bk_status b' = bk_status b" if "bk_status b \<in> {COMPLETED, CANCELLED, NO_SHOW}"
    using that terminal_final [OF b'(3)] by auto
  ultimately show ?thesis by blast
qed

theorem reservation_life_witness:
  "\<exists>w' b'. run (transition city_env) (city_world [demo_booking ''k'' CONFIRMED nine]) city_history w'
     \<and> b' \<in> set (bookings (w_db w')) \<and> snapshot b' = snapshot (demo_booking ''k'' CONFIRMED nine)"
proof -
  obtain w where w: "run (transition city_env) (city_world [demo_booking ''k'' CONFIRMED nine]) city_history w"
    using city_run [of "[]"] by auto
  have "db_ok (w_db (city_world [demo_booking ''k'' CONFIRMED nine]))"
    using city_ok [OF demo_bookings_ok_single] by simp
  from reservation_life [OF w this, of "demo_booking ''k'' CONFIRMED nine"] w show ?thesis by auto
qed

section \<open>Money\<close>

text \<open>
  C5. The life of a payment over every history: who pays, for what and how much never
  changes; it moves from initiated to success or failure and from success to refunded only;
  it causes at most one credit of type TOPUP, and only if it is a top-up that succeeded, and
  one credit of type REFUND exactly when it is refunded, each of exactly its amount. (A
  top-up that was credited and is then refunded has both: \<open>PaymentProps\<close>,
  \<open>refunded_topup_counts_twice\<close>.)
\<close>

theorem payment_life:
  assumes "run (transition E) w es w'" "db_ok (w_db w)" "p \<in> set (payments (w_db w))"
  shows "\<exists>p' \<in> set (payments (w_db w')). pay_terms p' = pay_terms p
    \<and> pay_moves\<^sup>*\<^sup>* (pay_status p) (pay_status p')
    \<and> (pay_status p \<in> {FAILED, REFUNDED} \<longrightarrow> pay_status p' = pay_status p)
    \<and> credits (w_db w') Tx_TOPUP (pay_id p)
        \<le> (if pay_type p = WALLET_TOPUP \<and> pay_status p' \<in> {SUCCESS, REFUNDED} then 1 else 0)
    \<and> credits (w_db w') Tx_REFUND (pay_id p) = (if pay_status p' = REFUNDED then 1 else 0)
    \<and> (\<forall>x \<in> set (wallet_txs (w_db w')). wtx_type x \<in> {Tx_TOPUP, Tx_REFUND} \<longrightarrow> wtx_referenceId x = Some (pay_id p)
         \<longrightarrow> wtx_amount x = pay_amount p)"
proof -
  obtain p' where p': "p' \<in> set (payments (w_db w'))" "pay_terms p' = pay_terms p"
    "pay_moves\<^sup>*\<^sup>* (pay_status p) (pay_status p')"
    using reached_evolves(2) [OF assms(1,2)] assms(3) by (auto simp: pays_evolve_def)
  have ok: "payments_ok (w_db w')" using reached_ok [OF assms(1,2)] by (rule db_okD)
  have "payment_ok (w_db w') p'" using ok p'(1) by (rule payment_okD)
  moreover have "wtx_amount x = pay_amount p"
    if x: "x \<in> set (wallet_txs (w_db w'))" "wtx_type x \<in> {Tx_TOPUP, Tx_REFUND}" "wtx_referenceId x = Some (pay_id p)" for x
  proof -
    obtain q where q: "q \<in> set (payments (w_db w'))" "pay_id q = pay_id p" "wtx_amount x = pay_amount q"
      using ok x unfolding payments_ok_def backed_def list_all_iff by fastforce
    have "q = p'" using unique_key_eq [of pay_id "payments (w_db w')" q p'] ok q(1,2) p'(1,2)
      by (simp add: payments_ok_def pay_terms_def)
    with q(3) p'(2) show ?thesis by (simp add: pay_terms_def)
  qed
  moreover have "pay_status p' = pay_status p" if "pay_status p \<in> {FAILED, REFUNDED}"
    using that pay_final [OF p'(3)] by auto
  ultimately show ?thesis using p' by (auto simp: payment_ok_def pay_terms_def intro!: bexI [of _ p'])
qed

theorem payment_life_witness:
  "\<exists>w'. run (transition city_env) (city_world [demo_booking ''k'' CONFIRMED nine]) city_history w'
     \<and> (\<exists>p' \<in> set (payments (w_db w')). pay_terms p' = pay_terms (city_payment ''p2'' FAILED) \<and> pay_status p' = FAILED)"
proof -
  obtain w where w: "run (transition city_env) (city_world [demo_booking ''k'' CONFIRMED nine]) city_history w"
    using city_run [of "[]"] by auto
  have "db_ok (w_db (city_world [demo_booking ''k'' CONFIRMED nine]))"
    using city_ok [OF demo_bookings_ok_single] by simp
  from payment_life [OF w this, of "city_payment ''p2'' FAILED"] w show ?thesis
    by (auto simp: city_def city_payment_def)
qed

text \<open>
  C6. The books balance in every state that is reached: a wallet's balance is the sum of its
  movements and never negative, an account's points are the sum of its movements and its
  tier is the tier of these points, and a coupon's counter is the number of its uses.
\<close>

theorem books_balance:
  assumes "run (transition E) w es w'" "db_ok (w_db w)"
  shows "(\<forall>a \<in> set (wallets (w_db w')). 0 \<le> wal_balance a
        \<and> wal_balance a = total_of (\<lambda>x. wtx_walletId x = wal_id a) wtx_amount (wallet_txs (w_db w')))
    \<and> (\<forall>a \<in> set (loyalty_accounts (w_db w')). la_tier a = tier_for (la_points a)
        \<and> la_points a = total_of (\<lambda>x. ltx_accountId x = la_id a) ltx_points (loyalty_txs (w_db w')))
    \<and> (\<forall>c \<in> set (coupons (w_db w')). cp_usageCount c = usages_of (w_db w') (cp_id c))"
  using db_okD(5,7,9) [OF reached_ok [OF assms]]
  unfolding wallets_ok_def loyalty_ok_def balanced_def coupons_ok_def list_all_iff by blast

theorem books_balance_witness:
  "wal_balance city_wallet = total_of (\<lambda>x. wtx_walletId x = wal_id city_wallet) wtx_amount (wallet_txs (city []))"
  using books_balance [OF run.stop [of "transition city_env" "city_world []"]] city_ok [of "[]"] demo_bookings_ok_Nil
  by (simp add: city_def)

section \<open>Access\<close>

lemma owner_membership:
  assumes "staff_ok d" "z \<in> set (businesses d)"
  obtains m where "find_membership d (biz_ownerId z) (biz_id z) = Some m" "sm_role m = OWNER" "sm_isActive m"
proof -
  obtain m where m: "m \<in> set (staff_members d)" "sm_businessId m = biz_id z" "sm_userId m = biz_ownerId z" "sm_role m = OWNER"
    using assms by (auto simp: staff_ok_def list_all_iff)
  have "unique_key (\<lambda>m. (sm_userId m, sm_businessId m)) (staff_members d)" using assms(1) by (simp add: staff_ok_def)
  from unique_key_find [OF this m(1)] m have "find_membership d (biz_ownerId z) (biz_id z) = Some m"
    by (simp add: find_membership_def)
  moreover have "sm_isActive m" using assms(1) m by (simp add: staff_ok_def list_all_iff)
  ultimately show thesis using that m(4) by blast
qed

text \<open>
  C14. The owner of a business keeps access: in every state that is reached, an owner whose
  account is active passes the guards of every route of the own business that admits the
  role OWNER. No invitation, removal or update can lock an owner out.
\<close>

theorem owner_keeps_access:
  assumes "run (transition E) w es w'" "db_ok (w_db w)" "z \<in> set (businesses (w_db w'))"
    "find_user (w_db w') (biz_ownerId z) = Some u" "usr_status u = Acc_ACTIVE" "biz_id z \<noteq> []"
    "\<not> isPublic rt" "globalRoles rt = []" "OWNER \<in> set (businessRoles rt)"
  shows "guards rt (authenticate (Some (biz_ownerId z)) (w_db w')) (Some (biz_id z)) (w_db w')
    = Inr (Some (biz_ownerId z, usr_globalRole u))"
proof -
  obtain m where m: "find_membership (w_db w') (biz_ownerId z) (biz_id z) = Some m" "sm_role m = OWNER" "sm_isActive m"
    using owner_membership [OF db_okD(3) [OF reached_ok [OF assms(1,2)]] assms(3)] .
  have "usr_id u = biz_ownerId z" using assms(4) by (auto simp: find_user_def dest: find_SomeD)
  then have "authenticate (Some (biz_ownerId z)) (w_db w') = Inr (biz_ownerId z, usr_globalRole u)"
    using assms(4,5) by (simp add: authenticate_def jwt_validate_def)
  then show ?thesis using m assms(6-9) by (auto simp: guards_eq)
qed

theorem owner_keeps_access_witness:
  "guards (member_route [OWNER]) (authenticate (Some ''owner'') (city [])) (Some ''biz'') (city [])
     = Inr (Some (''owner'', USER))"
proof -
  have "find_user (city []) ''owner'' = Some (citizen ''owner'' ''09120000002'')"
    by (simp add: find_user_def city_def citizen_def)
  moreover have "demo_business \<in> set (businesses (city []))" by (simp add: city_def demo_db_def)
  moreover have "db_ok (city [])" using city_ok demo_bookings_ok_Nil by simp
  ultimately show ?thesis
    using owner_keeps_access [OF run.stop [of "transition city_env" "city_world []"], of demo_business
        "citizen ''owner'' ''09120000002''" "member_route [OWNER]"]
    by (simp add: demo_business_def citizen_def demo_user_def member_route_def)
qed

text \<open>
  C11. Whoever may not use a route changes nothing: without a valid token, without the global
  role, or without an active membership with one of the roles in the business of the path
  (and without being an administrator), a request to a route that is not public is refused,
  and database, lock server, gateway and outbox stay exactly as they were.
\<close>

theorem intruder_changes_nothing:
  assumes "\<not> isPublic (route_of ep)"
    "(\<exists>e. authenticate sub (w_db w) = Inl e) \<or>
     (\<exists>u role. authenticate sub (w_db w) = Inr (u, role) \<and>
        (globalRoles (route_of ep) \<noteq> [] \<and> role \<notin> set (globalRoles (route_of ep))
         \<or> businessRoles (route_of ep) \<noteq> [] \<and> role \<noteq> ADMIN
           \<and> \<not> (\<exists>m \<in> set (staff_members (w_db w)). sm_userId m = u \<and> Some (sm_businessId m) = path_id ep
                  \<and> sm_isActive m \<and> sm_role m \<in> set (businessRoles (route_of ep)))))"
  shows "\<exists>e. serve E dr sub ep w = Some (Inl e, w) \<and>
    (e = Unauthorized NotAuthenticated \<or> e = Unauthorized AccountInvalid \<or> e = Forbidden NoPermission
      \<or> e = Forbidden NoBusinessInPath \<or> e = NotFound NoRoute)"
proof (cases "path_id ep = Some []")
  case True
  then show ?thesis by (simp add: serve_def)
next
  case False
  have member: "find_membership (w_db w) u z = Some m \<Longrightarrow> m \<in> set (staff_members (w_db w)) \<and> sm_userId m = u \<and> sm_businessId m = z"
    for u z m by (auto simp: find_membership_def dest: find_SomeD)
  from assms(2) show ?thesis
  proof
    assume "\<exists>e. authenticate sub (w_db w) = Inl e"
    then show ?thesis using False assms(1)
      by (auto simp: serve_def guards_eq authenticate_def jwt_validate_def split: option.splits if_splits)
  next
    assume "\<exists>u role. authenticate sub (w_db w) = Inr (u, role) \<and>
        (globalRoles (route_of ep) \<noteq> [] \<and> role \<notin> set (globalRoles (route_of ep))
         \<or> businessRoles (route_of ep) \<noteq> [] \<and> role \<noteq> ADMIN
           \<and> \<not> (\<exists>m \<in> set (staff_members (w_db w)). sm_userId m = u \<and> Some (sm_businessId m) = path_id ep
                  \<and> sm_isActive m \<and> sm_role m \<in> set (businessRoles (route_of ep))))"
    then obtain u role where a: "authenticate sub (w_db w) = Inr (u, role)"
      and no: "globalRoles (route_of ep) \<noteq> [] \<and> role \<notin> set (globalRoles (route_of ep))
         \<or> businessRoles (route_of ep) \<noteq> [] \<and> role \<noteq> ADMIN
           \<and> \<not> (\<exists>m \<in> set (staff_members (w_db w)). sm_userId m = u \<and> Some (sm_businessId m) = path_id ep
                  \<and> sm_isActive m \<and> sm_role m \<in> set (businessRoles (route_of ep)))" by blast
    have "truthy (path_id ep) \<Longrightarrow> Some (the (path_id ep)) = path_id ep" by (cases "path_id ep") auto
    with no member [of u "the (path_id ep)"] have "guards (route_of ep) (Inr (u, role)) (path_id ep) (w_db w) \<in>
        {Inl (Forbidden NoPermission), Inl (Forbidden NoBusinessInPath)}"
      using assms(1) by (auto simp: guards_eq)
    then show ?thesis using False a by (auto simp: serve_def)
  qed
qed

theorem intruder_changes_nothing_witness:
  "\<exists>e. serve city_env (city_draws day0) (Some ''ann'') (StaffRoute (Staff_deactivate ''biz'' ''st'')) (city_world [])
     = Some (Inl e, city_world [])"
proof -
  have "find_user (city []) ''ann'' = Some (citizen ''ann'' ''09120000001'')"
    by (simp add: find_user_def city_def citizen_def)
  then have "authenticate (Some ''ann'') (w_db (city_world [])) = Inr (''ann'', USER)"
    by (simp add: authenticate_def jwt_validate_def citizen_def demo_user_def)
  moreover have "\<not> (\<exists>m \<in> set (staff_members (city [])). sm_userId m = ''ann'')"
    by (simp add: city_def city_owner_def demo_staff_def)
  ultimately show ?thesis
    using intruder_changes_nothing [of "StaffRoute (Staff_deactivate ''biz'' ''st'')" "Some ''ann''" "city_world []" city_env
        "city_draws day0"]
    by (auto simp: member_route_def)
qed

section \<open>Answers\<close>

lemma on_answers [simp]:
  "\<exists>x. on_read r w = Some x" "\<exists>x. on_db f w = Some x" "\<exists>x. on_sms s w = Some x"
  "\<exists>x. on_lock l w = Some x" "\<exists>x. on_gateway g w = Some x"
  by (auto simp: on_read_def on_db_def on_sms_def on_lock_def on_gateway_def split: prod.split)

lemma slots_answer:
  assumes "services_ok (w_db w)"
  shows "\<exists>x. BookingController_handle E dr u (Booking_reschedule k s) w = Some x"
    "\<exists>x. AvailabilityController_handle E dr u r w = Some x"
proof -
  show "\<exists>x. BookingController_handle E dr u (Booking_reschedule k s) w = Some x"
    using reschedule_total [OF assms] by (auto simp: on_lock_option_def on_lock_def split: option.split prod.split)
  show "\<exists>x. AvailabilityController_handle E dr u r w = Some x"
    using getFreeSlots_total [OF assms] by (cases r) (auto simp: on_read_def split: option.split)
qed

lemma handle_answers:
  assumes "services_ok (w_db w)"
  shows "\<exists>x. handle E dr u ep w = Some x"
proof (cases "\<exists>k s. ep = BookingRoute (Booking_reschedule k s) \<or> (\<exists>r. ep = AvailabilityRoute r)")
  case True
  then show ?thesis using slots_answer [OF assms] by (elim exE disjE) (simp_all only: handle.simps)
next
  case False
  then show ?thesis by (cases ep; rename_tac r; case_tac r; simp del: split_paired_Ex)
qed

text \<open>
  C13. Every request is answered: in every state that is reached, serving any request from
  anyone ends, with a result or an exception. The only unbounded loops, those of the slot
  search, end because no service can get a duration that is not positive.
\<close>

theorem every_request_answered:
  assumes "run (transition E) w es w'" "db_ok (w_db w)"
  shows "\<exists>res w''. serve E dr sub ep w' = Some (res, w'')"
proof -
  have "services_ok (w_db w')" using reached_ok [OF assms] by (rule db_okD)
  from handle_answers [OF this] show ?thesis by (auto simp: serve_def split: sum.split)
qed

theorem every_request_answered_witness:
  "\<exists>res w. serve city_env (city_draws day0) (Some ''ann'') (BookingRoute (Booking_reschedule ''k'' (nine + 3600000)))
     (city_world [demo_booking ''k'' CONFIRMED nine]) = Some (res, w)"
  using every_request_answered [OF run.stop [of "transition city_env" "city_world [demo_booking ''k'' CONFIRMED nine]"]]
    city_ok [OF demo_bookings_ok_single] by simp

end
