(* ===== verification/Footprint.thy ===== *)
theory Footprint
  imports System
begin

text \<open>
  What each route may write. \<open>frame T d e\<close> says that \<open>d\<close> and \<open>e\<close> agree on every table outside
  \<open>T\<close>; \<open>writes\<close> names the tables of each route, and \<open>handle_frame\<close> proves that no route
  writes any other. Later theories read from it which routes they have to look at.
\<close>

section \<open>Tables and frames\<close>

datatype table =
    T_users | T_otp_codes | T_refresh_tokens | T_businesses | T_documents | T_branches | T_staff_members
  | T_working_hours | T_holidays | T_services | T_service_staffs | T_bookings | T_payments | T_wallets
  | T_wallet_txs | T_settlements | T_coupons | T_coupon_usages | T_loyalty_accounts | T_loyalty_txs
  | T_referrals | T_audit_logs

fun same_table :: "table \<Rightarrow> db \<Rightarrow> db \<Rightarrow> bool" where
  "same_table T_users d e \<longleftrightarrow> users e = users d"
| "same_table T_otp_codes d e \<longleftrightarrow> otp_codes e = otp_codes d"
| "same_table T_refresh_tokens d e \<longleftrightarrow> refresh_tokens e = refresh_tokens d"
| "same_table T_businesses d e \<longleftrightarrow> businesses e = businesses d"
| "same_table T_documents d e \<longleftrightarrow> documents e = documents d"
| "same_table T_branches d e \<longleftrightarrow> branches e = branches d"
| "same_table T_staff_members d e \<longleftrightarrow> staff_members e = staff_members d"
| "same_table T_working_hours d e \<longleftrightarrow> working_hours_tbl e = working_hours_tbl d"
| "same_table T_holidays d e \<longleftrightarrow> holidays e = holidays d"
| "same_table T_services d e \<longleftrightarrow> services e = services d"
| "same_table T_service_staffs d e \<longleftrightarrow> service_staffs e = service_staffs d"
| "same_table T_bookings d e \<longleftrightarrow> bookings e = bookings d"
| "same_table T_payments d e \<longleftrightarrow> payments e = payments d"
| "same_table T_wallets d e \<longleftrightarrow> wallets e = wallets d"
| "same_table T_wallet_txs d e \<longleftrightarrow> wallet_txs e = wallet_txs d"
| "same_table T_settlements d e \<longleftrightarrow> settlements e = settlements d"
| "same_table T_coupons d e \<longleftrightarrow> coupons e = coupons d"
| "same_table T_coupon_usages d e \<longleftrightarrow> coupon_usages e = coupon_usages d"
| "same_table T_loyalty_accounts d e \<longleftrightarrow> loyalty_accounts e = loyalty_accounts d"
| "same_table T_loyalty_txs d e \<longleftrightarrow> loyalty_txs e = loyalty_txs d"
| "same_table T_referrals d e \<longleftrightarrow> referrals e = referrals d"
| "same_table T_audit_logs d e \<longleftrightarrow> audit_logs e = audit_logs d"

definition frame :: "table set \<Rightarrow> db \<Rightarrow> db \<Rightarrow> bool" where
  "frame T d e \<longleftrightarrow> (\<forall>t. t \<notin> T \<longrightarrow> same_table t d e)"

lemma all_tables: "(\<forall>t. P t) \<longleftrightarrow> P T_users \<and> P T_otp_codes \<and> P T_refresh_tokens \<and> P T_businesses
     \<and> P T_documents \<and> P T_branches \<and> P T_staff_members
     \<and> P T_working_hours \<and> P T_holidays \<and> P T_services
     \<and> P T_service_staffs \<and> P T_bookings \<and> P T_payments \<and> P T_wallets
     \<and> P T_wallet_txs \<and> P T_settlements \<and> P T_coupons
     \<and> P T_coupon_usages \<and> P T_loyalty_accounts \<and> P T_loyalty_txs
     \<and> P T_referrals \<and> P T_audit_logs"
proof
  assume r: "P T_users \<and> P T_otp_codes \<and> P T_refresh_tokens \<and> P T_businesses
     \<and> P T_documents \<and> P T_branches \<and> P T_staff_members
     \<and> P T_working_hours \<and> P T_holidays \<and> P T_services
     \<and> P T_service_staffs \<and> P T_bookings \<and> P T_payments \<and> P T_wallets
     \<and> P T_wallet_txs \<and> P T_settlements \<and> P T_coupons
     \<and> P T_coupon_usages \<and> P T_loyalty_accounts \<and> P T_loyalty_txs
     \<and> P T_referrals \<and> P T_audit_logs"
  show "\<forall>t. P t"
  proof
    show "P t" for t using r by (cases t) simp_all
  qed
qed simp

lemmas frame_iff = frame_def all_tables

lemma same_table_refl: "same_table t d d"
  by (cases t) simp_all

lemma same_table_trans: "same_table t d e \<Longrightarrow> same_table t e f \<Longrightarrow> same_table t d f"
  by (cases t) simp_all

lemma frame_refl [simp]: "frame T d d"
  unfolding frame_def by (metis same_table_refl)

lemma frame_trans: "frame S d e \<Longrightarrow> frame T e f \<Longrightarrow> S \<union> T \<subseteq> U \<Longrightarrow> frame U d f"
  unfolding frame_def by (metis UnCI same_table_trans subsetD)

lemma frame_mono: "frame S d e \<Longrightarrow> S \<subseteq> T \<Longrightarrow> frame T d e"
  using frame_trans [of S d e "{}" e T] by simp

lemma frameD:
  assumes "frame T d e"
  shows "T_bookings \<notin> T \<Longrightarrow> bookings e = bookings d" "T_businesses \<notin> T \<Longrightarrow> businesses e = businesses d"
    "T_audit_logs \<notin> T \<Longrightarrow> audit_logs e = audit_logs d" "T_payments \<notin> T \<Longrightarrow> payments e = payments d"
    "T_referrals \<notin> T \<Longrightarrow> referrals e = referrals d"
  using assms unfolding frame_def by (metis same_table.simps)+

section \<open>Accounts\<close>

lemma frame_verifyOtp: "verifyOtp env now p q c d = (r, e) \<Longrightarrow> frame {T_otp_codes} d e"
  by (erule verifyOtp_state) (simp add: frame_iff)

lemma frame_requestOtp: "requestOtp env n rnd now p q u (d, out) = (r, (e, out')) \<Longrightarrow> frame {T_otp_codes} d e"
  by (erule requestOtp_cases) (auto simp: frame_iff)

lemma frame_issue: "issueTokenPair env now n raw u role ctx d = (r, e) \<Longrightarrow> frame {T_refresh_tokens} d e"
  by (auto simp: issueTokenPair_def Let_def frame_iff split: if_splits)

lemma frame_revoke [simp]: "frame {T_refresh_tokens} d (revoke_where sel now d)"
  by (simp add: revoke_where_def frame_iff)

lemma frame_update_user [simp]: "frame {T_users} d (snd (update_user u f d))"
  by (simp add: update_user_def frame_iff split: option.split)

lemma frame_refresh:
  assumes "refreshTokens env now n new old ctx d = (r, e)"
  shows "frame {T_refresh_tokens} d e"
  using assms
proof (cases rule: refresh_cases)
  case (rotated t u)
  from frame_trans [OF frame_revoke frame_issue [OF rotated(6)]] show ?thesis by simp
qed auto

lemma frame_register:
  assumes "verifyRegisterAndCreateUser env ids salt now dto ctx d = (r, e)"
  shows "frame {T_otp_codes, T_users, T_wallets, T_loyalty_accounts, T_referrals, T_refresh_tokens} d e"
  using assms
proof (cases rule: register_cases)
  case (created t)
  have "frame {T_otp_codes, T_users, T_wallets, T_loyalty_accounts, T_referrals} d
      (registered_db env ids salt dto (d\<lparr>otp_codes := t\<rparr>))"
    by (simp add: registered_db_def registerReferral_def frame_iff Let_def split: option.split)
  from frame_trans [OF this frame_issue [OF created(3)]] show ?thesis by auto
qed (simp add: frame_iff)

lemma frame_login: "loginWithPassword env now n raw dto ctx d = (r, e) \<Longrightarrow> frame {T_refresh_tokens} d e"
  by (auto simp: loginWithPassword_def frame_issue split: option.splits if_splits)

lemma frame_verifyLoginOtp:
  assumes "verifyLoginOtp env now n raw p c ctx d = (r, e)"
  shows "frame {T_otp_codes, T_refresh_tokens} d e"
proof -
  obtain v d1 where v: "verifyOtp (otp_env.truncate env) now p LOGIN c d = (v, d1)" by fastforce
  note step = frame_verifyOtp [OF v]
  have "frame {T_otp_codes, T_refresh_tokens} d e" if "issueTokenPair env now n raw u role ctx d1 = (r, e)" for u role
    using frame_trans [OF step frame_issue [OF that]] by simp
  moreover have "frame {T_otp_codes, T_refresh_tokens} d d1" using frame_mono [OF step] by simp
  ultimately show ?thesis
    using assms by (auto simp: verifyLoginOtp_def v split: option.splits if_splits sum.splits bool.splits)
qed

lemma frame_resetPassword:
  assumes "resetPassword env salt now dto d = (r, e)"
  shows "frame {T_otp_codes, T_users, T_refresh_tokens} d e"
proof -
  obtain v d1 where v: "verifyOtp (otp_env.truncate env) now (rp_phone dto) RESET_PASSWORD (rp_code dto) d = (v, d1)"
    by fastforce
  then obtain t where "d1 = d\<lparr>otp_codes := t\<rparr>" by (rule verifyOtp_state)
  then show ?thesis
    using assms
    by (auto simp: resetPassword_def v Let_def frame_iff revoke_where_def split: option.splits sum.splits bool.splits)
qed

lemma frame_users:
  "frame {T_users} d (snd (updateProfile u dto d))"
  "frame {T_refresh_tokens} d (snd (revokeSession now u k d))"
  "frame {T_refresh_tokens} d (logout env now raw d)"
  by (simp_all add: updateProfile_def revokeSession_def logout_def split: option.split)

lemma frame_deletion: "frame {T_users, T_refresh_tokens} d (snd (requestAccountDeletion now u d))"
  by (auto simp: requestAccountDeletion_def update_user_def revoke_where_def frame_iff split: option.splits prod.splits sum.splits)

section \<open>Reservations\<close>

lemma frame_award: "frame {T_loyalty_accounts, T_loyalty_txs, T_referrals} d (awardPostPurchaseRewards ids t u a d)"
proof -
  let ?e = "awardPostPurchaseRewards ids t u a d"
  have "no_rewards ?e = no_rewards d" by (rule award_writes)
  then show ?thesis by (cases d, cases ?e) (simp add: no_rewards_def frame_iff)
qed

lemma frame_update_booking [simp]: "frame {T_bookings} d (update_booking k f d)"
  by (simp add: update_booking_def frame_iff)

abbreviation reward_tables :: "table set" where
  "reward_tables \<equiv> {T_loyalty_accounts, T_loyalty_txs, T_referrals}"

lemma frame_confirm: "frame (insert T_bookings reward_tables) d (snd (confirm ids now k u d))"
proof -
  have "frame (insert T_bookings reward_tables) d (awardPostPurchaseRewards ids now u a (update_booking k f d))" for a f
    by (rule frame_trans [OF frame_update_booking frame_award]) auto
  moreover have "frame (insert T_bookings reward_tables) d (update_booking k f d)" for f
    by (rule frame_mono [OF frame_update_booking]) auto
  ultimately show ?thesis by (simp add: confirm_def Let_def split: sum.split)
qed

lemma frame_confirm_each: "frame (insert T_bookings reward_tables) d (snd (confirm_each ids clock u bs d))"
proof (induction bs arbitrary: ids clock d)
  case (Cons b bs)
  obtain r e where c: "confirm (ids 0) (clock 0) (bk_id b) u d = (r, e)" by fastforce
  have e: "frame (insert T_bookings reward_tables) d e" using frame_confirm [of d "ids 0" "clock 0" "bk_id b" u] by (simp add: c)
  from frame_trans [OF this Cons.IH] have "frame (insert T_bookings reward_tables) d (snd (confirm_each f t u bs e))" for f t
    by simp
  then have "frame (insert T_bookings reward_tables) d f" if "confirm_each g t u bs e = (x, f)" for g t x f
    using that by (metis snd_conv)
  with e show ?case by (auto simp: c split: prod.splits sum.splits)
qed simp

lemma frame_confirmGroup: "frame (insert T_bookings reward_tables) d (snd (confirmGroup ids now g u d))"
  by (simp add: confirmGroup_def frame_confirm_each Let_def)

lemma frame_bookings:
  "frame {T_bookings} d (snd (cancelByUser now k u r d))"
  "frame {T_bookings} d (snd (cancelByBusiness now z k r d))"
  "frame {T_bookings} d (snd (updateStatus now z k s d))"
  "frame {T_bookings} d (handleExpiredHolds now d)"
  by (simp_all add: cancelByUser_def cancelByBusiness_def cancelInternal_def
      updateStatus_def handleExpiredHolds_def releaseExpiredHolds_def Let_def frame_iff update_booking_def
      split: sum.split option.split)

lemma frame_recurring: "frame {T_bookings} d (snd (createRecurring now ids g u dto d))"
proof -
  obtain r e where c: "createRecurring now ids g u dto d = (r, e)" by fastforce
  then have "e = d \<or> (\<exists>r bs. create_occurrences bs d = (r, e))"
    by (auto simp: createRecurring_def transaction_def split: sum.splits prod.splits error.splits)
  then have "e = d \<or> (\<exists>t. e = d\<lparr>bookings := t\<rparr>)" using create_occurrences_writes by blast
  then have "frame {T_bookings} d e" by (auto simp: frame_iff)
  with c show ?thesis by simp
qed

lemma frame_locked:
  assumes "\<And>x e. body d = (Inr x, e) \<Longrightarrow> frame T d e"
  shows "frame T d (fst (snd (busy_as_conflict (withLock R t l tok k ttl (transaction body) (d, r)))))"
  using withLock_db [of R t l tok k ttl "transaction body" "(d, r)"] assms
    transaction_preserves [of "frame T d" d body]
  by auto

lemma frame_hold: "frame {T_bookings, T_coupons, T_coupon_usages} d (fst (snd (hold R now later tok n u dto (d, r))))"
proof -
  have "frame {T_bookings, T_coupons, T_coupon_usages} d e" if h: "hold_body now n u dto z s d = (Inr b, e)" for z s b e
  proof -
    obtain k x d1 where d1: "redeem_for_hold now u dto s d = (Inr (k, x), d1)"
      and e: "\<exists>y d2. create_booking (hold_row now n u dto z s y) d1 = (Inr b, d2) \<and> e = link_usage k u (bk_id b) d2"
      using h by (auto simp: hold_body_def split: sum.splits prod.splits)
    from redeem_for_hold_writes [OF d1] have "frame {T_coupons, T_coupon_usages} d d1" by (auto simp: frame_iff)
    moreover have "frame {T_bookings, T_coupon_usages} d1 e"
      using e by (auto simp: create_booking_def link_usage_def frame_iff split: option.splits if_splits)
    ultimately show ?thesis by (rule frame_trans) auto
  qed
  then have "frame {T_bookings, T_coupons, T_coupon_usages} d (fst (snd (busy_as_conflict (withLock R now later tok k default_ttlMs
      (transaction (hold_body now n u dto z s)) (d, r)))))" for z s k
    by (rule frame_locked)
  then show ?thesis by (simp add: hold_def del: busy_as_conflict_snd split: sum.split prod.split)
qed

lemma frame_reschedule:
  assumes "reschedule R now later tok k u s (d, r) = Some res"
  shows "frame {T_bookings} d (fst (snd res))"
proof (cases "fst (snd res) = d")
  case False
  then obtain b e key where res: "res = busy_as_conflict
      (withLock R now later tok key default_ttlMs (transaction (reschedule_body b s e)) (d, r))"
    using assms by (auto simp: reschedule_def split: sum.splits option.splits if_splits)
  have "frame {T_bookings} d d'" if "reschedule_body b s e d = (Inr x, d')" for x d'
    using that by (auto simp: reschedule_body_def Let_def split: sum.splits)
  from frame_locked [OF this] show ?thesis by (simp add: res)
qed simp

section \<open>Payments\<close>

abbreviation money_tables :: "table set" where
  "money_tables \<equiv> {T_payments, T_wallets, T_wallet_txs, T_audit_logs}"

lemma frame_update_payment [simp]: "frame {T_payments} d (update_payment k f d)"
  by (simp add: update_payment_def frame_iff)

lemma frame_post [simp]: "frame {T_wallets, T_wallet_txs} d (post_wallet_tx now w ty m r d)"
  by (simp add: post_wallet_tx_def Let_def frame_iff)

lemma frame_upsert_wallet: "upsert_wallet n u d = (w, e) \<Longrightarrow> frame {T_wallets} d e"
  by (auto simp: upsert_wallet_def Let_def frame_iff split: option.splits)

lemma frame_confirm_and_award: "frame (insert T_bookings reward_tables) d (confirm_and_award ids now u b d)"
  unfolding confirm_and_award_def by (rule frame_trans [OF frame_update_booking frame_award]) auto

abbreviation pay_tables :: "table set" where
  "pay_tables \<equiv> {T_payments, T_wallets, T_wallet_txs, T_bookings} \<union> reward_tables"

lemma frame_payFromWallet:
  assumes "payFromWallet ids now n u k amt d = (r, e)"
  shows "frame pay_tables d e"
  using assms
proof (cases rule: payFromWallet_cases)
  case (paid w b)
  have "frame {T_payments, T_wallets, T_wallet_txs} d
      ((post_wallet_tx now w ty m k d)\<lparr>payments := ps\<rparr>)" for ty m ps
    by (simp add: post_wallet_tx_def Let_def frame_iff)
  from frame_trans [OF this frame_confirm_and_award] show ?thesis by (simp add: paid(5))
qed simp

lemma frame_open_session: "open_session G url gid desc p (d, g) = (res, (e, g')) \<Longrightarrow> frame {T_payments} d e"
  by (auto simp: open_session_def Let_def update_payment_def frame_iff split: prod.splits)

lemma frame_initiate:
  assumes "initiate G url gid ids now n u dto (d, g) = (r, (e, g'))"
  shows "frame pay_tables d e"
  using assms
proof (cases rule: initiate_cases)
  case (wallet b p)
  then show ?thesis using frame_payFromWallet by blast
next
  case (gateway b s)
  from frame_mono [OF frame_open_session [OF gateway(7) [unfolded payFromGateway_def]]] show ?thesis by simp
qed simp

lemma frame_apply_success: "frame pay_tables d (apply_success ids now p d)"
proof -
  let ?d = "update_payment (pay_id p) (\<lambda>p. p\<lparr>pay_status := SUCCESS, pay_callbackVerifiedAt := Some now\<rparr>) d"
  have "frame pay_tables d ?d" by (rule frame_mono [OF frame_update_payment]) simp
  moreover have "frame pay_tables d (post_wallet_tx now w ty m r ?d)" for w ty m r
    by (rule frame_trans [OF frame_update_payment frame_post]) auto
  moreover have "frame pay_tables d (confirm_and_award ids now u b ?d)" for u b
    by (rule frame_trans [OF frame_update_payment frame_confirm_and_award]) auto
  ultimately show ?thesis by (simp add: apply_success_def Let_def split: option.split)
qed

lemma frame_callback:
  assumes "handleCallback G gid ids now gw ref (d, g) = (r, (e, g'))"
  shows "frame pay_tables d e"
proof -
  have "frame pay_tables d (update_payment k f d)" for k f
    by (rule frame_mono [OF frame_update_payment]) simp
  moreover have "frame pay_tables d (apply_success ids now p d)" for p by (rule frame_apply_success)
  ultimately show ?thesis
    using assms
    by (auto simp: handleCallback_def split: option.splits if_splits prod.splits)
qed

lemma frame_refund: "frame money_tables d (snd (refund now n k admin reason d))"
proof -
  have "frame money_tables d ((post_wallet_tx now w ty m q d2)\<lparr>audit_logs := al\<rparr>)"
    if "upsert_wallet n u (update_payment k f d) = (w, d2)" for u f d2 w ty m q al
  proof -
    have "frame {T_payments, T_wallets} d d2"
      using frame_trans [OF frame_update_payment frame_upsert_wallet [OF that]] by simp
    moreover have "frame {T_wallets, T_wallet_txs, T_audit_logs} d2 ((post_wallet_tx now w ty m q d2)\<lparr>audit_logs := al\<rparr>)"
      by (simp add: post_wallet_tx_def Let_def frame_iff)
    ultimately show ?thesis by (rule frame_trans) auto
  qed
  then show ?thesis by (auto simp: refund_def Let_def split: option.split prod.split)
qed

lemma frame_topup: "topup G url gid now n u amt (d, g) = (r, (e, g')) \<Longrightarrow> frame {T_payments} d e"
  by (simp add: topup_def frame_open_session)

lemma frame_upserts:
  "frame {T_wallets} d (snd (wallet_getMine n u d))"
  "frame {T_loyalty_accounts} d (snd (loyalty_getMine n u d))"
  by (simp_all add: wallet_getMine_def loyalty_getMine_def upsert_wallet_def upsert_account_def Let_def frame_iff
      split: option.split)

section \<open>Businesses, catalogue, staff, coupons, settlements\<close>

lemma frame_business:
  "frame {T_businesses, T_staff_members} d (snd (business_create now n m u dto d))"
  "frame {T_businesses} d (snd (business_update z ub d))"
  "frame {T_businesses} d (snd (updateCancellationPolicy z pol d))"
  "frame {T_documents} d (snd (addDocument n z ty url d))"
  "frame {T_branches} d (snd (branch_create n z cb d))"
  "frame {T_branches} d (snd (branch_update z k rb d))"
  by (simp_all add: business_create_def transaction_def business_update_def updateCancellationPolicy_def update_business_def
      addDocument_def branch_create_def branch_update_def Let_def frame_iff split: sum.split)

lemma frame_catalogue:
  "frame {T_services} d (snd (service_create n z cs d))"
  "frame {T_services} d (snd (service_update z k us d))"
  "frame {T_service_staffs} d (snd (assignStaff z k m d))"
  "frame {T_service_staffs} d (snd (unassignStaff z k m d))"
  by (simp_all add: service_create_def service_update_def assignStaff_def unassignStaff_def Let_def frame_iff
      split: sum.split option.split)

lemma frame_staff:
  "frame {T_staff_members} d (snd (invite n z dto d))"
  "frame {T_staff_members} d (snd (deactivate z m d))"
  "frame {T_working_hours} d (snd (setWorkingHours z hours d))"
  "frame {T_holidays} d (snd (addHoliday z hol d))"
  by (simp_all add: invite_def deactivate_def setWorkingHours_def addHoliday_def Let_def frame_iff
      split: sum.split option.split prod.split)

lemma frame_coupons:
  "frame {T_coupons} d (snd (coupon_create n dto z d))"
  "frame {T_coupons} d (snd (coupon_update k uc d))"
  "snd (coupon_validate now code u z' amt d) = d"
  by (simp_all add: coupon_create_def coupon_update_def coupon_validate_def Let_def frame_iff split: option.split)

lemma frame_review: "frame {T_businesses, T_audit_logs} d (snd (review z admin st reason act m d))"
  by (simp add: review_def update_business_def audit_log_create_def frame_iff split: sum.split prod.split)

lemma frame_settlement: "frame {T_settlements} d (snd (run_each bs s e d))"
proof (induction bs arbitrary: d)
  case (Cons b bs)
  obtain r f where c: "runForBusiness b s e d = (r, f)" by fastforce
  then have f: "frame {T_settlements} d f"
    by (auto simp: runForBusiness_def Let_def frame_iff split: option.splits)
  have "frame {T_settlements} d g" if "run_each bs s e f = (x, g)" for x g
    using frame_trans [OF f Cons.IH [of f]] that by simp
  with f show ?case by (auto simp: c split: prod.splits sum.splits)
qed simp

lemma frame_runBatch: "frame {T_settlements} d (snd (runBatch dto d))"
  by (auto simp: runBatch_def frame_settlement simp del: run_each.simps)

section \<open>Routes\<close>

text \<open>The tables that the handler of a route may write.\<close>

fun writes :: "endpoint \<Rightarrow> table set" where
  "writes (AuthRoute (Auth_requestRegisterOtp _)) = {T_otp_codes}"
| "writes (AuthRoute (Auth_verifyRegister _)) =
     {T_otp_codes, T_users, T_wallets, T_loyalty_accounts, T_referrals, T_refresh_tokens}"
| "writes (AuthRoute (Auth_login _)) = {T_refresh_tokens}"
| "writes (AuthRoute (Auth_requestLoginOtp _)) = {T_otp_codes}"
| "writes (AuthRoute (Auth_verifyLoginOtp _ _)) = {T_otp_codes, T_refresh_tokens}"
| "writes (AuthRoute (Auth_refresh _ _)) = {T_refresh_tokens}"
| "writes (AuthRoute (Auth_logout _ _)) = {T_refresh_tokens}"
| "writes (AuthRoute (Auth_forgotPassword _)) = {T_otp_codes}"
| "writes (AuthRoute (Auth_resetPassword _)) = {T_otp_codes, T_users, T_refresh_tokens}"
| "writes (UsersRoute (Users_updateProfile _)) = {T_users}"
| "writes (UsersRoute (Users_revokeSession _)) = {T_refresh_tokens}"
| "writes (UsersRoute Users_deleteAccount) = {T_users, T_refresh_tokens}"
| "writes (BookingRoute (Booking_hold _)) = {T_bookings, T_coupons, T_coupon_usages}"
| "writes (BookingRoute (Booking_confirm _)) = insert T_bookings reward_tables"
| "writes (BookingRoute (Booking_confirmGroup _)) = insert T_bookings reward_tables"
| "writes (BookingRoute Booking_listMine) = {}"
| "writes (BookingRoute _) = {T_bookings}"
| "writes (BusinessBookingRoute (BusinessBooking_list _ _)) = {}"
| "writes (BusinessBookingRoute _) = {T_bookings}"
| "writes (BusinessRoute (Business_create _)) = {T_businesses, T_staff_members}"
| "writes (BusinessRoute (Business_update _ _)) = {T_businesses}"
| "writes (BusinessRoute (Business_updateCancellationPolicy _ _)) = {T_businesses}"
| "writes (BusinessRoute (Business_addDocument _ _ _)) = {T_documents}"
| "writes (BranchRoute (Branch_findAll _)) = {}"
| "writes (BranchRoute _) = {T_branches}"
| "writes (ServiceRoute (Service_create _ _)) = {T_services}"
| "writes (ServiceRoute (Service_update _ _ _)) = {T_services}"
| "writes (ServiceRoute (Service_assignStaff _ _ _)) = {T_service_staffs}"
| "writes (ServiceRoute (Service_unassignStaff _ _ _)) = {T_service_staffs}"
| "writes (StaffRoute (Staff_findAll _)) = {}"
| "writes (StaffRoute _) = {T_staff_members}"
| "writes (WorkingHoursRoute (WorkingHours_set _ _)) = {T_working_hours}"
| "writes (WorkingHoursRoute (WorkingHours_addHoliday _ _)) = {T_holidays}"
| "writes (PaymentRoute (Payment_refund _ _)) = money_tables"
| "writes (PaymentRoute _) = pay_tables"
| "writes (WalletRoute Wallet_getMine) = {T_wallets}"
| "writes (WalletRoute (Wallet_topup _)) = {T_payments}"
| "writes (AdminSettlementRoute _) = {T_settlements}"
| "writes (BusinessCouponRoute (BusinessCoupon_list _)) = {}"
| "writes (BusinessCouponRoute _) = {T_coupons}"
| "writes (AdminCouponRoute AdminCoupon_list) = {}"
| "writes (AdminCouponRoute _) = {T_coupons}"
| "writes (LoyaltyRoute _) = {T_loyalty_accounts}"
| "writes (AdminBusinessRoute AdminBusiness_listPending) = {}"
| "writes (AdminBusinessRoute _) = {T_businesses, T_audit_logs}"
| "writes _ = {}"

text \<open>Of the other services a request talks to, each route may use only its own.\<close>

fun locks :: "endpoint \<Rightarrow> bool" where
  "locks (BookingRoute (Booking_hold _)) = True"
| "locks (BookingRoute (Booking_reschedule _ _)) = True"
| "locks _ = False"

fun calls_gateway :: "endpoint \<Rightarrow> bool" where
  "calls_gateway (PaymentRoute (Payment_initiate _)) = True"
| "calls_gateway (PaymentRoute (Payment_callback _ _)) = True"
| "calls_gateway (WalletRoute (Wallet_topup _)) = True"
| "calls_gateway _ = False"

fun sends_sms :: "endpoint \<Rightarrow> bool" where
  "sends_sms (AuthRoute (Auth_requestRegisterOtp _)) = True"
| "sends_sms (AuthRoute (Auth_requestLoginOtp _)) = True"
| "sends_sms (AuthRoute (Auth_forgotPassword _)) = True"
| "sends_sms _ = False"

definition confined :: "endpoint \<Rightarrow> ('r, 'g) world \<Rightarrow> ('r, 'g) world \<Rightarrow> bool" where
  "confined ep w w' \<longleftrightarrow> frame (writes ep) (w_db w) (w_db w')
     \<and> (\<not> locks ep \<longrightarrow> w_redis w' = w_redis w) \<and> (\<not> calls_gateway ep \<longrightarrow> w_gateway w' = w_gateway w)
     \<and> (\<not> sends_sms ep \<longrightarrow> w_outbox w' = w_outbox w)"

lemma answer_simps:
  "on_read r w = Some (res, w') \<longleftrightarrow> res = status_of r \<and> w' = w"
  "on_db f w = Some (res, w') \<longleftrightarrow> res = status_of (fst (f (w_db w))) \<and> w' = w\<lparr>w_db := snd (f (w_db w))\<rparr>"
  "on_lock h w = Some (res, w') \<longleftrightarrow> res = status_of (fst (h (w_db w, w_redis w)))
     \<and> w' = w\<lparr>w_db := fst (snd (h (w_db w, w_redis w))), w_redis := snd (snd (h (w_db w, w_redis w)))\<rparr>"
  by (auto simp: on_read_def on_db_def on_lock_def split: prod.split)

lemma confined_refl [simp]: "confined ep w w"
  by (simp add: confined_def)

lemma confined_db: "on_db f w = Some (res, w') \<Longrightarrow> frame (writes ep) (w_db w) (snd (f (w_db w))) \<Longrightarrow> confined ep w w'"
  by (simp add: confined_def answer_simps)

lemma confined_read: "on_read r w = Some (res, w') \<Longrightarrow> confined ep w w'"
  by (simp add: confined_def answer_simps)

lemma confined_sms:
  assumes "on_sms f w = Some (res, w')" "sends_sms ep"
    "\<And>r e out. f (w_db w, w_outbox w) = (r, (e, out)) \<Longrightarrow> frame (writes ep) (w_db w) e"
  shows "confined ep w w'"
  using assms by (auto simp: confined_def on_sms_def split: prod.splits)

lemma confined_gateway:
  assumes "on_gateway f w = Some (res, w')" "calls_gateway ep"
    "\<And>r e g. f (w_db w, w_gateway w) = (r, (e, g)) \<Longrightarrow> frame (writes ep) (w_db w) e"
  shows "confined ep w w'"
  using assms by (auto simp: confined_def on_gateway_def split: prod.splits)

lemma confined_lock:
  assumes "on_lock f w = Some (res, w')" "locks ep" "frame (writes ep) (w_db w) (fst (snd (f (w_db w, w_redis w))))"
  shows "confined ep w w'"
  using assms by (simp add: confined_def answer_simps)

lemma confined_lock_option:
  assumes "on_lock_option f w = Some (res, w')" "locks ep"
    "\<And>x. f (w_db w, w_redis w) = Some x \<Longrightarrow> frame (writes ep) (w_db w) (fst (snd x))"
  shows "confined ep w w'"
  using assms by (auto simp: confined_def on_lock_option_def answer_simps split: option.splits)

lemmas confined_elims = confined_db confined_read confined_sms confined_gateway confined_lock confined_lock_option

lemma frame_otp_requests:
  "requestRegisterOtp env n rnd now p (d, out) = (r, (e, out')) \<Longrightarrow> frame {T_otp_codes} d e"
  "requestLoginOtp env n rnd now p (d, out) = (r, (e, out')) \<Longrightarrow> frame {T_otp_codes} d e"
  "forgotPassword env n rnd now p (d, out) = (r, (e, out')) \<Longrightarrow> frame {T_otp_codes} d e"
  by (auto simp: requestRegisterOtp_def requestLoginOtp_def forgotPassword_def dest: frame_requestOtp
      split: option.splits if_splits)

lemma frame_snd: "(\<And>r e. f d = (r, e) \<Longrightarrow> frame T d e) \<Longrightarrow> frame T d (snd (f d))"
  by (metis surjective_pairing)

lemma auth_confined:
  assumes "AuthController_handle E dr u r w = Some (res, w')"
  shows "confined (AuthRoute r) w w'"
  using assms
  by (cases r)
    (auto elim!: confined_elims intro!: frame_snd frame_users split: if_splits
      dest: frame_otp_requests frame_register frame_login frame_verifyLoginOtp frame_refresh frame_resetPassword)

lemma users_confined:
  assumes "UsersController_handle E dr u r w = Some (res, w')"
  shows "confined (UsersRoute r) w w'"
  using assms by (cases r) (auto elim!: confined_elims simp: frame_users frame_deletion)

lemma booking_confined:
  assumes "BookingController_handle E dr u r w = Some (res, w')"
  shows "confined (BookingRoute r) w w'"
  using assms
  by (cases r) (auto elim!: confined_elims
      simp: frame_hold frame_recurring frame_confirm frame_confirmGroup frame_bookings dest: frame_reschedule)

lemma payment_confined:
  assumes "PaymentController_handle E dr u r w = Some (res, w')"
  shows "confined (PaymentRoute r) w w'"
  using assms
  by (cases r) (auto elim!: confined_elims simp: frame_refund dest!: frame_initiate frame_callback)

lemma wallet_confined:
  assumes "WalletController_handle E dr u r w = Some (res, w')"
  shows "confined (WalletRoute r) w w'"
  using assms by (cases r) (auto elim!: confined_elims simp: ok_snd frame_upserts ok_eq dest: frame_topup)

lemma availability_confined: "AvailabilityController_handle E dr u r w = Some (res, w') \<Longrightarrow> confined (AvailabilityRoute r) w w'"
  by (cases r) (auto elim!: confined_elims split: option.splits)

lemma discovery_confined: "DiscoveryController_handle E dr u r w = Some (res, w') \<Longrightarrow> confined (DiscoveryRoute r) w w'"
  by (cases r) (auto elim!: confined_elims)

lemma business_settlement_confined: "BusinessSettlementController_handle E dr u r w = Some (res, w') \<Longrightarrow> confined (BusinessSettlementRoute r) w w'"
  by (cases r) (auto elim!: confined_elims)

lemma referral_confined: "ReferralController_handle E dr u r w = Some (res, w') \<Longrightarrow> confined (ReferralRoute r) w w'"
  by (cases r) (auto elim!: confined_elims)

lemma coupon_confined: "CouponController_handle E dr u r w = Some (res, w') \<Longrightarrow> confined (CouponRoute r) w w'"
  by (cases r) (auto elim!: confined_elims simp: frame_coupons)

lemma business_booking_confined: "BusinessBookingController_handle E dr u r w = Some (res, w') \<Longrightarrow> confined (BusinessBookingRoute r) w w'"
  by (cases r) (auto elim!: confined_elims simp: frame_bookings)

lemma business_confined: "BusinessController_handle E dr u r w = Some (res, w') \<Longrightarrow> confined (BusinessRoute r) w w'"
  by (cases r) (auto elim!: confined_elims simp: frame_business)

lemma branch_confined: "BranchController_handle E dr u r w = Some (res, w') \<Longrightarrow> confined (BranchRoute r) w w'"
  by (cases r) (auto elim!: confined_elims simp: frame_business)

lemma service_confined: "ServiceCatalogController_handle E dr u r w = Some (res, w') \<Longrightarrow> confined (ServiceRoute r) w w'"
  by (cases r) (auto elim!: confined_elims simp: frame_catalogue)

lemma staff_confined: "StaffController_handle E dr u r w = Some (res, w') \<Longrightarrow> confined (StaffRoute r) w w'"
  by (cases r) (auto elim!: confined_elims simp: frame_staff)

lemma working_hours_confined: "WorkingHoursController_handle E dr u r w = Some (res, w') \<Longrightarrow> confined (WorkingHoursRoute r) w w'"
  by (cases r) (auto elim!: confined_elims simp: frame_staff)

lemma admin_settlement_confined: "AdminSettlementController_handle E dr u r w = Some (res, w') \<Longrightarrow> confined (AdminSettlementRoute r) w w'"
  by (cases r) (auto elim!: confined_elims simp: frame_runBatch)

lemma business_coupon_confined: "BusinessCouponController_handle E dr u r w = Some (res, w') \<Longrightarrow> confined (BusinessCouponRoute r) w w'"
  by (cases r) (auto elim!: confined_elims simp: createForBusiness_def frame_coupons)

lemma admin_coupon_confined: "AdminCouponController_handle E dr u r w = Some (res, w') \<Longrightarrow> confined (AdminCouponRoute r) w w'"
  by (cases r) (auto elim!: confined_elims simp: createGlobal_def frame_coupons)

lemma loyalty_confined: "LoyaltyController_handle E dr u r w = Some (res, w') \<Longrightarrow> confined (LoyaltyRoute r) w w'"
  by (cases r) (auto elim!: confined_elims simp: ok_snd frame_upserts)

lemma admin_business_confined: "AdminBusinessController_handle E dr u r w = Some (res, w') \<Longrightarrow> confined (AdminBusinessRoute r) w w'"
  by (cases r) (auto elim!: confined_elims simp: approve_def reject_def suspend_def frame_review)

lemma handle_confined:
  assumes "handle E dr u ep w = Some (res, w')"
  shows "confined ep w w'"
  using assms
  by (cases ep)
    (auto intro: auth_confined users_confined booking_confined payment_confined wallet_confined
      availability_confined discovery_confined business_settlement_confined referral_confined
      coupon_confined business_booking_confined business_confined branch_confined
      service_confined staff_confined working_hours_confined admin_settlement_confined
      business_coupon_confined admin_coupon_confined loyalty_confined admin_business_confined)

end
