(* ===== verification/AdminProps.thy ===== *)
theory AdminProps
  imports SystemProps Footprint "HOL-Library.Multiset"
begin

text \<open>
  Running a business: what suspending it changes, the public search, opening hours,
  settlements and the redemption of coupons.
\<close>

section \<open>Review\<close>

lemma suspended_context:
  assumes "\<And>b. b \<in> set (businesses d) \<Longrightarrow> biz_id b = z \<Longrightarrow> biz_status b \<noteq> APPROVED"
  shows "loadAndValidateContext d z br sv st = Inl (NotFound BusinessNotApproved)"
  using assms by (auto simp: loadAndValidateContext_def find_None_iff split: option.split dest: find_SomeD)

text \<open>
  C35. A suspension takes effect at once and everywhere: afterwards nobody can hold a slot of the
  business or book it repeatedly, its public page is not found and no search lists it. Nothing
  else happens: the business is SUSPENDED with the reason and otherwise as it was, every
  other business and all twenty other tables (reservations, payments, services, branches,
  staff and so on) are untouched, and the audit log gains exactly one entry, with the
  administrator and the reason.
\<close>

theorem suspension_takes_effect:
  assumes "suspend z admin reason d = (Inr b, d')"
  shows "hold R now later tok n u (dto\<lparr>hb_businessId := z\<rparr>) (d', r) = (Inl (NotFound BusinessNotApproved), (d', r))
    \<and> createRecurring now ids g u (rec\<lparr>rb_businessId := z\<rparr>) d' = (Inl (NotFound BusinessNotApproved), d')
    \<and> findOnePublic z d' = Inl (NotFound BusinessNotFound)
    \<and> (\<forall>x \<in> set (sr_items (business_search contains search d')). biz_id x \<noteq> z)
    \<and> (\<exists>x \<in> set (businesses d). biz_id x = z \<and> b = x\<lparr>biz_status := SUSPENDED, biz_rejectReason := Some reason\<rparr>)
    \<and> businesses d' = map (\<lambda>x. if biz_id x = z then x\<lparr>biz_status := SUSPENDED, biz_rejectReason := Some reason\<rparr> else x)
        (businesses d)
    \<and> (\<forall>t. t \<in> {T_businesses, T_audit_logs} \<or> same_table t d d')
    \<and> audit_logs d' = insert_row \<lparr>al_actorId = Some admin, al_action = ''BUSINESS_SUSPENDED'', al_entityType = ''Business'',
        al_entityId = z, al_metadata = [(''reason'', JStr reason)]\<rparr> (audit_logs d)"
proof -
  let ?f = "\<lambda>b. b\<lparr>biz_status := SUSPENDED, biz_rejectReason := Some reason\<rparr>"
  let ?log = "\<lparr>al_actorId = Some admin, al_action = ''BUSINESS_SUSPENDED'', al_entityType = ''Business'',
        al_entityId = z, al_metadata = [(''reason'', JStr reason)]\<rparr>"
  have d': "d' = d\<lparr>businesses := update_rows (\<lambda>b. biz_id b = z) ?f (businesses d), audit_logs := insert_row ?log (audit_logs d)\<rparr>"
    using assms
    by (auto simp: suspend_def review_def update_business_def assertExists_def audit_log_create_def split: option.splits)
  have no: "biz_status x \<noteq> APPROVED" if "x \<in> set (businesses d')" "biz_id x = z" for x
  proof -
    have "x \<in> set (update_rows (\<lambda>b. biz_id b = z) ?f (businesses d))" using that(1) by (simp add: d')
    then show ?thesis
      by (rule in_update_rowsE) (use that(2) in \<open>auto split: if_splits\<close>)
  qed
  note refused = suspended_context [of d' z, OF no]
  have "hold R now later tok n u (dto\<lparr>hb_businessId := z\<rparr>) (d', r) = (Inl (NotFound BusinessNotApproved), (d', r))"
    by (simp add: hold_def refused)
  moreover have "createRecurring now ids g u (rec\<lparr>rb_businessId := z\<rparr>) d' = (Inl (NotFound BusinessNotApproved), d')"
    by (simp add: createRecurring_def refused)
  moreover have "findOnePublic z d' = Inl (NotFound BusinessNotFound)"
    using no by (auto simp: findOnePublic_def find_business_def split: option.split dest: find_SomeD)
  moreover have "\<forall>x \<in> set (sr_items (business_search contains search d')). biz_id x \<noteq> z"
  proof
    fix x assume that: "x \<in> set (sr_items (business_search contains search d'))"
    have "x \<in> set (filter (search_matches contains search d') (businesses d'))"
      using that by (auto simp: business_search_def Let_def dest!: in_set_takeD in_set_dropD)
    with no show "biz_id x \<noteq> z" by (auto simp: search_matches_def)
  qed
  moreover have "\<exists>x \<in> set (businesses d). biz_id x = z \<and> b = x\<lparr>biz_status := SUSPENDED, biz_rejectReason := Some reason\<rparr>"
    using assms
    by (auto simp: suspend_def review_def update_business_def assertExists_def find_business_def split: option.splits dest!: find_SomeD)
  moreover have "businesses d' = map (\<lambda>x. if biz_id x = z then ?f x else x) (businesses d)" "audit_logs d' = insert_row ?log (audit_logs d)"
    by (simp_all add: d' update_rows_def)
  moreover have "\<forall>t. t \<in> {T_businesses, T_audit_logs} \<or> same_table t d d'" by (simp add: d' all_tables)
  ultimately show ?thesis by (intro conjI) assumption+
qed

theorem suspension_takes_effect_witness:
  "findOnePublic ''biz'' (snd (suspend ''biz'' ''root'' ''fraud'' (city []))) = Inl (NotFound BusinessNotFound)"
proof -
  obtain b d' where s: "suspend ''biz'' ''root'' ''fraud'' (city []) = (Inr b, d')"
    by (simp add: suspend_def review_def update_business_def assertExists_def find_business_def city_def demo_db_def
        demo_business_def)
  have "findOnePublic ''biz'' d' = Inl (NotFound BusinessNotFound)"
    using suspension_takes_effect [OF s, THEN conjunct2, THEN conjunct2, THEN conjunct1] by simp
  then show ?thesis by (simp add: s)
qed

section \<open>Search\<close>

lemma pages_append:
  "concat (map (\<lambda>p. take n (drop ((p - 1) * n) xs)) [1..<Suc k]) = take (k * n) xs"
proof (induction k)
  case (Suc k)
  have "concat (map (\<lambda>p. take n (drop ((p - 1) * n) xs)) [1..<Suc (Suc k)])
      = take (k * n) xs @ take n (drop (k * n) xs)"
    using Suc.IH by simp
  also have "\<dots> = take (k * n + n) xs" by (simp only: take_add)
  finally show ?case by (simp add: add.commute)
qed simp

text \<open>
  The public search: the pages of one query, put together, are the approved businesses that
  match it, newest first, each once, none missing; every page reports their number; and
  there are no businesses beyond the last page.
\<close>

theorem search_pages:
  shows "concat (map (\<lambda>p. sr_items (business_search contains (dto\<lparr>sb_page := Some p, sb_pageSize := Some n\<rparr>) d)) [1..<Suc k])
      = take (k * n) (rev (sort_key biz_createdAt (filter (search_matches contains dto d) (businesses d))))
    \<and> sr_total (business_search contains dto d) = length (filter (search_matches contains dto d) (businesses d))
    \<and> (length (filter (search_matches contains dto d) (businesses d)) \<le> k * n \<longrightarrow>
        mset (concat (map (\<lambda>p. sr_items (business_search contains (dto\<lparr>sb_page := Some p, sb_pageSize := Some n\<rparr>) d)) [1..<Suc k]))
        = mset (filter (search_matches contains dto d) (businesses d)))
    \<and> sorted (rev (map biz_createdAt (rev (sort_key biz_createdAt (filter (search_matches contains dto d) (businesses d))))))"
proof -
  have "search_matches contains (dto\<lparr>sb_page := Some p, sb_pageSize := Some n\<rparr>) d = search_matches contains dto d" for p
    by (simp add: search_matches_def fun_eq_iff)
  then have pages: "concat (map (\<lambda>p. sr_items (business_search contains (dto\<lparr>sb_page := Some p, sb_pageSize := Some n\<rparr>) d)) [1..<Suc k])
      = take (k * n) (rev (sort_key biz_createdAt (filter (search_matches contains dto d) (businesses d))))"
    unfolding pages_append [symmetric] by (simp add: business_search_def Let_def)
  then show ?thesis by (simp add: business_search_def Let_def rev_map del: upt_Suc)
qed

theorem search_pages_witness:
  "mset (sr_items (business_search (\<lambda>x y. x = y) \<lparr>sb_query = None, sb_category = None, sb_city = None,
      sb_page = Some 1, sb_pageSize = Some 5\<rparr> (city []))) = {#demo_business#}"
proof -
  let ?dto = "\<lparr>sb_query = None, sb_category = None, sb_city = None, sb_page = None, sb_pageSize = None\<rparr>"
  have "filter (search_matches (\<lambda>x y. x = y) ?dto (city [])) (businesses (city [])) = [demo_business]"
    by (simp add: search_matches_def city_def demo_db_def demo_business_def)
  with search_pages [where contains = "\<lambda>x y. x = y" and dto = ?dto and n = 5 and d = "city []" and k = 1] show ?thesis by simp
qed

section \<open>Opening hours\<close>

definition clock_minutes :: "string \<Rightarrow> int" where
  "clock_minutes s = (case clock_fields s of Some (h, m) \<Rightarrow> 60 * h + m | None \<Rightarrow> - 1)"

definition digit_of :: "char \<Rightarrow> int" where
  "digit_of c = int (of_char c) - 48"

lemma char_order:
  "c < c' \<longleftrightarrow> digit_of c < digit_of c'" "c \<le> c' \<longleftrightarrow> digit_of c \<le> digit_of c'"
  by (simp_all add: digit_of_def less_char_def less_eq_char_def)

lemma digit_of_eq: "digit_of c = digit_of c' \<longleftrightarrow> c = c'"
  by (simp add: digit_of_def)

lemma digit_constants:
  "digit_of CHR ''0'' = 0" "digit_of CHR ''1'' = 1" "digit_of CHR ''2'' = 2" "digit_of CHR ''3'' = 3"
  "digit_of CHR ''5'' = 5" "digit_of CHR ''9'' = 9" "digit_of CHR '':'' = 10"
  by (simp_all add: digit_of_def)

lemma digit_val_of: "digit_val c = (if 0 \<le> digit_of c \<and> digit_of c \<le> 9 then Some (digit_of c) else None)"
  by (auto simp: digit_val_def digit_of_def Let_def)

text \<open>A time that passes the pattern, as its four digits.\<close>

lemma valid_clock_cases:
  assumes "valid_clock s"
  obtains a b d e where "s = [a, b, CHR '':'', d, e]"
    "0 \<le> digit_of a" "0 \<le> digit_of b" "digit_of b \<le> 9" "10 * digit_of a + digit_of b \<le> 23"
    "0 \<le> digit_of d" "digit_of d \<le> 5" "0 \<le> digit_of e" "digit_of e \<le> 9"
proof -
  obtain a b c d e where s: "s = [a, b, c, d, e]" using assms by (cases s rule: valid_clock.cases) auto
  then show thesis
    using assms that by (auto simp: is_digit_def char_order digit_constants)
qed

lemma clock_fields_valid:
  assumes "s = [a, b, CHR '':'', d, e]" "0 \<le> digit_of a" "digit_of a \<le> 9" "0 \<le> digit_of b" "digit_of b \<le> 9"
    "0 \<le> digit_of d" "digit_of d \<le> 9" "0 \<le> digit_of e" "digit_of e \<le> 9"
  shows "clock_fields s = Some (10 * digit_of a + digit_of b, 10 * digit_of d + digit_of e)"
proof -
  have "c \<noteq> CHR '':''" if "digit_of c \<le> 9" for c
    using that digit_constants(7) by auto
  with assms show ?thesis by (simp add: clock_fields_def js_number_def digit_val_of)
qed

lemma lex_less:
  fixes x y :: int
  assumes "0 \<le> x" "x \<le> k" "0 \<le> x'" "x' \<le> k"
  shows "(k + 1) * y + x < (k + 1) * y' + x' \<longleftrightarrow> y < y' \<or> y = y' \<and> x < x'"
proof (cases y y' rule: linorder_cases)
  case less
  then have "(k + 1) * (y + 1) \<le> (k + 1) * y'" using assms by (intro mult_left_mono) auto
  with less assms show ?thesis by (simp add: algebra_simps)
next
  case greater
  then have "(k + 1) * (y' + 1) \<le> (k + 1) * y" using assms by (intro mult_left_mono) auto
  with greater assms show ?thesis by (simp add: algebra_simps)
qed simp

lemma clock_order:
  assumes "valid_clock s" "valid_clock t"
  shows "s < t \<longleftrightarrow> clock_minutes s < clock_minutes t" "0 \<le> clock_minutes s" "clock_minutes s < 1440"
proof -
  obtain a b d e where s: "s = [a, b, CHR '':'', d, e]"
    "0 \<le> digit_of a" "0 \<le> digit_of b" "digit_of b \<le> 9" "10 * digit_of a + digit_of b \<le> 23"
    "0 \<le> digit_of d" "digit_of d \<le> 5" "0 \<le> digit_of e" "digit_of e \<le> 9"
    using assms(1) by (rule valid_clock_cases)
  obtain a' b' d' e' where t: "t = [a', b', CHR '':'', d', e']"
    "0 \<le> digit_of a'" "0 \<le> digit_of b'" "digit_of b' \<le> 9" "10 * digit_of a' + digit_of b' \<le> 23"
    "0 \<le> digit_of d'" "digit_of d' \<le> 5" "0 \<le> digit_of e'" "digit_of e' \<le> 9"
    using assms(2) by (rule valid_clock_cases)
  have le: "digit_of a \<le> 9" "digit_of d \<le> 9" "digit_of a' \<le> 9" "digit_of d' \<le> 9" using s t by linarith+
  have m: "clock_minutes s = 600 * digit_of a + 60 * digit_of b + 10 * digit_of d + digit_of e"
    "clock_minutes t = 600 * digit_of a' + 60 * digit_of b' + 10 * digit_of d' + digit_of e'"
    using s(2-) t(2-) le by (simp_all add: clock_minutes_def clock_fields_valid [OF s(1)] clock_fields_valid [OF t(1)])
  show "0 \<le> clock_minutes s" unfolding m using s(2-) by linarith
  show "clock_minutes s < 1440" unfolding m using s(2-) by linarith
  have "s < t \<longleftrightarrow> digit_of a < digit_of a' \<or> digit_of a = digit_of a' \<and> (digit_of b < digit_of b' \<or>
      digit_of b = digit_of b' \<and> (digit_of d < digit_of d' \<or> digit_of d = digit_of d' \<and> digit_of e < digit_of e'))"
    by (simp add: s(1) t(1) char_order digit_of_eq)
  also have "\<dots> \<longleftrightarrow> clock_minutes s < clock_minutes t"
    unfolding m using lex_less [of "digit_of b" 9 "digit_of b'" "digit_of a" "digit_of a'"]
    using s(2-) t(2-) lex_less [of "digit_of e" 9 "digit_of e'" "digit_of d" "digit_of d'"]
      lex_less [of "10 * digit_of d + digit_of e" 59 "10 * digit_of d' + digit_of e'"
        "10 * digit_of a + digit_of b" "10 * digit_of a' + digit_of b'"]
    by (auto simp: algebra_simps)
  finally show "s < t \<longleftrightarrow> clock_minutes s < clock_minutes t" .
qed

text \<open>
  Setting the opening hours of a branch or of a staff member replaces exactly their rows by
  the given ones and leaves everybody else's alone. In every stored row the text passes as a
  clock time of the day and the start is earlier than the end, on the clock and not only as
  text, which is what the code compares.
\<close>

theorem hours_replaced:
  assumes "valid_SetWorkingHoursDto dto" "setWorkingHours z dto d = (Inr hs, d')"
  shows "\<exists>b s. resolveTarget d z (sw_branchId dto) (sw_staffMemberId dto) = Inr (b, s)
    \<and> filter (hours_of b s) (working_hours_tbl d') = hs
    \<and> filter (\<lambda>h. \<not> hours_of b s h) (working_hours_tbl d') = filter (\<lambda>h. \<not> hours_of b s h) (working_hours_tbl d)
    \<and> map (\<lambda>h. (wh_dayOfWeek h, wh_startTime h, wh_endTime h)) hs
      = map (\<lambda>e. (he_dayOfWeek e, he_startTime e, he_endTime e)) (sw_hours dto)
    \<and> (\<forall>h \<in> set hs. 0 \<le> clock_minutes (wh_startTime h) \<and> clock_minutes (wh_startTime h) < clock_minutes (wh_endTime h)
        \<and> clock_minutes (wh_endTime h) < 1440)"
proof -
  obtain b s where t: "resolveTarget d z (sw_branchId dto) (sw_staffMemberId dto) = Inr (b, s)"
    using assms(2) by (auto simp: setWorkingHours_def split: sum.splits)
  let ?row = "\<lambda>h. \<lparr>wh_branchId = b, wh_staffMemberId = s, wh_dayOfWeek = he_dayOfWeek h, wh_startTime = he_startTime h,
      wh_endTime = he_endTime h\<rparr>"
  have ordered: "\<And>h. h \<in> set (sw_hours dto) \<Longrightarrow> he_startTime h < he_endTime h"
    and d': "d' = d\<lparr>working_hours_tbl := filter (\<lambda>h. \<not> hours_of b s h) (working_hours_tbl d) @ map ?row (sw_hours dto)\<rparr>"
    and hs: "hs = filter (hours_of b s) (working_hours_tbl d')"
    using assms(2) by (auto simp: setWorkingHours_def t Let_def list_ex_iff not_le split: if_splits)
  have own: "hours_of b s (?row h)" for h
    using t by (auto simp: hours_of_def resolveTarget_def split: if_splits option.splits)
  have rows: "hs = map ?row (sw_hours dto)"
    by (simp add: hs d' filter_map comp_def own)
  moreover have "filter (\<lambda>h. \<not> hours_of b s h) (working_hours_tbl d') = filter (\<lambda>h. \<not> hours_of b s h) (working_hours_tbl d)"
    by (simp add: d' filter_map comp_def own)
  moreover have "0 \<le> clock_minutes (he_startTime h) \<and> clock_minutes (he_startTime h) < clock_minutes (he_endTime h)
      \<and> clock_minutes (he_endTime h) < 1440" if "h \<in> set (sw_hours dto)" for h
  proof -
    have "valid_clock (he_startTime h)" "valid_clock (he_endTime h)"
      using assms(1) that by (auto simp: valid_SetWorkingHoursDto_def valid_WorkingHourEntryDto_def list_all_iff)
    then show ?thesis using clock_order ordered [OF that] by blast
  qed
  ultimately show ?thesis using t hs by (intro exI [of _ b] exI [of _ s]) auto
qed

theorem hours_replaced_witness:
  "\<exists>hs. fst (setWorkingHours ''biz'' \<lparr>sw_branchId = Some ''br'', sw_staffMemberId = None,
      sw_hours = [\<lparr>he_dayOfWeek = 1, he_startTime = ''08:30'', he_endTime = ''19:05''\<rparr>]\<rparr> (city [])) = Inr hs
     \<and> (\<forall>h \<in> set hs. clock_minutes (wh_startTime h) < clock_minutes (wh_endTime h))"
proof -
  let ?dto = "\<lparr>sw_branchId = Some ''br'', sw_staffMemberId = None,
      sw_hours = [\<lparr>he_dayOfWeek = 1, he_startTime = ''08:30'', he_endTime = ''19:05''\<rparr>]\<rparr>"
  have v: "valid_SetWorkingHoursDto ?dto"
    by (simp add: valid_SetWorkingHoursDto_def valid_WorkingHourEntryDto_def is_digit_def)
  have "resolveTarget (city []) ''biz'' (Some ''br'') None = Inr (Some ''br'', None)"
    by (simp add: resolveTarget_def city_def demo_db_def demo_branch_def)
  then obtain hs d' where c: "setWorkingHours ''biz'' ?dto (city []) = (Inr hs, d')"
    by (simp add: setWorkingHours_def Let_def)
  from hours_replaced [OF v c] c show ?thesis by auto
qed

section \<open>Settlements\<close>

lemma run_each_single:
  "run_each [b] s e d = (Inr xs, d') \<Longrightarrow> b \<in> biz_id ` set (businesses d)"
  by (auto simp: runForBusiness_def split: prod.splits sum.splits option.splits dest!: find_SomeD)

lemma one_business_per_payment:
  "payment_of_business d b p \<Longrightarrow> payment_of_business d c p \<Longrightarrow> b = c"
  by (auto simp: payment_of_business_def split: option.splits)

text \<open>
  C36. A settlement run adds one settlement for the business asked for, or one for every approved
  business, and changes nothing else. In each of them the gross amount is the sum of the
  business's successful deposit and full payments of the period, net and commission add up
  to it, and the commission is within half a toman of the agreed percentage; no payment
  counts for two businesses. Nothing is marked as settled: the same run repeated bills the
  same amounts once more.
\<close>

theorem settlement_adds_up:
  assumes "runBatch dto d = (Inr xs, d')"
  shows "d' = d\<lparr>settlements := settlements d @ xs\<rparr>
    \<and> map stl_businessId xs = (if truthy (rs_businessId dto) then [the (rs_businessId dto)]
        else map biz_id (filter (\<lambda>b. biz_status b = APPROVED) (businesses d)))
    \<and> (\<forall>x \<in> set xs. stl_commissionAmount x + stl_netAmount x = stl_grossAmount x
        \<and> stl_grossAmount x = sum_list (map pay_amount (settled_payments d (stl_businessId x) (rs_periodStart dto) (rs_periodEnd dto)))
        \<and> (\<exists>z \<in> set (businesses d). biz_id z = stl_businessId x
             \<and> \<bar>stl_commissionAmount x - stl_grossAmount x * biz_commissionPercent z / 100\<bar> \<le> 1 / 2))
    \<and> (\<forall>b c s e. set (settled_payments d b s e) \<inter> set (settled_payments d c s e) \<noteq> {} \<longrightarrow> b = c)
    \<and> (truthy (rs_businessId dto) \<longrightarrow> runBatch dto d' = (Inr xs, d'\<lparr>settlements := settlements d' @ xs\<rparr>))"
proof -
  let ?bs = "if truthy (rs_businessId dto) then [the (rs_businessId dto)]
      else map biz_id (filter (\<lambda>b. biz_status b = APPROVED) (businesses d))"
  let ?s = "rs_periodStart dto" and ?e = "rs_periodEnd dto"
  have r: "run_each ?bs ?s ?e d = (Inr xs, d')" using assms by (simp add: runBatch_def split: if_splits)
  have "set ?bs \<subseteq> biz_id ` set (businesses d)"
  proof (cases "truthy (rs_businessId dto)")
    case True
    with r run_each_single show ?thesis by (simp del: run_each.simps)
  qed auto
  note each = run_each_ok [OF this, of ?s ?e]
  from each r have d': "d' = d\<lparr>settlements := settlements d @ xs\<rparr>" and ids: "map stl_businessId xs = ?bs"
    and ok: "list_all (adds_up d ?s ?e) xs"
    by (auto simp del: run_each.simps)
  have rounded: "\<bar>stl_commissionAmount x - stl_grossAmount x * biz_commissionPercent z / 100\<bar> \<le> 1 / 2"
    if "stl_commissionAmount x = math_round (stl_grossAmount x * biz_commissionPercent z / 100)" for x z
    unfolding that by (rule math_round_error)
  have "stl_commissionAmount x + stl_netAmount x = stl_grossAmount x
      \<and> stl_grossAmount x = sum_list (map pay_amount (settled_payments d (stl_businessId x) ?s ?e))
      \<and> (\<exists>z \<in> set (businesses d). biz_id z = stl_businessId x
          \<and> \<bar>stl_commissionAmount x - stl_grossAmount x * biz_commissionPercent z / 100\<bar> \<le> 1 / 2)" if "x \<in> set xs" for x
  proof -
    have "adds_up d ?s ?e x" using ok that by (simp add: list_all_iff)
    then show ?thesis using rounded unfolding adds_up_def gross_of_def by blast
  qed
  moreover have "b = c" if "set (settled_payments d b s e) \<inter> set (settled_payments d c s e) \<noteq> {}" for b c s e
    using that by (auto simp: settled_payments_def intro: one_business_per_payment)
  moreover have "runBatch dto d' = (Inr xs, d'\<lparr>settlements := settlements d' @ xs\<rparr>)" if t: "truthy (rs_businessId dto)"
  proof -
    have "runForBusiness b ?s ?e (d\<lparr>settlements := t\<rparr>) = (case runForBusiness b ?s ?e d of
        (Inl e, _) \<Rightarrow> (Inl e, d\<lparr>settlements := t\<rparr>) | (Inr x, _) \<Rightarrow> (Inr x, d\<lparr>settlements := t @ [x]\<rparr>))" for b t
      by (simp add: runForBusiness_def run_frame Let_def insert_row_def split: option.split)
    with r t show ?thesis
      by (auto simp: runBatch_def d' split: prod.splits sum.splits)
  qed
  ultimately show ?thesis using d' ids by blast
qed

theorem settlement_adds_up_witness:
  "\<exists>xs d'. runBatch \<lparr>rs_businessId = None, rs_periodStart = 0, rs_periodEnd = day0\<rparr> (city []) = (Inr xs, d')
     \<and> map stl_businessId xs = [''biz'']
     \<and> (\<forall>x \<in> set xs. stl_commissionAmount x + stl_netAmount x = stl_grossAmount x)"
proof -
  let ?dto = "\<lparr>rs_businessId = None, rs_periodStart = 0, rs_periodEnd = day0\<rparr>"
  obtain xs d' where r: "runBatch ?dto (city []) = (Inr xs, d')"
    by (simp add: runBatch_def runForBusiness_def Let_def city_def demo_db_def demo_business_def)
  from settlement_adds_up [OF r] have "map stl_businessId xs = [''biz'']"
    "\<forall>x \<in> set xs. stl_commissionAmount x + stl_netAmount x = stl_grossAmount x"
    by (simp_all add: city_def demo_db_def demo_business_def)
  with r show ?thesis by (intro exI [of _ xs] exI [of _ d'] conjI) assumption+
qed

section \<open>Coupons\<close>

text \<open>
  A coupon is redeemed at most once by each user and never past its limit: a successful
  redemption gives what the dry run announces, a discount between nothing and the price,
  on a coupon that is active, in force and below its limit counted by its usages; afterwards
  the same user is refused the coupon, for any purchase.
\<close>

theorem coupon_redeemed_once:
  assumes "coupons_ok d" "0 \<le> amt" "checkAndRedeem now code u b amt bid d = (Inr (k, x), d')"
  shows "coupon_validate now code u b amt d = (Inr (k, x), d)
    \<and> 0 \<le> x \<and> x \<le> amt
    \<and> (\<exists>c \<in> set (coupons d). cp_id c = k \<and> cp_code c = code \<and> usable now b amt c \<and> x = discount_of c amt
        \<and> (\<forall>l. cp_usageLimit c = Some l \<longrightarrow> l \<noteq> 0 \<longrightarrow> usages_of d' k \<le> l))
    \<and> usages_of d' k = usages_of d k + 1
    \<and> (\<exists>e. checkAndRedeem now' code u b' amt' bid' d' = (Inl e, d'))"
proof -
  note ok = redeem_ok [OF assms(3)]
  obtain c where c: "List.find (\<lambda>c. cp_code c = code) (coupons d) = Some c" "usable now b amt c" "cp_id c = k"
      "x = discount_of c amt"
    using ok(1) by (auto simp: check_ok_iff)
  have inc: "c \<in> set (coupons d)" "cp_code c = code" using find_SomeD [OF c(1)] by simp_all
  have uses: "usages_of d' k = usages_of d k + 1" by (simp add: ok(3) usages_of_insert)
  have count: "cp_usageCount c = usages_of d k" using assms(1) inc(1) c(3) by (simp add: coupons_ok_def list_all_iff)
  have limit: "usages_of d' k \<le> l" if "cp_usageLimit c = Some l" "l \<noteq> 0" for l
    using that c(2) by (auto simp: usable_def limit_reached_def count uses)
  have find: "List.find (\<lambda>c. cp_code c = code) (coupons d') = Some (c\<lparr>cp_usageCount := cp_usageCount c + 1\<rparr>)"
    using c(1,3) by (simp add: ok(3) find_update_rows)
  have used: "find_usage d' k u \<noteq> None" by (simp add: ok(3) find_usage_def find_None_iff insert_row_def)
      (rule exI [of _ "\<lparr>cu_couponId = k, cu_userId = u, cu_bookingId = bid, cu_discountAmount = x\<rparr>"], simp)
  have "checkAndCompute now' code u b' amt' d' \<noteq> Inr y" for y
    using find used c(3) by (cases y) (auto simp: check_ok_iff)
  then obtain e where "checkAndCompute now' code u b' amt' d' = Inl e"
    by (cases "checkAndCompute now' code u b' amt' d'") blast+
  then have "checkAndRedeem now' code u b' amt' bid' d' = (Inl e, d')" by (simp add: checkAndRedeem_def)
  with redeem_discount_bounds [OF assms] inc c limit uses ok(1) show ?thesis
    unfolding coupon_validate_def by blast
qed

theorem coupon_redeemed_once_witness:
  "\<exists>k x d' e. checkAndRedeem day0 ''TEN'' ''ann'' (Some ''biz'') 200000 None (city []) = (Inr (k, x), d')
     \<and> checkAndRedeem day0 ''TEN'' ''ann'' (Some ''biz'') 200000 None d' = (Inl e, d')"
proof -
  obtain k x d' where r: "checkAndRedeem day0 ''TEN'' ''ann'' (Some ''biz'') 200000 None (city []) = (Inr (k, x), d')"
    by (simp add: checkAndRedeem_def checkAndCompute_def below_min_def limit_reached_def find_usage_def city_def demo_defs)
  have "coupons_ok (city [])" using city_ok [of "[]"] demo_bookings_ok_Nil by (simp add: db_ok_def)
  from coupon_redeemed_once [OF this _ r, of day0 "Some ''biz''" 200000 None] r show ?thesis by auto
qed

end
