(* ===== verification/Isolation.thy ===== *)
theory Isolation
  imports SystemProps
begin

text \<open>
  Who may touch whose reservations: the booking routes of a customer leave every reservation
  of other customers alone, and those of a business every reservation of other businesses.
\<close>

section \<open>Reservations that an operation leaves alone\<close>

definition spares :: "(booking \<Rightarrow> bool) \<Rightarrow> db \<Rightarrow> db \<Rightarrow> bool" where
  "spares P d d' \<longleftrightarrow> (\<forall>b \<in> set (bookings d). P b \<longrightarrow> b \<in> set (bookings d'))"

lemma spares_refl [simp]: "spares P d d"
  by (simp add: spares_def)

lemma spares_trans: "spares P d e \<Longrightarrow> spares P e f \<Longrightarrow> spares P d f"
  by (auto simp: spares_def)

lemma spares_update_booking:
  assumes "bookings_ok (bookings d)" "b \<in> set (bookings d)" "\<not> P b"
  shows "spares P d (update_booking (bk_id b) f d)"
  unfolding spares_def
proof (intro ballI impI)
  fix c assume c: "c \<in> set (bookings d)" "P c"
  then have "bk_id c \<noteq> bk_id b"
    using unique_key_eq [of bk_id "bookings d" c b] assms by (auto simp: bookings_ok_def)
  then show "c \<in> set (bookings (update_booking (bk_id b) f d))"
    using in_update_rowsI [OF c(1), of "\<lambda>r. bk_id r = bk_id b" f] by (simp add: update_booking_def)
qed

lemma spares_award [simp]: "spares P d (awardPostPurchaseRewards ids t u a e) = spares P d e"
  by (simp add: spares_def frame_simps)

section \<open>Customers\<close>

lemma confirm_spares:
  assumes "bookings_ok (bookings d)"
  shows "spares (\<lambda>b. bk_userId b \<noteq> u) d (snd (confirm ids now k u d))"
proof (cases "getOwnedBooking d k u")
  case (Inr b)
  note b = getOwnedBooking_Inr [OF Inr]
  then have "spares (\<lambda>b. bk_userId b \<noteq> u) d (update_booking k f d)" for f
    using spares_update_booking [OF assms, of b "\<lambda>b. bk_userId b \<noteq> u" f] by simp
  then show ?thesis by (simp add: confirm_def Inr Let_def)
qed (simp add: confirm_def)

lemma confirm_each_spares:
  "bookings_ok (bookings d) \<Longrightarrow> spares (\<lambda>b. bk_userId b \<noteq> u) d (snd (confirm_each ids clock u bs d))"
proof (induction bs arbitrary: ids clock d)
  case (Cons b bs)
  note step = confirm_spares [OF Cons.prems, of u "ids 0" "clock 0" "bk_id b"]
  obtain r d1 where c: "confirm (ids 0) (clock 0) (bk_id b) u d = (r, d1)" by (cases "confirm (ids 0) (clock 0) (bk_id b) u d")
  have "bookings_ok (bookings d1)"
    using confirm_step [OF Cons.prems, of "ids 0" "clock 0" "bk_id b" u] by (simp add: booking_step_def c)
  note rest = Cons.IH [OF this, of "\<lambda>i. ids (Suc i)" "\<lambda>i. clock (Suc i)"]
  from step rest spares_trans show ?case by (auto simp: c split: prod.splits sum.splits)
qed simp

lemma confirmGroup_spares:
  "bookings_ok (bookings d) \<Longrightarrow> spares (\<lambda>b. bk_userId b \<noteq> u) d (snd (confirmGroup ids now g u d))"
  by (simp add: confirmGroup_def Let_def confirm_each_spares)

lemma cancelInternal_spares:
  "bookings_ok (bookings d) \<Longrightarrow> b \<in> set (bookings d) \<Longrightarrow> \<not> P b \<Longrightarrow> spares P d (snd (cancelInternal now b r c d))"
  by (simp add: cancelInternal_def Let_def spares_update_booking)

lemma cancelByUser_spares:
  "bookings_ok (bookings d) \<Longrightarrow> spares (\<lambda>b. bk_userId b \<noteq> u) d (snd (cancelByUser now k u r d))"
  by (auto simp: cancelByUser_def dest!: getOwnedBooking_Inr intro!: cancelInternal_spares split: sum.split)

lemma locked_spares:
  assumes "\<And>x d'. body d = (Inr x, d') \<Longrightarrow> spares P d d'"
  shows "spares P d (fst (snd (busy_as_conflict (withLock R t l tok k ttl (transaction body) (d, r)))))"
  using withLock_db [of R t l tok k ttl "transaction body" "(d, r)"] assms
    transaction_preserves [of "spares P d" d body]
  by auto

lemma hold_spares: "spares P d (fst (snd (hold R now later tok n u dto (d, r))))"
proof -
  have "spares P d d'" if h: "hold_body now n u dto z s d = (Inr b, d')" for z s b d'
  proof -
    obtain k x d1 where "redeem_for_hold now u dto s d = (Inr (k, x), d1)" "bookings d' = insert_row b (bookings d1)"
      using hold_body_Inr [OF h] by metis
    moreover from this(1) have "bookings d1 = bookings d" using redeem_for_hold_writes by fastforce
    ultimately show ?thesis by (simp add: spares_def)
  qed
  then have "spares P d (fst (snd (busy_as_conflict (withLock R now later tok k default_ttlMs
      (transaction (hold_body now n u dto z s)) (d, r)))))" for z s k
    by (rule locked_spares)
  then show ?thesis by (simp add: hold_def del: busy_as_conflict_snd split: sum.split prod.split)
qed

lemma create_occurrences_spares: "spares P d (snd (create_occurrences bs d))"
proof (induction bs arbitrary: d)
  case (Cons b bs)
  have c: "spares P d (snd (create_booking b d))"
    by (simp add: create_booking_def spares_def split: option.split)
  from spares_trans [OF c Cons.IH] c show ?case by (auto split: sum.splits prod.splits)
qed simp

lemma createRecurring_spares: "spares P d (snd (createRecurring now ids g u dto d))"
proof -
  obtain r e where c: "createRecurring now ids g u dto d = (r, e)" by fastforce
  then have "e = d \<or> (\<exists>r bs. create_occurrences bs d = (r, e))"
    by (auto simp: createRecurring_def transaction_def split: sum.splits prod.splits error.splits)
  then have "spares P d e" using create_occurrences_spares [of P d] by (metis snd_conv spares_refl)
  with c show ?thesis by simp
qed

lemma reschedule_spares:
  assumes "bookings_ok (bookings d)" "reschedule R now later tok k u s (d, r) = Some res"
  shows "spares (\<lambda>b. bk_userId b \<noteq> u) d (fst (snd res))"
proof (cases "fst (snd res) = d")
  case False
  then obtain b e key where b: "getOwnedBooking d k u = Inr b" and res: "res = busy_as_conflict
      (withLock R now later tok key default_ttlMs (transaction (reschedule_body b s e)) (d, r))"
    using assms(2) by (auto simp: reschedule_def split: sum.splits option.splits if_splits)
  note own = getOwnedBooking_Inr [OF b]
  have "spares (\<lambda>b. bk_userId b \<noteq> u) d d'" if "reschedule_body b s e d = (Inr x, d')" for x d'
    using that own spares_update_booking [OF assms(1), of b]
    by (auto simp: reschedule_body_def Let_def split: sum.splits)
  from locked_spares [OF this] show ?thesis by (simp add: res)
qed simp

section \<open>Businesses\<close>

lemma cancelByBusiness_spares:
  "bookings_ok (bookings d) \<Longrightarrow> spares (\<lambda>b. bk_businessId b \<noteq> z) d (snd (cancelByBusiness now z k r d))"
  by (auto simp: cancelByBusiness_def dest!: find_business_booking_Some intro!: cancelInternal_spares split: option.split)

lemma updateStatus_spares:
  assumes "bookings_ok (bookings d)"
  shows "spares (\<lambda>b. bk_businessId b \<noteq> z) d (snd (updateStatus now z k s d))"
proof (cases "find_business_booking d k z")
  case (Some b)
  note b = find_business_booking_Some [OF Some]
  then have "spares (\<lambda>b. bk_businessId b \<noteq> z) d (update_booking k f d)" for f
    using spares_update_booking [OF assms, of b "\<lambda>b. bk_businessId b \<noteq> z" f] by simp
  then show ?thesis by (simp add: updateStatus_def Some Let_def)
qed (simp add: updateStatus_def)

section \<open>Over the interface\<close>

lemma on_db_spares: "on_db f w = Some (res, w') \<Longrightarrow> spares P (w_db w) (snd (f (w_db w))) \<Longrightarrow> spares P (w_db w) (w_db w')"
  by (auto simp: on_db_def split: prod.splits)

lemma on_read_spares: "on_read r w = Some (res, w') \<Longrightarrow> spares P (w_db w) (w_db w')"
  by (auto simp: on_read_def)

lemma on_lock_spares:
  "on_lock f w = Some (res, w') \<Longrightarrow> spares P (w_db w) (fst (snd (f (w_db w, w_redis w)))) \<Longrightarrow> spares P (w_db w) (w_db w')"
  by (auto simp: on_lock_def split: prod.splits)

lemma on_lock_option_spares:
  assumes "on_lock_option f w = Some (res, w')" "\<And>x. f (w_db w, w_redis w) = Some x \<Longrightarrow> spares P (w_db w) (fst (snd x))"
  shows "spares P (w_db w) (w_db w')"
  using assms by (auto simp: on_lock_option_def on_lock_def split: option.splits prod.splits)

lemma customer_handle_spares:
  assumes "BookingController_handle E dr u r w = Some (res, w')" "bookings_ok (bookings (w_db w))"
  shows "spares (\<lambda>b. bk_userId b \<noteq> u) (w_db w) (w_db w')"
  using assms
  by (cases r) (auto elim!: on_db_spares on_read_spares on_lock_spares on_lock_option_spares
      intro: hold_spares createRecurring_spares confirm_spares confirmGroup_spares cancelByUser_spares reschedule_spares)

lemma business_handle_spares:
  assumes "BusinessBookingController_handle E dr u r w = Some (res, w')" "bookings_ok (bookings (w_db w))"
    "path_id (BusinessBookingRoute r) = Some z"
  shows "spares (\<lambda>b. bk_businessId b \<noteq> z) (w_db w) (w_db w')"
  using assms
  by (cases r) (auto elim!: on_db_spares on_read_spares intro: updateStatus_spares cancelByBusiness_spares)

lemma served_user:
  assumes "guards rt (authenticate (Some u) d) z d = Inr x" "\<not> isPublic rt"
  shows "user_id x = u"
proof -
  obtain k role where a: "authenticate (Some u) d = Inr (k, role)"
    using assms by (cases "authenticate (Some u) d") (auto simp: guards_eq)
  then have "k = u"
    by (auto simp: authenticate_def jwt_validate_def find_user_def dest!: find_SomeD split: option.splits if_splits)
  with assms a show ?thesis by (auto simp: guards_eq user_id_def split: if_splits)
qed

text \<open>
  C10. Nobody touches somebody else's reservations: in every state that is reached, a request
  to the booking routes leaves the reservations of all other customers exactly as they were,
  and a request to the booking routes of a business leaves those of all other businesses.
\<close>

theorem others_reservations_untouched:
  assumes "run (transition E) w0 es w" "db_ok (w_db w0)" "serve E dr (Some u) ep w = Some (res, w')"
    "b \<in> set (bookings (w_db w))"
    "(\<exists>r. ep = BookingRoute r \<and> bk_userId b \<noteq> u) \<or> (\<exists>r. ep = BusinessBookingRoute r \<and> path_id ep \<noteq> Some (bk_businessId b))"
  shows "b \<in> set (bookings (w_db w'))"
proof -
  have ok: "bookings_ok (bookings (w_db w))" using reached_ok [OF assms(1,2)] by (rule db_okD)
  from assms(3) show ?thesis
  proof (cases rule: serve_cases)
    case refused
    with assms(4) show ?thesis by simp
  next
    case (handled x)
    from assms(5) show ?thesis
    proof
      assume "\<exists>r. ep = BookingRoute r \<and> bk_userId b \<noteq> u"
      then obtain r where r: "ep = BookingRoute r" "bk_userId b \<noteq> u" by blast
      have "\<not> isPublic (route_of ep)" by (cases r; simp add: r(1) user_route_def)
      with handled(1) have "user_id x = u" using served_user by blast
      with customer_handle_spares [of E dr u r w res w', OF _ ok] handled(4) r assms(4) show ?thesis
        by (simp add: spares_def)
    next
      assume "\<exists>r. ep = BusinessBookingRoute r \<and> path_id ep \<noteq> Some (bk_businessId b)"
      then obtain r where r: "ep = BusinessBookingRoute r" "path_id ep \<noteq> Some (bk_businessId b)" by blast
      then obtain z where z: "path_id ep = Some z" "z \<noteq> bk_businessId b" by (cases r) auto
      with business_handle_spares [of E dr "user_id x" r w res w' z, OF _ ok] handled(4) r(1) assms(4) show ?thesis
        by (auto simp: spares_def)
    qed
  qed
qed

definition bobs_booking :: booking where
  "bobs_booking = (demo_booking ''k2'' CONFIRMED (nine + 1800000))\<lparr>bk_userId := ''bob''\<rparr>"

theorem others_reservations_untouched_witness:
  "\<exists>w'. serve city_env (city_draws day0) (Some ''ann'') (BookingRoute (Booking_cancel ''k'' None))
     (city_world [demo_booking ''k'' CONFIRMED nine, bobs_booking]) = Some (Inr (), w') \<and> bobs_booking \<in> set (bookings (w_db w'))"
proof -
  let ?w = "city_world [demo_booking ''k'' CONFIRMED nine, bobs_booking]"
  have "bookings_ok [demo_booking ''k'' CONFIRMED nine, bobs_booking]"
    by (simp add: bookings_ok_def unique_key_def no_double_booking_def row_ok_def clash_def bobs_booking_def demo_booking_def)
  then have ok: "db_ok (w_db ?w)" using city_ok by simp
  from others_reservations_untouched [OF run.stop ok city_cancel [of "[bobs_booking]"], of bobs_booking]
    city_cancel [of "[bobs_booking]"]
  show ?thesis by (auto simp: bobs_booking_def demo_booking_def)
qed

end
