(* ===== verification/Calendar.thy ===== *)
theory Calendar
  imports SystemProps BookingProps Footprint
begin

text \<open>
  The abstract specification of the reservation service: a calendar that maps the id of each
  active reservation to its place (branch and staff member) and its interval, and three
  operations: reserving, moving and freeing. It keeps places free of overlaps by itself.
  Shown: \<open>agenda\<close> maps the database to a calendar, the slot test is the calendar's test, and
  every transition of the backend, refused requests and the clean-up job included, is the
  calendar operations that \<open>moves_of\<close> states for it: a simulation, step by step and over
  whole histories.
\<close>

section \<open>The specification\<close>

type_synonym place = "id \<times> id option"
type_synonym calendar = "id \<Rightarrow> (place \<times> time \<times> time) option"

datatype cal_op = Reserve id place time time | Move id time time | Free id

definition vacant :: "calendar \<Rightarrow> place \<Rightarrow> time \<Rightarrow> time \<Rightarrow> id option \<Rightarrow> bool" where
  "vacant c p s e except \<longleftrightarrow>
     (\<forall>k q s' e'. c k = Some (q, s', e') \<and> Some k \<noteq> except \<and> q = p \<longrightarrow> e' \<le> s \<or> e \<le> s')"

inductive cal_step :: "calendar \<Rightarrow> cal_op \<Rightarrow> calendar \<Rightarrow> bool" where
  reserve: "c k = None \<Longrightarrow> s < e \<Longrightarrow> vacant c p s e None \<Longrightarrow> cal_step c (Reserve k p s e) (c(k \<mapsto> (p, s, e)))"
| move: "c k = Some (p, s0, e0) \<Longrightarrow> s < e \<Longrightarrow> vacant c p s e (Some k) \<Longrightarrow> cal_step c (Move k s e) (c(k \<mapsto> (p, s, e)))"
| free: "c k = Some x \<Longrightarrow> cal_step c (Free k) (c(k := None))"

definition no_overlap :: "calendar \<Rightarrow> bool" where
  "no_overlap c \<longleftrightarrow> (\<forall>j k p s e s' e'. c j = Some (p, s, e) \<and> c k = Some (p, s', e') \<and> j \<noteq> k \<longrightarrow> e \<le> s' \<or> e' \<le> s)"

lemma vacantD: "vacant c p s e ex \<Longrightarrow> c k = Some (p, s', e') \<Longrightarrow> Some k \<noteq> ex \<Longrightarrow> e' \<le> s \<or> e \<le> s'"
  unfolding vacant_def by blast

lemma no_overlapD:
  "no_overlap c \<Longrightarrow> c j = Some (p, s, e) \<Longrightarrow> c k = Some (p, s', e') \<Longrightarrow> j \<noteq> k \<Longrightarrow> e \<le> s' \<or> e' \<le> s"
  unfolding no_overlap_def by blast

lemma no_overlap_update:
  assumes "no_overlap c" "vacant c p s e except" "except = None \<and> c k = None \<or> except = Some k"
  shows "no_overlap (c(k \<mapsto> (p, s, e)))"
  unfolding no_overlap_def
proof (intro allI impI)
  fix i j q s1 e1 s2 e2
  assume a: "(c(k \<mapsto> (p, s, e))) i = Some (q, s1, e1) \<and> (c(k \<mapsto> (p, s, e))) j = Some (q, s2, e2) \<and> i \<noteq> j"
  have v: "e' \<le> s \<or> e \<le> s'" if "c l = Some (p, s', e')" "l \<noteq> k" for l s' e'
    using vacantD [OF assms(2) that(1)] that(2) assms(3) by auto
  show "e1 \<le> s2 \<or> e2 \<le> s1"
    using a v [of i] v [of j] no_overlapD [OF assms(1), of i q s1 e1 j s2 e2] by (auto split: if_splits)
qed

interpretation spec: transition_system cal_step no_overlap "\<lambda>_ _. True"
proof
  fix c op c' assume "cal_step c op c'" "no_overlap c"
  then show "no_overlap c'"
  proof (cases rule: cal_step.cases)
    case (reserve k s e p)
    then show ?thesis using \<open>no_overlap c\<close> by (auto intro: no_overlap_update)
  next
    case (move k p s0 e0 s e)
    then show ?thesis using \<open>no_overlap c\<close> by (auto intro: no_overlap_update)
  next
    case (free k x)
    then show ?thesis using \<open>no_overlap c\<close> by (auto simp: no_overlap_def)
  qed
qed simp_all

section \<open>The abstraction\<close>

definition slot_of :: "booking \<Rightarrow> place \<times> time \<times> time" where
  "slot_of b = ((bk_branchId b, bk_staffMemberId b), bk_startTime b, bk_endTime b)"

definition agenda :: "db \<Rightarrow> calendar" where
  "agenda d k = (case List.find (\<lambda>b. bk_id b = k) (bookings d) of
     None \<Rightarrow> None | Some b \<Rightarrow> if is_active (bk_status b) then Some (slot_of b) else None)"

lemma agenda_in:
  assumes "unique_key bk_id (bookings d)"
  shows "agenda d k = Some x \<longleftrightarrow> (\<exists>b \<in> set (bookings d). bk_id b = k \<and> is_active (bk_status b) \<and> x = slot_of b)"
proof
  assume "agenda d k = Some x"
  then show "\<exists>b \<in> set (bookings d). bk_id b = k \<and> is_active (bk_status b) \<and> x = slot_of b"
    by (auto simp: agenda_def dest!: find_SomeD split: option.splits if_splits)
next
  assume "\<exists>b \<in> set (bookings d). bk_id b = k \<and> is_active (bk_status b) \<and> x = slot_of b"
  then obtain b where "b \<in> set (bookings d)" "bk_id b = k" "is_active (bk_status b)" "x = slot_of b" by blast
  with unique_key_find [OF assms, of b] show "agenda d k = Some x" by (simp add: agenda_def)
qed

lemma agenda_none: "fresh_key bk_id k (bookings d) \<Longrightarrow> agenda d k = None"
  by (simp add: agenda_def fresh_key_find)

lemma agenda_cong: "bookings d = bookings e \<Longrightarrow> agenda d = agenda e"
  by (simp add: agenda_def fun_eq_iff)

lemma agenda_insert:
  assumes "bookings d' = insert_row b (bookings d)" "fresh_key bk_id (bk_id b) (bookings d)" "is_active (bk_status b)"
  shows "agenda d' = (agenda d)(bk_id b \<mapsto> slot_of b)"
  using assms by (auto simp: agenda_def fun_eq_iff find_insert_row fresh_key_find split: option.split)

lemma agenda_update:
  assumes "unique_key bk_id (bookings d)" "b \<in> set (bookings d)" "\<And>c. bk_id (f c) = bk_id c"
  shows "agenda (update_booking (bk_id b) f d) =
    (agenda d)(bk_id b := (if is_active (bk_status (f b)) then Some (slot_of (f b)) else None))"
proof
  fix k
  have "List.find (\<lambda>b. bk_id b = bk_id b') (bookings d) = Some b'" if "b' = b" for b'
    using that unique_key_find [OF assms(1,2)] by simp
  then show "agenda (update_booking (bk_id b) f d) k = ((agenda d)(bk_id b := (if is_active (bk_status (f b))
      then Some (slot_of (f b)) else None))) k"
    using assms(3)
    by (auto simp: agenda_def update_booking_def find_key_update split: option.split dest: find_SomeD)
qed

text \<open>The test of the code is the test of the calendar.\<close>

lemma slot_free_vacant:
  assumes "unique_key bk_id (bookings d)" "s < e" "except \<noteq> Some []"
  shows "assertSlotFree br st s e except d = Inr () \<longleftrightarrow> vacant (agenda d) (br, st) s e except"
proof -
  have "assertSlotFree br st s e except d = Inr () \<longleftrightarrow> (\<forall>b \<in> set (bookings d). \<not> slot_clash br st s e except b)"
    by (auto simp: assertSlotFree_def find_None_iff dest: find_SomeD split: option.split)
  also have "\<dots> \<longleftrightarrow> vacant (agenda d) (br, st) s e except"
  proof
    assume v: "vacant (agenda d) (br, st) s e except"
    have "\<not> slot_clash br st s e except b" if "b \<in> set (bookings d)" for b
    proof
      assume clash: "slot_clash br st s e except b"
      then have "agenda d (bk_id b) = Some ((br, st), bk_startTime b, bk_endTime b)" "Some (bk_id b) \<noteq> except"
        using that assms(3) by (cases except; auto simp: agenda_in [OF assms(1)] slot_clash_def slot_of_def)+
      from vacantD [OF v this] clash show False by (auto simp: slot_clash_def)
    qed
    then show "\<forall>b \<in> set (bookings d). \<not> slot_clash br st s e except b" by blast
  qed (fastforce simp: vacant_def agenda_in [OF assms(1)] slot_of_def slot_clash_def not_less)
  finally show ?thesis .
qed

lemma agenda_no_overlap:
  assumes "bookings_ok (bookings d)"
  shows "no_overlap (agenda d)"
  using assms unfolding no_overlap_def bookings_ok_def
  by (auto simp: agenda_in slot_of_def no_double_booking_def clash_def) (meson not_le)

section \<open>Refinement\<close>

text \<open>The length of a service, in milliseconds.\<close>

definition duration_of :: "db \<Rightarrow> id \<Rightarrow> time" where
  "duration_of d k = (case List.find (\<lambda>s. sv_id s = k) (services d) of
     None \<Rightarrow> 0 | Some s \<Rightarrow> sv_durationMinutes s * 60000)"

lemma duration_service:
  assumes "services_ok d" "s \<in> set (services d)"
  shows "duration_of d (sv_id s) = sv_durationMinutes s * 60000"
  using unique_key_find [of sv_id "services d" s] assms by (simp add: duration_of_def services_ok_def)

lemma locked_Inr:
  assumes "busy_as_conflict (withLock R now later tok k ttl (transaction body) (d, r)) = (Inr x, (d', r'))"
  shows "body d = (Inr x, d')"
proof -
  have "fst (withLock R now later tok k ttl (transaction body) (d, r)) = Inr x"
    using assms busy_as_conflict_Inr by (metis fst_conv)
  from withLock_Inr [OF this] have "transaction body d = (Inr x, d')"
    using assms busy_as_conflict_snd by (metis fst_conv snd_conv)
  then show ?thesis by (auto simp: transaction_def split: prod.splits sum.splits)
qed

lemma locked_Inl:
  "busy_as_conflict (withLock R now later tok k ttl (transaction body) (d, r)) = (Inl e, (d', r')) \<Longrightarrow> d' = d"
  using locked_error [of R now later tok k ttl body d r e] by simp

lemma hold_refines:
  assumes "db_ok d" "fresh_key bk_id n (bookings d)" "hold R now later tok n u dto (d, r) = (Inr b, (d', r'))"
  shows "cal_step (agenda d) (Reserve n (hb_branchId dto, hb_staffMemberId dto) (hb_startTime dto)
    (hb_startTime dto + duration_of d (hb_serviceId dto))) (agenda d')"
proof -
  obtain z br s where c: "loadAndValidateContext d (hb_businessId dto) (hb_branchId dto) (hb_serviceId dto)
      (hb_staffMemberId dto) = Inr (z, br, s)"
    using assms(3) by (auto simp: hold_def split: sum.splits)
  have h: "hold_body now n u dto z s d = (Inr b, d')"
    using assms(3) by (intro locked_Inr [of R now later tok _ default_ttlMs _ d r]) (simp add: hold_def c)
  obtain k x d1 where p: "redeem_for_hold now u dto s d = (Inr (k, x), d1)" "b = hold_row now n u dto z s x"
    "bookings d' = insert_row b (bookings d1)"
    "assertSlotFree (bk_branchId b) (bk_staffMemberId b) (bk_startTime b) (bk_endTime b) None d = Inr ()"
    using hold_body_Inr [OF h] .
  have "bookings d1 = bookings d" using redeem_for_hold_writes [OF p(1)] by fastforce
  then have ins: "bookings d' = insert_row b (bookings d)" using p(3) by simp
  have "service_ok s" using context_ok(1) [OF c db_okD(4) [OF assms(1)]] .
  then have lt: "bk_startTime b < bk_endTime b" by (simp add: p(2) hold_row_def service_ok_def)
  have u: "unique_key bk_id (bookings d)" using db_okD(6) [OF assms(1)] by (simp add: bookings_ok_def)
  have b: "bk_id b = n" "is_active (bk_status b)" by (simp_all add: p(2) hold_row_def)
  have "cal_step (agenda d) (Reserve n (bk_branchId b, bk_staffMemberId b) (bk_startTime b) (bk_endTime b))
      ((agenda d)(n \<mapsto> ((bk_branchId b, bk_staffMemberId b), bk_startTime b, bk_endTime b)))"
    using p(4) lt assms(2) by (intro cal_step.reserve) (simp_all add: agenda_none slot_free_vacant [OF u lt])
  moreover have "agenda d' = (agenda d)(n \<mapsto> slot_of b)" using agenda_insert [OF ins] assms(2) b by simp
  moreover have "duration_of d (hb_serviceId dto) = sv_durationMinutes s * 60000"
    using duration_service [OF db_okD(4) [OF assms(1)]] context_ok(2,3) [OF c db_okD(4) [OF assms(1)]] by metis
  ultimately show ?thesis by (simp add: slot_of_def p(2) hold_row_def)
qed

lemma reschedule_refines:
  assumes "db_ok d" "reschedule R now later tok k u s (d, r) = Some (Inr b, (d', r'))" "k \<noteq> []"
  obtains c where "c \<in> set (bookings d)" "bk_id c = k"
    "cal_step (agenda d) (Move k s (s + duration_of d (bk_serviceId c))) (agenda d')"
proof -
  obtain c v where c: "getOwnedBooking d k u = Inr c" "is_active (bk_status c)"
    "List.find (\<lambda>v. sv_id v = bk_serviceId c) (services d) = Some v"
    and l: "busy_as_conflict (withLock R now later tok (lockKey (bk_branchId c) (bk_staffMemberId c) s) default_ttlMs
      (transaction (reschedule_body c s (s + sv_durationMinutes v * 60000))) (d, r)) = (Inr b, (d', r'))"
    using assms(2) by (auto simp: reschedule_def split: sum.splits option.splits if_splits)
  note own = getOwnedBooking_Inr [OF c(1)]
  let ?e = "s + sv_durationMinutes v * 60000"
  from locked_Inr [OF l] have free: "assertSlotFree (bk_branchId c) (bk_staffMemberId c) s ?e (Some (bk_id c)) d = Inr ()"
    and d': "d' = update_booking (bk_id c) (\<lambda>b. b\<lparr>bk_startTime := s, bk_endTime := ?e\<rparr>) d"
    by (auto simp: reschedule_body_def Let_def split: sum.splits)
  have "service_ok v" using c(3) db_okD(4) [OF assms(1)] by (auto simp: services_ok_def list_all_iff dest!: find_SomeD)
  then have lt: "s < ?e" by (simp add: service_ok_def)
  have u: "unique_key bk_id (bookings d)" using db_okD(6) [OF assms(1)] by (simp add: bookings_ok_def)
  have "agenda d k = Some (slot_of c)" using own c(2) by (auto simp: agenda_in [OF u])
  then have "cal_step (agenda d) (Move k s ?e) ((agenda d)(k \<mapsto> ((bk_branchId c, bk_staffMemberId c), s, ?e)))"
    using free own lt assms(3) by (intro cal_step.move) (auto simp: slot_of_def slot_free_vacant [OF u lt])
  moreover have "agenda d' = (agenda d)(k \<mapsto> ((bk_branchId c, bk_staffMemberId c), s, ?e))"
    using agenda_update [OF u, of c] own c(2) by (simp add: d' slot_of_def)
  moreover have "duration_of d (bk_serviceId c) = sv_durationMinutes v * 60000"
    using duration_service [OF db_okD(4) [OF assms(1)], of v] c(3) by (auto dest: find_SomeD)
  ultimately show ?thesis using that [of c] own by simp
qed

lemma cancelInternal_refines:
  assumes "db_ok d" "cancelInternal now b reason by_user d = (Inr res, d')" "b \<in> set (bookings d)"
  shows "cal_step (agenda d) (Free (bk_id b)) (agenda d')"
proof -
  have u: "unique_key bk_id (bookings d)" using db_okD(6) [OF assms(1)] by (simp add: bookings_ok_def)
  have c: "CANCELLED \<in> set (ALLOWED_STATUS_TRANSITIONS (bk_status b))"
    using assms(2) by (auto simp: cancelInternal_def split: if_splits)
  then have "is_active (bk_status b)" by (cases "bk_status b") auto
  then have "agenda d (bk_id b) = Some (slot_of b)" using assms(3) by (auto simp: agenda_in [OF u])
  then have "cal_step (agenda d) (Free (bk_id b)) ((agenda d)(bk_id b := None))" by (rule cal_step.free)
  moreover have "agenda d' = (agenda d)(bk_id b := None)"
    using assms(2) c agenda_update [OF u assms(3)] by (auto simp: cancelInternal_def Let_def)
  ultimately show ?thesis by simp
qed

lemma create_occurrences_refines:
  assumes "create_occurrences bs d = (Inr xs, d')" "unique_key bk_id (bookings d)" "distinct (map bk_id bs)"
    "\<And>b. b \<in> set bs \<Longrightarrow> fresh_key bk_id (bk_id b) (bookings d) \<and> is_active (bk_status b) \<and> bk_startTime b < bk_endTime b"
  shows "xs = bs \<and> run cal_step (agenda d)
    (map (\<lambda>b. Reserve (bk_id b) (bk_branchId b, bk_staffMemberId b) (bk_startTime b) (bk_endTime b)) bs) (agenda d')"
  using assms
proof (induction bs arbitrary: d xs)
  case (Cons b bs)
  obtain d1 ys where free: "assertSlotFree (bk_branchId b) (bk_staffMemberId b) (bk_startTime b) (bk_endTime b) None d = Inr ()"
    and c: "create_booking b d = (Inr b, d1)" and rest: "create_occurrences bs d1 = (Inr ys, d')" and xs: "xs = b # ys"
    using Cons.prems(1) by (auto split: sum.splits prod.splits dest: create_booking_bookings)
  have ins: "bookings d1 = insert_row b (bookings d)" using create_booking_bookings [OF c] by simp
  have b: "fresh_key bk_id (bk_id b) (bookings d)" "is_active (bk_status b)" "bk_startTime b < bk_endTime b"
    using Cons.prems(4) [of b] by simp_all
  have "cal_step (agenda d) (Reserve (bk_id b) (bk_branchId b, bk_staffMemberId b) (bk_startTime b) (bk_endTime b))
      ((agenda d)(bk_id b \<mapsto> ((bk_branchId b, bk_staffMemberId b), bk_startTime b, bk_endTime b)))"
    using b free by (intro cal_step.reserve) (simp_all add: agenda_none slot_free_vacant [OF Cons.prems(2) b(3)])
  moreover have "agenda d1 = (agenda d)(bk_id b \<mapsto> slot_of b)" using agenda_insert [OF ins b(1,2)] .
  moreover have "ys = bs \<and> run cal_step (agenda d1)
      (map (\<lambda>b. Reserve (bk_id b) (bk_branchId b, bk_staffMemberId b) (bk_startTime b) (bk_endTime b)) bs) (agenda d')"
    using Cons.prems b(1) by (intro Cons.IH [OF rest])
      (auto simp: ins fresh_key_insert rev_image_eqI intro!: unique_key_insert)
  ultimately show ?case using xs by (auto simp: slot_of_def intro: run.move)
qed simp

lemma createRecurring_refines:
  assumes "db_ok d" "createRecurring now ids g u dto d = (Inr xs, d')" "inj ids"
    "\<And>i. fresh_key bk_id (ids i) (bookings d)"
  shows "run cal_step (agenda d)
    (map (\<lambda>i. Reserve (ids i) (rb_branchId dto, rb_staffMemberId dto) (rb_startTime dto + int i * 604800000)
       (rb_startTime dto + int i * 604800000 + duration_of d (rb_serviceId dto))) [0..<rb_occurrences dto]) (agenda d')"
proof -
  obtain z br s where c: "loadAndValidateContext d (rb_businessId dto) (rb_branchId dto) (rb_serviceId dto)
      (rb_staffMemberId dto) = Inr (z, br, s)"
    using assms(2) by (auto simp: createRecurring_def split: sum.splits)
  let ?rows = "map (\<lambda>i. recurring_row now (ids i) g u dto z s (occurrence dto s i)) [0..<rb_occurrences dto]"
  have o: "create_occurrences ?rows d = (Inr xs, d')"
    using assms(2) by (auto simp: createRecurring_def c transaction_def split: prod.splits sum.splits error.splits)
  have s: "service_ok s" using context_ok(1) [OF c db_okD(4) [OF assms(1)]] .
  have u: "unique_key bk_id (bookings d)" using db_okD(6) [OF assms(1)] by (simp add: bookings_ok_def)
  have rows: "fresh_key bk_id (bk_id b) (bookings d) \<and> is_active (bk_status b) \<and> bk_startTime b < bk_endTime b"
    if "b \<in> set ?rows" for b
    using that assms(4) recurring_row_ok [OF s] by (auto simp: row_ok_def) (auto simp: recurring_row_def)
  have "distinct (map bk_id ?rows)"
    using assms(3) by (auto simp: comp_def distinct_map intro: inj_on_subset)
  from create_occurrences_refines [OF o u this rows] have "run cal_step (agenda d)
    (map (\<lambda>b. Reserve (bk_id b) (bk_branchId b, bk_staffMemberId b) (bk_startTime b) (bk_endTime b)) ?rows) (agenda d')"
    by blast
  moreover have "duration_of d (rb_serviceId dto) = sv_durationMinutes s * 60000"
    using duration_service [OF db_okD(4) [OF assms(1)]] context_ok(2,3) [OF c db_okD(4) [OF assms(1)]] by metis
  ultimately show ?thesis by (simp add: comp_def recurring_row_def occurrence_def Let_def mult.commute)
qed

lemma cleanup_refines:
  assumes "unique_key bk_id (bookings d)"
  shows "agenda (handleExpiredHolds now d) k =
    (if \<exists>b \<in> set (bookings d). bk_id b = k \<and> expired_hold now b then None else agenda d k)"
proof -
  let ?f = "\<lambda>b. b\<lparr>bk_status := CANCELLED, bk_cancelReason := Some ''hold expired''\<rparr>"
  have find: "List.find (\<lambda>b. bk_id b = k) (bookings (handleExpiredHolds now d)) =
      map_option (\<lambda>b. if expired_hold now b then ?f b else b) (List.find (\<lambda>b. bk_id b = k) (bookings d))"
    by (simp add: handleExpiredHolds_def releaseExpiredHolds_def find_key_update)
  show ?thesis
  proof (cases "List.find (\<lambda>b. bk_id b = k) (bookings d)")
    case None
    then show ?thesis by (auto simp: agenda_def find)
  next
    case (Some b)
    have "c = b" if "c \<in> set (bookings d)" "bk_id c = k" for c
      using unique_key_eq [OF assms that(1), of b] that find_SomeD [OF Some] by simp
    then have "(\<exists>c \<in> set (bookings d). bk_id c = k \<and> expired_hold now c) = expired_hold now b"
      using find_SomeD [OF Some] by blast
    then show ?thesis by (simp add: agenda_def find Some)
  qed
qed

text \<open>Changes of status, and freeing several reservations.\<close>

lemma agenda_keep:
  assumes "unique_key bk_id (bookings d)" "b \<in> set (bookings d)" "\<And>c. bk_id (f c) = bk_id c"
    "is_active (bk_status b)" "is_active (bk_status (f b))" "slot_of (f b) = slot_of b"
  shows "agenda (update_booking (bk_id b) f d) = agenda d"
proof -
  have "agenda d (bk_id b) = Some (slot_of b)" using assms(2,4) by (auto simp: agenda_in [OF assms(1)])
  then show ?thesis using agenda_update [OF assms(1-3)] assms(5,6) by (simp add: fun_upd_idem)
qed

lemma agenda_free:
  assumes "unique_key bk_id (bookings d)" "b \<in> set (bookings d)" "\<And>c. bk_id (f c) = bk_id c"
    "is_active (bk_status b)" "\<not> is_active (bk_status (f b))"
  shows "cal_step (agenda d) (Free (bk_id b)) (agenda (update_booking (bk_id b) f d))"
proof -
  have "agenda d (bk_id b) = Some (slot_of b)" using assms(2,4) by (auto simp: agenda_in [OF assms(1)])
  then have "cal_step (agenda d) (Free (bk_id b)) ((agenda d)(bk_id b := None))" by (rule cal_step.free)
  then show ?thesis using agenda_update [OF assms(1-3)] assms(5) by simp
qed

lemma run_frees:
  assumes "distinct ks" "\<And>k. k \<in> set ks \<Longrightarrow> c k \<noteq> None"
  shows "run cal_step c (map Free ks) (\<lambda>k. if k \<in> set ks then None else c k)"
  using assms
proof (induction ks arbitrary: c)
  case (Cons k ks)
  obtain x where "c k = Some x" using Cons.prems(2) [of k] by auto
  then have "cal_step c (Free k) (c(k := None))" by (rule cal_step.free)
  moreover have "run cal_step (c(k := None)) (map Free ks) (\<lambda>l. if l \<in> set ks then None else (c(k := None)) l)"
    using Cons.prems by (intro Cons.IH) auto
  moreover have "(\<lambda>l. if l \<in> set ks then None else (c(k := None)) l) = (\<lambda>l. if l \<in> set (k # ks) then None else c l)"
    by auto
  ultimately show ?case by (auto intro: run.move)
qed simp

lemma confirm_moves:
  assumes "bookings_ok (bookings d)" "confirm ids now k u d = (r, d')"
  shows "if r = Inl (BadRequest HoldExpired)
    then (\<exists>b \<in> set (bookings d). bk_id b = k \<and> bk_status b = HOLD \<and> hold_lapsed now b) \<and> cal_step (agenda d) (Free k) (agenda d')
    else agenda d' = agenda d"
proof (cases "getOwnedBooking d k u")
  case (Inl e)
  with assms(2) show ?thesis by (auto simp: confirm_def getOwnedBooking_def split: option.splits if_splits)
next
  case (Inr b)
  note b = getOwnedBooking_Inr [OF Inr]
  have u: "unique_key bk_id (bookings d)" using assms(1) by (simp add: bookings_ok_def)
  have kept_slot: "agenda d' = agenda d" if "bk_status b = HOLD" "\<not> hold_lapsed now b"
  proof -
    let ?n = "if needs_deposit d b then PENDING else CONFIRMED"
    let ?d = "update_booking (bk_id b) (\<lambda>b. b\<lparr>bk_status := ?n, bk_holdExpiresAt := None\<rparr>) d"
    have "bookings d' = bookings ?d"
      using assms(2) that b by (auto simp: confirm_def Inr Let_def frame_simps split: if_splits)
    then have "agenda d' = agenda ?d" by (rule agenda_cong)
    also have "\<dots> = agenda d" using b that(1) by (intro agenda_keep [OF u]) (auto simp: slot_of_def)
    finally show ?thesis .
  qed
  have "cal_step (agenda d) (Free k) (agenda d')" if "bk_status b = HOLD" "hold_lapsed now b"
    using assms(2) b that agenda_free [OF u, of b "\<lambda>b. b\<lparr>bk_status := CANCELLED, bk_cancelReason := Some ''confirmation deadline passed''\<rparr>"]
    by (auto simp: confirm_def Inr)
  with kept_slot b assms(2) show ?thesis by (auto simp: confirm_def Inr split: if_splits)
qed

lemma confirm_each_moves:
  assumes "bookings_ok (bookings d)" "confirm_each ids clock u bs d = (r, d')"
  shows "if r = Inl (BadRequest HoldExpired) then \<exists>b \<in> set bs. cal_step (agenda d) (Free (bk_id b)) (agenda d')
    else agenda d' = agenda d"
  using assms
proof (induction bs arbitrary: ids clock d r)
  case (Cons b bs)
  obtain x d1 where c: "confirm (ids 0) (clock 0) (bk_id b) u d = (x, d1)" by fastforce
  note one = confirm_moves [OF Cons.prems(1) c]
  have ok: "bookings_ok (bookings d1)"
    using BookingInv.confirm_step [OF Cons.prems(1), of "ids 0" "clock 0" "bk_id b" u] by (simp add: c booking_step_def)
  show ?case
  proof (cases x)
    case (Inl e)
    with Cons.prems(2) one show ?thesis by (auto simp: c)
  next
    case (Inr y)
    obtain z d2 where rest: "confirm_each (\<lambda>i. ids (Suc i)) (\<lambda>i. clock (Suc i)) u bs d1 = (z, d2)" by fastforce
    have d2: "d2 = d'" and z: "z = Inl e \<longleftrightarrow> r = Inl e" for e
      using Cons.prems(2) by (auto simp: c Inr rest split: sum.splits)
    show ?thesis using one z [of "BadRequest HoldExpired"] Cons.IH [OF ok rest [unfolded d2]] by (auto simp: Inr)
  qed
qed simp

lemma updateStatus_moves:
  assumes "db_ok d" "updateStatus now z k s d = (r, d')"
  shows "case r of Inl e \<Rightarrow> d' = d | Inr _ \<Rightarrow>
    if is_active s then agenda d' = agenda d else cal_step (agenda d) (Free k) (agenda d')"
proof (cases "find_business_booking d k z")
  case None
  with assms(2) show ?thesis by (auto simp: updateStatus_def)
next
  case (Some b)
  note b = find_business_booking_Some [OF Some]
  have u: "unique_key bk_id (bookings d)" using db_okD(6) [OF assms(1)] by (simp add: bookings_ok_def)
  show ?thesis
  proof (cases "s \<in> set (ALLOWED_STATUS_TRANSITIONS (bk_status b))")
    case True
    then have "is_active (bk_status b)" by (cases "bk_status b") auto
    with True assms(2) b agenda_keep [OF u, of b "\<lambda>b. b\<lparr>bk_status := s, bk_cancelledAt := (if s = CANCELLED then Some now else bk_cancelledAt b)\<rparr>"]
      agenda_free [OF u, of b "\<lambda>b. b\<lparr>bk_status := s, bk_cancelledAt := (if s = CANCELLED then Some now else bk_cancelledAt b)\<rparr>"]
    show ?thesis by (auto simp: updateStatus_def Some Let_def slot_of_def)
  qed (use assms(2) in \<open>auto simp: updateStatus_def Some\<close>)
qed

lemma confirm_and_award_moves:
  assumes "unique_key bk_id (bookings d)" "b \<in> set (bookings d)" "bk_status b = PENDING" "bookings e = bookings d"
  shows "agenda (confirm_and_award ids now u b e) = agenda d"
proof -
  have "agenda (confirm_and_award ids now u b e) = agenda (update_booking (bk_id b) (\<lambda>b. b\<lparr>bk_status := CONFIRMED\<rparr>) d)"
    using assms(4) by (intro agenda_cong) (simp add: confirm_and_award_def frame_simps update_booking_def)
  also have "\<dots> = agenda d" using assms(3) by (intro agenda_keep [OF assms(1,2)]) (auto simp: slot_of_def)
  finally show ?thesis .
qed

lemma initiate_moves:
  assumes "db_ok d" "initiate G url gid ids now n u dto (d, g) = (r, (e, g'))"
  shows "agenda e = agenda d"
  using assms(2)
proof (cases rule: initiate_cases)
  case (wallet b p)
  have u: "unique_key bk_id (bookings d)" using db_okD(6) [OF assms(1)] by (simp add: bookings_ok_def)
  from wallet(8) show ?thesis
  proof (cases rule: payFromWallet_cases)
    case (paid w c)
    have "c = b" using paid(3) unique_key_find [OF u wallet(1)] by simp
    with wallet(1,4) show ?thesis unfolding paid(5) by (intro confirm_and_award_moves [OF u]) (simp_all add: frame_simps)
  qed simp
next
  case (gateway b s)
  then have "bookings e = bookings d"
    by (auto simp: payFromGateway_def open_session_def Let_def update_payment_def split: prod.splits)
  then show ?thesis by (rule agenda_cong)
qed simp

lemma callback_moves:
  assumes "db_ok d" "handleCallback G gid ids now gw ref (d, g) = (r, (e, g'))"
  shows "agenda e = agenda d"
proof -
  have u: "unique_key bk_id (bookings d)" using db_okD(6) [OF assms(1)] by (simp add: bookings_ok_def)
  consider "bookings e = bookings d" | p where "e = apply_success ids now p d"
    using assms(2) by (auto simp: handleCallback_def frame_simps split: option.splits if_splits prod.splits)
  then show ?thesis
  proof cases
    case (2 p)
    let ?d = "update_payment (pay_id p) (\<lambda>p. p\<lparr>pay_status := SUCCESS, pay_callbackVerifiedAt := Some now\<rparr>) d"
    have "bookings e = bookings d \<or> (\<exists>b. List.find (\<lambda>b. bk_id b = the (pay_bookingId p)) (bookings d) = Some b
        \<and> bk_status b = PENDING \<and> e = confirm_and_award ids now (pay_userId p) b ?d)"
      unfolding 2
      by (cases "List.find (\<lambda>b. bk_id b = the (pay_bookingId p)) (bookings d)"; cases "find_wallet ?d (pay_userId p)")
        (simp_all add: apply_success_def Let_def frame_simps)
    then show ?thesis
      using agenda_cong [of e d] confirm_and_award_moves [OF u, of _ ?d ids now "pay_userId p"]
      by (auto simp: frame_simps dest!: find_SomeD)
  qed (rule agenda_cong)
qed

section \<open>Every transition makes the moves stated for it\<close>

text \<open>
  The alternatives for one transition, each a list of calendar operations; nearly always
  there is one. The lapsed hold of a group is one of the group.
\<close>

fun booking_moves :: "db \<Rightarrow> draws \<Rightarrow> unit result \<Rightarrow> BookingController \<Rightarrow> cal_op list list" where
  "booking_moves d dr res (Booking_hold dto) =
     (if res = Inr () then
        [[Reserve (uuid dr 0) (hb_branchId dto, hb_staffMemberId dto) (hb_startTime dto)
           (hb_startTime dto + duration_of d (hb_serviceId dto))]]
      else [[]])"
| "booking_moves d dr res (Booking_createRecurring dto) =
     (if res = Inr () then
        [map (\<lambda>i. Reserve (uuid dr (Suc i)) (rb_branchId dto, rb_staffMemberId dto)
           (rb_startTime dto + int i * 604800000)
           (rb_startTime dto + int i * 604800000 + duration_of d (rb_serviceId dto))) [0..<rb_occurrences dto]]
      else [[]])"
| "booking_moves d dr res (Booking_confirm k) =
     (if res = Inl (BadRequest HoldExpired) then
        map (\<lambda>b. [Free k]) (filter (\<lambda>b. bk_id b = k \<and> bk_status b = HOLD \<and> hold_lapsed (now_of dr) b) (bookings d))
      else [[]])"
| "booking_moves d dr res (Booking_confirmGroup g) =
     (if res = Inl (BadRequest HoldExpired) then
        map (\<lambda>b. [Free (bk_id b)]) (filter (\<lambda>b. bk_recurringGroupId b = Some g) (bookings d))
      else [[]])"
| "booking_moves d dr res (Booking_cancel k _) = [if res = Inr () then [Free k] else []]"
| "booking_moves d dr res (Booking_reschedule k s) =
     (if res = Inr () then
        map (\<lambda>b. [Move k s (s + duration_of d (bk_serviceId b))]) (filter (\<lambda>b. bk_id b = k) (bookings d))
      else [[]])"
| "booking_moves d dr res Booking_listMine = [[]]"

fun business_booking_moves :: "unit result \<Rightarrow> BusinessBookingController \<Rightarrow> cal_op list list" where
  "business_booking_moves res (BusinessBooking_list z _) = [[]]"
| "business_booking_moves res (BusinessBooking_updateStatus z k s) =
     [if res = Inr () \<and> \<not> is_active s then [Free k] else []]"
| "business_booking_moves res (BusinessBooking_cancel z k _) = [if res = Inr () then [Free k] else []]"

fun moves_of :: "db \<Rightarrow> event \<Rightarrow> cal_op list list" where
  "moves_of d (Request dr sub ep res) =
     (case ep of
        BookingRoute r \<Rightarrow> booking_moves d dr res r
      | BusinessBookingRoute r \<Rightarrow> business_booking_moves res r
      | _ \<Rightarrow> [[]])"
| "moves_of d (CleanUp now) = [map (\<lambda>b. Free (bk_id b)) (filter (expired_hold now) (bookings d))]"

definition makes_moves :: "db \<Rightarrow> cal_op list list \<Rightarrow> db \<Rightarrow> bool" where
  "makes_moves d opss d' \<longleftrightarrow> (\<exists>ops \<in> set opss. run cal_step (agenda d) ops (agenda d'))"

lemma makes_none: "agenda d' = agenda d \<Longrightarrow> makes_moves d [[]] d'"
  by (simp add: makes_moves_def)

lemma makes_one: "cal_step (agenda d) op (agenda d') \<Longrightarrow> [op] \<in> set opss \<Longrightarrow> makes_moves d opss d'"
  unfolding makes_moves_def by (blast intro: run.move run.stop)

lemma refused_moves: "e \<noteq> BadRequest HoldExpired \<Longrightarrow> moves_of d (Request dr sub ep (Inl e)) = [[]]"
proof -
  assume "e \<noteq> BadRequest HoldExpired"
  then have "booking_moves d dr (Inl e) r = [[]]" "business_booking_moves (Inl e) q = [[]]" for r q
    by (cases r; simp) (cases q; simp)
  then show ?thesis by (simp split: endpoint.split)
qed

lemma jwt_error: "jwt_validate k d = Inl e \<Longrightarrow> e = Unauthorized AccountInvalid"
  by (simp add: jwt_validate_def split: option.splits if_splits)

lemma guards_error: "guards rt (authenticate sub d) z d = Inl e \<Longrightarrow> e \<noteq> BadRequest HoldExpired"
  using jwt_error by (auto simp: guards_eq authenticate_def split: option.splits if_splits prod.splits sum.splits)

section \<open>The operations make them\<close>

lemma hold_makes:
  assumes "db_ok d" "fresh_key bk_id (uuid dr 0) (bookings d)"
    "hold R now later tok (uuid dr 0) u dto (d, r) = (res, (d', r'))"
  shows "makes_moves d (booking_moves d dr (status_of res) (Booking_hold dto)) d'"
proof (cases res)
  case (Inl e)
  then have "d' = d" using assms(3) by (auto simp: hold_def dest: locked_Inl split: sum.splits)
  with Inl show ?thesis by (simp add: status_of_def makes_none)
next
  case (Inr b)
  from makes_one [OF hold_refines [OF assms(1,2) assms(3) [unfolded Inr]]] show ?thesis by (simp add: Inr status_of_def)
qed

lemma createRecurring_makes:
  assumes "db_ok d" "fresh_draws d dr"
    "createRecurring now (\<lambda>i. uuid dr (Suc i)) g u dto d = (res, d')"
  shows "makes_moves d (booking_moves d dr (status_of res) (Booking_createRecurring dto)) d'"
proof (cases res)
  case (Inl e)
  then have "d' = d"
    using assms(3) by (auto simp: createRecurring_def transaction_def split: sum.splits prod.splits error.splits)
  with Inl show ?thesis by (simp add: status_of_def makes_none)
next
  case (Inr bs)
  with createRecurring_refines [OF assms(1) _ inj_later_uuids [OF assms(2)] fresh_drawsD(6) [OF assms(2)]] assms(3)
  show ?thesis by (auto simp: status_of_def makes_moves_def)
qed

lemma confirm_makes:
  assumes "bookings_ok (bookings d)" "confirm ids (now_of dr) k u d = (res, d')"
  shows "makes_moves d (booking_moves d dr (status_of res) (Booking_confirm k)) d'"
  using confirm_moves [OF assms]
  by (auto simp: status_of_def makes_none split: sum.splits if_splits intro!: makes_one)

lemma confirmGroup_makes:
  assumes "bookings_ok (bookings d)" "confirmGroup ids clock g u d = (res, d')"
  shows "makes_moves d (booking_moves d dr (status_of res) (Booking_confirmGroup g)) d'"
proof -
  let ?g = "filter (\<lambda>b. bk_recurringGroupId b = Some g \<and> bk_userId b = u) (bookings d)"
  consider e where "res = Inl e" "e \<noteq> BadRequest HoldExpired" "d' = d" | "confirm_each ids clock u ?g d = (res, d')"
    using assms(2) by (auto simp: confirmGroup_def Let_def split: if_splits)
  then show ?thesis
  proof cases
    case 2
    from confirm_each_moves [OF assms(1) this] show ?thesis
      by (auto simp: status_of_def makes_none split: sum.splits if_splits intro!: makes_one)
  qed (simp add: status_of_def makes_none)
qed

lemma cancelled_makes:
  assumes "db_ok d" "b \<in> set (bookings d)" "cancelInternal now b reason by_user d = (res, d')"
  shows "makes_moves d [if status_of res = Inr () then [Free (bk_id b)] else []] d'"
proof (cases res)
  case (Inl e)
  then have "d' = d" using assms(3) by (auto simp: cancelInternal_def Let_def split: if_splits)
  with Inl show ?thesis by (simp add: status_of_def makes_none)
next
  case (Inr x)
  from makes_one [OF cancelInternal_refines [OF assms(1) assms(3) [unfolded Inr] assms(2)]] show ?thesis
    by (simp add: Inr status_of_def)
qed

lemma cancelByUser_makes:
  assumes "db_ok d" "cancelByUser now k u reason d = (res, d')"
  shows "makes_moves d (booking_moves e dr (status_of res) (Booking_cancel k x)) d'"
proof (cases "getOwnedBooking d k u")
  case (Inr b)
  with assms(2) have "cancelInternal now b reason True d = (res, d')" by (simp add: cancelByUser_def)
  from cancelled_makes [OF assms(1) _ this] getOwnedBooking_Inr [OF Inr] show ?thesis by auto
qed (use assms in \<open>auto simp: cancelByUser_def status_of_def makes_none\<close>)

lemma cancelByBusiness_makes:
  assumes "db_ok d" "cancelByBusiness now z k reason d = (res, d')"
  shows "makes_moves d [if status_of res = Inr () then [Free k] else []] d'"
proof (cases "find_business_booking d k z")
  case (Some b)
  with assms(2) have "cancelInternal now b reason False d = (res, d')" by (simp add: cancelByBusiness_def)
  from cancelled_makes [OF assms(1) _ this] find_business_booking_Some [OF Some] show ?thesis by blast
qed (use assms in \<open>auto simp: cancelByBusiness_def status_of_def makes_none\<close>)

lemma reschedule_makes:
  assumes "db_ok d" "k \<noteq> []" "reschedule R now later tok k u s (d, r) = Some (res, (d', r'))"
  shows "makes_moves d (booking_moves d dr (status_of res) (Booking_reschedule k s)) d'"
proof (cases res)
  case (Inl e)
  then have "d' = d"
    using assms(3) by (auto simp: reschedule_def dest: locked_Inl split: sum.splits option.splits if_splits)
  with Inl show ?thesis by (simp add: status_of_def makes_none)
next
  case (Inr b)
  with assms(3) obtain c where "c \<in> set (bookings d)" "bk_id c = k"
    "cal_step (agenda d) (Move k s (s + duration_of d (bk_serviceId c))) (agenda d')"
    using reschedule_refines [OF assms(1) _ assms(2)] by metis
  then show ?thesis using Inr by (auto simp: status_of_def intro: makes_one)
qed

lemma updateStatus_makes:
  assumes "db_ok d" "updateStatus now z k s d = (res, d')"
  shows "makes_moves d [if status_of res = Inr () \<and> \<not> is_active s then [Free k] else []] d'"
  using updateStatus_moves [OF assms]
  by (auto simp: status_of_def makes_none split: sum.splits if_splits intro: makes_one)

section \<open>The routes\<close>

lemma on_lock_option_simps:
  "on_lock_option f w = Some (res, w') \<longleftrightarrow> (\<exists>x d r. f (w_db w, w_redis w) = Some (x, (d, r)) \<and> res = status_of x
     \<and> w' = w\<lparr>w_db := d, w_redis := r\<rparr>)"
  by (auto simp: on_lock_option_def on_lock_def split: option.splits prod.splits)

lemma booking_route_makes:
  assumes "BookingController_handle E dr u r w = Some (res, w')" "db_ok (w_db w)" "fresh_draws (w_db w) dr"
    "path_id (BookingRoute r) \<noteq> Some []"
  shows "makes_moves (w_db w) (booking_moves (w_db w) dr res r) (w_db w')"
proof -
  have ok: "bookings_ok (bookings (w_db w))" by (rule db_okD(6) [OF assms(2)])
  note new = fresh_drawsD(6) [OF assms(3)]
  show ?thesis
  proof (cases r)
    case (Booking_hold dto)
    with assms show ?thesis
      by (auto simp: on_lock_def simp del: booking_moves.simps split: prod.splits
          split del: if_split intro: hold_makes [OF assms(2) new])
  next
    case (Booking_createRecurring dto)
    with assms show ?thesis
      by (auto simp: on_db_def simp del: booking_moves.simps split: prod.splits
          split del: if_split intro: createRecurring_makes [OF assms(2,3)])
  next
    case (Booking_confirm k)
    with assms show ?thesis
      by (auto simp: on_db_def simp del: booking_moves.simps split: prod.splits
          split del: if_split intro: confirm_makes [OF ok])
  next
    case (Booking_confirmGroup g)
    with assms show ?thesis
      by (auto simp: on_db_def simp del: booking_moves.simps split: prod.splits
          split del: if_split intro: confirmGroup_makes [OF ok])
  next
    case (Booking_cancel k reason)
    with assms show ?thesis
      by (auto simp: on_db_def simp del: booking_moves.simps split: prod.splits
          split del: if_split intro: cancelByUser_makes [OF assms(2)])
  next
    case (Booking_reschedule k s)
    with assms show ?thesis
      by (auto simp: on_lock_option_simps simp del: booking_moves.simps split: prod.splits
          split del: if_split intro: reschedule_makes [OF assms(2)])
  next
    case Booking_listMine
    with assms(1) show ?thesis by (simp add: on_read_def makes_none)
  qed
qed

lemma business_booking_route_makes:
  assumes "BusinessBookingController_handle E dr u r w = Some (res, w')" "db_ok (w_db w)"
  shows "makes_moves (w_db w) (business_booking_moves res r) (w_db w')"
proof (cases r)
  case (BusinessBooking_list z dto)
  with assms(1) show ?thesis by (simp add: on_read_def makes_none)
next
  case (BusinessBooking_updateStatus z k s)
  with assms show ?thesis
      by (auto simp: on_db_def simp del: booking_moves.simps split: prod.splits
          split del: if_split intro: updateStatus_makes [OF assms(2)])
next
  case (BusinessBooking_cancel z k reason)
  with assms show ?thesis
      by (auto simp: on_db_def simp del: booking_moves.simps split: prod.splits
          split del: if_split intro: cancelByBusiness_makes [OF assms(2)])
qed

lemma payment_route_agenda:
  assumes "PaymentController_handle E dr u r w = Some (res, w')" "db_ok (w_db w)"
  shows "agenda (w_db w') = agenda (w_db w)"
proof (cases r)
  case (Payment_initiate dto)
  with assms show ?thesis
      by (auto simp: on_gateway_def simp del: booking_moves.simps split: prod.splits
          split del: if_split intro: initiate_moves [OF assms(2)])
next
  case (Payment_callback gw ref)
  with assms show ?thesis
      by (auto simp: on_gateway_def simp del: booking_moves.simps split: prod.splits
          split del: if_split intro: callback_moves [OF assms(2)])
next
  case (Payment_refund k reason)
  with handle_confined [of E dr u "PaymentRoute r" w res w'] assms(1) show ?thesis
    by (intro agenda_cong) (auto simp: confined_def dest: frameD(1))
qed

lemma other_route_agenda:
  assumes "handle E dr u ep w = Some (res, w')" "db_ok (w_db w)" "\<And>r. ep \<noteq> BookingRoute r" "\<And>r. ep \<noteq> BusinessBookingRoute r"
  shows "agenda (w_db w') = agenda (w_db w)"
proof (cases "\<exists>r. ep = PaymentRoute r")
  case True
  then show ?thesis using assms(1,2) payment_route_agenda by auto
next
  case False
  then have "T_bookings \<notin> writes ep" using assms(3,4) by (cases ep rule: writes.cases) auto
  with handle_confined [OF assms(1)] show ?thesis by (intro agenda_cong) (auto simp: confined_def dest: frameD(1))
qed

lemma handle_makes:
  assumes "handle E dr u ep w = Some (res, w')" "db_ok (w_db w)" "fresh_draws (w_db w) dr" "path_id ep \<noteq> Some []"
  shows "makes_moves (w_db w) (moves_of (w_db w) (Request dr sub ep res)) (w_db w')"
proof -
  consider r where "ep = BookingRoute r" | r where "ep = BusinessBookingRoute r"
    | "\<And>r. ep \<noteq> BookingRoute r" "\<And>r. ep \<noteq> BusinessBookingRoute r" by (cases ep) auto
  then show ?thesis
  proof cases
    case 3
    then have "moves_of (w_db w) (Request dr sub ep res) = [[]]" by (simp split: endpoint.split)
    with makes_none [OF other_route_agenda [OF assms(1,2) 3]] show ?thesis by simp
  qed (use assms booking_route_makes business_booking_route_makes in auto)
qed

lemma clean_up_makes:
  assumes "bookings_ok (bookings d)"
  shows "makes_moves d (moves_of d (CleanUp now)) (handleExpiredHolds now d)"
proof -
  let ?bs = "filter (expired_hold now) (bookings d)"
  have u: "unique_key bk_id (bookings d)" using assms by (simp add: bookings_ok_def)
  then have "distinct (map bk_id ?bs)" by (simp add: unique_key_def distinct_map_filter)
  moreover have "agenda d k \<noteq> None" if "k \<in> set (map bk_id ?bs)" for k
  proof -
    from that obtain b where "b \<in> set (bookings d)" "bk_id b = k" "is_active (bk_status b)"
      by (auto simp: expired_hold_def)
    then have "agenda d k = Some (slot_of b)" using agenda_in [OF u] by blast
    then show ?thesis by simp
  qed
  ultimately have "run cal_step (agenda d) (map Free (map bk_id ?bs))
      (\<lambda>k. if k \<in> set (map bk_id ?bs) then None else agenda d k)" by (rule run_frees)
  moreover have "(\<lambda>k. if k \<in> set (map bk_id ?bs) then None else agenda d k) = agenda (handleExpiredHolds now d)"
    by (rule ext) (auto simp: cleanup_refines [OF u])
  ultimately show ?thesis by (simp add: makes_moves_def comp_def)
qed

lemma serve_moves_cases:
  assumes "serve E dr sub ep w = Some (res, w')"
  obtains (refused) e where "res = Inl e" "w' = w" "e \<noteq> BadRequest HoldExpired"
  | (handled) u where "path_id ep \<noteq> Some []" "handle E dr u ep w = Some (res, w')"
proof -
  note ans = assms [unfolded serve_def]
  show thesis
  proof (cases "path_id ep = Some []")
    case True
    with ans refused [of "NotFound NoRoute"] show thesis by simp
  next
    case False
    note path = this
    show thesis
    proof (cases "guards (route_of ep) (authenticate sub (w_db w)) (path_id ep) (w_db w)")
      case (Inl e)
      show thesis by (rule refused [OF _ _ guards_error [OF Inl]]) (use ans path Inl in simp_all)
    next
      case (Inr u)
      show thesis
      proof (cases "valid_request (E_validators E) ep")
        case True
        show thesis by (rule handled [of "user_id u"]) (use ans path Inr True in simp_all)
      next
        case False
        show thesis by (rule refused [of "BadRequest ValidationFailed"]) (use ans path Inr False in simp_all)
      qed
    qed
  qed
qed

lemma transition_makes:
  assumes "transition E w ev w'" "db_ok (w_db w)"
  shows "makes_moves (w_db w) (moves_of (w_db w) ev) (w_db w')"
  using assms(1)
proof (cases rule: transition.cases)
  case (request dr sub ep res)
  from request(3) show ?thesis
  proof (cases rule: serve_moves_cases)
    case (refused e)
    then show ?thesis unfolding request(1) by (simp add: refused_moves makes_none del: moves_of.simps)
  next
    case (handled u)
    show ?thesis unfolding request(1) by (rule handle_makes [OF handled(2) assms(2) request(2) handled(1)])
  qed
next
  case (throttled dr ep sub u)
  then show ?thesis by (simp add: refused_moves makes_none del: moves_of.simps)
next
  case (clean_up now)
  then show ?thesis using clean_up_makes [OF db_okD(6) [OF assms(2)]] by simp
qed

lemma history_makes:
  assumes "run (transition E) w es w'" "db_ok (w_db w)"
  shows "\<exists>opss. length opss = length es \<and> run cal_step (agenda (w_db w)) (concat opss) (agenda (w_db w'))"
  using assms
proof (induction rule: run.induct)
  case (move w e v es w')
  have "run (transition E) w [e] v" by (rule run.move, rule move(1), rule run.stop)
  from reached_ok [OF this move.prems] have "db_ok (w_db v)" .
  from move.IH [OF this] obtain opss where "length opss = length es" "run cal_step (agenda (w_db v)) (concat opss) (agenda (w_db w'))"
    by blast
  moreover obtain ops where "run cal_step (agenda (w_db w)) ops (agenda (w_db v))"
    using transition_makes [OF move(1) move.prems] unfolding makes_moves_def by blast
  ultimately have "length (ops # opss) = length (e # es)" "run cal_step (agenda (w_db w)) (concat (ops # opss)) (agenda (w_db w'))"
    by (auto simp: run_append)
  then show ?case by blast
qed (auto intro!: exI [of _ "[]"])

section \<open>The property\<close>

text \<open>
  C2. The backend refines the calendar. In every state that it reaches from a sound database,
  whatever the next transition is, the reservations change by exactly the calendar operations
  that \<open>moves_of\<close> states for it: a \<open>hold\<close> that succeeds reserves the slot for the length of
  the service, a recurring request that succeeds reserves the whole weekly series, a
  rescheduling moves one reservation, a cancellation by either side and a change of status to
  COMPLETED, NO_SHOW or CANCELLED free it, a confirmation frees it only when it is refused for
  a lapsed hold (and then the hold had lapsed), and the clean-up job frees precisely the
  lapsed holds. Nothing else makes a move: no refused request, no successful confirmation,
  no payment, no other route. So every history of the backend is a history of the calendar,
  with the operations of its transitions one after the other, and its reservations are free
  of overlaps as every reachable calendar is.
\<close>

theorem reservation_service_refines_calendar:
  assumes "run (transition E) w es w'" "db_ok (w_db w)"
  shows "(\<forall>ev w''. transition E w' ev w'' \<longrightarrow>
      (\<exists>ops \<in> set (moves_of (w_db w') ev). run cal_step (agenda (w_db w')) ops (agenda (w_db w''))))
    \<and> (\<exists>opss. length opss = length es \<and> run cal_step (agenda (w_db w)) (concat opss) (agenda (w_db w')))
    \<and> no_overlap (agenda (w_db w'))"
proof -
  obtain ops where "run cal_step (agenda (w_db w)) ops (agenda (w_db w'))" using history_makes [OF assms] by blast
  then have "no_overlap (agenda (w_db w'))"
    using spec.run_inv agenda_no_overlap [OF db_okD(6) [OF assms(2)]] by blast
  then show ?thesis
    using transition_makes reached_ok [OF assms] history_makes [OF assms] unfolding makes_moves_def by blast
qed

text \<open>Ann's cancellation frees the only reservation; the clean-up job then has nothing to free.\<close>

theorem reservation_service_refines_calendar_witness:
  "\<exists>w'. run (transition city_env) (city_world [demo_booking ''k'' CONFIRMED nine]) [hd city_history] w'
     \<and> moves_of (city [demo_booking ''k'' CONFIRMED nine]) (hd city_history) = [[Free ''k'']]
     \<and> agenda (city [demo_booking ''k'' CONFIRMED nine]) ''k'' = Some ((''br'', Some ''st''), nine, nine + 1800000)
     \<and> cal_step (agenda (city [demo_booking ''k'' CONFIRMED nine])) (Free ''k'') (agenda (w_db w'))
     \<and> agenda (w_db w') ''k'' = None \<and> no_overlap (agenda (w_db w'))"
proof -
  let ?w = "city_world [demo_booking ''k'' CONFIRMED nine]"
  obtain u where u: "run (transition city_env) ?w city_history u" using city_run [of "[]"] by auto
  then obtain v where v: "transition city_env ?w (hd city_history) v" by (auto simp: city_history_def run_Cons)
  have ok: "db_ok (w_db ?w)" using city_ok [OF demo_bookings_ok_single] by simp
  have moves: "moves_of (w_db ?w) (hd city_history) = [[Free ''k'']]" by (simp add: city_history_def)
  from reservation_service_refines_calendar [OF run.stop ok] v moves
  have step: "cal_step (agenda (w_db ?w)) (Free ''k'') (agenda (w_db v))" by (fastforce simp: run_Cons)
  then have gone: "agenda (w_db v) ''k'' = None" by (auto elim: cal_step.cases)
  have one: "run (transition city_env) ?w [hd city_history] v" by (rule run.move, rule v, rule run.stop)
  have "no_overlap (agenda (w_db v))"
    using reservation_service_refines_calendar [OF one ok] by blast
  moreover have "agenda (w_db ?w) ''k'' = Some ((''br'', Some ''st''), nine, nine + 1800000)"
    by (simp add: agenda_def slot_of_def demo_booking_sel)
  ultimately show ?thesis using step moves one gone by auto
qed

end
