(* ===== verification/References.thy ===== *)
theory References
  imports Footprint
begin

text \<open>
  The foreign keys of \<open>prisma/schema.prisma\<close>, and more than the database can check: which
  rows exist (\<open>rows_of\<close>, with the business, customer or price that a reference relies on) and
  which rows others refer to (\<open>links_of\<close>). \<open>refs_ok\<close>: every reference resolves, inside the
  same business. It extends through updates as conformance of a heap does: rows are never
  removed, so an operation only answers for the references it adds (\<open>refs_step\<close>).
\<close>

section \<open>Rows and references\<close>

datatype ref =
    R_user id | R_admin id | R_business id | R_branch id | R_branch_of id id | R_staff id | R_staff_of id id | R_service_of id id
  | R_team id id | R_booking_of id id | R_deposit id id money | R_wallet id | R_account id | R_coupon id

fun rows_of :: "table \<Rightarrow> db \<Rightarrow> ref set" where
  "rows_of T_users d = (\<Union>u \<in> set (users d). insert (R_user (usr_id u)) (if usr_globalRole u = ADMIN then {R_admin (usr_id u)} else {}))"
| "rows_of T_businesses d = (\<lambda>b. R_business (biz_id b)) ` set (businesses d)"
| "rows_of T_branches d = (\<Union>r \<in> set (branches d). {R_branch (br_id r), R_branch_of (br_id r) (br_businessId r)})"
| "rows_of T_staff_members d = (\<Union>m \<in> set (staff_members d). {R_staff (sm_id m), R_staff_of (sm_id m) (sm_businessId m)})"
| "rows_of T_services d = (\<lambda>s. R_service_of (sv_id s) (sv_businessId s)) ` set (services d)"
| "rows_of T_bookings d = (\<Union>b \<in> set (bookings d). {R_booking_of (bk_id b) (bk_userId b), R_deposit (bk_id b) (bk_userId b) (bk_depositRequired b)})"
| "rows_of T_wallets d = (\<lambda>w. R_wallet (wal_id w)) ` set (wallets d)"
| "rows_of T_loyalty_accounts d = (\<lambda>a. R_account (la_id a)) ` set (loyalty_accounts d)"
| "rows_of T_coupons d = (\<lambda>c. R_coupon (cp_id c)) ` set (coupons d)"
| "rows_of _ d = {}"

text \<open>A service and a staff member of the same business form a team.\<close>

definition rows :: "db \<Rightarrow> ref set" where
  "rows d = (\<Union>t. rows_of t d) \<union> {R_team s m | s m z. R_service_of s z \<in> rows_of T_services d \<and> R_staff_of m z \<in> rows_of T_staff_members d}"

text \<open>An optional reference.\<close>

definition opt :: "('k \<Rightarrow> ref) \<Rightarrow> 'k option \<Rightarrow> ref set" where
  "opt f x = (case x of None \<Rightarrow> {} | Some k \<Rightarrow> {f k})"

lemma opt_simps [simp]: "opt f None = {}" "opt f (Some k) = {f k}"
  by (simp_all add: opt_def)

lemma opt_sub [simp]: "opt f x \<subseteq> S \<longleftrightarrow> (case x of None \<Rightarrow> True | Some k \<Rightarrow> f k \<in> S)"
  by (cases x) simp_all

definition booking_links :: "booking \<Rightarrow> ref set" where
  "booking_links b = {R_user (bk_userId b), R_business (bk_businessId b), R_branch_of (bk_branchId b) (bk_businessId b),
     R_service_of (bk_serviceId b) (bk_businessId b)} \<union> opt (\<lambda>m. R_staff_of m (bk_businessId b)) (bk_staffMemberId b)"

definition payment_links :: "payment \<Rightarrow> ref set" where
  "payment_links p = insert (R_user (pay_userId p)) (opt (\<lambda>k. R_deposit k (pay_userId p) (pay_amount p)) (pay_bookingId p))"

definition usage_links :: "coupon_usage \<Rightarrow> ref set" where
  "usage_links u = {R_coupon (cu_couponId u), R_user (cu_userId u)} \<union> opt (\<lambda>k. R_booking_of k (cu_userId u)) (cu_bookingId u)"

fun links_of :: "table \<Rightarrow> db \<Rightarrow> ref set" where
  "links_of T_otp_codes d = (\<Union>c \<in> set (otp_codes d). opt R_user (otp_userId c))"
| "links_of T_refresh_tokens d = (\<lambda>t. R_user (rt_userId t)) ` set (refresh_tokens d)"
| "links_of T_businesses d = (\<lambda>b. R_user (biz_ownerId b)) ` set (businesses d)"
| "links_of T_documents d = (\<lambda>x. R_business (doc_businessId x)) ` set (documents d)"
| "links_of T_branches d = (\<lambda>r. R_business (br_businessId r)) ` set (branches d)"
| "links_of T_staff_members d = (\<Union>m \<in> set (staff_members d). {R_user (sm_userId m), R_business (sm_businessId m)}
     \<union> opt (\<lambda>r. R_branch_of r (sm_businessId m)) (sm_branchId m))"
| "links_of T_working_hours d = (\<Union>h \<in> set (working_hours_tbl d). opt R_branch (wh_branchId h) \<union> opt R_staff (wh_staffMemberId h))"
| "links_of T_holidays d = (\<Union>h \<in> set (holidays d). opt R_branch (hol_branchId h) \<union> opt R_staff (hol_staffMemberId h))"
| "links_of T_services d = (\<lambda>s. R_business (sv_businessId s)) ` set (services d)"
| "links_of T_service_staffs d = (\<lambda>a. R_team (ss_serviceId a) (ss_staffMemberId a)) ` set (service_staffs d)"
| "links_of T_bookings d = (\<Union>b \<in> set (bookings d). booking_links b)"
| "links_of T_payments d = (\<Union>p \<in> set (payments d). payment_links p)"
| "links_of T_wallets d = (\<lambda>w. R_user (wal_userId w)) ` set (wallets d)"
| "links_of T_wallet_txs d = (\<lambda>x. R_wallet (wtx_walletId x)) ` set (wallet_txs d)"
| "links_of T_settlements d = (\<lambda>x. R_business (stl_businessId x)) ` set (settlements d)"
| "links_of T_coupons d = (\<Union>c \<in> set (coupons d). opt R_business (cp_businessId c))"
| "links_of T_coupon_usages d = (\<Union>u \<in> set (coupon_usages d). usage_links u)"
| "links_of T_loyalty_accounts d = (\<lambda>a. R_user (la_userId a)) ` set (loyalty_accounts d)"
| "links_of T_loyalty_txs d = (\<lambda>x. R_account (ltx_accountId x)) ` set (loyalty_txs d)"
| "links_of T_referrals d = (\<Union>r \<in> set (referrals d). {R_user (ref_referrerId r), R_user (ref_refereeId r)})"
| "links_of T_audit_logs d = (\<Union>l \<in> set (audit_logs d). opt R_admin (al_actorId l))"
| "links_of _ d = {}"

definition links :: "db \<Rightarrow> ref set" where
  "links d = (\<Union>t. links_of t d)"

text \<open>A branch or staff member is never identified by the empty text, which the code takes for absent.\<close>

definition named :: "db \<Rightarrow> bool" where
  "named d \<longleftrightarrow> R_branch [] \<notin> rows_of T_branches d \<and> R_staff [] \<notin> rows_of T_staff_members d"

definition refs_ok :: "db \<Rightarrow> bool" where
  "refs_ok d \<longleftrightarrow> links d \<subseteq> rows d \<and> named d"

section \<open>Steps\<close>

definition refs_step :: "db \<Rightarrow> db \<Rightarrow> bool" where
  "refs_step d e \<longleftrightarrow> (\<forall>t. rows_of t d \<subseteq> rows_of t e) \<and> links e \<subseteq> links d \<union> rows e \<and> (named d \<longrightarrow> named e)"

lemma rows_mono: "(\<And>t. rows_of t d \<subseteq> rows_of t e) \<Longrightarrow> rows d \<subseteq> rows e"
  unfolding rows_def by blast

lemma refs_step_rows: "refs_step d e \<Longrightarrow> r \<in> rows d \<Longrightarrow> r \<in> rows e"
  using rows_mono [of d e] by (auto simp: refs_step_def)

lemma refs_step_refl [simp]: "refs_step d d"
  by (simp add: refs_step_def)

lemma refs_step_trans: "refs_step d e \<Longrightarrow> refs_step e f \<Longrightarrow> refs_step d f"
  using rows_mono [of e f] unfolding refs_step_def by blast

lemma refs_step_ok: "refs_step d e \<Longrightarrow> refs_ok d \<Longrightarrow> refs_ok e"
  using rows_mono [of d e] unfolding refs_step_def refs_ok_def by blast

lemma row_in: "r \<in> rows_of t d \<Longrightarrow> r \<in> rows d"
  by (auto simp: rows_def)

lemma link_in: "r \<in> links_of t d \<Longrightarrow> r \<in> links d"
  by (auto simp: links_def)

lemma refs_okD: "refs_ok d \<Longrightarrow> r \<in> links_of t d \<Longrightarrow> r \<in> rows d"
  by (auto simp: refs_ok_def dest: link_in)

lemma same_table_refs: "same_table t d e \<Longrightarrow> rows_of t e = rows_of t d \<and> links_of t e = links_of t d"
  by (cases t) auto

text \<open>
  An operation answers for the tables it writes: their rows stay, and each reference in them
  is an old one or resolves before or after the operation.
\<close>

lemma refs_stepI:
  assumes "frame T d e" "\<forall>t \<in> T. rows_of t d \<subseteq> rows_of t e"
    "\<forall>t \<in> T. links_of t e \<subseteq> links_of t d \<union> (rows d \<union> rows e)" "named d \<Longrightarrow> named e"
  shows "refs_step d e"
proof -
  have old: "rows_of t e = rows_of t d \<and> links_of t e = links_of t d" if "t \<notin> T" for t
    using assms(1) same_table_refs that unfolding frame_def by blast
  have mono: "rows_of t d \<subseteq> rows_of t e" for t using assms(2) old by (cases "t \<in> T") auto
  then have "rows d \<subseteq> rows e" by (rule rows_mono)
  then have "links_of t e \<subseteq> links d \<union> rows e" for t
    using assms(3) old link_in by (cases "t \<in> T") blast+
  then have "links e \<subseteq> links d \<union> rows e" unfolding links_def [of e] by blast
  with mono show ?thesis using assms(4) by (simp add: refs_step_def)
qed

text \<open>Outside branches and staff members nothing has to be said about names.\<close>

lemma named_frame:
  assumes "frame T d e" "T_branches \<notin> T" "T_staff_members \<notin> T" "named d"
  shows "named e"
proof -
  have "same_table T_branches d e" "same_table T_staff_members d e" using assms(1-3) unfolding frame_def by blast+
  with assms(4) show ?thesis by (simp add: named_def)
qed

lemma refs_plainI:
  assumes "frame T d e" "T_branches \<notin> T" "T_staff_members \<notin> T" "\<forall>t \<in> T. rows_of t d \<subseteq> rows_of t e"
    "\<forall>t \<in> T. links_of t e \<subseteq> links_of t d \<union> (rows d \<union> rows e)"
  shows "refs_step d e"
  using refs_stepI [OF assms(1,4,5)] named_frame [OF assms(1-3)] by blast

lemma UN_update_rows [table_simps]:
  assumes "\<And>r. g (f r) = g r"
  shows "(\<Union>r \<in> set (update_rows sel f t). g r) = (\<Union>r \<in> set t. g r)"
  using assms by (auto simp: update_rows_def split: if_splits)

lemma subset_insert_two: "A \<subseteq> insert a (insert b A)"
  by blast

lemmas ref_simps = UN_update_rows image_update_rows_same Un_upper1 subset_insertI subset_insert_two

text \<open>Where the references lead.\<close>

lemma user_row: "u \<in> set (users d) \<Longrightarrow> R_user (usr_id u) \<in> rows d"
  by (rule row_in [of _ T_users]) auto

lemma business_row: "b \<in> set (businesses d) \<Longrightarrow> R_business (biz_id b) \<in> rows d"
  by (rule row_in [of _ T_businesses]) auto

lemma business_exists_row: "business_exists d z \<longleftrightarrow> R_business z \<in> rows_of T_businesses d"
  by (auto simp: business_exists_def)

lemma branch_row:
  "r \<in> set (branches d) \<Longrightarrow> R_branch (br_id r) \<in> rows d"
  "r \<in> set (branches d) \<Longrightarrow> R_branch_of (br_id r) (br_businessId r) \<in> rows d"
  by (rule row_in [of _ T_branches]; auto)+

lemma staff_row:
  "m \<in> set (staff_members d) \<Longrightarrow> R_staff (sm_id m) \<in> rows d"
  "m \<in> set (staff_members d) \<Longrightarrow> R_staff_of (sm_id m) (sm_businessId m) \<in> rows d"
  by (rule row_in [of _ T_staff_members]; auto)+

lemma service_row: "s \<in> set (services d) \<Longrightarrow> R_service_of (sv_id s) (sv_businessId s) \<in> rows d"
  by (rule row_in [of _ T_services]) auto

lemma booking_row:
  "b \<in> set (bookings d) \<Longrightarrow> R_booking_of (bk_id b) (bk_userId b) \<in> rows d"
  "b \<in> set (bookings d) \<Longrightarrow> R_deposit (bk_id b) (bk_userId b) (bk_depositRequired b) \<in> rows d"
  by (rule row_in [of _ T_bookings]; auto)+

lemma wallet_row: "w \<in> set (wallets d) \<Longrightarrow> R_wallet (wal_id w) \<in> rows d"
  by (rule row_in [of _ T_wallets]) auto

lemma account_row: "a \<in> set (loyalty_accounts d) \<Longrightarrow> R_account (la_id a) \<in> rows d"
  by (rule row_in [of _ T_loyalty_accounts]) auto

lemma coupon_row: "c \<in> set (coupons d) \<Longrightarrow> R_coupon (cp_id c) \<in> rows d"
  by (rule row_in [of _ T_coupons]) auto

lemma found_row:
  "r \<in> set (branches d) \<Longrightarrow> br_id r = k \<Longrightarrow> br_businessId r = z \<Longrightarrow> R_branch_of k z \<in> rows d"
  "m \<in> set (staff_members d) \<Longrightarrow> sm_id m = k \<Longrightarrow> sm_businessId m = z \<Longrightarrow> R_staff_of k z \<in> rows d"
  "s \<in> set (services d) \<Longrightarrow> sv_businessId s = z \<Longrightarrow> R_service_of (sv_id s) z \<in> rows d"
  using branch_row(2) staff_row(2) service_row by blast+

lemmas resolved = found_row user_row business_row branch_row staff_row service_row booking_row wallet_row account_row coupon_row

section \<open>Accounts\<close>

lemma refs_verifyOtp:
  assumes "verifyOtp env now p q c d = (r, e)"
  shows "refs_step d e"
  using frame_verifyOtp [OF assms]
  by (rule refs_plainI)
    (use assms in \<open>auto simp: verifyOtp_def ref_simps split: option.splits if_splits del: subsetI\<close>)

lemma refs_requestOtp:
  assumes "requestOtp env n rnd now p q u (d, out) = (r, (e, out'))" "\<And>k. u = Some k \<Longrightarrow> R_user k \<in> rows d"
  shows "refs_step d e"
  using frame_requestOtp [OF assms(1)]
  by (rule refs_plainI)
    (use assms in \<open>auto simp: requestOtp_def Let_def ref_simps split: option.splits if_splits del: subsetI\<close>)

lemma refs_issue:
  assumes "issueTokenPair env now n raw u role ctx d = (r, e)" "R_user u \<in> rows d"
  shows "refs_step d e"
  using frame_issue [OF assms(1)]
  by (rule refs_plainI)
    (use assms in \<open>auto simp: issueTokenPair_def Let_def ref_simps split: if_splits del: subsetI\<close>)

lemma refs_revoke [simp]: "refs_step d (revoke_where sel now d)"
  by (rule refs_plainI [OF frame_revoke]) (auto simp: revoke_where_def ref_simps del: subsetI)

lemma refs_update_user: "(\<And>x. usr_id (f x) = usr_id x \<and> usr_globalRole (f x) = usr_globalRole x) \<Longrightarrow> refs_step d (snd (update_user u f d))"
  by (rule refs_plainI [OF frame_update_user]) (auto simp: update_user_def ref_simps split: option.splits del: subsetI)

lemma find_user_row:
  "find_user d k = Some u \<Longrightarrow> R_user (usr_id u) \<in> rows d" "find_phone d p = Some u \<Longrightarrow> R_user (usr_id u) \<in> rows d"
  by (auto simp: find_user_def find_phone_def dest!: find_SomeD intro: resolved)

lemma refs_otp_requests:
  "requestRegisterOtp env n rnd now p (d, out) = (r, (e, out')) \<Longrightarrow> refs_step d e"
  "requestLoginOtp env n rnd now p (d, out) = (r, (e, out')) \<Longrightarrow> refs_step d e"
  "forgotPassword env n rnd now p (d, out) = (r, (e, out')) \<Longrightarrow> refs_step d e"
  by (auto simp: requestRegisterOtp_def requestLoginOtp_def forgotPassword_def dest!: refs_requestOtp
      intro: find_user_row split: option.splits if_splits)

lemma refs_login: "loginWithPassword env now n raw dto ctx d = (r, e) \<Longrightarrow> refs_step d e"
  by (auto simp: loginWithPassword_def intro: refs_issue find_user_row split: option.splits if_splits)

lemma refs_refresh:
  assumes "refreshTokens env now n new old ctx d = (r, e)"
  shows "refs_step d e"
  using assms
proof (cases rule: refresh_cases)
  case (rotated t u)
  have "R_user (usr_id u) \<in> rows (revoke_where (\<lambda>x. rt_id x = rt_id t) now d)"
    using find_user_row(1) [OF rotated(4)] refs_step_rows [OF refs_revoke] by blast
  from refs_step_trans [OF refs_revoke refs_issue [OF rotated(6) this]] show ?thesis .
qed auto

lemma refs_verifyLoginOtp:
  assumes "verifyLoginOtp env now n raw p c ctx d = (r, e)"
  shows "refs_step d e"
proof -
  obtain v d1 where v: "verifyOtp (otp_env.truncate env) now p LOGIN c d = (v, d1)" by fastforce
  note step = refs_verifyOtp [OF v]
  have "refs_step d e" if "issueTokenPair env now n raw (usr_id u) role ctx d1 = (r, e)" "find_phone d p = Some u" for u role
    using refs_step_trans [OF step refs_issue [OF that(1)]] refs_step_rows [OF step find_user_row(2) [OF that(2)]] .
  then show ?thesis
    using assms step by (auto simp: verifyLoginOtp_def v split: option.splits if_splits sum.splits bool.splits)
qed

lemma refs_set_users:
  "(\<And>u. usr_id (f u) = usr_id u \<and> usr_globalRole (f u) = usr_globalRole u) \<Longrightarrow> refs_step d (d\<lparr>users := update_rows sel f (users d)\<rparr>)"
  by (rule refs_plainI [of "{T_users}"]) (auto simp: frame_iff ref_simps del: subsetI)

lemma refs_resetPassword:
  assumes "resetPassword env salt now dto d = (r, e)"
  shows "refs_step d e"
proof -
  obtain v d1 where v: "verifyOtp (otp_env.truncate env) now (rp_phone dto) RESET_PASSWORD (rp_code dto) d = (v, d1)"
    by fastforce
  note step = refs_verifyOtp [OF v]
  have "refs_step d (revoke_where s now (d1\<lparr>users := update_rows sel (\<lambda>u. u\<lparr>usr_passwordHash := h\<rparr>) (users d1)\<rparr>))" for s sel h
    by (rule refs_step_trans [OF step refs_step_trans [OF refs_set_users refs_revoke]]) simp
  then show ?thesis
    using assms step
    by (auto simp: resetPassword_def v Let_def split: option.splits sum.splits bool.splits)
qed

lemma refs_users:
  "refs_step d (snd (updateProfile u dto d))" "refs_step d (snd (revokeSession now u k d))" "refs_step d (logout env now raw d)"
  by (simp_all add: updateProfile_def revokeSession_def logout_def refs_update_user split: option.split)

lemma refs_deletion: "refs_step d (snd (requestAccountDeletion now u d))"
proof -
  let ?f = "\<lambda>u. u\<lparr>usr_status := Acc_DELETED, usr_deletedAt := Some now, usr_email := None\<rparr>"
  have step: "refs_step d (snd (update_user u ?f d))" by (rule refs_update_user) simp
  from step refs_step_trans [OF step refs_revoke] show ?thesis
    by (auto simp: requestAccountDeletion_def split: prod.splits sum.splits)
qed

lemma refs_registerReferral:
  assumes "R_user u \<in> rows d"
  shows "refs_step d (registerReferral n c u d)"
proof -
  have "frame {T_referrals} d (registerReferral n c u d)" by (simp add: registerReferral_def frame_iff split: option.split)
  moreover have "R_user c \<in> rows d" if "List.find (\<lambda>u. usr_id u = c) (users d) = Some x" for x
    using find_SomeD [OF that] user_row by auto
  ultimately show ?thesis
    using assms by (intro refs_plainI) (auto simp: registerReferral_def ref_simps split: option.splits del: subsetI)
qed

lemma refs_registered: "refs_step d (registered_db env ids salt dto d)"
proof -
  let ?e = "d\<lparr>users := insert_row (registered_user env ids salt dto) (users d),
     wallets := insert_row \<lparr>wal_id = new_wallet ids, wal_userId = new_user ids, wal_balance = 0\<rparr> (wallets d),
     loyalty_accounts := insert_row (new_account (new_account_id ids) (new_user ids)) (loyalty_accounts d)\<rparr>"
  have new: "R_user (new_user ids) \<in> rows ?e" by (rule row_in [of _ T_users]) (simp add: registered_user_def)
  have "frame {T_users, T_wallets, T_loyalty_accounts} d ?e" by (simp add: frame_iff)
  then have e: "refs_step d ?e" using new by (rule_tac refs_plainI) (auto simp: new_account_def ref_simps del: subsetI)
  from e refs_step_trans [OF e refs_registerReferral [OF new]] show ?thesis
    by (simp add: registered_db_def Let_def split: option.split)
qed

lemma refs_register:
  assumes "verifyRegisterAndCreateUser env ids salt now dto ctx d = (r, e)"
  shows "refs_step d e"
  using assms
proof (cases rule: register_cases)
  case (refused e t v)
  then show ?thesis by (blast intro: refs_verifyOtp)
next
  case (created t)
  let ?d = "registered_db env ids salt dto (d\<lparr>otp_codes := t\<rparr>)"
  have "R_user (new_user ids) \<in> rows ?d"
    by (rule row_in [of _ T_users]) (simp add: registered_frame registered_user_def)
  then have "refs_step ?d e" using created(3) by (blast intro: refs_issue)
  with refs_verifyOtp [OF created(1)] refs_registered show ?thesis using refs_step_trans by blast
qed

section \<open>Rewards\<close>

lemma refs_upsert_account:
  assumes "upsert_account n u d = (a, e)" "R_user u \<in> rows d"
  shows "refs_step d e" "a \<in> set (loyalty_accounts e)"
proof -
  have "frame {T_loyalty_accounts} d e" using assms(1) by (auto simp: upsert_account_def frame_iff split: option.splits)
  then show "refs_step d e"
    by (rule refs_plainI)
      (use assms in \<open>auto simp: upsert_account_def new_account_def ref_simps split: option.splits del: subsetI\<close>)
  show "a \<in> set (loyalty_accounts e)"
    using assms(1) by (auto simp: upsert_account_def find_account_def dest: find_SomeD split: option.splits)
qed

lemma refs_addPoints:
  assumes "R_user u \<in> rows d"
  shows "refs_step d (addPoints n t u p r f d)"
proof -
  obtain a e where up: "upsert_account n u d = (a, e)" by fastforce
  note e = refs_upsert_account [OF up assms]
  let ?e = "addPoints n t u p r f d"
  have "frame {T_loyalty_accounts, T_loyalty_txs} e ?e" by (simp add: addPoints_def up Let_def frame_iff)
  then have "refs_step e ?e"
    by (rule refs_plainI) (auto simp: addPoints_def up Let_def ref_simps account_row [OF e(2)] del: subsetI)
  with e(1) show ?thesis by (rule refs_step_trans)
qed

lemma refs_rewardIfEligible:
  assumes "refs_ok d"
  shows "refs_step d (rewardIfEligible n1 n2 t u d)"
proof (cases "find_referral d u")
  case (Some x)
  then have "x \<in> set (referrals d)" by (auto simp: find_referral_def dest: find_SomeD)
  then have users: "R_user (ref_referrerId x) \<in> rows d" "R_user (ref_refereeId x) \<in> rows d"
    using refs_okD [OF assms, of _ T_referrals] by auto
  let ?d1 = "addPoints n1 t (ref_referrerId x) REFERRAL_REWARD_POINTS ''reward for bringing a friend'' (Some (ref_id x)) d"
  let ?d2 = "addPoints n2 t (ref_refereeId x) REFERRAL_REWARD_POINTS ''welcome reward'' (Some (ref_id x)) ?d1"
  note d1 = refs_addPoints [OF users(1)]
  have "refs_step d ?d2" by (rule refs_step_trans [OF d1 refs_addPoints [OF refs_step_rows [OF d1 users(2)]]])
  moreover have "refs_step ?d2 (?d2\<lparr>referrals := update_rows sel (\<lambda>r. r\<lparr>ref_status := s, ref_rewardedAt := v\<rparr>) (referrals ?d2)\<rparr>)" for sel s v
    by (rule refs_plainI [of "{T_referrals}"]) (auto simp: frame_iff ref_simps del: subsetI)
  ultimately have "refs_step d (?d2\<lparr>referrals := update_rows sel (\<lambda>r. r\<lparr>ref_status := s, ref_rewardedAt := v\<rparr>) (referrals ?d2)\<rparr>)" for sel s v
    by (rule refs_step_trans)
  then show ?thesis by (simp add: rewardIfEligible_def Some Let_def)
qed (simp add: rewardIfEligible_def)

lemma refs_award:
  assumes "refs_ok d" "R_user u \<in> rows d"
  shows "refs_step d (awardPostPurchaseRewards ids t u amt d)"
proof -
  have "refs_step d (earnFromPurchase n t u amt r f d)" for n r f
    by (simp add: earnFromPurchase_def Let_def refs_addPoints [OF assms(2)])
  then have "refs_step d (rewardIfEligible n1 n2 t u (earnFromPurchase n t u amt r f d))" for n n1 n2 r f
    using refs_step_trans refs_rewardIfEligible refs_step_ok [OF _ assms(1)] by blast
  then show ?thesis by (simp add: awardPostPurchaseRewards_def split: prod.split)
qed

section \<open>Reservations\<close>

lemma refs_update_booking:
  assumes "\<And>b. booking_links (f b) = booking_links b \<and> bk_id (f b) = bk_id b \<and> bk_depositRequired (f b) = bk_depositRequired b"
    "\<And>b. bk_userId (f b) = bk_userId b"
  shows "refs_step d (d\<lparr>bookings := update_rows sel f (bookings d)\<rparr>)"
  by (rule refs_plainI [of "{T_bookings}"]) (auto simp: frame_iff ref_simps assms del: subsetI)

lemma refs_update_booking' [simp]:
  assumes "\<And>b. booking_links (f b) = booking_links b \<and> bk_id (f b) = bk_id b \<and> bk_depositRequired (f b) = bk_depositRequired b"
    "\<And>b. bk_userId (f b) = bk_userId b"
  shows "refs_step d (update_booking k f d)"
  using refs_update_booking [OF assms] by (simp add: update_booking_def)

lemma refs_confirm:
  assumes "refs_ok d" "R_user u \<in> rows d"
  shows "refs_step d (snd (confirm ids now k u d))"
proof -
  have up: "refs_step d (update_booking k (\<lambda>b. b\<lparr>bk_status := s, bk_holdExpiresAt := None\<rparr>) d)" for s
    by (rule refs_update_booking') (simp_all add: booking_links_def)
  have "refs_step d (awardPostPurchaseRewards ids now u a (update_booking k (\<lambda>b. b\<lparr>bk_status := s, bk_holdExpiresAt := None\<rparr>) d))" for a s
    by (rule refs_step_trans [OF up refs_award [OF refs_step_ok [OF up assms(1)] refs_step_rows [OF up assms(2)]]])
  with up show ?thesis by (simp add: confirm_def Let_def booking_links_def split: sum.split)
qed

text \<open>A confirmation and its rewards.\<close>

lemma refs_confirm_each:
  assumes "refs_ok d" "R_user u \<in> rows d"
  shows "refs_step d (snd (confirm_each ids clock u bs d))"
  using assms
proof (induction bs arbitrary: ids clock d)
  case (Cons b bs)
  obtain r e where c: "confirm (ids 0) (clock 0) (bk_id b) u d = (r, e)" by fastforce
  then have e: "refs_step d e" using refs_confirm [OF Cons.prems] by (metis snd_conv)
  have "refs_step d f" if "confirm_each g t u bs e = (x, f)" for g t x f
    using refs_step_trans [OF e Cons.IH [OF refs_step_ok [OF e Cons.prems(1)] refs_step_rows [OF e Cons.prems(2)]]]
    by (metis that snd_conv)
  with e show ?case by (auto simp: c split: prod.splits sum.splits)
qed simp

lemma refs_confirmGroup: "refs_ok d \<Longrightarrow> R_user u \<in> rows d \<Longrightarrow> refs_step d (snd (confirmGroup ids now g u d))"
  by (simp add: confirmGroup_def refs_confirm_each Let_def)

lemma refs_bookings:
  "refs_step d (snd (cancelByUser now k u r d))"
  "refs_step d (snd (cancelByBusiness now z k r d))"
  "refs_step d (snd (updateStatus now z k s d))"
  "refs_step d (handleExpiredHolds now d)"
  by (auto simp: cancelByUser_def cancelByBusiness_def cancelInternal_def updateStatus_def handleExpiredHolds_def
      releaseExpiredHolds_def Let_def booking_links_def
      intro!: refs_update_booking refs_update_booking' split: sum.split option.split)

text \<open>A reservation that is created: the checks found its business, branch, service and staff member.\<close>

definition resolves :: "db \<Rightarrow> booking \<Rightarrow> bool" where
  "resolves d b \<longleftrightarrow> booking_links (b\<lparr>bk_staffMemberId := None\<rparr>) \<subseteq> rows d
     \<and> (truthy (bk_staffMemberId b) \<longrightarrow> R_staff_of (the (bk_staffMemberId b)) (bk_businessId b) \<in> rows d)"

lemma resolves_step: "refs_step d e \<Longrightarrow> resolves d b \<Longrightarrow> resolves e b"
  unfolding resolves_def using refs_step_rows by blast

lemma refs_context:
  assumes "loadAndValidateContext d z r s m = Inr x"
  shows "R_business z \<in> rows d" "R_branch_of r z \<in> rows d" "R_service_of s z \<in> rows d"
    "truthy m \<Longrightarrow> R_staff_of (the m) z \<in> rows d"
  using assms
  by (auto simp: loadAndValidateContext_def find_branch_def find_service_def find_staff_def
      dest!: find_SomeD intro: resolved split: option.splits if_splits)

lemma refs_create_booking:
  assumes "create_booking b d = (r, e)" "resolves d b" "named d"
  shows "refs_step d e" "r = Inr x \<Longrightarrow> R_booking_of (bk_id b) (bk_userId b) \<in> rows e \<and> x = b"
proof -
  have "truthy (bk_staffMemberId b)" if "bk_staffMemberId b = Some k" "k \<in> sm_id ` set (staff_members d)" for k
    using that assms(3) by (auto simp: named_def)
  then have links: "booking_links b \<subseteq> rows d" if "e \<noteq> d"
    using assms(1,2) that by (auto simp: resolves_def booking_links_def create_booking_def opt_def split: option.splits if_splits)
  have "refs_step d (d\<lparr>bookings := insert_row b (bookings d)\<rparr>)" if "booking_links b \<subseteq> rows d"
    by (rule refs_plainI [of "{T_bookings}"]) (use that in \<open>auto simp: frame_iff\<close>)
  then show "refs_step d e"
    using assms(1) links by (cases "e = d") (auto simp: create_booking_def split: option.splits if_splits)
  show "r = Inr x \<Longrightarrow> R_booking_of (bk_id b) (bk_userId b) \<in> rows e \<and> x = b"
    using assms(1) by (auto simp: create_booking_def intro!: booking_row(1) split: option.splits if_splits)
qed

lemma refs_step_named: "refs_step d e \<Longrightarrow> named d \<Longrightarrow> named e"
  by (simp add: refs_step_def)

lemma refs_occurrences:
  assumes "\<forall>b \<in> set bs. resolves d b" "named d"
  shows "refs_step d (snd (create_occurrences bs d))"
  using assms
proof (induction bs arbitrary: d)
  case (Cons b bs)
  obtain r e where c: "create_booking b d = (r, e)" by fastforce
  have e: "refs_step d e" using refs_create_booking(1) [OF c] Cons.prems by simp
  have "refs_step d f" if "create_occurrences bs e = (x, f)" for x f
    using refs_step_trans [OF e Cons.IH] resolves_step [OF e] refs_step_named [OF e] Cons.prems that
    by (metis list.set_intros(2) snd_conv)
  with e show ?case by (auto simp: c split: prod.splits sum.splits)
qed simp

lemma refs_recurring:
  assumes "named d" "R_user u \<in> rows d"
  shows "refs_step d (snd (createRecurring now ids g u dto d))"
proof -
  obtain r e where c: "createRecurring now ids g u dto d = (r, e)" by fastforce
  have "refs_step d e"
  proof (cases "e = d")
    case False
    then obtain z x s r' where
      x: "loadAndValidateContext d (rb_businessId dto) (rb_branchId dto) (rb_serviceId dto) (rb_staffMemberId dto) = Inr (z, x, s)"
      and e: "create_occurrences (map (\<lambda>i. recurring_row now (ids i) g u dto z s (occurrence dto s i)) [0..<rb_occurrences dto]) d = (r', e)"
      using c by (auto simp: createRecurring_def transaction_def split: sum.splits prod.splits error.splits)
    have "resolves d (recurring_row now (ids i) g u dto z s (occurrence dto s i))" for i
      using refs_context [OF x] assms(2) by (simp add: resolves_def recurring_row_def booking_links_def)
    then show ?thesis using refs_occurrences [OF _ assms(1)] e by (metis (no_types, lifting) ex_map_conv snd_conv)
  qed simp
  with c show ?thesis by simp
qed

lemma refs_redeem:
  assumes "redeem_for_hold now u dto s d = (Inr (k, x), e)" "R_user u \<in> rows d"
  shows "refs_step d e"
proof (cases "truthy (hb_couponCode dto)")
  case True
  then obtain c where r: "checkAndRedeem now (the (hb_couponCode dto)) u (Some (hb_businessId dto)) (sv_price s) None d = (Inr (c, x), e)"
    using assms(1) by (auto simp: redeem_for_hold_def split: prod.splits sum.splits)
  note ok = redeem_ok [OF this]
  have "R_coupon c \<in> rows d" using ok(1) by (auto simp: check_ok_iff dest!: find_SomeD intro: resolved)
  with assms(2) show ?thesis
    unfolding ok(3)
    by (intro refs_plainI [of "{T_coupons, T_coupon_usages}"])
      (auto simp: frame_iff ref_simps usage_links_def del: subsetI)
qed (use assms(1) in \<open>simp add: redeem_for_hold_def\<close>)

lemma refs_link_usage:
  assumes "R_booking_of b u \<in> rows d"
  shows "refs_step d (link_usage k u b d)"
  by (rule refs_plainI [of "{T_coupon_usages}"])
    (use assms in \<open>auto simp: link_usage_def frame_iff usage_links_def elim!: in_update_rowsE split: if_splits\<close>)

lemma refs_locked:
  assumes "\<And>x e. body d = (Inr x, e) \<Longrightarrow> refs_step d e"
  shows "refs_step d (fst (snd (busy_as_conflict (withLock R t l tok k ttl (transaction body) (d, r)))))"
  using withLock_db [of R t l tok k ttl "transaction body" "(d, r)"] assms
    transaction_preserves [of "refs_step d" d body]
  by auto

lemma refs_hold:
  assumes "named d" "R_user u \<in> rows d"
  shows "refs_step d (fst (snd (hold R now later tok n u dto (d, r))))"
proof -
  have body: "refs_step d e"
    if x: "loadAndValidateContext d (hb_businessId dto) (hb_branchId dto) (hb_serviceId dto) (hb_staffMemberId dto) = Inr (z, y, s)"
      and h: "hold_body now n u dto z s d = (Inr b, e)" for z y s b e
  proof -
    obtain k v d1 d2 where d1: "redeem_for_hold now u dto s d = (Inr (k, v), d1)"
      and d2: "create_booking (hold_row now n u dto z s v) d1 = (Inr b, d2)" and e: "e = link_usage k u (bk_id b) d2"
      using h by (auto simp: hold_body_def split: sum.splits prod.splits)
    note one = refs_redeem [OF d1 assms(2)]
    have "resolves d (hold_row now n u dto z s v)"
      using refs_context [OF x] assms(2) by (simp add: resolves_def hold_row_def booking_links_def)
    note two = refs_create_booking [OF d2 resolves_step [OF one this] refs_step_named [OF one assms(1)]]
    have "R_booking_of (bk_id b) u \<in> rows d2" using two(2) [of b] by (auto simp: hold_row_def)
    from refs_step_trans [OF one refs_step_trans [OF two(1) refs_link_usage [OF this]]] show ?thesis by (simp add: e)
  qed
  show ?thesis
    unfolding hold_def fst_conv
    by (auto simp del: busy_as_conflict_snd split: sum.split prod.split intro!: refs_locked body)
qed

lemma refs_reschedule:
  assumes "reschedule R now later tok k u s (d, r) = Some res"
  shows "refs_step d (fst (snd res))"
proof (cases "fst (snd res) = d")
  case False
  then obtain b e key where res: "res = busy_as_conflict
      (withLock R now later tok key default_ttlMs (transaction (reschedule_body b s e)) (d, r))"
    using assms by (auto simp: reschedule_def split: sum.splits option.splits if_splits)
  have "refs_step d d'" if "reschedule_body b s e d = (Inr x, d')" for x d'
    using that by (auto simp: reschedule_body_def Let_def booking_links_def intro!: refs_update_booking' split: sum.splits)
  from refs_locked [OF this] show ?thesis by (simp add: res)
qed simp

section \<open>Money\<close>

lemma refs_upsert_wallet:
  assumes "upsert_wallet n u d = (w, e)" "R_user u \<in> rows d"
  shows "refs_step d e" "w \<in> set (wallets e)"
proof -
  show "refs_step d e"
    by (rule refs_plainI [OF frame_upsert_wallet [OF assms(1)]])
      (use assms in \<open>auto simp: upsert_wallet_def Let_def ref_simps split: option.splits del: subsetI\<close>)
  show "w \<in> set (wallets e)"
    using assms(1) by (auto simp: upsert_wallet_def Let_def dest: find_wallet_Some split: option.splits)
qed

lemma refs_post:
  assumes "w \<in> set (wallets d)"
  shows "refs_step d (post_wallet_tx now w ty m k d)"
  by (rule refs_plainI [OF frame_post])
    (use wallet_row [OF assms] in \<open>auto simp: post_wallet_tx_def Let_def ref_simps del: subsetI\<close>)

lemma payment_links_cong:
  "pay_userId q = pay_userId p \<and> pay_amount q = pay_amount p \<and> pay_bookingId q = pay_bookingId p
     \<Longrightarrow> payment_links q = payment_links p"
  by (simp add: payment_links_def)

lemma refs_update_payment:
  assumes "\<And>p. pay_userId (f p) = pay_userId p \<and> pay_amount (f p) = pay_amount p
      \<and> pay_bookingId (f p) = pay_bookingId p"
  shows "refs_step d (update_payment k f d)"
proof -
  have "payment_links (f p) = payment_links p" for p using assms by (intro payment_links_cong) simp
  then show ?thesis
    by (intro refs_plainI [OF frame_update_payment]) (simp_all add: update_payment_def ref_simps)
qed

lemma refs_new_payment:
  "payment_links p \<subseteq> rows d \<Longrightarrow> refs_step d (d\<lparr>payments := insert_row p (payments d)\<rparr>)"
  by (rule refs_plainI [of "{T_payments}"]) (auto simp: frame_iff)

lemma refs_getMine:
  assumes "R_user u \<in> rows d"
  shows "refs_step d (snd (wallet_getMine n u d))" "refs_step d (snd (loyalty_getMine n u d))"
  using refs_upsert_wallet(1) [OF _ assms, of n] refs_upsert_account(1) [OF _ assms, of n]
  by (auto simp: wallet_getMine_def loyalty_getMine_def split: prod.split)

lemma refs_confirm_and_award:
  assumes "refs_ok d" "R_user u \<in> rows d"
  shows "refs_step d (confirm_and_award ids now u b d)"
proof -
  have up: "refs_step d (update_booking (bk_id b) (\<lambda>b. b\<lparr>bk_status := CONFIRMED\<rparr>) d)"
    by (rule refs_update_booking') (simp_all add: booking_links_def)
  from refs_step_trans [OF up refs_award [OF refs_step_ok [OF up assms(1)] refs_step_rows [OF up assms(2)]]]
  show ?thesis by (simp add: confirm_and_award_def)
qed

lemma refs_ok_named: "refs_ok d \<Longrightarrow> named d"
  by (simp add: refs_ok_def)

text \<open>The rows of a payment, once its own references resolve.\<close>

lemma payment_user_row: "refs_ok d \<Longrightarrow> p \<in> set (payments d) \<Longrightarrow> R_user (pay_userId p) \<in> rows d"
  using refs_okD [of d _ T_payments] by (auto simp: payment_links_def)

lemma refs_payFromWallet:
  assumes "payFromWallet ids now n u k amt d = (r, e)" "refs_ok d" "R_user u \<in> rows d" "R_deposit k u amt \<in> rows d"
  shows "refs_step d e"
  using assms(1)
proof (cases rule: payFromWallet_cases)
  case (paid w b)
  let ?p = "deposit_payment now n k u amt" and ?d = "post_wallet_tx now w Tx_PAYMENT (- amt) k d"
  let ?f = "?d\<lparr>payments := insert_row ?p (payments ?d)\<rparr>"
  have post: "refs_step d ?d" using find_wallet_Some [OF paid(1)] by (intro refs_post) simp
  have "payment_links ?p \<subseteq> rows ?d"
    using refs_step_rows [OF post assms(3)] refs_step_rows [OF post assms(4)] by (simp add: payment_links_def deposit_payment_def)
  then have f: "refs_step d ?f" using refs_step_trans [OF post] refs_new_payment by blast
  have "refs_step d (confirm_and_award ids now u b ?f)"
    by (rule refs_step_trans [OF f refs_confirm_and_award [OF refs_step_ok [OF f assms(2)] refs_step_rows [OF f assms(3)]]])
  then show ?thesis by (simp add: paid(5) frame_simps)
qed simp

lemma refs_open_session:
  assumes "open_session G url gid desc p (d, g) = (res, (e, g'))" "payment_links p \<subseteq> rows d"
  shows "refs_step d e"
proof -
  have "refs_step f (update_payment (pay_id p) (\<lambda>p. p\<lparr>pay_gatewayRefId := x\<rparr>) f)" for x f
    by (rule refs_update_payment) simp
  then show ?thesis
    using assms(1) refs_step_trans [OF refs_new_payment [OF assms(2)]]
    by (auto simp: open_session_def Let_def split: prod.splits)
qed

lemma refs_initiate:
  assumes "initiate G url gid ids now n u dto (d, g) = (r, (e, g'))" "refs_ok d" "R_user u \<in> rows d"
  shows "refs_step d e"
  using assms(1)
proof (cases rule: initiate_cases)
  case (wallet b p)
  have "R_deposit (bk_id b) u (bk_depositRequired b) \<in> rows d" using booking_row(2) [OF wallet(1)] wallet(3) by simp
  then show ?thesis by (rule refs_payFromWallet [OF wallet(8) assms(2,3)])
next
  case (gateway b s)
  have "R_deposit (bk_id b) u (bk_depositRequired b) \<in> rows d" using booking_row(2) [OF gateway(1)] gateway(3) by simp
  with assms(3) show ?thesis
    by (intro refs_open_session [OF gateway(7) [unfolded payFromGateway_def]]) (simp add: payment_links_def initiated_payment_def)
qed simp

lemma refs_topup:
  "topup G url gid now n u amt (d, g) = (r, (e, g')) \<Longrightarrow> R_user u \<in> rows d \<Longrightarrow> refs_step d e"
  unfolding topup_def by (erule refs_open_session) (simp add: payment_links_def initiated_payment_def)

lemma refs_apply_success:
  assumes "refs_ok d" "p \<in> set (payments d)"
  shows "refs_step d (apply_success ids now p d)"
proof -
  let ?d = "update_payment (pay_id p) (\<lambda>p. p\<lparr>pay_status := SUCCESS, pay_callbackVerifiedAt := Some now\<rparr>) d"
  have d: "refs_step d ?d" by (rule refs_update_payment) simp
  have "refs_step d (post_wallet_tx now w ty m r ?d)" if "find_wallet ?d u = Some w" for w ty m r u
    using find_wallet_Some [OF that] by (intro refs_step_trans [OF d refs_post]) simp
  moreover have "refs_step d (confirm_and_award ids now (pay_userId p) b ?d)" for b
    using refs_step_trans [OF d refs_confirm_and_award [OF refs_step_ok [OF d assms(1)]]]
      refs_step_rows [OF d payment_user_row [OF assms]] by blast
  ultimately show ?thesis using d by (simp add: apply_success_def Let_def split: option.split)
qed

lemma refs_callback:
  assumes "handleCallback G gid ids now gw ref (d, g) = (r, (e, g'))" "refs_ok d"
  shows "refs_step d e"
proof -
  have "refs_step d (update_payment k (\<lambda>p. p\<lparr>pay_status := s, pay_failureReason := f p\<rparr>) d)" for k s f
    by (rule refs_update_payment) simp
  moreover have "refs_step d (apply_success ids now p d)" if "callback_payment gw ref d = Some p" for p
    using that assms(2) by (intro refs_apply_success) (auto simp: callback_payment_def dest: find_SomeD)
  ultimately show ?thesis
    using assms(1) by (auto simp: handleCallback_def split: option.splits if_splits prod.splits)
qed

lemma refs_audit: "R_admin a \<in> rows d \<Longrightarrow> refs_step d (audit_log_create (Some a) x y k z d)"
  by (rule refs_plainI [of "{T_audit_logs}"]) (auto simp: audit_log_create_def frame_iff)

lemma refs_refund:
  assumes "refs_ok d" "R_admin a \<in> rows d"
  shows "refs_step d (snd (refund now n k a why d))"
proof (cases "snd (refund now n k a why d) = d")
  case False
  let ?d = "update_payment k (\<lambda>p. p\<lparr>pay_status := REFUNDED\<rparr>) d"
  obtain p w e where p: "p \<in> set (payments d)" and up: "upsert_wallet n (pay_userId p) ?d = (w, e)"
    and res: "snd (refund now n k a why d) = audit_log_create (Some a) ''PAYMENT_REFUNDED'' ''Payment'' k
      [(''amount'', JNum (pay_amount p)), (''reason'', JStr why)] (post_wallet_tx now w Tx_REFUND (pay_amount p) (pay_id p) e)"
    using False by (auto simp: refund_def Let_def audit_log_create_def split: option.splits if_splits prod.splits dest!: find_SomeD)
  have one: "refs_step d ?d" by (rule refs_update_payment) simp
  note two = refs_upsert_wallet [OF up refs_step_rows [OF one payment_user_row [OF assms(1) p]]]
  have three: "refs_step d (post_wallet_tx now w ty m r e)" for ty m r
    by (rule refs_step_trans [OF one refs_step_trans [OF two(1) refs_post [OF two(2)]]])
  show ?thesis unfolding res by (rule refs_step_trans [OF three refs_audit [OF refs_step_rows [OF three assms(2)]]])
qed simp

section \<open>Businesses\<close>

lemma refs_business_create:
  assumes "R_user u \<in> rows d" "n \<noteq> []" "m \<noteq> []"
  shows "refs_step d (snd (business_create now n m u dto d))"
proof -
  let ?o = "\<lparr>sm_id = m, sm_userId = u, sm_businessId = n, sm_branchId = None, sm_role = OWNER, sm_specialty = None, sm_isActive = True\<rparr>"
  let ?e = "d\<lparr>businesses := insert_row (new_business now n u dto) (businesses d), staff_members := insert_row ?o (staff_members d)\<rparr>"
  have "R_business n \<in> rows ?e" by (rule row_in [of _ T_businesses]) (simp add: new_business_def)
  then have "refs_step d ?e"
    by (rule_tac refs_stepI [of "{T_businesses, T_staff_members}"])
      (use assms in \<open>auto simp: frame_iff named_def new_business_def\<close>)
  then show ?thesis by (simp add: business_create_def transaction_def Let_def)
qed

lemma refs_update_business:
  "(\<And>b. biz_id (f b) = biz_id b \<and> biz_ownerId (f b) = biz_ownerId b) \<Longrightarrow> refs_step d (snd (update_business k f d))"
  by (rule refs_plainI [of "{T_businesses}"])
    (auto simp: update_business_def frame_iff ref_simps split: sum.split del: subsetI)

lemma refs_business:
  "refs_step d (snd (business_update z dto d))"
  "refs_step d (snd (updateCancellationPolicy z pol d))"
  "refs_step d (snd (addDocument n z ty url d))"
proof -
  show "refs_step d (snd (business_update z dto d))" "refs_step d (snd (updateCancellationPolicy z pol d))"
    unfolding business_update_def updateCancellationPolicy_def by (rule refs_update_business, simp)+
  show "refs_step d (snd (addDocument n z ty url d))"
    by (rule refs_plainI [of "{T_documents}"])
      (auto simp: addDocument_def assertExists_def find_business_def Let_def frame_iff ref_simps dest!: find_SomeD
        intro: business_row split: option.splits)
qed

lemma refs_review:
  assumes "R_admin a \<in> rows d"
  shows "refs_step d (snd (review z a s why act meta d))"
proof -
  obtain r e where e: "update_business z (\<lambda>b. b\<lparr>biz_status := s, biz_rejectReason := why\<rparr>) d = (r, e)" by fastforce
  have one: "refs_step d e"
    using refs_update_business [of "\<lambda>b. b\<lparr>biz_status := s, biz_rejectReason := why\<rparr>" d z] by (simp add: e)
  show ?thesis
    using one refs_step_trans [OF one refs_audit [OF refs_step_rows [OF one assms]]]
    by (simp add: review_def e split: sum.split)
qed

section \<open>Branches, staff, services and coupons\<close>

lemma refs_branch_create: "n \<noteq> [] \<Longrightarrow> refs_step d (snd (branch_create n z dto d))"
  by (rule refs_stepI [of "{T_branches}"])
    (auto simp: branch_create_def Let_def frame_iff named_def business_exists_def intro: business_row)

lemma refs_branch_update: "refs_step d (snd (branch_update z k dto d))"
  by (rule refs_stepI [of "{T_branches}"])
    (auto simp: branch_update_def Let_def frame_iff named_def ref_simps elim!: in_update_rowsE
      split: sum.splits if_splits del: subsetI)

lemma invite_Inr:
  assumes "invite n z dto d = (Inr m, e)"
  obtains u where "u \<in> set (users d)" "business_exists d z"
    "truthy (is_branchId dto) \<Longrightarrow> R_branch_of (the (is_branchId dto)) z \<in> rows d"
    "\<And>r. is_branchId dto = Some r \<Longrightarrow> r \<in> br_id ` set (branches d)"
    "e = d\<lparr>staff_members := insert_row m (staff_members d)\<rparr>"
    "m = \<lparr>sm_id = n, sm_userId = usr_id u, sm_businessId = z, sm_branchId = is_branchId dto,
       sm_role = is_role dto, sm_specialty = is_specialty dto, sm_isActive = True\<rparr>"
proof -
  obtain u where u: "List.find (\<lambda>u. usr_phone u = is_phone dto) (users d) = Some u" "find_membership d (usr_id u) z = None"
    using assms by (auto simp: invite_def split: option.splits)
  have found: "R_branch_of k z \<in> rows d"
    if "case List.find (\<lambda>r. br_id r = k) (branches d) of None \<Rightarrow> False | Some r \<Rightarrow> br_businessId r = z" for k
    using that by (auto dest!: find_SomeD intro: resolved split: option.splits)
  from assms show thesis
    unfolding invite_def u Let_def option.case
    by (cases "is_branchId dto") (auto intro!: that [of u] intro: rev_image_eqI simp: found find_SomeD [OF u(1)] split: if_splits)
qed

lemma refs_invite:
  assumes "n \<noteq> []" "named d"
  shows "refs_step d (snd (invite n z dto d))"
proof (cases "fst (invite n z dto d)")
  case (Inr m)
  then have "invite n z dto d = (Inr m, snd (invite n z dto d))" by (metis prod.collapse)
  then show ?thesis
  proof (rule invite_Inr)
    fix u
    assume u: "u \<in> set (users d)" "business_exists d z"
      and r: "truthy (is_branchId dto) \<Longrightarrow> R_branch_of (the (is_branchId dto)) z \<in> rows d"
        "\<And>r. is_branchId dto = Some r \<Longrightarrow> r \<in> br_id ` set (branches d)"
      and e: "snd (invite n z dto d) = d\<lparr>staff_members := insert_row m (staff_members d)\<rparr>"
      and m: "m = \<lparr>sm_id = n, sm_userId = usr_id u, sm_businessId = z, sm_branchId = is_branchId dto,
        sm_role = is_role dto, sm_specialty = is_specialty dto, sm_isActive = True\<rparr>"
    have "R_business z \<in> rows d" using u(2) by (auto simp: business_exists_def intro: business_row)
    moreover have "opt (\<lambda>r. R_branch_of r z) (is_branchId dto) \<subseteq> rows d"
      using r assms(2) by (cases "is_branchId dto") (auto simp: named_def)
    ultimately show ?thesis
      unfolding e m using user_row [OF u(1)] assms(1)
      by (intro refs_stepI [of "{T_staff_members}"]) (auto simp: frame_iff named_def simp del: opt_sub)
  qed
next
  case (Inl x)
  then have "snd (invite n z dto d) = d"
    by (cases "List.find (\<lambda>u. usr_phone u = is_phone dto) (users d)"; cases "find_membership d (usr_id (the (List.find (\<lambda>u. usr_phone u = is_phone dto) (users d)))) z")
      (auto simp: invite_def Let_def split: if_splits)
  then show ?thesis by simp
qed

lemma refs_deactivate: "refs_step d (snd (deactivate z k d))"
  by (rule refs_stepI [of "{T_staff_members}"])
    (auto simp: deactivate_def frame_iff named_def ref_simps elim!: in_update_rowsE
      split: option.splits if_splits del: subsetI)

lemma refs_target:
  assumes "resolveTarget d z b m = Inr (b', m')"
  shows "(\<forall>k. b' = Some k \<longrightarrow> R_branch k \<in> rows d) \<and> (\<forall>k. m' = Some k \<longrightarrow> R_staff k \<in> rows d)"
  using assms
  by (auto simp: resolveTarget_def truthy_def dest!: find_SomeD intro: branch_row(1) staff_row(1) split: option.splits if_splits)

lemma refs_hours:
  "refs_step d (snd (setWorkingHours z hdto d))" "refs_step d (snd (addHoliday z dto d))"
proof -
  show "refs_step d (snd (setWorkingHours z hdto d))"
    by (rule refs_plainI [of "{T_working_hours}"])
      (auto simp: setWorkingHours_def Let_def frame_iff dest!: refs_target split: sum.splits option.split)
  show "refs_step d (snd (addHoliday z dto d))"
    by (rule refs_plainI [of "{T_holidays}"])
      (auto simp: addHoliday_def Let_def frame_iff dest!: refs_target split: sum.splits option.split)
qed

lemma refs_catalogue:
  "refs_step d (snd (service_create n z cdto d))" "refs_step d (snd (service_update z k udto d))"
  "refs_step d (snd (assignStaff z k m d))" "refs_step d (snd (unassignStaff z k m d))"
proof -
  show "refs_step d (snd (service_create n z cdto d))"
    by (rule refs_plainI [of "{T_services}"])
      (auto simp: service_create_def new_service_def Let_def frame_iff business_exists_def intro: business_row)
  show "refs_step d (snd (service_update z k udto d))"
    by (rule refs_plainI [of "{T_services}"])
      (auto simp: service_update_def apply_service_update_def frame_iff ref_simps split: sum.split del: subsetI)
  have "R_team k m \<in> rows d" if "s \<in> set (services d)" "sv_id s = k" "x \<in> set (staff_members d)" "sm_id x = m"
    "sm_businessId x = sv_businessId s" for s x
    using that by (auto simp: rows_def)
  then show "refs_step d (snd (assignStaff z k m d))"
    by (intro refs_plainI [of "{T_service_staffs}"])
      (auto simp: assignStaff_def assertBelongsToBusiness_def frame_iff dest!: find_SomeD split: option.splits if_splits)
  show "refs_step d (snd (unassignStaff z k m d))"
    by (rule refs_plainI [of "{T_service_staffs}"]) (auto simp: unassignStaff_def frame_iff split: sum.split)
qed

lemma refs_coupons:
  "refs_step d (snd (coupon_create n dto z d))" "refs_step d (snd (coupon_update k cdto d))"
proof -
  show "refs_step d (snd (coupon_create n dto z d))"
    by (rule refs_plainI [of "{T_coupons}"])
      (auto simp: coupon_create_def Let_def frame_iff opt_def business_exists_def intro: business_row split: option.splits)
  show "refs_step d (snd (coupon_update k cdto d))"
    by (rule refs_plainI [of "{T_coupons}"])
      (auto simp: coupon_update_def apply_coupon_update_def frame_iff ref_simps split: option.split del: subsetI)
qed

lemma refs_run_each: "refs_step d (snd (run_each bs s t d))"
proof (induction bs arbitrary: d)
  case (Cons b bs)
  obtain r e where c: "runForBusiness b s t d = (r, e)" by fastforce
  have "refs_step d e"
  proof (cases r)
    case (Inl x)
    with c show ?thesis by (auto simp: runForBusiness_def Let_def split: option.splits)
  next
    case (Inr x)
    note ok = run_ok [OF c [unfolded Inr]]
    have "R_business (stl_businessId x) \<in> rows d" using ok(5) by (auto simp: ok(1) intro: business_row)
    then show ?thesis unfolding ok(4) by (intro refs_plainI [of "{T_settlements}"]) (auto simp: frame_iff)
  qed
  moreover have "refs_step d f" if "run_each bs s t e = (x, f)" for x f
    using refs_step_trans [OF \<open>refs_step d e\<close> Cons.IH] that by (metis snd_conv)
  ultimately show ?case by (auto simp: c split: prod.splits sum.splits)
qed simp

lemma refs_runBatch: "refs_step d (snd (runBatch dto d))"
  by (auto simp: runBatch_def refs_run_each simp del: run_each.simps)

section \<open>Requests\<close>

lemma refs_read: "on_read r w = Some (res, w') \<Longrightarrow> refs_step (w_db w) (w_db w')"
  by (simp add: answer_simps)

lemma refs_db: "on_db f w = Some (res, w') \<Longrightarrow> refs_step (w_db w) (snd (f (w_db w))) \<Longrightarrow> refs_step (w_db w) (w_db w')"
  by (simp add: answer_simps)

lemma refs_sms:
  "on_sms f w = Some (res, w') \<Longrightarrow> (\<And>r e out. f (w_db w, w_outbox w) = (r, (e, out)) \<Longrightarrow> refs_step (w_db w) e)
     \<Longrightarrow> refs_step (w_db w) (w_db w')"
  by (auto simp: on_sms_def split: prod.splits)

lemma refs_gateway:
  "on_gateway f w = Some (res, w') \<Longrightarrow> (\<And>r e g. f (w_db w, w_gateway w) = (r, (e, g)) \<Longrightarrow> refs_step (w_db w) e)
     \<Longrightarrow> refs_step (w_db w) (w_db w')"
  by (auto simp: on_gateway_def split: prod.splits)

lemma refs_lock:
  "on_lock f w = Some (res, w') \<Longrightarrow> refs_step (w_db w) (fst (snd (f (w_db w, w_redis w)))) \<Longrightarrow> refs_step (w_db w) (w_db w')"
  by (simp add: answer_simps)

lemma refs_lock_option:
  "on_lock_option f w = Some (res, w') \<Longrightarrow> (\<And>x. f (w_db w, w_redis w) = Some x \<Longrightarrow> refs_step (w_db w) (fst (snd x)))
     \<Longrightarrow> refs_step (w_db w) (w_db w')"
  by (auto simp: on_lock_option_def answer_simps split: option.splits)

lemmas refs_elims = refs_read refs_db refs_sms refs_gateway refs_lock refs_lock_option

lemma refs_snd: "(\<And>r e. f d = (r, e) \<Longrightarrow> refs_step d e) \<Longrightarrow> refs_step d (snd (f d))"
  by (metis surjective_pairing)

lemma auth_refs:
  assumes "AuthController_handle E dr u r w = Some (res, w')"
  shows "refs_step (w_db w) (w_db w')"
  using assms
  by (cases r)
    (auto elim!: refs_elims intro!: refs_snd refs_users split: if_splits
      dest: refs_otp_requests refs_register refs_login refs_verifyLoginOtp refs_refresh refs_resetPassword)

lemma signed_in_refs:
  assumes "refs_ok (w_db w)" "R_user u \<in> rows (w_db w)"
  shows "UsersController_handle E dr u r1 w = Some (res, w') \<Longrightarrow> refs_step (w_db w) (w_db w')"
    "BookingController_handle E dr u r2 w = Some (res, w') \<Longrightarrow> refs_step (w_db w) (w_db w')"
    "WalletController_handle E dr u r3 w = Some (res, w') \<Longrightarrow> refs_step (w_db w) (w_db w')"
    "LoyaltyController_handle E dr u r4 w = Some (res, w') \<Longrightarrow> refs_step (w_db w) (w_db w')"
proof -
  show "UsersController_handle E dr u r1 w = Some (res, w') \<Longrightarrow> refs_step (w_db w) (w_db w')"
    by (cases r1) (auto elim!: refs_elims simp: refs_users refs_deletion)
  show "BookingController_handle E dr u r2 w = Some (res, w') \<Longrightarrow> refs_step (w_db w) (w_db w')"
    by (cases r2) (auto elim!: refs_elims simp: refs_hold refs_recurring refs_confirm refs_confirmGroup refs_bookings
        refs_ok_named assms dest: refs_reschedule)
  show "WalletController_handle E dr u r3 w = Some (res, w') \<Longrightarrow> refs_step (w_db w) (w_db w')"
    by (cases r3) (auto elim!: refs_elims simp: ok_snd ok_eq refs_getMine assms intro: refs_topup [OF _ assms(2)])
  show "LoyaltyController_handle E dr u r4 w = Some (res, w') \<Longrightarrow> refs_step (w_db w) (w_db w')"
    by (cases r4) (auto elim!: refs_elims simp: ok_snd refs_getMine assms)
qed

text \<open>An administrator's route leaves the administrator's name in the audit log.\<close>

definition admitted :: "route \<Rightarrow> id \<Rightarrow> db \<Rightarrow> bool" where
  "admitted rt u d \<longleftrightarrow> (isPublic rt \<or> R_user u \<in> rows d) \<and> (globalRoles rt = [ADMIN] \<longrightarrow> R_admin u \<in> rows d)"

lemma payment_refs:
  assumes "PaymentController_handle E dr u r w = Some (res, w')" "refs_ok (w_db w)" "admitted (PaymentController_route r) u (w_db w)"
  shows "refs_step (w_db w) (w_db w')"
  using assms
  by (cases r) (auto elim!: refs_elims simp: admitted_def user_route_def admin_route_def
      intro: refs_refund refs_initiate refs_callback)

lemma admin_business_refs:
  assumes "AdminBusinessController_handle E dr u r w = Some (res, w')" "admitted (AdminBusinessController_route r) u (w_db w)"
  shows "refs_step (w_db w) (w_db w')"
  using assms
  by (cases r) (auto elim!: refs_elims simp: admitted_def admin_route_def approve_def reject_def suspend_def refs_review)

lemma business_refs:
  assumes "fresh_draws (w_db w) dr" "refs_ok (w_db w)" "R_user u \<in> rows (w_db w)"
  shows "BusinessController_handle E dr u r w = Some (res, w') \<Longrightarrow> refs_step (w_db w) (w_db w')"
  using assms by (cases r) (auto elim!: refs_elims simp: refs_business refs_business_create fresh_drawsD)

lemma business_booking_refs: "BusinessBookingController_handle E dr u r w = Some (res, w') \<Longrightarrow> refs_step (w_db w) (w_db w')"
  by (cases r) (auto elim!: refs_elims simp: refs_bookings)

lemma branch_refs: "fresh_draws (w_db w) dr \<Longrightarrow> BranchController_handle E dr u r w = Some (res, w') \<Longrightarrow> refs_step (w_db w) (w_db w')"
  by (cases r) (auto elim!: refs_elims simp: refs_branch_create refs_branch_update fresh_drawsD)

lemma service_refs: "ServiceCatalogController_handle E dr u r w = Some (res, w') \<Longrightarrow> refs_step (w_db w) (w_db w')"
  by (cases r) (auto elim!: refs_elims simp: refs_catalogue)

lemma staff_refs: "fresh_draws (w_db w) dr \<Longrightarrow> refs_ok (w_db w) \<Longrightarrow> StaffController_handle E dr u r w = Some (res, w') \<Longrightarrow> refs_step (w_db w) (w_db w')"
  by (cases r) (auto elim!: refs_elims simp: refs_invite refs_deactivate refs_ok_named fresh_drawsD)

lemma working_hours_refs: "WorkingHoursController_handle E dr u r w = Some (res, w') \<Longrightarrow> refs_step (w_db w) (w_db w')"
  by (cases r) (auto elim!: refs_elims simp: refs_hours)

lemma business_coupon_refs: "BusinessCouponController_handle E dr u r w = Some (res, w') \<Longrightarrow> refs_step (w_db w) (w_db w')"
  by (cases r) (auto elim!: refs_elims simp: createForBusiness_def refs_coupons)

lemma admin_coupon_refs: "AdminCouponController_handle E dr u r w = Some (res, w') \<Longrightarrow> refs_step (w_db w) (w_db w')"
  by (cases r) (auto elim!: refs_elims simp: createGlobal_def refs_coupons)

lemma settlement_run_refs: "AdminSettlementController_handle E dr u r w = Some (res, w') \<Longrightarrow> refs_step (w_db w) (w_db w')"
  by (cases r) (auto elim!: refs_elims simp: refs_runBatch)

lemma availability_refs: "AvailabilityController_handle E dr u r w = Some (res, w') \<Longrightarrow> refs_step (w_db w) (w_db w')"
  by (cases r) (auto elim!: refs_elims split: option.splits)

lemma discovery_refs: "DiscoveryController_handle E dr u r w = Some (res, w') \<Longrightarrow> refs_step (w_db w) (w_db w')"
  by (cases r) (auto elim!: refs_elims)

lemma settlement_refs: "BusinessSettlementController_handle E dr u r w = Some (res, w') \<Longrightarrow> refs_step (w_db w) (w_db w')"
  by (cases r) (auto elim!: refs_elims)

lemma coupon_refs: "CouponController_handle E dr u r w = Some (res, w') \<Longrightarrow> refs_step (w_db w) (w_db w')"
  by (cases r) (auto elim!: refs_elims simp: coupon_validate_def)

lemma referral_refs: "ReferralController_handle E dr u r w = Some (res, w') \<Longrightarrow> refs_step (w_db w) (w_db w')"
  by (cases r) (auto elim!: refs_elims)

lemma signed_in_route:
  "\<not> isPublic (UsersController_route r1)" "\<not> isPublic (BookingController_route r2)" "\<not> isPublic (WalletController_route r3)"
  "\<not> isPublic (LoyaltyController_route r4)" "\<not> isPublic (BusinessController_route r5)"
  by (cases r1; simp add: user_route_def)
    ((cases r2; simp add: user_route_def), (cases r3; simp add: user_route_def), (cases r4; simp add: user_route_def),
     (cases r5; simp add: user_route_def member_route_def))

lemma handle_refs:
  assumes "handle E dr u ep w = Some (res, w')" "fresh_draws (w_db w) dr" "refs_ok (w_db w)" "admitted (route_of ep) u (w_db w)"
  shows "refs_step (w_db w) (w_db w')"
proof -
  have user: "R_user u \<in> rows (w_db w)" if "\<not> isPublic (route_of ep)" using assms(4) that by (simp add: admitted_def)
  show ?thesis
    using assms user
    by (cases ep; simp; metis signed_in_route auth_refs business_booking_refs branch_refs service_refs staff_refs working_hours_refs
        business_coupon_refs admin_coupon_refs settlement_run_refs availability_refs discovery_refs
        settlement_refs coupon_refs referral_refs payment_refs admin_business_refs signed_in_refs business_refs)
qed

text \<open>Whoever passes the guards of a route has the account, and the role, that the route asks for.\<close>

lemma admin_row: "x \<in> set (users d) \<Longrightarrow> usr_globalRole x = ADMIN \<Longrightarrow> R_admin (usr_id x) \<in> rows d"
  by (rule row_in [of _ T_users]) auto

lemma guards_user:
  assumes "guards rt (authenticate sub d) z d = Inr u"
  shows "admitted rt (user_id u) d"
proof (cases "isPublic rt")
  case True
  with assms show ?thesis
    by (auto simp: admitted_def guards_def jwt_canActivate_def roles_canActivate_def split: sum.splits if_splits)
next
  case False
  with assms obtain x where "x \<in> set (users d)" "u = Some (usr_id x, usr_globalRole x)"
    by (auto simp: guards_def jwt_canActivate_def authenticate_def jwt_validate_def find_user_def dest!: find_SomeD
        split: option.splits sum.splits if_splits)
  moreover have "globalRoles rt = [ADMIN] \<Longrightarrow> usr_globalRole x = ADMIN"
    using assms False calculation(2)
    by (auto simp: guards_def jwt_canActivate_def roles_canActivate_def authenticate_def split: option.splits sum.splits if_splits)
  ultimately show ?thesis by (auto simp: admitted_def user_id_def intro: user_row admin_row)
qed

lemma transition_refs:
  assumes "transition E w e w'" "refs_ok (w_db w)"
  shows "refs_ok (w_db w')"
proof -
  have "refs_step (w_db w) (w_db w')"
    using assms(1)
  proof (cases rule: transition.cases)
    case (request dr sub ep res)
    from request(3) show ?thesis
    proof (cases rule: serve_cases)
      case (handled u)
      then show ?thesis using handle_refs [OF handled(4) request(2) assms(2) guards_user [OF handled(1)]] by blast
    qed simp
  qed (simp_all add: refs_bookings)
  then show ?thesis using assms(2) by (rule refs_step_ok)
qed

interpretation linked: transition_system "transition E" "\<lambda>w. refs_ok (w_db w)" "\<lambda>w w'. True" for E :: "('r, 'g) environment"
  by unfold_locales (simp_all add: transition_refs)

end
