(* ===== verification/RefProps.thy ===== *)
theory RefProps
  imports References SystemProps
begin

text \<open>
  What \<open>Footprint\<close> and \<open>References\<close> give for the backend as a whole: every reference of every
  reached state resolves, and no route writes outside its own tables.
\<close>

text \<open>Rows, table by table.\<close>

lemma ex_table: "(\<exists>t. P t) \<longleftrightarrow> P T_users \<or> P T_otp_codes \<or> P T_refresh_tokens \<or> P T_businesses \<or> P T_documents
     \<or> P T_branches \<or> P T_staff_members \<or> P T_working_hours \<or> P T_holidays \<or> P T_services \<or> P T_service_staffs
     \<or> P T_bookings \<or> P T_payments \<or> P T_wallets \<or> P T_wallet_txs \<or> P T_settlements \<or> P T_coupons
     \<or> P T_coupon_usages \<or> P T_loyalty_accounts \<or> P T_loyalty_txs \<or> P T_referrals \<or> P T_audit_logs"
  using all_tables [of "\<lambda>t. \<not> P t"] by blast

lemma in_rows:
  "R_user k \<in> rows d \<longleftrightarrow> (\<exists>u \<in> set (users d). usr_id u = k)"
  "R_admin k \<in> rows d \<longleftrightarrow> (\<exists>u \<in> set (users d). usr_id u = k \<and> usr_globalRole u = ADMIN)"
  "R_business k \<in> rows d \<longleftrightarrow> (\<exists>z \<in> set (businesses d). biz_id z = k)"
  "R_branch k \<in> rows d \<longleftrightarrow> (\<exists>r \<in> set (branches d). br_id r = k)"
  "R_branch_of k z \<in> rows d \<longleftrightarrow> (\<exists>r \<in> set (branches d). br_id r = k \<and> br_businessId r = z)"
  "R_staff_of k z \<in> rows d \<longleftrightarrow> (\<exists>m \<in> set (staff_members d). sm_id m = k \<and> sm_businessId m = z)"
  "R_service_of k z \<in> rows d \<longleftrightarrow> (\<exists>s \<in> set (services d). sv_id s = k \<and> sv_businessId s = z)"
  "R_team k m \<in> rows d \<longleftrightarrow> (\<exists>s \<in> set (services d). \<exists>x \<in> set (staff_members d).
     sv_id s = k \<and> sm_id x = m \<and> sv_businessId s = sm_businessId x)"
  "R_booking_of k u \<in> rows d \<longleftrightarrow> (\<exists>b \<in> set (bookings d). bk_id b = k \<and> bk_userId b = u)"
  "R_deposit k u x \<in> rows d \<longleftrightarrow> (\<exists>b \<in> set (bookings d). bk_id b = k \<and> bk_userId b = u \<and> bk_depositRequired b = x)"
  "R_staff k \<in> rows d \<longleftrightarrow> (\<exists>m \<in> set (staff_members d). sm_id m = k)"
  "R_account k \<in> rows d \<longleftrightarrow> (\<exists>a \<in> set (loyalty_accounts d). la_id a = k)"
  "R_wallet k \<in> rows d \<longleftrightarrow> (\<exists>w \<in> set (wallets d). wal_id w = k)"
  "R_coupon k \<in> rows d \<longleftrightarrow> (\<exists>c \<in> set (coupons d). cp_id c = k)"
  by (auto simp: rows_def ex_table)

lemma city_refs: "refs_ok (city [demo_booking k s t])"
proof -
  have "links_of x (city [demo_booking k s t]) \<subseteq> rows (city [demo_booking k s t])" for x
    by (cases x)
      (simp_all add: in_rows booking_links_def payment_links_def city_defs demo_booking_def demo_db_def empty_db_def
        demo_staff_def demo_service_def demo_coupon_def demo_business_def demo_branch_def demo_hours_def)
  then have "links (city [demo_booking k s t]) \<subseteq> rows (city [demo_booking k s t])" unfolding links_def by blast
  moreover have "named (city [demo_booking k s t])"
    by (simp add: named_def city_def demo_db_def city_owner_def demo_staff_def demo_branch_def)
  ultimately show ?thesis by (simp add: refs_ok_def)
qed

text \<open>What \<open>refs_ok\<close> says of each table.\<close>

lemma account_references:
  assumes "refs_ok d"
  shows "c \<in> set (otp_codes d) \<Longrightarrow> otp_userId c = Some k \<Longrightarrow> k \<in> usr_id ` set (users d)"
    "t \<in> set (refresh_tokens d) \<Longrightarrow> rt_userId t \<in> usr_id ` set (users d)"
    "a \<in> set (wallets d) \<Longrightarrow> wal_userId a \<in> usr_id ` set (users d)"
    "x \<in> set (wallet_txs d) \<Longrightarrow> wtx_walletId x \<in> wal_id ` set (wallets d)"
    "l \<in> set (loyalty_accounts d) \<Longrightarrow> la_userId l \<in> usr_id ` set (users d)"
    "y \<in> set (loyalty_txs d) \<Longrightarrow> ltx_accountId y \<in> la_id ` set (loyalty_accounts d)"
    "r \<in> set (referrals d) \<Longrightarrow> ref_referrerId r \<in> usr_id ` set (users d) \<and> ref_refereeId r \<in> usr_id ` set (users d)"
proof -
  note found = refs_okD [OF assms]
  show "c \<in> set (otp_codes d) \<Longrightarrow> otp_userId c = Some k \<Longrightarrow> k \<in> usr_id ` set (users d)"
    using found [of "R_user k" T_otp_codes] by (force simp: in_rows intro: rev_image_eqI)
  show "t \<in> set (refresh_tokens d) \<Longrightarrow> rt_userId t \<in> usr_id ` set (users d)"
    using found [of "R_user (rt_userId t)" T_refresh_tokens] by (auto simp: in_rows intro: rev_image_eqI)
  show "a \<in> set (wallets d) \<Longrightarrow> wal_userId a \<in> usr_id ` set (users d)"
    using found [of "R_user (wal_userId a)" T_wallets] by (auto simp: in_rows intro: rev_image_eqI)
  show "x \<in> set (wallet_txs d) \<Longrightarrow> wtx_walletId x \<in> wal_id ` set (wallets d)"
    using found [of "R_wallet (wtx_walletId x)" T_wallet_txs] by (auto simp: in_rows intro: rev_image_eqI)
  show "l \<in> set (loyalty_accounts d) \<Longrightarrow> la_userId l \<in> usr_id ` set (users d)"
    using found [of "R_user (la_userId l)" T_loyalty_accounts] by (auto simp: in_rows intro: rev_image_eqI)
  show "y \<in> set (loyalty_txs d) \<Longrightarrow> ltx_accountId y \<in> la_id ` set (loyalty_accounts d)"
    using found [of "R_account (ltx_accountId y)" T_loyalty_txs] by (auto simp: in_rows intro: rev_image_eqI)
  show "r \<in> set (referrals d) \<Longrightarrow> ref_referrerId r \<in> usr_id ` set (users d) \<and> ref_refereeId r \<in> usr_id ` set (users d)"
    using found [of "R_user (ref_referrerId r)" T_referrals] found [of "R_user (ref_refereeId r)" T_referrals] by (force simp: in_rows intro: rev_image_eqI)
qed

lemma business_references:
  assumes "refs_ok d"
  shows "z \<in> set (businesses d) \<Longrightarrow> biz_ownerId z \<in> usr_id ` set (users d)"
    "x \<in> set (documents d) \<Longrightarrow> doc_businessId x \<in> biz_id ` set (businesses d)"
    "r \<in> set (branches d) \<Longrightarrow> br_businessId r \<in> biz_id ` set (businesses d)"
    "m \<in> set (staff_members d) \<Longrightarrow> sm_userId m \<in> usr_id ` set (users d) \<and> sm_businessId m \<in> biz_id ` set (businesses d)
       \<and> (\<forall>k. sm_branchId m = Some k \<longrightarrow> (\<exists>r \<in> set (branches d). br_id r = k \<and> br_businessId r = sm_businessId m))"
    "h \<in> set (working_hours_tbl d) \<Longrightarrow> (\<forall>k. wh_branchId h = Some k \<longrightarrow> k \<in> br_id ` set (branches d))
       \<and> (\<forall>k. wh_staffMemberId h = Some k \<longrightarrow> k \<in> sm_id ` set (staff_members d))"
    "y \<in> set (holidays d) \<Longrightarrow> (\<forall>k. hol_branchId y = Some k \<longrightarrow> k \<in> br_id ` set (branches d))
       \<and> (\<forall>k. hol_staffMemberId y = Some k \<longrightarrow> k \<in> sm_id ` set (staff_members d))"
    "s \<in> set (services d) \<Longrightarrow> sv_businessId s \<in> biz_id ` set (businesses d)"
    "a \<in> set (service_staffs d) \<Longrightarrow> \<exists>s \<in> set (services d). \<exists>m \<in> set (staff_members d).
        sv_id s = ss_serviceId a \<and> sm_id m = ss_staffMemberId a \<and> sv_businessId s = sm_businessId m"
    "t \<in> set (settlements d) \<Longrightarrow> stl_businessId t \<in> biz_id ` set (businesses d)"
    "c \<in> set (coupons d) \<Longrightarrow> cp_businessId c = Some k \<Longrightarrow> k \<in> biz_id ` set (businesses d)"
    "l \<in> set (audit_logs d) \<Longrightarrow> al_actorId l = Some k \<Longrightarrow> \<exists>u \<in> set (users d). usr_id u = k \<and> usr_globalRole u = ADMIN"
proof -
  note found = refs_okD [OF assms]
  show "z \<in> set (businesses d) \<Longrightarrow> biz_ownerId z \<in> usr_id ` set (users d)"
    using found [of "R_user (biz_ownerId z)" T_businesses] by (auto simp: in_rows intro: rev_image_eqI)
  show "x \<in> set (documents d) \<Longrightarrow> doc_businessId x \<in> biz_id ` set (businesses d)"
    using found [of "R_business (doc_businessId x)" T_documents] by (auto simp: in_rows intro: rev_image_eqI)
  show "r \<in> set (branches d) \<Longrightarrow> br_businessId r \<in> biz_id ` set (businesses d)"
    using found [of "R_business (br_businessId r)" T_branches] by (auto simp: in_rows intro: rev_image_eqI)
  show "m \<in> set (staff_members d) \<Longrightarrow> sm_userId m \<in> usr_id ` set (users d) \<and> sm_businessId m \<in> biz_id ` set (businesses d)
       \<and> (\<forall>k. sm_branchId m = Some k \<longrightarrow> (\<exists>r \<in> set (branches d). br_id r = k \<and> br_businessId r = sm_businessId m))"
  proof -
    assume m: "m \<in> set (staff_members d)"
    have sub: "{R_user (sm_userId m), R_business (sm_businessId m)} \<union> opt (\<lambda>r. R_branch_of r (sm_businessId m)) (sm_branchId m) \<subseteq> rows d"
      using found [of _ T_staff_members] m by (auto simp del: opt_sub)
    then have "R_branch_of k (sm_businessId m) \<in> rows d" if "sm_branchId m = Some k" for k using that by simp
    with sub show ?thesis by (auto simp: in_rows simp del: opt_sub intro: rev_image_eqI)
  qed
  show "h \<in> set (working_hours_tbl d) \<Longrightarrow> (\<forall>k. wh_branchId h = Some k \<longrightarrow> k \<in> br_id ` set (branches d))
       \<and> (\<forall>k. wh_staffMemberId h = Some k \<longrightarrow> k \<in> sm_id ` set (staff_members d))"
    using found [of "R_branch k" T_working_hours for k] found [of "R_staff k" T_working_hours for k] by (force simp: in_rows intro: rev_image_eqI)
  show "y \<in> set (holidays d) \<Longrightarrow> (\<forall>k. hol_branchId y = Some k \<longrightarrow> k \<in> br_id ` set (branches d))
       \<and> (\<forall>k. hol_staffMemberId y = Some k \<longrightarrow> k \<in> sm_id ` set (staff_members d))"
    using found [of "R_branch k" T_holidays for k] found [of "R_staff k" T_holidays for k] by (force simp: in_rows intro: rev_image_eqI)
  show "s \<in> set (services d) \<Longrightarrow> sv_businessId s \<in> biz_id ` set (businesses d)"
    using found [of "R_business (sv_businessId s)" T_services] by (auto simp: in_rows intro: rev_image_eqI)
  show "a \<in> set (service_staffs d) \<Longrightarrow> \<exists>s \<in> set (services d). \<exists>m \<in> set (staff_members d).
        sv_id s = ss_serviceId a \<and> sm_id m = ss_staffMemberId a \<and> sv_businessId s = sm_businessId m"
    using found [of "R_team (ss_serviceId a) (ss_staffMemberId a)" T_service_staffs] by (auto simp: in_rows intro: rev_image_eqI)
  show "t \<in> set (settlements d) \<Longrightarrow> stl_businessId t \<in> biz_id ` set (businesses d)"
    using found [of "R_business (stl_businessId t)" T_settlements] by (auto simp: in_rows intro: rev_image_eqI)
  show "c \<in> set (coupons d) \<Longrightarrow> cp_businessId c = Some k \<Longrightarrow> k \<in> biz_id ` set (businesses d)"
    using found [of "R_business k" T_coupons] by (force simp: in_rows intro: rev_image_eqI)
  show "l \<in> set (audit_logs d) \<Longrightarrow> al_actorId l = Some k \<Longrightarrow> \<exists>u \<in> set (users d). usr_id u = k \<and> usr_globalRole u = ADMIN"
    using found [of "R_admin k" T_audit_logs] by (force simp: in_rows intro: rev_image_eqI)
qed

lemma booking_references:
  assumes "refs_ok d"
  shows "b \<in> set (bookings d) \<Longrightarrow> (\<exists>u \<in> set (users d). usr_id u = bk_userId b)
      \<and> (\<exists>z \<in> set (businesses d). biz_id z = bk_businessId b)
      \<and> (\<exists>r \<in> set (branches d). br_id r = bk_branchId b \<and> br_businessId r = bk_businessId b)
      \<and> (\<exists>s \<in> set (services d). sv_id s = bk_serviceId b \<and> sv_businessId s = bk_businessId b)
      \<and> (\<forall>k. bk_staffMemberId b = Some k \<longrightarrow> (\<exists>m \<in> set (staff_members d). sm_id m = k \<and> sm_businessId m = bk_businessId b))"
    "p \<in> set (payments d) \<Longrightarrow> (\<exists>u \<in> set (users d). usr_id u = pay_userId p) \<and> (\<forall>k. pay_bookingId p = Some k \<longrightarrow>
        (\<exists>b \<in> set (bookings d). bk_id b = k \<and> bk_userId b = pay_userId p \<and> bk_depositRequired b = pay_amount p))"
    "x \<in> set (coupon_usages d) \<Longrightarrow> (\<exists>c \<in> set (coupons d). cp_id c = cu_couponId x) \<and> (\<exists>u \<in> set (users d). usr_id u = cu_userId x)
        \<and> (\<forall>k. cu_bookingId x = Some k \<longrightarrow> (\<exists>b \<in> set (bookings d). bk_id b = k \<and> bk_userId b = cu_userId x))"
proof -
  note found = refs_okD [OF assms]
  show "(\<exists>u \<in> set (users d). usr_id u = bk_userId b)
      \<and> (\<exists>z \<in> set (businesses d). biz_id z = bk_businessId b)
      \<and> (\<exists>r \<in> set (branches d). br_id r = bk_branchId b \<and> br_businessId r = bk_businessId b)
      \<and> (\<exists>s \<in> set (services d). sv_id s = bk_serviceId b \<and> sv_businessId s = bk_businessId b)
      \<and> (\<forall>k. bk_staffMemberId b = Some k \<longrightarrow> (\<exists>m \<in> set (staff_members d). sm_id m = k \<and> sm_businessId m = bk_businessId b))"
    if b: "b \<in> set (bookings d)"
  proof -
    have sub: "booking_links b \<subseteq> rows d" using found [of _ T_bookings] b by auto
    then have "R_staff_of k (bk_businessId b) \<in> rows d" if "bk_staffMemberId b = Some k" for k
      using that by (simp add: booking_links_def)
    with sub show ?thesis by (simp add: booking_links_def in_rows)
  qed
  show "(\<exists>u \<in> set (users d). usr_id u = pay_userId p) \<and> (\<forall>k. pay_bookingId p = Some k \<longrightarrow>
      (\<exists>b \<in> set (bookings d). bk_id b = k \<and> bk_userId b = pay_userId p \<and> bk_depositRequired b = pay_amount p))"
    if p: "p \<in> set (payments d)"
  proof -
    have sub: "payment_links p \<subseteq> rows d" using found [of _ T_payments] p by auto
    then have "R_deposit k (pay_userId p) (pay_amount p) \<in> rows d" if "pay_bookingId p = Some k" for k
      using that by (simp add: payment_links_def)
    with sub show ?thesis by (simp add: payment_links_def in_rows)
  qed
  show "(\<exists>c \<in> set (coupons d). cp_id c = cu_couponId x) \<and> (\<exists>u \<in> set (users d). usr_id u = cu_userId x)
      \<and> (\<forall>k. cu_bookingId x = Some k \<longrightarrow> (\<exists>b \<in> set (bookings d). bk_id b = k \<and> bk_userId b = cu_userId x))"
    if x: "x \<in> set (coupon_usages d)"
  proof -
    have sub: "usage_links x \<subseteq> rows d" using found [of _ T_coupon_usages] x by auto
    then have "R_booking_of k (cu_userId x) \<in> rows d" if "cu_bookingId x = Some k" for k
      using that by (simp add: usage_links_def)
    with sub show ?thesis by (simp add: usage_links_def in_rows)
  qed
qed

text \<open>
  C7. Every reference of every row of every table resolves, inside one business where it
  matters, in every state that is reached. A reservation's customer exists, and its branch,
  its service and its staff member belong to the business it was made with; a payment is
  somebody's, and one that names a reservation was made by its customer, over exactly the
  deposit that the reservation asks for; a used coupon, its user and the reservation it was
  used for exist and go together; whoever is assigned to a service is a member of the
  business that offers it; a staff member's branch is one of the employer; owners, staff,
  sessions, codes, wallets, loyalty accounts and referrals belong to existing users, documents,
  branches, services, settlements and coupons to existing businesses, opening hours and
  holidays to existing branches or staff, and movements to existing wallets and accounts.
  Every entry of the audit log names an existing administrator. The database itself checks
  less: its foreign keys do not compare businesses, customers or amounts.
\<close>

theorem references_resolve:
  assumes "run (transition E) w es w'" "refs_ok (w_db w)"
  shows "(\<forall>b \<in> set (bookings (w_db w')).
        (\<exists>u \<in> set (users (w_db w')). usr_id u = bk_userId b)
        \<and> (\<exists>z \<in> set (businesses (w_db w')). biz_id z = bk_businessId b)
        \<and> (\<exists>r \<in> set (branches (w_db w')). br_id r = bk_branchId b \<and> br_businessId r = bk_businessId b)
        \<and> (\<exists>s \<in> set (services (w_db w')). sv_id s = bk_serviceId b \<and> sv_businessId s = bk_businessId b)
        \<and> (\<forall>k. bk_staffMemberId b = Some k \<longrightarrow>
             (\<exists>m \<in> set (staff_members (w_db w')). sm_id m = k \<and> sm_businessId m = bk_businessId b)))
    \<and> (\<forall>p \<in> set (payments (w_db w')). (\<exists>u \<in> set (users (w_db w')). usr_id u = pay_userId p)
        \<and> (\<forall>k. pay_bookingId p = Some k \<longrightarrow>
        (\<exists>b \<in> set (bookings (w_db w')). bk_id b = k \<and> bk_userId b = pay_userId p \<and> bk_depositRequired b = pay_amount p)))
    \<and> (\<forall>x \<in> set (coupon_usages (w_db w')). (\<exists>c \<in> set (coupons (w_db w')). cp_id c = cu_couponId x)
        \<and> (\<exists>u \<in> set (users (w_db w')). usr_id u = cu_userId x)
        \<and> (\<forall>k. cu_bookingId x = Some k \<longrightarrow> (\<exists>b \<in> set (bookings (w_db w')). bk_id b = k \<and> bk_userId b = cu_userId x)))
    \<and> (\<forall>a \<in> set (service_staffs (w_db w')). \<exists>s \<in> set (services (w_db w')). \<exists>m \<in> set (staff_members (w_db w')).
        sv_id s = ss_serviceId a \<and> sm_id m = ss_staffMemberId a \<and> sv_businessId s = sm_businessId m)
    \<and> (\<forall>m \<in> set (staff_members (w_db w')). sm_userId m \<in> usr_id ` set (users (w_db w'))
        \<and> sm_businessId m \<in> biz_id ` set (businesses (w_db w'))
        \<and> (\<forall>k. sm_branchId m = Some k \<longrightarrow> (\<exists>r \<in> set (branches (w_db w')). br_id r = k \<and> br_businessId r = sm_businessId m)))
    \<and> (\<forall>z \<in> set (businesses (w_db w')). biz_ownerId z \<in> usr_id ` set (users (w_db w')))
    \<and> (\<forall>x \<in> set (documents (w_db w')). doc_businessId x \<in> biz_id ` set (businesses (w_db w')))
    \<and> (\<forall>r \<in> set (branches (w_db w')). br_businessId r \<in> biz_id ` set (businesses (w_db w')))
    \<and> (\<forall>s \<in> set (services (w_db w')). sv_businessId s \<in> biz_id ` set (businesses (w_db w')))
    \<and> (\<forall>t \<in> set (settlements (w_db w')). stl_businessId t \<in> biz_id ` set (businesses (w_db w')))
    \<and> (\<forall>c \<in> set (coupons (w_db w')). \<forall>k. cp_businessId c = Some k \<longrightarrow> k \<in> biz_id ` set (businesses (w_db w')))
    \<and> (\<forall>h \<in> set (working_hours_tbl (w_db w')). (\<forall>k. wh_branchId h = Some k \<longrightarrow> k \<in> br_id ` set (branches (w_db w')))
        \<and> (\<forall>k. wh_staffMemberId h = Some k \<longrightarrow> k \<in> sm_id ` set (staff_members (w_db w'))))
    \<and> (\<forall>h \<in> set (holidays (w_db w')). (\<forall>k. hol_branchId h = Some k \<longrightarrow> k \<in> br_id ` set (branches (w_db w')))
        \<and> (\<forall>k. hol_staffMemberId h = Some k \<longrightarrow> k \<in> sm_id ` set (staff_members (w_db w'))))
    \<and> (\<forall>c \<in> set (otp_codes (w_db w')). \<forall>k. otp_userId c = Some k \<longrightarrow> k \<in> usr_id ` set (users (w_db w')))
    \<and> (\<forall>t \<in> set (refresh_tokens (w_db w')). rt_userId t \<in> usr_id ` set (users (w_db w')))
    \<and> (\<forall>a \<in> set (wallets (w_db w')). wal_userId a \<in> usr_id ` set (users (w_db w')))
    \<and> (\<forall>x \<in> set (wallet_txs (w_db w')). wtx_walletId x \<in> wal_id ` set (wallets (w_db w')))
    \<and> (\<forall>a \<in> set (loyalty_accounts (w_db w')). la_userId a \<in> usr_id ` set (users (w_db w')))
    \<and> (\<forall>x \<in> set (loyalty_txs (w_db w')). ltx_accountId x \<in> la_id ` set (loyalty_accounts (w_db w')))
    \<and> (\<forall>r \<in> set (referrals (w_db w')). ref_referrerId r \<in> usr_id ` set (users (w_db w'))
        \<and> ref_refereeId r \<in> usr_id ` set (users (w_db w')))
    \<and> (\<forall>l \<in> set (audit_logs (w_db w')). \<forall>a. al_actorId l = Some a \<longrightarrow>
        (\<exists>u \<in> set (users (w_db w')). usr_id u = a \<and> usr_globalRole u = ADMIN))"
proof -
  have ok: "refs_ok (w_db w')" using linked.run_inv [OF assms(1)] assms(2) by simp
  show ?thesis
    by (intro conjI ballI allI impI booking_references [OF ok] business_references [OF ok] account_references [OF ok]) assumption+
qed

theorem references_resolve_witness:
  "\<exists>w'. run (transition city_env) (city_world [demo_booking ''k'' CONFIRMED nine]) city_history w'
     \<and> (\<forall>b \<in> set (bookings (w_db w')). \<exists>u \<in> set (users (w_db w')). usr_id u = bk_userId b)"
proof -
  obtain w where w: "run (transition city_env) (city_world [demo_booking ''k'' CONFIRMED nine]) city_history w"
    using city_run [of "[]"] by auto
  from references_resolve [OF w] city_refs w show ?thesis by auto
qed

text \<open>
  C12. Each route stays in its own tables: whatever a request asks for, it adds, changes or
  removes no row of a table that is not listed for its route, and only the routes that
  reserve or move a slot use the lock server, only payments and top-ups talk to the gateway
  and only three routes send a text message. The dry run of a coupon and all searches and
  lists thus change nothing at all.
\<close>

theorem routes_stay_in_their_tables:
  assumes "serve E dr sub ep w = Some (res, w')"
  shows "(\<forall>t. t \<in> writes ep \<or> same_table t (w_db w) (w_db w'))
    \<and> (locks ep \<or> w_redis w' = w_redis w) \<and> (calls_gateway ep \<or> w_gateway w' = w_gateway w)
    \<and> (sends_sms ep \<or> w_outbox w' = w_outbox w)"
  using assms
proof (cases rule: serve_cases)
  case (handled u)
  from handle_confined [OF handled(4)] show ?thesis by (auto simp: confined_def frame_def)
qed (simp add: same_table_refl)

theorem routes_stay_in_their_tables_witness:
  "\<exists>w'. serve city_env (city_draws day0) (Some ''ann'') (BookingRoute (Booking_cancel ''k'' None))
       (city_world [demo_booking ''k'' CONFIRMED nine]) = Some (Inr (), w')
     \<and> wallets (w_db w') = [city_wallet]"
  using routes_stay_in_their_tables [OF city_cancel [of "[]"]] city_cancel [of "[]"]
  by (auto simp: all_tables city_def)

end
