(* ===== verification/Confirmation.thy ===== *)
theory Confirmation
  imports RefProps
begin

text \<open>
  Who confirms a reservation that awaits its deposit. \<open>quiet A d e\<close>: between \<open>d\<close> and \<open>e\<close> no
  reservation outside \<open>A\<close> left its status, except for being cancelled or by being a hold.
  Every operation is quiet but two: the status change by the business and a payment, and the
  payment is there to be seen afterwards.
\<close>

section \<open>Quiet operations\<close>

definition status_in :: "db \<Rightarrow> id \<Rightarrow> BookingStatus option" where
  "status_in d k = map_option bk_status (List.find (\<lambda>b. bk_id b = k) (bookings d))"

definition quiet :: "id set \<Rightarrow> db \<Rightarrow> db \<Rightarrow> bool" where
  "quiet A d e \<longleftrightarrow> (\<forall>k s. k \<notin> A \<longrightarrow> status_in d k = Some s \<longrightarrow> s \<noteq> HOLD \<longrightarrow> status_in e k \<in> {Some s, Some CANCELLED})"

lemma quiet_same: "bookings e = bookings d \<Longrightarrow> quiet A d e"
  by (simp add: quiet_def status_in_def)

lemma quiet_trans:
  assumes "quiet A d e" "quiet A e f"
  shows "quiet A d f"
  using assms unfolding quiet_def by (metis BookingStatus.distinct(7) insertE insertI1 insertI2 option.inject singletonD)

lemma quiet_mono: "quiet A d e \<Longrightarrow> A \<subseteq> B \<Longrightarrow> quiet B d e"
  by (auto simp: quiet_def)

lemma status_in_unique: "bookings_ok (bookings d) \<Longrightarrow> b \<in> set (bookings d) \<Longrightarrow> status_in d (bk_id b) = Some (bk_status b)"
  by (simp add: status_in_def bookings_ok_def unique_key_find)

lemma status_in_update:
  assumes "\<And>b. bk_id (f b) = bk_id b"
  shows "status_in (d\<lparr>bookings := update_rows sel f (bookings d)\<rparr>) k
    = map_option (\<lambda>b. bk_status (if sel b then f b else b)) (List.find (\<lambda>b. bk_id b = k) (bookings d))"
  using assms by (simp add: status_in_def find_key_update option.map_comp comp_def)

text \<open>An update of rows that are holds or only get cancelled.\<close>

lemma quiet_rows:
  assumes "\<And>b. bk_id (f b) = bk_id b"
    "\<And>b. b \<in> set (bookings d) \<Longrightarrow> sel b \<Longrightarrow> bk_id b \<notin> A \<Longrightarrow> bk_status b = HOLD \<or> bk_status (f b) \<in> {bk_status b, CANCELLED}"
  shows "quiet A d (d\<lparr>bookings := update_rows sel f (bookings d)\<rparr>)"
  unfolding quiet_def
proof (intro allI impI)
  fix k s
  assume k: "k \<notin> A" and s: "status_in d k = Some s" "s \<noteq> HOLD"
  then obtain b where b: "List.find (\<lambda>b. bk_id b = k) (bookings d) = Some b" "bk_status b = s"
    by (auto simp: status_in_def)
  then have "b \<in> set (bookings d)" "bk_id b = k" by (auto dest: find_SomeD)
  with assms(2) [of b] b k s(2)
  show "status_in (d\<lparr>bookings := update_rows sel f (bookings d)\<rparr>) k \<in> {Some s, Some CANCELLED}"
    by (auto simp: status_in_update assms(1))
qed

lemma quiet_row:
  assumes "bookings_ok (bookings d)" "b \<in> set (bookings d)" "\<And>b. bk_id (f b) = bk_id b"
    "bk_id b \<in> A \<or> bk_status b = HOLD \<or> bk_status (f b) \<in> {bk_status b, CANCELLED}"
  shows "quiet A d (update_booking (bk_id b) f d)"
  unfolding update_booking_def
proof (rule quiet_rows [OF assms(3)])
  fix x
  assume "x \<in> set (bookings d)" "bk_id x = bk_id b" "bk_id x \<notin> A"
  moreover from this have "x = b"
    using unique_key_eq [of bk_id "bookings d" x b] assms(1,2) by (simp add: bookings_ok_def)
  ultimately show "bk_status x = HOLD \<or> bk_status (f x) \<in> {bk_status x, CANCELLED}" using assms(4) by simp
qed

lemma quiet_insert: "bookings e = insert_row b (bookings d) \<Longrightarrow> quiet A d e"
  by (auto simp: quiet_def status_in_def find_insert_row)

lemma quiet_cong: "quiet A d e \<Longrightarrow> bookings f = bookings e \<Longrightarrow> quiet A d f"
  by (simp add: quiet_def status_in_def)

section \<open>Reservations\<close>

lemma quiet_confirm:
  assumes "bookings_ok (bookings d)"
  shows "quiet A d (snd (confirm ids now k u d))"
proof (cases "getOwnedBooking d k u")
  case (Inr b)
  note b = getOwnedBooking_Inr [OF Inr]
  have "quiet A d (update_booking k f d)" if "bk_status b = HOLD" "\<And>b. bk_id (f b) = bk_id b" for f
    using quiet_row [OF assms, of b f A] b that by simp
  then show ?thesis
    by (auto simp: confirm_def Inr Let_def quiet_same intro!: quiet_cong [OF _ award_bookings])
qed (simp add: confirm_def quiet_same)

lemma quiet_confirm_each: "bookings_ok (bookings d) \<Longrightarrow> quiet A d (snd (confirm_each ids clock u bs d))"
proof (induction bs arbitrary: ids clock d)
  case (Cons b bs)
  obtain r e where c: "confirm (ids 0) (clock 0) (bk_id b) u d = (r, e)" by fastforce
  have e: "quiet A d e" "bookings_ok (bookings e)"
    using quiet_confirm [OF Cons.prems, of A "ids 0" "clock 0" "bk_id b" u] confirm_step [OF Cons.prems, of "ids 0" "clock 0" "bk_id b" u]
    by (simp_all add: c booking_step_def)
  have "quiet A d f" if "confirm_each g t u bs e = (x, f)" for g t x f
    using quiet_trans [OF e(1) Cons.IH [OF e(2)]] that by (metis snd_conv)
  with e show ?case by (auto simp: c split: prod.splits sum.splits)
qed (simp add: quiet_same)

lemma quiet_confirmGroup: "bookings_ok (bookings d) \<Longrightarrow> quiet A d (snd (confirmGroup ids now g u d))"
  by (simp add: confirmGroup_def quiet_confirm_each quiet_same Let_def)

lemma quiet_cancel:
  assumes "bookings_ok (bookings d)"
  shows "quiet A d (snd (cancelByUser now k u r d))" "quiet A d (snd (cancelByBusiness now z k r d))"
    "quiet A d (handleExpiredHolds now d)"
proof -
  have "quiet A d (snd (cancelInternal now b r byuser d))" if "b \<in> set (bookings d)" for b byuser
    using that by (auto simp: cancelInternal_def Let_def quiet_same intro!: quiet_row [OF assms])
  then show "quiet A d (snd (cancelByUser now k u r d))" "quiet A d (snd (cancelByBusiness now z k r d))"
    by (auto simp: cancelByUser_def cancelByBusiness_def quiet_same dest: getOwnedBooking_Inr find_business_booking_Some
        split: sum.split option.split)
  show "quiet A d (handleExpiredHolds now d)"
    by (auto simp: handleExpiredHolds_def releaseExpiredHolds_def expired_hold_def intro!: quiet_rows)
qed

lemma quiet_occurrences: "quiet A d (snd (create_occurrences bs d))"
proof (induction bs arbitrary: d)
  case (Cons b bs)
  obtain r e where c: "create_booking b d = (r, e)" by fastforce
  then have e: "quiet A d e"
    by (cases r) (auto simp: create_booking_def quiet_same intro: quiet_insert split: option.splits if_splits)
  have "quiet A d f" if "create_occurrences bs e = (x, f)" for x f
    using quiet_trans [OF e Cons.IH] that by (metis snd_conv)
  with e show ?case by (auto simp: c quiet_same split: prod.splits sum.splits)
qed (simp add: quiet_same)

lemma quiet_recurring: "quiet A d (snd (createRecurring now ids g u dto d))"
proof -
  obtain r e where c: "createRecurring now ids g u dto d = (r, e)" by fastforce
  then have "e = d \<or> (\<exists>r bs. create_occurrences bs d = (r, e))"
    by (auto simp: createRecurring_def transaction_def split: sum.splits prod.splits error.splits)
  then have "quiet A d e" using quiet_same quiet_occurrences by (metis snd_conv)
  with c show ?thesis by simp
qed

lemma quiet_locked:
  assumes "\<And>x e. body d = (Inr x, e) \<Longrightarrow> quiet A d e"
  shows "quiet A d (fst (snd (busy_as_conflict (withLock R t l tok k ttl (transaction body) (d, r)))))"
  using withLock_db [of R t l tok k ttl "transaction body" "(d, r)"] assms
    transaction_preserves [of "quiet A d" d body] quiet_same [of d d A]
  by auto

lemma quiet_hold: "quiet A d (fst (snd (hold R now later tok n u dto (d, r))))"
proof -
  have "quiet A d e" if "hold_body now n u dto z s d = (Inr b, e)" for z s b e
    using that
  proof (rule hold_body_Inr)
    fix k x d1
    assume "redeem_for_hold now u dto s d = (Inr (k, x), d1)" "bookings e = insert_row b (bookings d1)"
    moreover from this(1) have "bookings d1 = bookings d" by (auto dest: redeem_for_hold_writes)
    ultimately show ?thesis by (intro quiet_insert [of _ b]) simp
  qed
  then show ?thesis
    unfolding hold_def fst_conv
    by (auto simp: quiet_same simp del: busy_as_conflict_snd split: sum.split prod.split intro!: quiet_locked)
qed

lemma quiet_reschedule:
  assumes "reschedule R now later tok k u s (d, r) = Some res" "bookings_ok (bookings d)"
  shows "quiet A d (fst (snd res))"
proof (cases "fst (snd res) = d")
  case False
  then obtain b e key where b: "b \<in> set (bookings d)" and res: "res = busy_as_conflict
      (withLock R now later tok key default_ttlMs (transaction (reschedule_body b s e)) (d, r))"
    using assms(1) by (auto simp: reschedule_def dest!: getOwnedBooking_Inr split: sum.splits option.splits if_splits)
  have "quiet A d d'" if "reschedule_body b s e d = (Inr x, d')" for x d'
    using that by (auto simp: reschedule_body_def Let_def intro!: quiet_row [OF assms(2) b] split: sum.splits)
  from quiet_locked [OF this] show ?thesis by (simp add: res)
qed (simp add: quiet_same)

section \<open>Payments\<close>

text \<open>The reservations that a payment recorded in between pays for.\<close>

definition newly_paid :: "db \<Rightarrow> db \<Rightarrow> id set" where
  "newly_paid d e = {k. \<exists>p \<in> set (payments e). pay_bookingId p = Some k \<and> pay_status p = SUCCESS
     \<and> (\<forall>q \<in> set (payments d). pay_id q = pay_id p \<longrightarrow> pay_status q \<noteq> SUCCESS)}"

lemma quiet_confirm_and_award:
  assumes "bookings_ok (bookings d)" "b \<in> set (bookings d)" "bk_id b \<in> A"
  shows "quiet A d (confirm_and_award ids now u b d)"
  using quiet_row [OF assms(1,2), of "\<lambda>b. b\<lparr>bk_status := CONFIRMED\<rparr>" A] assms(3)
  by (auto simp: confirm_and_award_def intro!: quiet_cong [OF _ award_bookings])

lemma quiet_after: "quiet A e f \<Longrightarrow> bookings e = bookings d \<Longrightarrow> quiet A d f"
  by (simp add: quiet_def status_in_def)

lemma quiet_wallet_payment:
  assumes "payFromWallet ids now n u k amt d = (r, e)" "bookings_ok (bookings d)" "fresh_key pay_id n (payments d)"
  shows "quiet (newly_paid d e) d e"
  using assms(1)
proof (cases rule: payFromWallet_cases)
  case (paid w b)
  have b: "b \<in> set (bookings d)" "bk_id b = k" using paid(3) by (auto dest: find_SomeD)
  have "k \<in> newly_paid d e"
    using assms(3) by (force simp: newly_paid_def paid(5) frame_simps deposit_payment_def dest: fresh_keyD)
  then show ?thesis
    unfolding paid(5) using assms(2) b
    by (intro quiet_after [OF quiet_confirm_and_award]) (simp_all add: frame_simps)
qed (simp add: quiet_same)

lemma quiet_initiate:
  assumes "initiate G url gid ids now n u dto (d, g) = (r, (e, g'))" "bookings_ok (bookings d)" "fresh_key pay_id n (payments d)"
  shows "quiet (newly_paid d e) d e"
  using assms(1)
proof (cases rule: initiate_cases)
  case (wallet b p)
  with assms(2,3) show ?thesis by (intro quiet_wallet_payment)
next
  case (gateway b s)
  then have "bookings e = bookings d"
    by (auto simp: payFromGateway_def open_session_def Let_def update_payment_def split: prod.splits)
  then show ?thesis by (rule quiet_same)
qed (simp add: quiet_same)

lemma quiet_apply_success:
  assumes "bookings_ok (bookings d)" "unique_key pay_id (payments d)" "p \<in> set (payments d)" "pay_status p \<noteq> SUCCESS"
  shows "quiet (newly_paid d (apply_success ids now p d)) d (apply_success ids now p d)" (is "quiet ?A d ?e")
proof -
  let ?d = "update_payment (pay_id p) (\<lambda>p. p\<lparr>pay_status := SUCCESS, pay_callbackVerifiedAt := Some now\<rparr>) d"
  have "bookings ?e = bookings d \<or> (\<exists>b. List.find (\<lambda>b. bk_id b = the (pay_bookingId p)) (bookings d) = Some b
      \<and> truthy (pay_bookingId p) \<and> ?e = confirm_and_award ids now (pay_userId p) b ?d)"
    by (cases "List.find (\<lambda>b. bk_id b = the (pay_bookingId p)) (bookings d)"; cases "find_wallet ?d (pay_userId p)")
      (simp_all add: apply_success_def Let_def frame_simps)
  then consider "bookings ?e = bookings d"
    | b where "List.find (\<lambda>b. bk_id b = the (pay_bookingId p)) (bookings d) = Some b" "truthy (pay_bookingId p)"
      "?e = confirm_and_award ids now (pay_userId p) b ?d" by blast
  then show ?thesis
  proof cases
    case 1
    then show ?thesis by (rule quiet_same)
  next
    case (2 b)
    have b: "b \<in> set (bookings d)" "pay_bookingId p = Some (bk_id b)"
      using 2(1,2) by (auto simp: truthy_def dest: find_SomeD split: option.splits)
    have "q = p" if "q \<in> set (payments d)" "pay_id q = pay_id p" for q
      using unique_key_eq [OF assms(2) that(1) assms(3)] that(2) .
    then have "bk_id b \<in> newly_paid d ?d"
      using in_update_rowsI [OF assms(3), of "\<lambda>q. pay_id q = pay_id p" "\<lambda>p. p\<lparr>pay_status := SUCCESS, pay_callbackVerifiedAt := Some now\<rparr>"]
        b(2) assms(4)
      unfolding newly_paid_def update_payment_def by (intro CollectI bexI) auto
    then have "bk_id b \<in> ?A" by (simp add: 2(3) newly_paid_def frame_simps)
    then show ?thesis
      unfolding 2(3) using assms(1) b(1)
      by (intro quiet_after [OF quiet_confirm_and_award]) (simp_all add: frame_simps)
  qed
qed

lemma quiet_callback:
  assumes "handleCallback G gid ids now gw ref (d, g) = (r, (e, g'))" "bookings_ok (bookings d)" "unique_key pay_id (payments d)"
  shows "quiet (newly_paid d e) d e"
proof -
  consider "bookings e = bookings d" | p where "callback_payment gw ref d = Some p" "pay_status p = INITIATED" "e = apply_success ids now p d"
    using assms(1) by (auto simp: handleCallback_def frame_simps split: option.splits if_splits prod.splits)
  then show ?thesis
  proof cases
    case (2 p)
    then have "p \<in> set (payments d)" by (auto simp: callback_payment_def dest: find_SomeD)
    with 2(2) assms(2,3) show ?thesis unfolding 2(3) by (intro quiet_apply_success) auto
  qed (rule quiet_same)
qed

section \<open>Requests\<close>

text \<open>A business confirms only its own reservations, and only by asking for that status.\<close>

lemma quiet_status_change:
  assumes "bookings_ok (bookings d)" "b \<in> set (bookings d)" "bk_status b = PENDING"
    "k \<noteq> bk_id b \<or> s \<noteq> CONFIRMED \<or> bk_businessId b \<noteq> z"
  shows "status_in (snd (updateStatus now z k s d)) (bk_id b) \<noteq> Some CONFIRMED"
proof (cases "find_business_booking d k z")
  case None
  then show ?thesis using status_in_unique [OF assms(1,2)] assms(3) by (simp add: updateStatus_def)
next
  case (Some c)
  note c = find_business_booking_Some [OF Some]
  have find: "List.find (\<lambda>x. bk_id x = bk_id b) (bookings d) = Some b"
    using assms(1,2) by (simp add: bookings_ok_def unique_key_find)
  have "b = c" if "k = bk_id b"
    using unique_key_eq [of bk_id "bookings d" b c] assms(1,2) c that by (simp add: bookings_ok_def)
  then have "k \<noteq> bk_id b \<or> s \<noteq> CONFIRMED" using c assms(4) by blast
  then show ?thesis
    using assms(3) find
    by (auto simp: updateStatus_def Some Let_def update_booking_def status_in_update status_in_def [of d])
qed

lemma quiet_not_confirmed: "quiet A d e \<Longrightarrow> status_in d k = Some PENDING \<Longrightarrow> k \<notin> A \<Longrightarrow> status_in e k \<noteq> Some CONFIRMED"
  unfolding quiet_def by force

lemma quiet_answers:
  "on_db f w = Some (res, w') \<Longrightarrow> quiet A (w_db w) (snd (f (w_db w))) \<Longrightarrow> quiet A (w_db w) (w_db w')"
  "on_read r w = Some (res, w') \<Longrightarrow> quiet A (w_db w) (w_db w')"
  "on_lock h w = Some (res, w') \<Longrightarrow> quiet A (w_db w) (fst (snd (h (w_db w, w_redis w)))) \<Longrightarrow> quiet A (w_db w) (w_db w')"
  by (auto simp: answer_simps quiet_same)

lemma quiet_lock_option:
  "on_lock_option f w = Some (res, w') \<Longrightarrow> (\<And>x. f (w_db w, w_redis w) = Some x \<Longrightarrow> quiet A (w_db w) (fst (snd x)))
     \<Longrightarrow> quiet A (w_db w) (w_db w')"
  by (auto simp: on_lock_option_def answer_simps split: option.splits)

lemma booking_quiet:
  assumes "BookingController_handle E dr u r w = Some (res, w')" "bookings_ok (bookings (w_db w))"
  shows "quiet A (w_db w) (w_db w')"
  using assms
  by (cases r)
    (auto elim!: quiet_answers quiet_lock_option simp: quiet_hold quiet_recurring quiet_confirm quiet_confirmGroup quiet_cancel
      intro: quiet_reschedule)

lemma writes_bookings:
  "T_bookings \<in> writes ep \<Longrightarrow> (\<exists>r. ep = BookingRoute r) \<or> (\<exists>r. ep = BusinessBookingRoute r) \<or> (\<exists>r. ep = PaymentRoute r)"
  by (cases ep rule: writes.cases) auto

text \<open>Whatever else a route does, it confirms no reservation that awaits its deposit.\<close>

lemma handle_quiet:
  assumes "handle E dr u ep w = Some (res, w')" "db_ok (w_db w)" "fresh_draws (w_db w) dr"
    "b \<in> set (bookings (w_db w))" "bk_status b = PENDING" "status_in (w_db w') (bk_id b) = Some CONFIRMED"
  shows "ep = BusinessBookingRoute (BusinessBooking_updateStatus (bk_businessId b) (bk_id b) CONFIRMED)
    \<or> bk_id b \<in> newly_paid (w_db w) (w_db w')"
proof (rule ccontr)
  assume no: "\<not> ?thesis"
  have ok: "bookings_ok (bookings (w_db w))" "unique_key pay_id (payments (w_db w))"
    using assms(2) by (auto simp: db_ok_def payments_ok_def)
  have pending: "status_in (w_db w) (bk_id b) = Some PENDING" using status_in_unique [OF ok(1) assms(4)] assms(5) by simp
  have "\<not> quiet (newly_paid (w_db w) (w_db w')) (w_db w) (w_db w')"
    using quiet_not_confirmed [OF _ pending] no assms(6) by blast
  moreover have "quiet A (w_db w) (w_db w')" if "T_bookings \<notin> writes ep" for A
    using handle_confined [OF assms(1)] frameD(1) that by (intro quiet_same) (auto simp: confined_def)
  ultimately have wrote: "T_bookings \<in> writes ep" and loud: "\<not> quiet (newly_paid (w_db w) (w_db w')) (w_db w) (w_db w')" by blast+
  show False
    using writes_bookings [OF wrote]
  proof (elim disjE exE)
    fix r
    assume "ep = BookingRoute r"
    with assms(1) loud booking_quiet [OF _ ok(1)] show False by simp
  next
    fix r
    assume "ep = BusinessBookingRoute r"
    then show False
      using assms(1,6) loud wrote no quiet_cancel(2) [OF ok(1)] quiet_status_change [OF ok(1) assms(4,5)]
      by (cases r) (auto simp: answer_simps)
  next
    fix r
    assume "ep = PaymentRoute r"
    then show False
      using assms(1) loud wrote
      by (cases r) (auto simp: on_gateway_def split: prod.splits
          dest!: quiet_initiate [OF _ ok(1) fresh_drawsD(7) [OF assms(3)]] quiet_callback [OF _ ok])
  qed
qed

text \<open>A payment that became SUCCESS for a reservation was made by its customer, over its deposit.\<close>

lemma paid_by_customer:
  assumes "transition E w ev w'" "db_ok (w_db w)" "refs_ok (w_db w)" "b \<in> set (bookings (w_db w))"
    "bk_id b \<in> newly_paid (w_db w) (w_db w')"
  shows "\<exists>p \<in> set (payments (w_db w')). pay_bookingId p = Some (bk_id b) \<and> pay_userId p = bk_userId b
    \<and> pay_amount p = bk_depositRequired b \<and> pay_status p = SUCCESS
    \<and> (\<forall>q \<in> set (payments (w_db w)). pay_id q = pay_id p \<longrightarrow> pay_status q \<noteq> SUCCESS)"
proof -
  have step: "db_step (w_db w) (w_db w')" by (rule transition_db [OF assms(1,2)])
  then have ok': "bookings_ok (bookings (w_db w'))" by (simp add: db_step_def db_ok_def)
  obtain p where p: "p \<in> set (payments (w_db w'))" "pay_bookingId p = Some (bk_id b)" "pay_status p = SUCCESS"
      "\<forall>q \<in> set (payments (w_db w)). pay_id q = pay_id p \<longrightarrow> pay_status q \<noteq> SUCCESS"
    using assms(5) by (auto simp: newly_paid_def)
  have "payment_links p \<subseteq> rows (w_db w')"
    using refs_okD [OF transition_refs [OF assms(1,3)], of _ T_payments] p(1) by auto
  then obtain c where c: "c \<in> set (bookings (w_db w'))" "bk_id c = bk_id b" "bk_userId c = pay_userId p"
      "bk_depositRequired c = pay_amount p"
    using p(2) by (auto simp: payment_links_def in_rows)
  obtain x where "x \<in> set (bookings (w_db w'))" "snapshot x = snapshot b"
    using step assms(4) unfolding db_step_def evolves_def by blast
  then have "c = x" using unique_key_eq [of bk_id "bookings (w_db w')" c x] ok' c snapshot_id [of x b] by (simp add: bookings_ok_def)
  with c \<open>snapshot x = snapshot b\<close> have "pay_userId p = bk_userId b" "pay_amount p = bk_depositRequired b"
    by (auto simp: snapshot_def)
  with p show ?thesis by blast
qed

section \<open>The property\<close>

text \<open>
  C8. A reservation that awaits its deposit is confirmed only by its business or by its
  payment. If any event turns a reservation from PENDING to CONFIRMED, then either it is a
  request of the business of that very reservation to set this status, or a payment by the
  customer of the reservation over exactly the required deposit became SUCCESS in this step.
\<close>

theorem confirmed_by_business_or_payment:
  assumes "transition E w ev w'" "db_ok (w_db w)" "refs_ok (w_db w)"
    "b \<in> set (bookings (w_db w))" "bk_status b = PENDING"
    "b' \<in> set (bookings (w_db w'))" "bk_id b' = bk_id b" "bk_status b' = CONFIRMED"
  shows "(\<exists>dr sub. ev = Request dr sub
        (BusinessBookingRoute (BusinessBooking_updateStatus (bk_businessId b) (bk_id b) CONFIRMED)) (Inr ()))
    \<or> (\<exists>p \<in> set (payments (w_db w')). pay_bookingId p = Some (bk_id b) \<and> pay_userId p = bk_userId b
        \<and> pay_amount p = bk_depositRequired b \<and> pay_status p = SUCCESS
        \<and> (\<forall>q \<in> set (payments (w_db w)). pay_id q = pay_id p \<longrightarrow> pay_status q \<noteq> SUCCESS))"
proof -
  have ok: "bookings_ok (bookings (w_db w))" using assms(2) by (simp add: db_ok_def)
  have step: "db_step (w_db w) (w_db w')" by (rule transition_db [OF assms(1,2)])
  then have ok': "bookings_ok (bookings (w_db w'))" by (simp add: db_step_def db_ok_def)
  have confirmed: "status_in (w_db w') (bk_id b) = Some CONFIRMED"
    using status_in_unique [OF ok' assms(6)] assms(7,8) by simp
  have changed: "status_in (w_db w) (bk_id b) = Some PENDING" using status_in_unique [OF ok assms(4)] assms(5) by simp
  from assms(1) show ?thesis
  proof (cases rule: transition.cases)
    case (request dr sub ep res)
    from request(3) show ?thesis
    proof (cases rule: serve_cases)
      case refused
      with confirmed changed show ?thesis by simp
    next
      case (handled u)
      from handle_quiet [OF handled(4) assms(2) request(2) assms(4,5) confirmed] show ?thesis
      proof
        assume ep: "ep = BusinessBookingRoute (BusinessBooking_updateStatus (bk_businessId b) (bk_id b) CONFIRMED)"
        have "res = Inr ()"
          using handled(4) confirmed changed unfolding ep
          by (cases res) (auto simp: answer_simps status_of_def updateStatus_def Let_def split: option.splits if_splits sum.splits)
        with request(1) ep show ?thesis by blast
      next
        assume "bk_id b \<in> newly_paid (w_db w) (w_db w')"
        from paid_by_customer [OF assms(1-4) this] show ?thesis by blast
      qed
    qed
  next
    case throttled
    with confirmed changed show ?thesis by simp
  next
    case (clean_up now)
    with quiet_not_confirmed [OF quiet_cancel(3) [OF ok, of "{}"] changed] confirmed show ?thesis by simp
  qed
qed

text \<open>The owner confirms a reservation of the own business.\<close>

lemma city_confirms:
  "serve city_env (city_draws day0) (Some ''owner'') (BusinessBookingRoute (BusinessBooking_updateStatus ''biz'' ''k'' CONFIRMED))
     (city_world [demo_booking ''k'' PENDING nine])
   = Some (Inr (), (city_world [demo_booking ''k'' PENDING nine])\<lparr>w_db := city [demo_booking ''k'' CONFIRMED nine]\<rparr>)"
proof -
  have "find_user (city bs) ''owner'' = Some (citizen ''owner'' ''09120000002'')" for bs
    by (simp add: find_user_def city_def citizen_def)
  then have "authenticate (Some ''owner'') (city bs) = Inr (''owner'', USER)" for bs
    by (simp add: authenticate_def jwt_validate_def citizen_def demo_user_def)
  moreover have "find_membership (city bs) ''owner'' ''biz'' = Some city_owner" for bs
    by (simp add: find_membership_def city_def city_owner_def)
  then have "guards (member_route [OWNER, MANAGER]) (Inr (''owner'', USER)) (Some ''biz'') (city bs) = Inr (Some (''owner'', USER))" for bs
    by (simp add: guards_eq member_route_def city_owner_def)
  moreover have "updateStatus day0 ''biz'' ''k'' CONFIRMED (city [demo_booking ''k'' PENDING nine])
      = (Inr (demo_booking ''k'' CONFIRMED nine), city [demo_booking ''k'' CONFIRMED nine])"
    by (simp add: updateStatus_def find_business_booking_def update_booking_def demo_booking_def city_def demo_db_def)
  ultimately show ?thesis
    by (simp add: serve_def valid_UpdateBookingStatusDto_def user_id_def on_db_def status_of_def city_draws_def)
qed

theorem confirmed_by_business_or_payment_witness:
  "\<exists>ev w'. transition city_env (city_world [demo_booking ''k'' PENDING nine]) ev w'
     \<and> bookings (w_db w') = [demo_booking ''k'' CONFIRMED nine]
     \<and> (\<exists>dr sub. ev = Request dr sub (BusinessBookingRoute (BusinessBooking_updateStatus ''biz'' ''k'' CONFIRMED)) (Inr ()))"
proof -
  have "fresh_draws (w_db (city_world [demo_booking ''k'' PENDING nine])) (city_draws day0)"
    using city_fresh [of "[demo_booking ''k'' PENDING nine]"] by (simp add: demo_booking_sel)
  note t = transition.request [OF this city_confirms]
  have ok: "db_ok (city [demo_booking ''k'' PENDING nine])" using city_ok demo_bookings_ok_single by simp
  have "payments (city [demo_booking ''k'' CONFIRMED nine]) = payments (city [demo_booking ''k'' PENDING nine])"
    by (simp add: city_def)
  then have "\<exists>dr sub. Request (city_draws day0) (Some ''owner'') (BusinessBookingRoute (BusinessBooking_updateStatus ''biz'' ''k'' CONFIRMED)) (Inr ())
      = Request dr sub (BusinessBookingRoute (BusinessBooking_updateStatus ''biz'' ''k'' CONFIRMED)) (Inr ())"
    using confirmed_by_business_or_payment [OF t, of "demo_booking ''k'' PENDING nine" "demo_booking ''k'' CONFIRMED nine"] ok city_refs
    by (auto simp: demo_booking_sel)
  with t show ?thesis
    by (intro exI [of _ "(city_world [demo_booking ''k'' PENDING nine])\<lparr>w_db := city [demo_booking ''k'' CONFIRMED nine]\<rparr>"] exI conjI) simp_all
qed

end
