(* ===== verification/Trail.thy ===== *)
theory Trail
  imports Confirmation
begin

text \<open>
  The audit log (\<open>common/audit/audit.service.ts\<close>) tells the truth. A log is replayed over a
  state: \<open>replays\<close> says that reading the new entries in order, from what was there before,
  gives what is there now. The status of every business and the number of refunds of every
  payment are two such states.
\<close>

section \<open>Replaying a log\<close>

definition replays :: "(db \<Rightarrow> id \<Rightarrow> 's option) \<Rightarrow> (id \<Rightarrow> audit_log \<Rightarrow> 's \<Rightarrow> 's) \<Rightarrow> 's \<Rightarrow> db \<Rightarrow> audit_log list \<Rightarrow> db \<Rightarrow> bool" where
  "replays state entry init d new e \<longleftrightarrow> (\<forall>k. case state d k of
     Some s \<Rightarrow> state e k = Some (fold (entry k) new s)
   | None \<Rightarrow> state e k = None \<and> (\<forall>l \<in> set new. \<forall>s. entry k l s = s) \<or> state e k = Some (fold (entry k) new init))"

lemma fold_silent: "\<forall>l \<in> set new. \<forall>s. f l s = s \<Longrightarrow> fold f new s = s"
  by (induction new) auto

text \<open>A state that is read off some tables and what a log entry does to it.\<close>

locale logged_state =
  fixes state :: "db \<Rightarrow> id \<Rightarrow> 's option" and entry :: "id \<Rightarrow> audit_log \<Rightarrow> 's \<Rightarrow> 's" and init :: 's and tables :: "table set"
  assumes state_frame: "frame T d e \<Longrightarrow> T \<inter> tables = {} \<Longrightarrow> state e k = state d k"
begin

lemma replays_frame: "frame T d e \<Longrightarrow> T \<inter> tables = {} \<Longrightarrow> replays state entry init d [] e"
  using state_frame unfolding replays_def by (simp split: option.split)

lemma replays_trans:
  assumes "replays state entry init d new e" "replays state entry init e new' f"
  shows "replays state entry init d (new @ new') f"
  unfolding replays_def
proof
  fix k
  show "case state d k of Some s \<Rightarrow> state f k = Some (fold (entry k) (new @ new') s)
    | None \<Rightarrow> state f k = None \<and> (\<forall>l \<in> set (new @ new'). \<forall>s. entry k l s = s) \<or> state f k = Some (fold (entry k) (new @ new') init)"
    using assms unfolding replays_def
    by (cases "state d k"; cases "state e k")
      (force dest!: spec [of _ k] simp: fold_silent split: option.splits)+
qed

end

section \<open>Reviews and refunds\<close>

definition review_status :: "db \<Rightarrow> id \<Rightarrow> BusinessStatus option" where
  "review_status d k = map_option biz_status (find_business d k)"

definition reviewed :: "id \<Rightarrow> audit_log \<Rightarrow> BusinessStatus \<Rightarrow> BusinessStatus" where
  "reviewed k l s =
     (if al_entityType l = ''Business'' \<and> al_entityId l = k then
        (if al_action l = ''BUSINESS_APPROVED'' then APPROVED
         else if al_action l = ''BUSINESS_REJECTED'' then REJECTED
         else if al_action l = ''BUSINESS_SUSPENDED'' then SUSPENDED else s)
      else s)"

definition refunds_of :: "db \<Rightarrow> id \<Rightarrow> nat option" where
  "refunds_of d k = Some (credits d Tx_REFUND k)"

definition refund_logged :: "id \<Rightarrow> audit_log \<Rightarrow> bool" where
  "refund_logged k l \<longleftrightarrow> al_entityType l = ''Payment'' \<and> al_action l = ''PAYMENT_REFUNDED'' \<and> al_entityId l = k"

definition refunded :: "id \<Rightarrow> audit_log \<Rightarrow> nat \<Rightarrow> nat" where
  "refunded k l n = (if refund_logged k l then Suc n else n)"

interpretation reviews: logged_state review_status reviewed PENDING_REVIEW "{T_businesses}"
proof
  fix T d e k
  assume "frame T d e" "T \<inter> {T_businesses} = {}"
  then have "businesses e = businesses d" by (intro frameD) auto
  then show "review_status e k = review_status d k" by (simp add: review_status_def find_business_def)
qed

interpretation refunds: logged_state refunds_of refunded 0 "{T_wallet_txs}"
proof
  fix T d e k
  assume "frame T d e" "T \<inter> {T_wallet_txs} = {}"
  then have "same_table T_wallet_txs d e" unfolding frame_def by blast
  then show "refunds_of e k = refunds_of d k" by (simp add: refunds_of_def credits_def)
qed

text \<open>What the new entries of the log account for.\<close>

definition trail :: "db \<Rightarrow> audit_log list \<Rightarrow> db \<Rightarrow> bool" where
  "trail d new e \<longleftrightarrow> audit_logs e = audit_logs d @ new
     \<and> replays review_status reviewed PENDING_REVIEW d new e \<and> replays refunds_of refunded 0 d new e"

lemma trail_trans: "trail d new e \<Longrightarrow> trail e new' f \<Longrightarrow> trail d (new @ new') f"
  unfolding trail_def using reviews.replays_trans refunds.replays_trans by auto

lemma trail_frame:
  assumes "frame T d e" "T \<inter> {T_businesses, T_wallet_txs, T_audit_logs} = {}"
  shows "trail d [] e"
proof -
  have "T \<inter> {T_businesses} = {}" "T \<inter> {T_wallet_txs} = {}" "T_audit_logs \<notin> T" using assms(2) by auto
  then show ?thesis
    using reviews.replays_frame [OF assms(1)] refunds.replays_frame [OF assms(1)] frameD(3) [OF assms(1)] by (simp add: trail_def)
qed

lemma trail_refl [simp]: "trail d [] d"
  by (rule trail_frame [of "{}"]) simp_all

lemma fold_refunded: "fold (refunded k) new n = n + length (filter (refund_logged k) new)"
  by (induction new arbitrary: n) (auto simp: refunded_def)

section \<open>Operations\<close>

lemma trail_same:
  assumes "audit_logs e = audit_logs d" "businesses e = businesses d" "credits e Tx_REFUND = credits d Tx_REFUND"
  shows "trail d [] e"
proof -
  have "review_status e = review_status d" "refunds_of e = refunds_of d"
    using assms(2,3) by (simp_all add: fun_eq_iff review_status_def find_business_def refunds_of_def)
  with assms(1) show ?thesis by (simp add: trail_def replays_def split: option.split)
qed

lemma find_business_update:
  assumes "\<And>b. biz_id (f b) = biz_id b"
  shows "find_business (d\<lparr>businesses := update_rows (\<lambda>b. biz_id b = k) f (businesses d)\<rparr>) z
     = (if z = k then map_option f (find_business d z) else find_business d z)"
proof -
  have "find_business (d\<lparr>businesses := update_rows (\<lambda>b. biz_id b = k) f (businesses d)\<rparr>) z
      = map_option (\<lambda>b. if biz_id b = k then f b else b) (find_business d z)"
    using assms by (simp add: find_business_def find_key_update)
  then show ?thesis by (cases "find_business d z") (auto simp: find_business_def dest: find_SomeD)
qed

lemma refunds_businesses [simp]: "refunds_of (d\<lparr>businesses := t, audit_logs := l\<rparr>) = refunds_of d" "refunds_of (d\<lparr>businesses := t\<rparr>) = refunds_of d"
  by (simp_all add: fun_eq_iff refunds_of_def credits_def)

lemma credits_tables [simp]:
  "credits (d\<lparr>audit_logs := l\<rparr>) = credits d" "credits (d\<lparr>businesses := t\<rparr>) = credits d"
  by (rule credits_cong, simp)+

lemma trail_business_create: "trail d [] (snd (business_create now n m u dto d))"
  by (auto simp: trail_def business_create_def transaction_def Let_def replays_def review_status_def find_business_def
      find_insert_row new_business_def refunds_of_def credits_def split: option.split)

lemma trail_business_update:
  assumes "\<And>b. biz_id (f b) = biz_id b" "\<And>b. biz_status (f b) = biz_status b"
  shows "trail d [] (snd (update_business k f d))"
  using assms
  by (auto simp: trail_def update_business_def replays_def review_status_def find_business_update refunds_of_def
      split: sum.split option.split)

lemma trail_review:
  assumes "(act, s) \<in> {(''BUSINESS_APPROVED'', APPROVED), (''BUSINESS_REJECTED'', REJECTED), (''BUSINESS_SUSPENDED'', SUSPENDED)}"
  shows "\<exists>new. trail d new (snd (review k a s why act meta d))"
proof (cases "find_business d k")
  case None
  then have "snd (review k a s why act meta d) = d" by (simp add: review_def update_business_def assertExists_def)
  then show ?thesis using trail_refl by metis
next
  case (Some b)
  let ?l = "\<lparr>al_actorId = Some a, al_action = act, al_entityType = ''Business'', al_entityId = k, al_metadata = meta\<rparr>"
  let ?e = "d\<lparr>businesses := update_rows (\<lambda>b. biz_id b = k) (\<lambda>b. b\<lparr>biz_status := s, biz_rejectReason := why\<rparr>) (businesses d),
      audit_logs := insert_row ?l (audit_logs d)\<rparr>"
  have e: "snd (review k a s why act meta d) = ?e"
    by (simp add: review_def update_business_def assertExists_def Some audit_log_create_def)
  have "review_status ?e z = (if z = k then Some s else review_status d z)" for z
    using find_business_update [of "\<lambda>b. b\<lparr>biz_status := s, biz_rejectReason := why\<rparr>"] Some
    by (simp add: review_status_def find_business_def)
  moreover have "reviewed z ?l x = (if z = k then s else x)" for z x using assms by (auto simp: reviewed_def)
  moreover have "refunded z ?l n = n" for z n by (simp add: refunded_def refund_logged_def)
  moreover have "review_status d k = Some (biz_status b)" using Some by (simp add: review_status_def)
  ultimately have "trail d [?l] ?e"
    by (auto simp: trail_def insert_row_def replays_def split: option.split)
  then show ?thesis unfolding e by blast
qed

lemma trail_initiate:
  assumes "initiate G url gid ids now n u dto (d, g) = (r, (e, g'))"
  shows "trail d [] e"
proof (rule trail_same)
  have f: "frame pay_tables d e" by (rule frame_initiate [OF assms])
  from frameD(2,3) [OF f] show "audit_logs e = audit_logs d" "businesses e = businesses d" by simp_all
  from assms show "credits e Tx_REFUND = credits d Tx_REFUND"
  proof (cases rule: initiate_cases)
    case (wallet b p)
    from wallet(8) show ?thesis
    proof (cases rule: payFromWallet_cases)
      case (paid w c)
      then have "credits e = credits (post_wallet_tx now w Tx_PAYMENT (- bk_depositRequired b) (bk_id b) d)"
        by (intro credits_cong) (simp add: frame_simps)
      then show ?thesis by (simp add: fun_eq_iff)
    qed simp
  next
    case (gateway b s)
    then have "frame {T_payments} d e" unfolding payFromGateway_def by (blast intro: frame_open_session)
    then have "same_table T_wallet_txs d e" unfolding frame_def by blast
    then have "credits e = credits d" by (intro credits_cong) simp
    then show ?thesis by simp
  qed simp
qed

lemma trail_callback:
  assumes "handleCallback G gid ids now gw ref (d, g) = (r, (e, g'))"
  shows "trail d [] e"
proof (rule trail_same)
  have f: "frame pay_tables d e" by (rule frame_callback [OF assms])
  from frameD(2,3) [OF f] show "audit_logs e = audit_logs d" "businesses e = businesses d" by simp_all
  have "credits (confirm_and_award ids now u b d) = credits d" for u b d by (rule credits_cong) (simp add: frame_simps)
  then have "credits (apply_success ids now p d) Tx_REFUND = credits d Tx_REFUND" for p
    by (auto simp: apply_success_def Let_def fun_eq_iff split: option.split)
  with assms show "credits e Tx_REFUND = credits d Tx_REFUND"
    by (auto simp: handleCallback_def split: option.splits if_splits prod.splits)
qed

lemma trail_refund: "\<exists>new. trail d new (snd (refund now n k a why d))"
proof (cases "snd (refund now n k a why d) = d")
  case True
  then show ?thesis using trail_refl by metis
next
  case False
  let ?d = "update_payment k (\<lambda>p. p\<lparr>pay_status := REFUNDED\<rparr>) d"
  obtain p w e where "p \<in> set (payments d)" and p: "pay_id p = k" and up: "upsert_wallet n (pay_userId p) ?d = (w, e)"
    and res: "snd (refund now n k a why d) = audit_log_create (Some a) ''PAYMENT_REFUNDED'' ''Payment'' k
      [(''amount'', JNum (pay_amount p)), (''reason'', JStr why)] (post_wallet_tx now w Tx_REFUND (pay_amount p) (pay_id p) e)"
    using False by (auto simp: refund_def Let_def audit_log_create_def split: option.splits if_splits prod.splits dest!: find_SomeD)
  define l where "l = \<lparr>al_actorId = Some a, al_action = ''PAYMENT_REFUNDED'', al_entityType = ''Payment'', al_entityId = k,
    al_metadata = [(''amount'', JNum (pay_amount p)), (''reason'', JStr why)]\<rparr>"
  have f: "frame {T_payments, T_wallets} d e"
    by (rule frame_trans [OF frame_update_payment frame_upsert_wallet [OF up]]) auto
  then have "same_table T_wallet_txs d e" unfolding frame_def by blast
  then have "credits e = credits d" by (intro credits_cong) simp
  then have "refunds_of (snd (refund now n k a why d)) z = Some (credits d Tx_REFUND z + (if z = k then 1 else 0))" for z
    by (simp add: res refunds_of_def audit_log_create_def p)
  moreover have "refunded z l x = (if z = k then Suc x else x)" for z x by (simp add: refunded_def refund_logged_def l_def)
  moreover have "businesses (snd (refund now n k a why d)) = businesses d" "audit_logs (snd (refund now n k a why d)) = audit_logs d @ [l]"
    using frameD(2,3) [OF f] by (simp_all add: res audit_log_create_def insert_row_def post_wallet_tx_def Let_def l_def)
  moreover have "reviewed z l s = s" for z s by (simp add: reviewed_def l_def)
  ultimately have "trail d [l] (snd (refund now n k a why d))"
    by (auto simp: trail_def replays_def review_status_def find_business_def refunds_of_def [of d] split: option.split)
  then show ?thesis ..
qed

section \<open>Requests and histories\<close>

lemma writes_logged:
  "writes ep \<inter> {T_businesses, T_wallet_txs, T_audit_logs} \<noteq> {}
     \<Longrightarrow> (\<exists>r. ep = BusinessRoute r) \<or> (\<exists>r. ep = AdminBusinessRoute r) \<or> (\<exists>r. ep = PaymentRoute r)"
  by (cases ep rule: writes.cases) auto

lemma handle_trail:
  assumes "handle E dr u ep w = Some (res, w')"
  shows "\<exists>new. trail (w_db w) new (w_db w')"
proof (cases "writes ep \<inter> {T_businesses, T_wallet_txs, T_audit_logs} = {}")
  case True
  with handle_confined [OF assms] show ?thesis using trail_frame unfolding confined_def by blast
next
  case False
  have one: "\<exists>new. trail d new e" if "trail d [] e" for d e using that ..
  from writes_logged [OF False] show ?thesis
  proof (elim disjE exE)
    fix r
    assume "ep = BusinessRoute r"
    with assms False show ?thesis
      by (cases r) (auto simp: answer_simps business_update_def updateCancellationPolicy_def
          intro!: one trail_business_create trail_business_update)
  next
    fix r
    assume "ep = AdminBusinessRoute r"
    with assms False show ?thesis
      by (cases r) (auto simp: answer_simps approve_def reject_def suspend_def intro!: trail_review)
  next
    fix r
    assume "ep = PaymentRoute r"
    with assms show ?thesis
      by (cases r) (auto simp: answer_simps on_gateway_def trail_refund split: prod.splits
          dest!: trail_initiate trail_callback)
  qed
qed

lemma transition_trail:
  assumes "transition E w ev w'"
  shows "\<exists>new. trail (w_db w) new (w_db w')"
  using assms
proof (cases rule: transition.cases)
  case (request dr sub ep res)
  from request(3) show ?thesis
  proof (cases rule: serve_cases)
    case (handled u)
    then show ?thesis by (blast intro: handle_trail)
  qed (use trail_refl in blast)
next
  case throttled
  then show ?thesis using trail_refl by blast
next
  case (clean_up now)
  from trail_frame [OF frame_bookings(4) [of "w_db w" now]] clean_up show ?thesis by auto
qed

lemma run_trail: "run (transition E) w es w' \<Longrightarrow> \<exists>new. trail (w_db w) new (w_db w')"
proof (induction rule: run.induct)
  case (stop w)
  then show ?case using trail_refl by blast
next
  case (move w ev v es w')
  then obtain new new' where "trail (w_db w) new (w_db v)" "trail (w_db v) new' (w_db w')"
    using transition_trail by blast
  then show ?case using trail_trans by blast
qed

text \<open>
  C15. The audit log accounts for what administrators did. Over every history the log only
  grows. The status of a business is the one its last new entry names (approved, rejected or
  suspended); without such an entry it is still what it was, or PENDING_REVIEW for a business
  that was created meanwhile: no status changes without a trace, and no trace is left without
  the change. And the wallet movements that refund a payment became more by exactly the
  number of its new entries.
\<close>

theorem audit_trail:
  assumes "run (transition E) w es w'"
  shows "\<exists>new. audit_logs (w_db w') = audit_logs (w_db w) @ new
    \<and> (\<forall>k z'. find_business (w_db w') k = Some z' \<longrightarrow>
        biz_status z' = fold (reviewed k) new
          (case find_business (w_db w) k of None \<Rightarrow> PENDING_REVIEW | Some z \<Rightarrow> biz_status z))
    \<and> (\<forall>k. credits (w_db w') Tx_REFUND k = credits (w_db w) Tx_REFUND k + length (filter (refund_logged k) new))"
proof -
  obtain new where t: "trail (w_db w) new (w_db w')" using run_trail [OF assms] ..
  have "biz_status z' = fold (reviewed k) new (case find_business (w_db w) k of None \<Rightarrow> PENDING_REVIEW | Some z \<Rightarrow> biz_status z)"
    if "find_business (w_db w') k = Some z'" for k z'
  proof (cases "find_business (w_db w) k")
    case (Some z)
    with t that show ?thesis by (auto simp: trail_def replays_def review_status_def dest!: spec [of _ k])
  next
    case None
    with t that show ?thesis by (auto simp: trail_def replays_def review_status_def dest!: spec [of _ k])
  qed
  moreover have "credits (w_db w') Tx_REFUND k = credits (w_db w) Tx_REFUND k + length (filter (refund_logged k) new)" for k
    using t by (auto simp: trail_def replays_def refunds_of_def fold_refunded)
  moreover have "audit_logs (w_db w') = audit_logs (w_db w) @ new" using t by (simp add: trail_def)
  ultimately show ?thesis by blast
qed

theorem audit_trail_witness:
  "\<exists>w' new. run (transition city_env) (city_world [demo_booking ''k'' CONFIRMED nine]) city_history w'
     \<and> audit_logs (w_db w') = new
     \<and> (\<forall>z'. find_business (w_db w') ''biz'' = Some z' \<longrightarrow> biz_status z' = fold (reviewed ''biz'') new APPROVED)"
proof -
  obtain w where w: "run (transition city_env) (city_world [demo_booking ''k'' CONFIRMED nine]) city_history w"
    using city_run [of "[]"] by auto
  have "find_business (city bs) ''biz'' = Some demo_business" "audit_logs (city bs) = []" for bs
    by (simp_all add: find_business_def city_def demo_db_def empty_db_def demo_business_def)
  with audit_trail [OF w] w show ?thesis by (auto simp: demo_business_def)
qed

end
