(* ===== verification/Wiring.thy ===== *)
theory Wiring
  imports Footprint
begin

text \<open>
  How the backend is put together: every \<open>*.module.ts\<close> as a record of what it imports,
  declares and exports, and for every class what its constructor asks for. Shown: everything
  that is asked for can be injected where it is asked for, every class is declared once, the
  classes can be built one after the other, every controller of the model is mounted, and the
  guards run in the order in which \<open>app.module.ts\<close> registers them. What the modules of the
  installed packages export is a parameter.
\<close>

section \<open>Classes and modules\<close>

text \<open>
  Classes and injection tokens, the last four of them from packages; what the classes of
  packages ask for themselves is not modelled.
\<close>

datatype token =
    PrismaService | SMS_PROVIDER | AuditService | REDIS_CLIENT | RedisLockService | PAYMENT_GATEWAY
    | OtpService | AuthService | JwtStrategy | AuthController | UsersService | UsersController |
    BusinessService | BusinessController | BranchService | BranchController | ServiceCatalogService
    | ServiceCatalogController | StaffService | StaffController | WorkingHoursService |
    WorkingHoursController | DiscoveryController | AdminBusinessController | BookingService |
    AvailabilityService | BookingCleanupService | BookingController | AvailabilityController |
    BusinessBookingController | PaymentService | PaymentController | WalletService |
    WalletController | SettlementService | BusinessSettlementController | AdminSettlementController
    | CouponService | BusinessCouponController | CouponController | AdminCouponController |
    LoyaltyService | LoyaltyController | ReferralService | ReferralController | JwtAuthGuard |
    RolesGuard | BusinessRoleGuard | ThrottlerGuard | ConfigService | JwtService | Reflector

datatype module_id =
    M_App | M_Prisma | M_Sms | M_Audit | M_Redis | M_PaymentGateway | M_Otp | M_Auth | M_Users | M_Business
    | M_Branch | M_ServiceCatalog | M_Staff | M_WorkingHours | M_Discovery | M_AdminBusiness |
    M_Booking | M_Payment | M_Wallet | M_Settlement | M_Coupon | M_Loyalty | M_Referral
  | M_Core | M_Config | M_Schedule | M_Throttler | M_Passport | M_Jwt

record nest_module =
  mod_global :: bool
  mod_imports :: "module_id list"
  mod_controllers :: "token list"
  mod_providers :: "token list"
  mod_exports :: "token list"

definition plain_module :: nest_module where
  "plain_module = \<lparr>mod_global = False, mod_imports = [], mod_controllers = [], mod_providers = [], mod_exports = []\<rparr>"

section \<open>The modules\<close>

definition AppModule :: nest_module where
  "AppModule = plain_module\<lparr>
     mod_imports := [M_Config, M_Schedule, M_Throttler, M_Prisma, M_Sms, M_Audit, M_Redis, M_Auth, M_Users,
       M_Business, M_Branch, M_ServiceCatalog, M_Staff, M_WorkingHours, M_Discovery, M_AdminBusiness,
       M_Booking, M_PaymentGateway, M_Payment, M_Wallet, M_Settlement, M_Coupon, M_Loyalty, M_Referral],
     mod_providers := [JwtAuthGuard, RolesGuard, BusinessRoleGuard, ThrottlerGuard]\<rparr>"

definition PrismaModule :: nest_module where
  "PrismaModule = plain_module\<lparr>mod_global := True,
     mod_providers := [PrismaService],
     mod_exports := [PrismaService]\<rparr>"

definition SmsModule :: nest_module where
  "SmsModule = plain_module\<lparr>mod_global := True,
     mod_providers := [SMS_PROVIDER],
     mod_exports := [SMS_PROVIDER]\<rparr>"

definition AuditModule :: nest_module where
  "AuditModule = plain_module\<lparr>mod_global := True,
     mod_providers := [AuditService],
     mod_exports := [AuditService]\<rparr>"

definition RedisModule :: nest_module where
  "RedisModule = plain_module\<lparr>mod_global := True,
     mod_providers := [REDIS_CLIENT, RedisLockService],
     mod_exports := [REDIS_CLIENT, RedisLockService]\<rparr>"

definition PaymentGatewayModule :: nest_module where
  "PaymentGatewayModule = plain_module\<lparr>mod_global := True,
     mod_providers := [PAYMENT_GATEWAY],
     mod_exports := [PAYMENT_GATEWAY]\<rparr>"

definition OtpModule :: nest_module where
  "OtpModule = plain_module\<lparr>mod_providers := [OtpService],
     mod_exports := [OtpService]\<rparr>"

definition AuthModule :: nest_module where
  "AuthModule = plain_module\<lparr>mod_imports := [M_Passport, M_Jwt, M_Otp, M_Referral],
     mod_controllers := [AuthController],
     mod_providers := [AuthService, JwtStrategy],
     mod_exports := [AuthService]\<rparr>"

definition UsersModule :: nest_module where
  "UsersModule = plain_module\<lparr>mod_controllers := [UsersController],
     mod_providers := [UsersService],
     mod_exports := [UsersService]\<rparr>"

definition BusinessModule :: nest_module where
  "BusinessModule = plain_module\<lparr>mod_controllers := [BusinessController],
     mod_providers := [BusinessService],
     mod_exports := [BusinessService]\<rparr>"

definition BranchModule :: nest_module where
  "BranchModule = plain_module\<lparr>mod_controllers := [BranchController],
     mod_providers := [BranchService]\<rparr>"

definition ServiceCatalogModule :: nest_module where
  "ServiceCatalogModule = plain_module\<lparr>mod_controllers := [ServiceCatalogController],
     mod_providers := [ServiceCatalogService]\<rparr>"

definition StaffModule :: nest_module where
  "StaffModule = plain_module\<lparr>mod_controllers := [StaffController],
     mod_providers := [StaffService]\<rparr>"

definition WorkingHoursModule :: nest_module where
  "WorkingHoursModule = plain_module\<lparr>mod_controllers := [WorkingHoursController],
     mod_providers := [WorkingHoursService]\<rparr>"

definition DiscoveryModule :: nest_module where
  "DiscoveryModule = plain_module\<lparr>mod_imports := [M_Business],
     mod_controllers := [DiscoveryController]\<rparr>"

definition AdminBusinessModule :: nest_module where
  "AdminBusinessModule = plain_module\<lparr>mod_imports := [M_Business],
     mod_controllers := [AdminBusinessController]\<rparr>"

definition BookingModule :: nest_module where
  "BookingModule = plain_module\<lparr>mod_imports := [M_Coupon, M_Loyalty, M_Referral],
     mod_controllers := [BookingController, AvailabilityController, BusinessBookingController],
     mod_providers := [BookingService, AvailabilityService, BookingCleanupService],
     mod_exports := [BookingService, AvailabilityService]\<rparr>"

definition PaymentModule :: nest_module where
  "PaymentModule = plain_module\<lparr>mod_imports := [M_Booking],
     mod_controllers := [PaymentController],
     mod_providers := [PaymentService],
     mod_exports := [PaymentService]\<rparr>"

definition WalletModule :: nest_module where
  "WalletModule = plain_module\<lparr>mod_controllers := [WalletController],
     mod_providers := [WalletService],
     mod_exports := [WalletService]\<rparr>"

definition SettlementModule :: nest_module where
  "SettlementModule = plain_module\<lparr>mod_controllers := [BusinessSettlementController, AdminSettlementController],
     mod_providers := [SettlementService],
     mod_exports := [SettlementService]\<rparr>"

definition CouponModule :: nest_module where
  "CouponModule = plain_module\<lparr>mod_controllers := [BusinessCouponController, CouponController, AdminCouponController],
     mod_providers := [CouponService],
     mod_exports := [CouponService]\<rparr>"

definition LoyaltyModule :: nest_module where
  "LoyaltyModule = plain_module\<lparr>mod_controllers := [LoyaltyController],
     mod_providers := [LoyaltyService],
     mod_exports := [LoyaltyService]\<rparr>"

definition ReferralModule :: nest_module where
  "ReferralModule = plain_module\<lparr>mod_imports := [M_Loyalty],
     mod_controllers := [ReferralController],
     mod_providers := [ReferralService],
     mod_exports := [ReferralService]\<rparr>"

text \<open>
  The packages: \<open>ConfigModule.forRoot({ isGlobal: true })\<close>, and the core of Nest, which is
  there without an import.
\<close>

fun declared :: "module_id \<Rightarrow> nest_module" where
  "declared M_App = AppModule"
| "declared M_Prisma = PrismaModule"
| "declared M_Sms = SmsModule"
| "declared M_Audit = AuditModule"
| "declared M_Redis = RedisModule"
| "declared M_PaymentGateway = PaymentGatewayModule"
| "declared M_Otp = OtpModule"
| "declared M_Auth = AuthModule"
| "declared M_Users = UsersModule"
| "declared M_Business = BusinessModule"
| "declared M_Branch = BranchModule"
| "declared M_ServiceCatalog = ServiceCatalogModule"
| "declared M_Staff = StaffModule"
| "declared M_WorkingHours = WorkingHoursModule"
| "declared M_Discovery = DiscoveryModule"
| "declared M_AdminBusiness = AdminBusinessModule"
| "declared M_Booking = BookingModule"
| "declared M_Payment = PaymentModule"
| "declared M_Wallet = WalletModule"
| "declared M_Settlement = SettlementModule"
| "declared M_Coupon = CouponModule"
| "declared M_Loyalty = LoyaltyModule"
| "declared M_Referral = ReferralModule"
| "declared M_Config = plain_module\<lparr>mod_global := True\<rparr>"
| "declared M_Core = plain_module\<lparr>mod_global := True\<rparr>"
| "declared _ = plain_module"

section \<open>What the constructors ask for\<close>

definition AuditService_injects :: "token list" where
  "AuditService_injects = [PrismaService]"

definition RedisLockService_injects :: "token list" where
  "RedisLockService_injects = [REDIS_CLIENT]"

definition REDIS_CLIENT_injects :: "token list" where
  "REDIS_CLIENT_injects = [ConfigService]"

definition OtpService_injects :: "token list" where
  "OtpService_injects = [PrismaService, SMS_PROVIDER, ConfigService]"

definition AuthService_injects :: "token list" where
  "AuthService_injects = [PrismaService, OtpService, JwtService, ConfigService, ReferralService]"

definition JwtStrategy_injects :: "token list" where
  "JwtStrategy_injects = [ConfigService, PrismaService]"

definition UsersService_injects :: "token list" where
  "UsersService_injects = [PrismaService]"

definition BusinessService_injects :: "token list" where
  "BusinessService_injects = [PrismaService, AuditService]"

definition BranchService_injects :: "token list" where
  "BranchService_injects = [PrismaService]"

definition ServiceCatalogService_injects :: "token list" where
  "ServiceCatalogService_injects = [PrismaService]"

definition StaffService_injects :: "token list" where
  "StaffService_injects = [PrismaService]"

definition WorkingHoursService_injects :: "token list" where
  "WorkingHoursService_injects = [PrismaService]"

definition BookingService_injects :: "token list" where
  "BookingService_injects = [PrismaService, RedisLockService, AvailabilityService, CouponService, LoyaltyService, ReferralService]"

definition AvailabilityService_injects :: "token list" where
  "AvailabilityService_injects = [PrismaService]"

definition BookingCleanupService_injects :: "token list" where
  "BookingCleanupService_injects = [BookingService]"

definition PaymentService_injects :: "token list" where
  "PaymentService_injects = [PrismaService, PAYMENT_GATEWAY, ConfigService, BookingService]"

definition WalletService_injects :: "token list" where
  "WalletService_injects = [PrismaService, PAYMENT_GATEWAY, ConfigService]"

definition SettlementService_injects :: "token list" where
  "SettlementService_injects = [PrismaService]"

definition CouponService_injects :: "token list" where
  "CouponService_injects = [PrismaService]"

definition LoyaltyService_injects :: "token list" where
  "LoyaltyService_injects = [PrismaService]"

definition ReferralService_injects :: "token list" where
  "ReferralService_injects = [PrismaService, LoyaltyService]"

definition JwtAuthGuard_injects :: "token list" where
  "JwtAuthGuard_injects = [Reflector]"

definition RolesGuard_injects :: "token list" where
  "RolesGuard_injects = [Reflector]"

definition BusinessRoleGuard_injects :: "token list" where
  "BusinessRoleGuard_injects = [Reflector, PrismaService]"

definition AuthController_injects :: "token list" where
  "AuthController_injects = [AuthService]"

definition UsersController_injects :: "token list" where
  "UsersController_injects = [UsersService]"

definition BookingController_injects :: "token list" where
  "BookingController_injects = [BookingService, AvailabilityService]"

definition AvailabilityController_injects :: "token list" where
  "AvailabilityController_injects = [AvailabilityService]"

definition BusinessBookingController_injects :: "token list" where
  "BusinessBookingController_injects = [BookingService]"

definition BusinessController_injects :: "token list" where
  "BusinessController_injects = [BusinessService]"

definition BranchController_injects :: "token list" where
  "BranchController_injects = [BranchService]"

definition ServiceCatalogController_injects :: "token list" where
  "ServiceCatalogController_injects = [ServiceCatalogService]"

definition StaffController_injects :: "token list" where
  "StaffController_injects = [StaffService]"

definition WorkingHoursController_injects :: "token list" where
  "WorkingHoursController_injects = [WorkingHoursService]"

definition DiscoveryController_injects :: "token list" where
  "DiscoveryController_injects = [BusinessService]"

definition PaymentController_injects :: "token list" where
  "PaymentController_injects = [PaymentService]"

definition WalletController_injects :: "token list" where
  "WalletController_injects = [WalletService]"

definition BusinessSettlementController_injects :: "token list" where
  "BusinessSettlementController_injects = [SettlementService]"

definition AdminSettlementController_injects :: "token list" where
  "AdminSettlementController_injects = [SettlementService]"

definition BusinessCouponController_injects :: "token list" where
  "BusinessCouponController_injects = [CouponService]"

definition CouponController_injects :: "token list" where
  "CouponController_injects = [CouponService]"

definition AdminCouponController_injects :: "token list" where
  "AdminCouponController_injects = [CouponService]"

definition LoyaltyController_injects :: "token list" where
  "LoyaltyController_injects = [LoyaltyService]"

definition ReferralController_injects :: "token list" where
  "ReferralController_injects = [ReferralService]"

definition AdminBusinessController_injects :: "token list" where
  "AdminBusinessController_injects = [BusinessService]"

fun injects :: "token \<Rightarrow> token list" where
  "injects AuditService = AuditService_injects"
| "injects RedisLockService = RedisLockService_injects"
| "injects REDIS_CLIENT = REDIS_CLIENT_injects"
| "injects OtpService = OtpService_injects"
| "injects AuthService = AuthService_injects"
| "injects JwtStrategy = JwtStrategy_injects"
| "injects UsersService = UsersService_injects"
| "injects BusinessService = BusinessService_injects"
| "injects BranchService = BranchService_injects"
| "injects ServiceCatalogService = ServiceCatalogService_injects"
| "injects StaffService = StaffService_injects"
| "injects WorkingHoursService = WorkingHoursService_injects"
| "injects BookingService = BookingService_injects"
| "injects AvailabilityService = AvailabilityService_injects"
| "injects BookingCleanupService = BookingCleanupService_injects"
| "injects PaymentService = PaymentService_injects"
| "injects WalletService = WalletService_injects"
| "injects SettlementService = SettlementService_injects"
| "injects CouponService = CouponService_injects"
| "injects LoyaltyService = LoyaltyService_injects"
| "injects ReferralService = ReferralService_injects"
| "injects JwtAuthGuard = JwtAuthGuard_injects"
| "injects RolesGuard = RolesGuard_injects"
| "injects BusinessRoleGuard = BusinessRoleGuard_injects"
| "injects AuthController = AuthController_injects"
| "injects UsersController = UsersController_injects"
| "injects BookingController = BookingController_injects"
| "injects AvailabilityController = AvailabilityController_injects"
| "injects BusinessBookingController = BusinessBookingController_injects"
| "injects BusinessController = BusinessController_injects"
| "injects BranchController = BranchController_injects"
| "injects ServiceCatalogController = ServiceCatalogController_injects"
| "injects StaffController = StaffController_injects"
| "injects WorkingHoursController = WorkingHoursController_injects"
| "injects DiscoveryController = DiscoveryController_injects"
| "injects PaymentController = PaymentController_injects"
| "injects WalletController = WalletController_injects"
| "injects BusinessSettlementController = BusinessSettlementController_injects"
| "injects AdminSettlementController = AdminSettlementController_injects"
| "injects BusinessCouponController = BusinessCouponController_injects"
| "injects CouponController = CouponController_injects"
| "injects AdminCouponController = AdminCouponController_injects"
| "injects LoyaltyController = LoyaltyController_injects"
| "injects ReferralController = ReferralController_injects"
| "injects AdminBusinessController = AdminBusinessController_injects"
| "injects _ = []"

section \<open>What Nest makes of it\<close>

definition classes :: "module_id \<Rightarrow> token list" where
  "classes m = mod_providers (declared m) @ mod_controllers (declared m)"

text \<open>\<open>packages m\<close>: what the package module \<open>m\<close> exports.\<close>

definition exported :: "(module_id \<Rightarrow> token list) \<Rightarrow> module_id \<Rightarrow> token list" where
  "exported packages m = mod_exports (declared m) @ packages m"

text \<open>A module sees its own providers, the exports of what it imports, and those of the global modules.\<close>

definition visible :: "(module_id \<Rightarrow> token list) \<Rightarrow> module_id \<Rightarrow> token \<Rightarrow> bool" where
  "visible packages m x \<longleftrightarrow> x \<in> set (mod_providers (declared m))
     \<or> (\<exists>i \<in> set (mod_imports (declared m)). x \<in> set (exported packages i))
     \<or> (\<exists>i. mod_global (declared i) \<and> x \<in> set (exported packages i))"

inductive mounted :: "module_id \<Rightarrow> bool" where
  root: "mounted M_App"
| core: "mounted M_Core"
| imported: "mounted m \<Longrightarrow> i \<in> set (mod_imports (declared m)) \<Longrightarrow> mounted i"

fun controller_of :: "endpoint \<Rightarrow> token" where
  "controller_of (AuthRoute _) = AuthController"
| "controller_of (UsersRoute _) = UsersController"
| "controller_of (BookingRoute _) = BookingController"
| "controller_of (AvailabilityRoute _) = AvailabilityController"
| "controller_of (BusinessBookingRoute _) = BusinessBookingController"
| "controller_of (BusinessRoute _) = BusinessController"
| "controller_of (BranchRoute _) = BranchController"
| "controller_of (ServiceRoute _) = ServiceCatalogController"
| "controller_of (StaffRoute _) = StaffController"
| "controller_of (WorkingHoursRoute _) = WorkingHoursController"
| "controller_of (DiscoveryRoute _) = DiscoveryController"
| "controller_of (PaymentRoute _) = PaymentController"
| "controller_of (WalletRoute _) = WalletController"
| "controller_of (BusinessSettlementRoute _) = BusinessSettlementController"
| "controller_of (AdminSettlementRoute _) = AdminSettlementController"
| "controller_of (BusinessCouponRoute _) = BusinessCouponController"
| "controller_of (CouponRoute _) = CouponController"
| "controller_of (AdminCouponRoute _) = AdminCouponController"
| "controller_of (LoyaltyRoute _) = LoyaltyController"
| "controller_of (ReferralRoute _) = ReferralController"
| "controller_of (AdminBusinessRoute _) = AdminBusinessController"

section \<open>It fits together\<close>

lemmas module_defs = AppModule_def PrismaModule_def SmsModule_def AuditModule_def RedisModule_def PaymentGatewayModule_def
  OtpModule_def AuthModule_def UsersModule_def BusinessModule_def BranchModule_def ServiceCatalogModule_def StaffModule_def
  WorkingHoursModule_def DiscoveryModule_def AdminBusinessModule_def BookingModule_def PaymentModule_def WalletModule_def
  SettlementModule_def CouponModule_def LoyaltyModule_def ReferralModule_def plain_module_def

lemmas injects_defs =
  injects.simps AuditService_injects_def RedisLockService_injects_def REDIS_CLIENT_injects_def
  OtpService_injects_def AuthService_injects_def JwtStrategy_injects_def UsersService_injects_def
  BusinessService_injects_def BranchService_injects_def ServiceCatalogService_injects_def
  StaffService_injects_def WorkingHoursService_injects_def BookingService_injects_def
  AvailabilityService_injects_def BookingCleanupService_injects_def PaymentService_injects_def
  WalletService_injects_def SettlementService_injects_def CouponService_injects_def LoyaltyService_injects_def
  ReferralService_injects_def JwtAuthGuard_injects_def RolesGuard_injects_def BusinessRoleGuard_injects_def
  AuthController_injects_def UsersController_injects_def BookingController_injects_def
  AvailabilityController_injects_def BusinessBookingController_injects_def BusinessController_injects_def
  BranchController_injects_def ServiceCatalogController_injects_def StaffController_injects_def
  WorkingHoursController_injects_def DiscoveryController_injects_def PaymentController_injects_def
  WalletController_injects_def BusinessSettlementController_injects_def AdminSettlementController_injects_def
  BusinessCouponController_injects_def CouponController_injects_def AdminCouponController_injects_def
  LoyaltyController_injects_def ReferralController_injects_def AdminBusinessController_injects_def

lemma own_mounted: "mounted (m :: module_id)"
proof -
  have app: "i \<in> set (mod_imports (declared M_App)) \<Longrightarrow> mounted i" for i by (rule mounted.imported [OF mounted.root])
  then have auth: "i \<in> set (mod_imports (declared M_Auth)) \<Longrightarrow> mounted i" for i
    by (rule_tac mounted.imported [of M_Auth]) (simp_all add: module_defs)
  show ?thesis by (cases m) (auto intro: mounted.root mounted.core app auth simp: module_defs)
qed

text \<open>The stages in which the classes can be built.\<close>

abbreviation base_tokens :: "token set" where
  "base_tokens \<equiv> {PrismaService, ConfigService, JwtService, Reflector, SMS_PROVIDER, PAYMENT_GATEWAY}"

definition stage :: "token \<Rightarrow> nat" where
  "stage c =
     (if c \<in> base_tokens then 0
      else if c \<in> {ReferralService, RedisLockService, BusinessService} then 2
      else if c \<in> {AuthService, BookingService} then 3
      else if c \<in> {PaymentService, BookingCleanupService} then 4
      else if set (injects c) \<subseteq> base_tokens then 1 else 5)"

lemma injects_staged: "x \<in> set (injects c) \<Longrightarrow> stage x < stage c"
  by (cases c) (auto simp: stage_def injects_defs)

lemma visible_global:
  "visible packages m PrismaService" "visible packages m AuditService" "visible packages m REDIS_CLIENT"
  "visible packages m RedisLockService" "visible packages m PAYMENT_GATEWAY" "visible packages m SMS_PROVIDER"
  "ConfigService \<in> set (packages M_Config) \<Longrightarrow> visible packages m ConfigService"
  "Reflector \<in> set (packages M_Core) \<Longrightarrow> visible packages m Reflector"
proof -
  have glob: "visible packages m x" if "mod_global (declared i)" "x \<in> set (exported packages i)" for i x
    using that unfolding visible_def by blast
  show "visible packages m PrismaService" by (rule glob [of M_Prisma]) (simp_all add: module_defs exported_def)
  show "visible packages m AuditService" by (rule glob [of M_Audit]) (simp_all add: module_defs exported_def)
  show "visible packages m REDIS_CLIENT" "visible packages m RedisLockService"
    by (rule glob [of M_Redis], simp_all add: module_defs exported_def)+
  show "visible packages m PAYMENT_GATEWAY" by (rule glob [of M_PaymentGateway]) (simp_all add: module_defs exported_def)
  show "visible packages m SMS_PROVIDER" by (rule glob [of M_Sms]) (simp_all add: module_defs exported_def)
  show "visible packages m ConfigService" if "ConfigService \<in> set (packages M_Config)"
    using that by (intro glob [of M_Config]) (simp_all add: exported_def)
  show "visible packages m Reflector" if "Reflector \<in> set (packages M_Core)"
    using that by (intro glob [of M_Core]) (simp_all add: exported_def)
qed

lemma visible_local:
  "x \<in> set (mod_providers (declared m)) \<Longrightarrow> visible packages m x"
  "i \<in> set (mod_imports (declared m)) \<Longrightarrow> x \<in> set (mod_exports (declared i)) \<Longrightarrow> visible packages m x"
  "i \<in> set (mod_imports (declared m)) \<Longrightarrow> x \<in> set (packages i) \<Longrightarrow> visible packages m x"
  unfolding visible_def exported_def by auto

lemma injectable:
  assumes "ConfigService \<in> set (packages M_Config)" "JwtService \<in> set (packages M_Jwt)" "Reflector \<in> set (packages M_Core)"
    "c \<in> set (classes m)" "x \<in> set (injects c)"
  shows "visible packages m x"
proof -
  have "x \<in> set (mod_providers (declared m)) \<or> (\<exists>i \<in> set (mod_imports (declared m)). x \<in> set (mod_exports (declared i)) \<or> i = M_Jwt \<and> x = JwtService)
      \<or> x \<in> {PrismaService, AuditService, REDIS_CLIENT, RedisLockService, PAYMENT_GATEWAY, SMS_PROVIDER, ConfigService, Reflector}"
    using assms(4,5) by (cases m) (auto simp: classes_def module_defs injects_defs)
  then consider (own) "x \<in> set (mod_providers (declared m))"
    | (imported) i where "i \<in> set (mod_imports (declared m))" "x \<in> set (mod_exports (declared i))"
    | (jwt) "M_Jwt \<in> set (mod_imports (declared m))" "x = JwtService"
    | (global) "x \<in> {PrismaService, AuditService, REDIS_CLIENT, RedisLockService, PAYMENT_GATEWAY, SMS_PROVIDER, ConfigService, Reflector}"
    by blast
  then show ?thesis
  proof cases
    case global
    then show ?thesis using visible_global assms(1,3) by auto
  next
    case jwt
    then show ?thesis using visible_local(3) assms(2) by simp
  qed (auto intro: visible_local)
qed

lemma declared_once: "c \<in> set (classes m) \<Longrightarrow> c \<in> set (classes n) \<Longrightarrow> m = n"
  by (cases m; cases n; auto simp: classes_def module_defs)

lemma every_controller: "\<exists>m. controller_of ep \<in> set (mod_controllers (declared m))"
proof -
  have "c \<in> set (mod_controllers (declared m)) \<Longrightarrow> \<exists>m. c \<in> set (mod_controllers (declared m))" for c m by blast
  from this [of _ M_Auth] this [of _ M_Users] this [of _ M_Booking] this [of _ M_Business] this [of _ M_Branch]
    this [of _ M_ServiceCatalog] this [of _ M_Staff] this [of _ M_WorkingHours] this [of _ M_Discovery] this [of _ M_Payment]
    this [of _ M_Wallet] this [of _ M_Settlement] this [of _ M_Coupon] this [of _ M_Loyalty] this [of _ M_Referral]
    this [of _ M_AdminBusiness]
  show ?thesis by (cases ep) (simp_all add: module_defs)
qed

section \<open>The properties\<close>

text \<open>
  C40. The backend can be put together. Every module is mounted; whatever the constructor of a
  provider or controller asks for can be injected in its module (it is provided there,
  exported by an imported module, or exported by a global one); a module exports only what it
  provides; no class is declared in two modules, so every service exists once; no chain of
  constructors leads back to where it began; and the controller of every route of the model
  is mounted. Assumed of the packages is that their modules export the configuration, the
  JWT service and the reflector.
\<close>

theorem modules_fit_together:
  assumes "ConfigService \<in> set (packages M_Config)" "JwtService \<in> set (packages M_Jwt)" "Reflector \<in> set (packages M_Core)"
  shows "(\<forall>m. mounted m \<and> set (mod_exports (declared m)) \<subseteq> set (mod_providers (declared m))
        \<and> (\<forall>c \<in> set (classes m). \<forall>x \<in> set (injects c). visible packages m x))
    \<and> (\<forall>m n c. c \<in> set (classes m) \<and> c \<in> set (classes n) \<longrightarrow> m = n)
    \<and> wf {(x, c). x \<in> set (injects c)}
    \<and> (\<forall>ep. \<exists>m. controller_of ep \<in> set (mod_controllers (declared m)))"
proof -
  have "wf {(x, c). x \<in> set (injects c)}"
    by (rule wf_subset [OF wf_measure [of stage]]) (auto dest: injects_staged)
  moreover have "set (mod_exports (declared m)) \<subseteq> set (mod_providers (declared m))" for m
    by (cases m) (simp_all add: module_defs)
  ultimately show ?thesis
    using own_mounted injectable [OF assms] declared_once every_controller by blast
qed

theorem modules_fit_together_witness:
  "\<exists>packages. JwtService \<in> set (packages M_Jwt) \<and> visible packages M_Auth JwtService \<and> visible packages M_App Reflector"
proof -
  let ?p = "\<lambda>m. if m = M_Config then [ConfigService] else if m = M_Jwt then [JwtService] else if m = M_Core then [Reflector] else []"
  have "AuthService \<in> set (classes M_Auth)" "JwtService \<in> set (injects AuthService)"
    "RolesGuard \<in> set (classes M_App)" "Reflector \<in> set (injects RolesGuard)"
    by (simp_all add: classes_def module_defs injects_defs)
  then have "visible ?p M_Auth JwtService \<and> visible ?p M_App Reflector"
    using modules_fit_together [of ?p] by fastforce
  then show ?thesis by (intro exI [of _ ?p]) simp
qed

text \<open>
  The guards, each with what it reads: the decorators of the route, the user that a valid
  token stands for, the business in the path, and the answer of the throttler of the package.
\<close>

fun run_guard :: "route \<Rightarrow> request_user result \<Rightarrow> id option \<Rightarrow> db \<Rightarrow> unit result \<Rightarrow> token \<Rightarrow> request_user option
    \<Rightarrow> request_user option result" where
  "run_guard rt tok businessId d throttle JwtAuthGuard u = jwt_canActivate rt tok"
| "run_guard rt tok businessId d throttle RolesGuard u = (case roles_canActivate rt u of Inl e \<Rightarrow> Inl e | Inr _ \<Rightarrow> Inr u)"
| "run_guard rt tok businessId d throttle BusinessRoleGuard u = (case business_canActivate rt u businessId d of Inl e \<Rightarrow> Inl e | Inr _ \<Rightarrow> Inr u)"
| "run_guard rt tok businessId d throttle ThrottlerGuard u = (case throttle of Inl e \<Rightarrow> Inl e | Inr _ \<Rightarrow> Inr u)"
| "run_guard rt tok businessId d throttle _ u = Inr u"

text \<open>\<open>APP_GUARD\<close>: one after the other, until one refuses.\<close>

definition run_guards :: "route \<Rightarrow> request_user result \<Rightarrow> id option \<Rightarrow> db \<Rightarrow> unit result \<Rightarrow> token list \<Rightarrow> request_user option result" where
  "run_guards rt tok businessId d throttle gs =
     foldl (\<lambda>r g. case r of Inl e \<Rightarrow> Inl e | Inr u \<Rightarrow> run_guard rt tok businessId d throttle g u) (Inr None) gs"

text \<open>
  The model's guards are the registered ones: running the guards of \<open>app.module.ts\<close> in the
  order in which they are registered first decides who the user is, then the global role,
  then the role in the business, and asks the throttler last. A request that one of the first
  three refuses is answered without being counted, whatever the throttler says.
\<close>

theorem guards_run_as_registered:
  "run_guards rt tok businessId d throttle (mod_providers AppModule) =
     (case guards rt tok businessId d of
        Inl e \<Rightarrow> Inl e
      | Inr u \<Rightarrow> (case throttle of Inl e \<Rightarrow> Inl e | Inr _ \<Rightarrow> Inr u))"
  by (simp add: run_guards_def AppModule_def guards_def split: sum.split)

end
