(* ===== verification/Routing.thy ===== *)
theory Routing
  imports Wiring
begin

text \<open>
  The URLs of the backend: what the decorators of every controller say (\<open>@Controller\<close>, \<open>@Get\<close>,
  \<open>@Post\<close>, ...), the table in which the router of Nest and Express looks a request up, first
  match first, and the URL that stands for a request of the model. Shown: every URL reaches
  the route it stands for with its parameters, and the guards find the business in it.
  How the router compares a segment with a literal (exactly, or up to case) is a parameter.
\<close>

section \<open>What the decorators say\<close>

datatype verb = GET | POST | PUT | PATCH | DELETE

text \<open>\<open>@Controller(...)\<close>\<close>

fun controller_path :: "token \<Rightarrow> string" where
  "controller_path AuthController = ''auth''"
| "controller_path UsersController = ''users''"
| "controller_path BookingController = ''bookings''"
| "controller_path AvailabilityController = ''discover/availability''"
| "controller_path BusinessBookingController = ''businesses/:id/bookings''"
| "controller_path BusinessController = ''businesses''"
| "controller_path BranchController = ''businesses/:id/branches''"
| "controller_path ServiceCatalogController = ''businesses/:id/services''"
| "controller_path StaffController = ''businesses/:id/staff''"
| "controller_path WorkingHoursController = ''businesses/:id''"
| "controller_path DiscoveryController = ''discover/businesses''"
| "controller_path PaymentController = ''payments''"
| "controller_path WalletController = ''wallet''"
| "controller_path BusinessSettlementController = ''businesses/:id/settlements''"
| "controller_path AdminSettlementController = ''admin/settlements''"
| "controller_path BusinessCouponController = ''businesses/:id/coupons''"
| "controller_path CouponController = ''coupons''"
| "controller_path AdminCouponController = ''admin/coupons''"
| "controller_path LoyaltyController = ''loyalty''"
| "controller_path ReferralController = ''referral''"
| "controller_path AdminBusinessController = ''admin/businesses''"
| "controller_path _ = ''''"

text \<open>The methods in their order, with what \<open>@Get\<close>, \<open>@Post\<close>, \<open>@Put\<close>, \<open>@Patch\<close> or \<open>@Delete\<close> says.\<close>

definition AuthController_methods :: "(string \<times> verb \<times> string) list" where
  "AuthController_methods =
     [(''requestRegisterOtp'', POST, ''register/request-otp''),
      (''verifyRegister'', POST, ''register/verify''),
      (''login'', POST, ''login''),
      (''requestLoginOtp'', POST, ''login/otp/request''),
      (''verifyLoginOtp'', POST, ''login/otp/verify''),
      (''refresh'', POST, ''refresh''),
      (''logout'', POST, ''logout''),
      (''forgotPassword'', POST, ''forgot-password''),
      (''resetPassword'', POST, ''reset-password''),
      (''me'', GET, ''me'')]"

definition UsersController_methods :: "(string \<times> verb \<times> string) list" where
  "UsersController_methods =
     [(''updateProfile'', PATCH, ''me''),
      (''listSessions'', GET, ''me/sessions''),
      (''revokeSession'', DELETE, ''me/sessions/:id''),
      (''deleteAccount'', DELETE, ''me'')]"

definition BookingController_methods :: "(string \<times> verb \<times> string) list" where
  "BookingController_methods =
     [(''hold'', POST, ''hold''),
      (''createRecurring'', POST, ''recurring''),
      (''confirm'', POST, '':id/confirm''),
      (''confirmGroup'', POST, ''recurring/:groupId/confirm''),
      (''cancel'', POST, '':id/cancel''),
      (''reschedule'', POST, '':id/reschedule''),
      (''listMine'', GET, ''me'')]"

definition AvailabilityController_methods :: "(string \<times> verb \<times> string) list" where
  "AvailabilityController_methods =
     [(''getFreeSlots'', GET, '':businessId'')]"

definition BusinessBookingController_methods :: "(string \<times> verb \<times> string) list" where
  "BusinessBookingController_methods =
     [(''list'', GET, ''''),
      (''updateStatus'', PATCH, '':bookingId/status''),
      (''cancel'', POST, '':bookingId/cancel'')]"

definition BusinessController_methods :: "(string \<times> verb \<times> string) list" where
  "BusinessController_methods =
     [(''create'', POST, ''''),
      (''findMine'', GET, ''mine''),
      (''findOneForOwner'', GET, '':id''),
      (''update'', PATCH, '':id''),
      (''updateCancellationPolicy'', PUT, '':id/cancellation-policy''),
      (''addDocument'', POST, '':id/documents'')]"

definition BranchController_methods :: "(string \<times> verb \<times> string) list" where
  "BranchController_methods =
     [(''create'', POST, ''''),
      (''findAll'', GET, ''''),
      (''update'', PATCH, '':branchId'')]"

definition ServiceCatalogController_methods :: "(string \<times> verb \<times> string) list" where
  "ServiceCatalogController_methods =
     [(''create'', POST, ''''),
      (''findAll'', GET, ''''),
      (''update'', PATCH, '':serviceId''),
      (''assignStaff'', POST, '':serviceId/staff/:staffMemberId''),
      (''unassignStaff'', DELETE, '':serviceId/staff/:staffMemberId'')]"

definition StaffController_methods :: "(string \<times> verb \<times> string) list" where
  "StaffController_methods =
     [(''invite'', POST, ''invite''),
      (''findAll'', GET, ''''),
      (''deactivate'', DELETE, '':staffMemberId'')]"

definition WorkingHoursController_methods :: "(string \<times> verb \<times> string) list" where
  "WorkingHoursController_methods =
     [(''setWorkingHours'', PUT, ''working-hours''),
      (''addHoliday'', POST, ''holidays''),
      (''listHolidays'', GET, ''holidays'')]"

definition DiscoveryController_methods :: "(string \<times> verb \<times> string) list" where
  "DiscoveryController_methods =
     [(''search'', GET, ''''),
      (''findOne'', GET, '':id'')]"

definition PaymentController_methods :: "(string \<times> verb \<times> string) list" where
  "PaymentController_methods =
     [(''initiate'', POST, ''initiate''),
      (''callback'', GET, ''callback/:gateway''),
      (''refund'', POST, '':id/refund'')]"

definition WalletController_methods :: "(string \<times> verb \<times> string) list" where
  "WalletController_methods =
     [(''getMine'', GET, ''me''),
      (''topup'', POST, ''topup'')]"

definition BusinessSettlementController_methods :: "(string \<times> verb \<times> string) list" where
  "BusinessSettlementController_methods =
     [(''list'', GET, '''')]"

definition AdminSettlementController_methods :: "(string \<times> verb \<times> string) list" where
  "AdminSettlementController_methods =
     [(''run'', POST, ''run'')]"

definition BusinessCouponController_methods :: "(string \<times> verb \<times> string) list" where
  "BusinessCouponController_methods =
     [(''create'', POST, ''''),
      (''list'', GET, ''''),
      (''update'', PATCH, '':couponId'')]"

definition CouponController_methods :: "(string \<times> verb \<times> string) list" where
  "CouponController_methods =
     [(''validate'', POST, ''validate'')]"

definition AdminCouponController_methods :: "(string \<times> verb \<times> string) list" where
  "AdminCouponController_methods =
     [(''create'', POST, ''''),
      (''list'', GET, ''''),
      (''update'', PATCH, '':couponId'')]"

definition LoyaltyController_methods :: "(string \<times> verb \<times> string) list" where
  "LoyaltyController_methods =
     [(''getMine'', GET, ''me'')]"

definition ReferralController_methods :: "(string \<times> verb \<times> string) list" where
  "ReferralController_methods =
     [(''getMyCode'', GET, ''me'')]"

definition AdminBusinessController_methods :: "(string \<times> verb \<times> string) list" where
  "AdminBusinessController_methods =
     [(''listPending'', GET, ''''),
      (''approve'', POST, '':id/approve''),
      (''reject'', POST, '':id/reject''),
      (''suspend'', POST, '':id/suspend'')]"

fun methods :: "token \<Rightarrow> (string \<times> verb \<times> string) list" where
  "methods AuthController = AuthController_methods"
| "methods UsersController = UsersController_methods"
| "methods BookingController = BookingController_methods"
| "methods AvailabilityController = AvailabilityController_methods"
| "methods BusinessBookingController = BusinessBookingController_methods"
| "methods BusinessController = BusinessController_methods"
| "methods BranchController = BranchController_methods"
| "methods ServiceCatalogController = ServiceCatalogController_methods"
| "methods StaffController = StaffController_methods"
| "methods WorkingHoursController = WorkingHoursController_methods"
| "methods DiscoveryController = DiscoveryController_methods"
| "methods PaymentController = PaymentController_methods"
| "methods WalletController = WalletController_methods"
| "methods BusinessSettlementController = BusinessSettlementController_methods"
| "methods AdminSettlementController = AdminSettlementController_methods"
| "methods BusinessCouponController = BusinessCouponController_methods"
| "methods CouponController = CouponController_methods"
| "methods AdminCouponController = AdminCouponController_methods"
| "methods LoyaltyController = LoyaltyController_methods"
| "methods ReferralController = ReferralController_methods"
| "methods AdminBusinessController = AdminBusinessController_methods"
| "methods _ = []"

text \<open>The method that serves a request of the model, and its \<open>@Param\<close> arguments.\<close>

fun AuthController_call :: "AuthController \<Rightarrow> string \<times> string list" where
  "AuthController_call (Auth_requestRegisterOtp _) = (''requestRegisterOtp'', [])"
| "AuthController_call (Auth_verifyRegister _) = (''verifyRegister'', [])"
| "AuthController_call (Auth_login _) = (''login'', [])"
| "AuthController_call (Auth_requestLoginOtp _) = (''requestLoginOtp'', [])"
| "AuthController_call (Auth_verifyLoginOtp _ _) = (''verifyLoginOtp'', [])"
| "AuthController_call (Auth_refresh _ _) = (''refresh'', [])"
| "AuthController_call (Auth_logout _ _) = (''logout'', [])"
| "AuthController_call (Auth_forgotPassword _) = (''forgotPassword'', [])"
| "AuthController_call (Auth_resetPassword _) = (''resetPassword'', [])"
| "AuthController_call Auth_me = (''me'', [])"

fun UsersController_call :: "UsersController \<Rightarrow> string \<times> string list" where
  "UsersController_call (Users_updateProfile _) = (''updateProfile'', [])"
| "UsersController_call Users_listSessions = (''listSessions'', [])"
| "UsersController_call (Users_revokeSession a) = (''revokeSession'', [a])"
| "UsersController_call Users_deleteAccount = (''deleteAccount'', [])"

fun BookingController_call :: "BookingController \<Rightarrow> string \<times> string list" where
  "BookingController_call (Booking_hold _) = (''hold'', [])"
| "BookingController_call (Booking_createRecurring _) = (''createRecurring'', [])"
| "BookingController_call (Booking_confirm a) = (''confirm'', [a])"
| "BookingController_call (Booking_confirmGroup a) = (''confirmGroup'', [a])"
| "BookingController_call (Booking_cancel a _) = (''cancel'', [a])"
| "BookingController_call (Booking_reschedule a _) = (''reschedule'', [a])"
| "BookingController_call Booking_listMine = (''listMine'', [])"

fun AvailabilityController_call :: "AvailabilityController \<Rightarrow> string \<times> string list" where
  "AvailabilityController_call (Availability_getFreeSlots a _) = (''getFreeSlots'', [a])"

fun BusinessBookingController_call :: "BusinessBookingController \<Rightarrow> string \<times> string list" where
  "BusinessBookingController_call (BusinessBooking_list a _) = (''list'', [a])"
| "BusinessBookingController_call (BusinessBooking_updateStatus a b _) = (''updateStatus'', [a, b])"
| "BusinessBookingController_call (BusinessBooking_cancel a b _) = (''cancel'', [a, b])"

fun BusinessController_call :: "BusinessController \<Rightarrow> string \<times> string list" where
  "BusinessController_call (Business_create _) = (''create'', [])"
| "BusinessController_call Business_findMine = (''findMine'', [])"
| "BusinessController_call (Business_findOneForOwner a) = (''findOneForOwner'', [a])"
| "BusinessController_call (Business_update a _) = (''update'', [a])"
| "BusinessController_call (Business_updateCancellationPolicy a _) = (''updateCancellationPolicy'', [a])"
| "BusinessController_call (Business_addDocument a _ _) = (''addDocument'', [a])"

fun BranchController_call :: "BranchController \<Rightarrow> string \<times> string list" where
  "BranchController_call (Branch_create a _) = (''create'', [a])"
| "BranchController_call (Branch_findAll a) = (''findAll'', [a])"
| "BranchController_call (Branch_update a b _) = (''update'', [a, b])"

fun ServiceCatalogController_call :: "ServiceCatalogController \<Rightarrow> string \<times> string list" where
  "ServiceCatalogController_call (Service_create a _) = (''create'', [a])"
| "ServiceCatalogController_call (Service_findAll a) = (''findAll'', [a])"
| "ServiceCatalogController_call (Service_update a b _) = (''update'', [a, b])"
| "ServiceCatalogController_call (Service_assignStaff a b c) = (''assignStaff'', [a, b, c])"
| "ServiceCatalogController_call (Service_unassignStaff a b c) = (''unassignStaff'', [a, b, c])"

fun StaffController_call :: "StaffController \<Rightarrow> string \<times> string list" where
  "StaffController_call (Staff_invite a _) = (''invite'', [a])"
| "StaffController_call (Staff_findAll a) = (''findAll'', [a])"
| "StaffController_call (Staff_deactivate a b) = (''deactivate'', [a, b])"

fun WorkingHoursController_call :: "WorkingHoursController \<Rightarrow> string \<times> string list" where
  "WorkingHoursController_call (WorkingHours_set a _) = (''setWorkingHours'', [a])"
| "WorkingHoursController_call (WorkingHours_addHoliday a _) = (''addHoliday'', [a])"
| "WorkingHoursController_call (WorkingHours_listHolidays a _ _) = (''listHolidays'', [a])"

fun DiscoveryController_call :: "DiscoveryController \<Rightarrow> string \<times> string list" where
  "DiscoveryController_call (Discovery_search _) = (''search'', [])"
| "DiscoveryController_call (Discovery_findOne a) = (''findOne'', [a])"

fun PaymentController_call :: "PaymentController \<Rightarrow> string \<times> string list" where
  "PaymentController_call (Payment_initiate _) = (''initiate'', [])"
| "PaymentController_call (Payment_callback a _) = (''callback'', [a])"
| "PaymentController_call (Payment_refund a _) = (''refund'', [a])"

fun WalletController_call :: "WalletController \<Rightarrow> string \<times> string list" where
  "WalletController_call Wallet_getMine = (''getMine'', [])"
| "WalletController_call (Wallet_topup _) = (''topup'', [])"

fun BusinessSettlementController_call :: "BusinessSettlementController \<Rightarrow> string \<times> string list" where
  "BusinessSettlementController_call (BusinessSettlement_list a) = (''list'', [a])"

fun AdminSettlementController_call :: "AdminSettlementController \<Rightarrow> string \<times> string list" where
  "AdminSettlementController_call (AdminSettlement_run _) = (''run'', [])"

fun BusinessCouponController_call :: "BusinessCouponController \<Rightarrow> string \<times> string list" where
  "BusinessCouponController_call (BusinessCoupon_create a _) = (''create'', [a])"
| "BusinessCouponController_call (BusinessCoupon_list a) = (''list'', [a])"
| "BusinessCouponController_call (BusinessCoupon_update a b _) = (''update'', [a, b])"

fun CouponController_call :: "CouponController \<Rightarrow> string \<times> string list" where
  "CouponController_call (Coupon_validate _) = (''validate'', [])"

fun AdminCouponController_call :: "AdminCouponController \<Rightarrow> string \<times> string list" where
  "AdminCouponController_call (AdminCoupon_create _) = (''create'', [])"
| "AdminCouponController_call AdminCoupon_list = (''list'', [])"
| "AdminCouponController_call (AdminCoupon_update a _) = (''update'', [a])"

fun LoyaltyController_call :: "LoyaltyController \<Rightarrow> string \<times> string list" where
  "LoyaltyController_call Loyalty_getMine = (''getMine'', [])"

fun ReferralController_call :: "ReferralController \<Rightarrow> string \<times> string list" where
  "ReferralController_call Referral_getMyCode = (''getMyCode'', [])"

fun AdminBusinessController_call :: "AdminBusinessController \<Rightarrow> string \<times> string list" where
  "AdminBusinessController_call AdminBusiness_listPending = (''listPending'', [])"
| "AdminBusinessController_call (AdminBusiness_approve a) = (''approve'', [a])"
| "AdminBusinessController_call (AdminBusiness_reject a _) = (''reject'', [a])"
| "AdminBusinessController_call (AdminBusiness_suspend a _) = (''suspend'', [a])"

fun call_of :: "endpoint \<Rightarrow> string \<times> string list" where
  "call_of (AuthRoute r) = AuthController_call r"
| "call_of (UsersRoute r) = UsersController_call r"
| "call_of (BookingRoute r) = BookingController_call r"
| "call_of (AvailabilityRoute r) = AvailabilityController_call r"
| "call_of (BusinessBookingRoute r) = BusinessBookingController_call r"
| "call_of (BusinessRoute r) = BusinessController_call r"
| "call_of (BranchRoute r) = BranchController_call r"
| "call_of (ServiceRoute r) = ServiceCatalogController_call r"
| "call_of (StaffRoute r) = StaffController_call r"
| "call_of (WorkingHoursRoute r) = WorkingHoursController_call r"
| "call_of (DiscoveryRoute r) = DiscoveryController_call r"
| "call_of (PaymentRoute r) = PaymentController_call r"
| "call_of (WalletRoute r) = WalletController_call r"
| "call_of (BusinessSettlementRoute r) = BusinessSettlementController_call r"
| "call_of (AdminSettlementRoute r) = AdminSettlementController_call r"
| "call_of (BusinessCouponRoute r) = BusinessCouponController_call r"
| "call_of (CouponRoute r) = CouponController_call r"
| "call_of (AdminCouponRoute r) = AdminCouponController_call r"
| "call_of (LoyaltyRoute r) = LoyaltyController_call r"
| "call_of (ReferralRoute r) = ReferralController_call r"
| "call_of (AdminBusinessRoute r) = AdminBusinessController_call r"

section \<open>Paths\<close>

text \<open>The segments of a path, without the empty ones.\<close>

fun split_path :: "string \<Rightarrow> string \<Rightarrow> string list" where
  "split_path s [] = (if s = [] then [] else [s])"
| "split_path s (c # cs) =
     (if c = CHR ''/'' then (if s = [] then [] else [s]) @ split_path [] cs else split_path (s @ [c]) cs)"

definition join_path :: "string list \<Rightarrow> string" where
  "join_path ss = concat (map (\<lambda>s. CHR ''/'' # s) ss)"

datatype seg = Lit string | Param string

fun seg_of :: "string \<Rightarrow> seg" where
  "seg_of [] = Lit []"
| "seg_of (c # cs) = (if c = CHR '':'' then Param cs else Lit (c # cs))"

text \<open>\<open>app.setGlobalPrefix('api/v1')\<close>, then the path of the controller, then that of the method.\<close>

definition template :: "token \<Rightarrow> string \<Rightarrow> seg list" where
  "template c p = map seg_of (split_path [] ''api/v1'' @ split_path [] (controller_path c) @ split_path [] p)"

fun params :: "seg list \<Rightarrow> string list" where
  "params [] = []"
| "params (Lit l # ss) = params ss"
| "params (Param n # ss) = n # params ss"

fun fill :: "seg list \<Rightarrow> string list \<Rightarrow> string list" where
  "fill [] as = []"
| "fill (Lit l # ss) as = l # fill ss as"
| "fill (Param n # ss) [] = []"
| "fill (Param n # ss) (a # as) = a # fill ss as"

section \<open>The URL of a request, and the router\<close>

definition declared_method :: "endpoint \<Rightarrow> (string \<times> verb \<times> string) option" where
  "declared_method ep = List.find (\<lambda>(n, v, p). n = fst (call_of ep)) (methods (controller_of ep))"

definition verb_of :: "endpoint \<Rightarrow> verb" where
  "verb_of ep = (case declared_method ep of Some (n, v, p) \<Rightarrow> v | None \<Rightarrow> GET)"

definition url_of :: "endpoint \<Rightarrow> string" where
  "url_of ep = (case declared_method ep of
     Some (n, v, p) \<Rightarrow> join_path (fill (template (controller_of ep) p) (snd (call_of ep))) | None \<Rightarrow> [])"

type_synonym table_row = "(verb \<times> seg list) \<times> token \<times> string"

definition rows_for :: "token \<Rightarrow> table_row list" where
  "rows_for c = map (\<lambda>(n, v, p). ((v, template c p), c, n)) (methods c)"

text \<open>
  Nest registers a module before those it imports, and each module once; the controllers are
  mounted in this order. There are fewer than a hundred imports to look at.
\<close>

fun register :: "nat \<Rightarrow> module_id list \<Rightarrow> module_id list \<Rightarrow> module_id list" where
  "register (Suc n) (m # ms) seen =
     (if m \<in> set seen then register n ms seen
      else register n (mod_imports (declared m) @ ms) (seen @ [m]))"
| "register _ _ seen = seen"

definition registered :: "module_id list" where
  "registered = register 100 [M_App] []"

definition routing_table :: "table_row list" where
  "routing_table = concat (map rows_for (concat (map (\<lambda>m. mod_controllers (declared m)) registered)))"

fun bind_path :: "(string \<Rightarrow> string \<Rightarrow> bool) \<Rightarrow> seg list \<Rightarrow> string list \<Rightarrow> (string \<times> string) list option" where
  "bind_path fits [] [] = Some []"
| "bind_path fits (Lit l # ss) (s # path) = (if fits l s then bind_path fits ss path else None)"
| "bind_path fits (Param n # ss) (s # path) = map_option (Cons (n, s)) (bind_path fits ss path)"
| "bind_path fits _ _ = None"

definition answers :: "(string \<Rightarrow> string \<Rightarrow> bool) \<Rightarrow> verb \<Rightarrow> string list \<Rightarrow> table_row \<Rightarrow> bool" where
  "answers fits v path row \<longleftrightarrow> fst (fst row) = v \<and> bind_path fits (snd (fst row)) path \<noteq> None"

definition dispatch :: "(string \<Rightarrow> string \<Rightarrow> bool) \<Rightarrow> verb \<Rightarrow> string \<Rightarrow> (token \<times> string \<times> (string \<times> string) list) option" where
  "dispatch fits v url =
     (let path = split_path [] url
      in case List.find (answers fits v path) routing_table of
           None \<Rightarrow> None
         | Some ((_, t), c, n) \<Rightarrow> map_option (\<lambda>bs. (c, n, bs)) (bind_path fits t path))"

definition literals :: "string set" where
  "literals = {l. \<exists>((v, t), c, n) \<in> set routing_table. Lit l \<in> set t}"

section \<open>Printing and splitting\<close>

lemma split_segment:
  "CHR ''/'' \<notin> set a \<Longrightarrow> split_path s (a @ cs) = split_path (s @ a) cs"
  by (induction a arbitrary: s) auto

lemma split_join:
  "\<forall>s \<in> set ss. s \<noteq> [] \<and> CHR ''/'' \<notin> set s \<Longrightarrow> split_path [] (join_path ss) = ss"
proof (induction ss)
  case (Cons s ss)
  then have "split_path t (join_path ss) = t # ss" if "t \<noteq> []" for t
    using that by (cases ss) (simp_all add: join_path_def)
  with Cons.prems split_segment [of s "[]" "join_path ss"] show ?case by (simp add: join_path_def)
qed (simp add: join_path_def)

lemma bind_fill:
  assumes "\<And>l. Lit l \<in> set t \<Longrightarrow> fits l l" "length as = length (params t)"
  shows "bind_path fits t (fill t as) = Some (zip (params t) as)"
  using assms by (induction t as rule: fill.induct) simp_all

lemma fill_segments:
  "s \<in> set (fill t as) \<Longrightarrow> s \<in> set as \<or> Lit s \<in> set t"
  by (induction t as rule: fill.induct) auto

section \<open>Which templates can meet\<close>

fun erase :: "seg \<Rightarrow> string option" where
  "erase (Lit l) = Some l"
| "erase (Param n) = None"

fun agree :: "'a option list \<Rightarrow> 'a option list \<Rightarrow> bool" where
  "agree [] [] = True"
| "agree (Some x # xs) (Some y # ys) = (if x = y then agree xs ys else False)"
| "agree (None # xs) (_ # ys) = agree xs ys"
| "agree (_ # xs) (None # ys) = agree xs ys"
| "agree _ _ = False"

lemma agree_map:
  "inj_on f {x. Some x \<in> set xs \<union> set ys} \<Longrightarrow> agree (map (map_option f) xs) (map (map_option f) ys) \<longleftrightarrow> agree xs ys"
  by (induction xs ys rule: agree.induct) (auto simp: inj_on_def)

lemma bind_agree:
  assumes "bind_path fits t path = Some bs" "bind_path fits t' path = Some bs'"
    "\<And>l l' s. Lit l \<in> set t \<Longrightarrow> Lit l' \<in> set t' \<Longrightarrow> fits l s \<Longrightarrow> fits l' s \<Longrightarrow> l = l'"
  shows "agree (map erase t) (map erase t')"
  using assms
proof (induction fits t path arbitrary: t' bs bs' rule: bind_path.induct)
  case (1 fits)
  then show ?case by (cases t') auto
next
  case (2 fits l ss s path)
  from 2(3) obtain x t'' where t': "t' = x # t''" by (cases t'; auto)
  then show ?case using 2 by (cases x) (fastforce split: if_splits)+
next
  case (3 fits n ss s path)
  from 3(3) obtain x t'' where t': "t' = x # t''" by (cases t'; auto)
  then show ?case using 3 by (cases x) (fastforce split: if_splits)+
qed auto

text \<open>
  The shapes of the rows, with every literal as its place in a list of the literals: numbers
  are compared faster than strings.
\<close>

definition shape :: "table_row \<Rightarrow> verb \<times> string option list" where
  "shape row = (fst (fst row), map erase (snd (fst row)))"

definition words :: "string list" where
  "words =
    [''api'', ''v1'', ''auth'', ''register'', ''request-otp'', ''verify'', ''login'', ''otp'', 
     ''request'', ''refresh'', ''logout'', ''forgot-password'', ''reset-password'', ''me'', ''users'', 
     ''sessions'', ''businesses'', ''mine'', ''cancellation-policy'', ''documents'', ''branches'', 
     ''services'', ''staff'', ''invite'', ''working-hours'', ''holidays'', ''discover'', ''admin'', 
     ''approve'', ''reject'', ''suspend'', ''bookings'', ''hold'', ''recurring'', ''confirm'', 
     ''cancel'', ''reschedule'', ''availability'', ''status'', ''payments'', ''initiate'', ''callback'', 
     ''refund'', ''wallet'', ''topup'', ''settlements'', ''run'', ''coupons'', ''validate'', 
     ''loyalty'', ''referral'']"

definition numbered :: "verb \<times> nat option list \<Rightarrow> verb \<times> string option list" where
  "numbered r = (fst r, map (map_option (\<lambda>i. words ! i)) (snd r))"

lemma shapes_AuthController:
  "map shape (rows_for AuthController) = map numbered
    [(POST, [Some 0, Some 1, Some 2, Some 3, Some 4]),
     (POST, [Some 0, Some 1, Some 2, Some 3, Some 5]),
     (POST, [Some 0, Some 1, Some 2, Some 6]),
     (POST, [Some 0, Some 1, Some 2, Some 6, Some 7, Some 8]),
     (POST, [Some 0, Some 1, Some 2, Some 6, Some 7, Some 5]),
     (POST, [Some 0, Some 1, Some 2, Some 9]),
     (POST, [Some 0, Some 1, Some 2, Some 10]),
     (POST, [Some 0, Some 1, Some 2, Some 11]),
     (POST, [Some 0, Some 1, Some 2, Some 12]),
     (GET, [Some 0, Some 1, Some 2, Some 13])]"
  by (simp add: shape_def numbered_def rows_for_def template_def AuthController_methods_def words_def)

lemma shapes_UsersController:
  "map shape (rows_for UsersController) = map numbered
    [(PATCH, [Some 0, Some 1, Some 14, Some 13]),
     (GET, [Some 0, Some 1, Some 14, Some 13, Some 15]),
     (DELETE, [Some 0, Some 1, Some 14, Some 13, Some 15, None]),
     (DELETE, [Some 0, Some 1, Some 14, Some 13])]"
  by (simp add: shape_def numbered_def rows_for_def template_def UsersController_methods_def words_def)

lemma shapes_BusinessController:
  "map shape (rows_for BusinessController) = map numbered
    [(POST, [Some 0, Some 1, Some 16]),
     (GET, [Some 0, Some 1, Some 16, Some 17]),
     (GET, [Some 0, Some 1, Some 16, None]),
     (PATCH, [Some 0, Some 1, Some 16, None]),
     (PUT, [Some 0, Some 1, Some 16, None, Some 18]),
     (POST, [Some 0, Some 1, Some 16, None, Some 19])]"
  by (simp add: shape_def numbered_def rows_for_def template_def BusinessController_methods_def words_def)

lemma shapes_BranchController:
  "map shape (rows_for BranchController) = map numbered
    [(POST, [Some 0, Some 1, Some 16, None, Some 20]),
     (GET, [Some 0, Some 1, Some 16, None, Some 20]),
     (PATCH, [Some 0, Some 1, Some 16, None, Some 20, None])]"
  by (simp add: shape_def numbered_def rows_for_def template_def BranchController_methods_def words_def)

lemma shapes_ServiceCatalogController:
  "map shape (rows_for ServiceCatalogController) = map numbered
    [(POST, [Some 0, Some 1, Some 16, None, Some 21]),
     (GET, [Some 0, Some 1, Some 16, None, Some 21]),
     (PATCH, [Some 0, Some 1, Some 16, None, Some 21, None]),
     (POST, [Some 0, Some 1, Some 16, None, Some 21, None, Some 22, None]),
     (DELETE, [Some 0, Some 1, Some 16, None, Some 21, None, Some 22, None])]"
  by (simp add: shape_def numbered_def rows_for_def template_def ServiceCatalogController_methods_def words_def)

lemma shapes_StaffController:
  "map shape (rows_for StaffController) = map numbered
    [(POST, [Some 0, Some 1, Some 16, None, Some 22, Some 23]),
     (GET, [Some 0, Some 1, Some 16, None, Some 22]),
     (DELETE, [Some 0, Some 1, Some 16, None, Some 22, None])]"
  by (simp add: shape_def numbered_def rows_for_def template_def StaffController_methods_def words_def)

lemma shapes_WorkingHoursController:
  "map shape (rows_for WorkingHoursController) = map numbered
    [(PUT, [Some 0, Some 1, Some 16, None, Some 24]),
     (POST, [Some 0, Some 1, Some 16, None, Some 25]),
     (GET, [Some 0, Some 1, Some 16, None, Some 25])]"
  by (simp add: shape_def numbered_def rows_for_def template_def WorkingHoursController_methods_def words_def)

lemma shapes_DiscoveryController:
  "map shape (rows_for DiscoveryController) = map numbered
    [(GET, [Some 0, Some 1, Some 26, Some 16]),
     (GET, [Some 0, Some 1, Some 26, Some 16, None])]"
  by (simp add: shape_def numbered_def rows_for_def template_def DiscoveryController_methods_def words_def)

lemma shapes_AdminBusinessController:
  "map shape (rows_for AdminBusinessController) = map numbered
    [(GET, [Some 0, Some 1, Some 27, Some 16]),
     (POST, [Some 0, Some 1, Some 27, Some 16, None, Some 28]),
     (POST, [Some 0, Some 1, Some 27, Some 16, None, Some 29]),
     (POST, [Some 0, Some 1, Some 27, Some 16, None, Some 30])]"
  by (simp add: shape_def numbered_def rows_for_def template_def AdminBusinessController_methods_def words_def)

lemma shapes_BookingController:
  "map shape (rows_for BookingController) = map numbered
    [(POST, [Some 0, Some 1, Some 31, Some 32]),
     (POST, [Some 0, Some 1, Some 31, Some 33]),
     (POST, [Some 0, Some 1, Some 31, None, Some 34]),
     (POST, [Some 0, Some 1, Some 31, Some 33, None, Some 34]),
     (POST, [Some 0, Some 1, Some 31, None, Some 35]),
     (POST, [Some 0, Some 1, Some 31, None, Some 36]),
     (GET, [Some 0, Some 1, Some 31, Some 13])]"
  by (simp add: shape_def numbered_def rows_for_def template_def BookingController_methods_def words_def)

lemma shapes_AvailabilityController:
  "map shape (rows_for AvailabilityController) = map numbered
    [(GET, [Some 0, Some 1, Some 26, Some 37, None])]"
  by (simp add: shape_def numbered_def rows_for_def template_def AvailabilityController_methods_def words_def)

lemma shapes_BusinessBookingController:
  "map shape (rows_for BusinessBookingController) = map numbered
    [(GET, [Some 0, Some 1, Some 16, None, Some 31]),
     (PATCH, [Some 0, Some 1, Some 16, None, Some 31, None, Some 38]),
     (POST, [Some 0, Some 1, Some 16, None, Some 31, None, Some 35])]"
  by (simp add: shape_def numbered_def rows_for_def template_def BusinessBookingController_methods_def words_def)

lemma shapes_PaymentController:
  "map shape (rows_for PaymentController) = map numbered
    [(POST, [Some 0, Some 1, Some 39, Some 40]),
     (GET, [Some 0, Some 1, Some 39, Some 41, None]),
     (POST, [Some 0, Some 1, Some 39, None, Some 42])]"
  by (simp add: shape_def numbered_def rows_for_def template_def PaymentController_methods_def words_def)

lemma shapes_WalletController:
  "map shape (rows_for WalletController) = map numbered
    [(GET, [Some 0, Some 1, Some 43, Some 13]),
     (POST, [Some 0, Some 1, Some 43, Some 44])]"
  by (simp add: shape_def numbered_def rows_for_def template_def WalletController_methods_def words_def)

lemma shapes_BusinessSettlementController:
  "map shape (rows_for BusinessSettlementController) = map numbered
    [(GET, [Some 0, Some 1, Some 16, None, Some 45])]"
  by (simp add: shape_def numbered_def rows_for_def template_def BusinessSettlementController_methods_def words_def)

lemma shapes_AdminSettlementController:
  "map shape (rows_for AdminSettlementController) = map numbered
    [(POST, [Some 0, Some 1, Some 27, Some 45, Some 46])]"
  by (simp add: shape_def numbered_def rows_for_def template_def AdminSettlementController_methods_def words_def)

lemma shapes_BusinessCouponController:
  "map shape (rows_for BusinessCouponController) = map numbered
    [(POST, [Some 0, Some 1, Some 16, None, Some 47]),
     (GET, [Some 0, Some 1, Some 16, None, Some 47]),
     (PATCH, [Some 0, Some 1, Some 16, None, Some 47, None])]"
  by (simp add: shape_def numbered_def rows_for_def template_def BusinessCouponController_methods_def words_def)

lemma shapes_CouponController:
  "map shape (rows_for CouponController) = map numbered
    [(POST, [Some 0, Some 1, Some 47, Some 48])]"
  by (simp add: shape_def numbered_def rows_for_def template_def CouponController_methods_def words_def)

lemma shapes_AdminCouponController:
  "map shape (rows_for AdminCouponController) = map numbered
    [(POST, [Some 0, Some 1, Some 27, Some 47]),
     (GET, [Some 0, Some 1, Some 27, Some 47]),
     (PATCH, [Some 0, Some 1, Some 27, Some 47, None])]"
  by (simp add: shape_def numbered_def rows_for_def template_def AdminCouponController_methods_def words_def)

lemma shapes_LoyaltyController:
  "map shape (rows_for LoyaltyController) = map numbered
    [(GET, [Some 0, Some 1, Some 49, Some 13])]"
  by (simp add: shape_def numbered_def rows_for_def template_def LoyaltyController_methods_def words_def)

lemma shapes_ReferralController:
  "map shape (rows_for ReferralController) = map numbered
    [(GET, [Some 0, Some 1, Some 50, Some 13])]"
  by (simp add: shape_def numbered_def rows_for_def template_def ReferralController_methods_def words_def)

lemmas shapes_defs =
  shapes_AuthController shapes_UsersController shapes_BusinessController shapes_BranchController
  shapes_ServiceCatalogController shapes_StaffController shapes_WorkingHoursController shapes_DiscoveryController
  shapes_AdminBusinessController shapes_BookingController shapes_AvailabilityController shapes_BusinessBookingController
  shapes_PaymentController shapes_WalletController shapes_BusinessSettlementController shapes_AdminSettlementController
  shapes_BusinessCouponController shapes_CouponController shapes_AdminCouponController shapes_LoyaltyController
  shapes_ReferralController

definition table_numbers :: "(verb \<times> nat option list) list" where
  "table_numbers =
    [(POST, [Some 0, Some 1, Some 2, Some 3, Some 4]), (POST, [Some 0, Some 1, Some 2, Some 3, Some 5]),
     (POST, [Some 0, Some 1, Some 2, Some 6]), (POST, [Some 0, Some 1, Some 2, Some 6, Some 7, Some 8]),
     (POST, [Some 0, Some 1, Some 2, Some 6, Some 7, Some 5]), (POST, [Some 0, Some 1, Some 2, Some 9]),
     (POST, [Some 0, Some 1, Some 2, Some 10]), (POST, [Some 0, Some 1, Some 2, Some 11]),
     (POST, [Some 0, Some 1, Some 2, Some 12]), (GET, [Some 0, Some 1, Some 2, Some 13]),
     (GET, [Some 0, Some 1, Some 50, Some 13]), (GET, [Some 0, Some 1, Some 49, Some 13]),
     (PATCH, [Some 0, Some 1, Some 14, Some 13]), (GET, [Some 0, Some 1, Some 14, Some 13, Some 15]),
     (DELETE, [Some 0, Some 1, Some 14, Some 13, Some 15, None]), (DELETE, [Some 0, Some 1, Some 14, Some 13]),
     (POST, [Some 0, Some 1, Some 16]), (GET, [Some 0, Some 1, Some 16, Some 17]),
     (GET, [Some 0, Some 1, Some 16, None]), (PATCH, [Some 0, Some 1, Some 16, None]),
     (PUT, [Some 0, Some 1, Some 16, None, Some 18]), (POST, [Some 0, Some 1, Some 16, None, Some 19]),
     (POST, [Some 0, Some 1, Some 16, None, Some 20]), (GET, [Some 0, Some 1, Some 16, None, Some 20]),
     (PATCH, [Some 0, Some 1, Some 16, None, Some 20, None]), (POST, [Some 0, Some 1, Some 16, None, Some 21]),
     (GET, [Some 0, Some 1, Some 16, None, Some 21]), (PATCH, [Some 0, Some 1, Some 16, None, Some 21, None]),
     (POST, [Some 0, Some 1, Some 16, None, Some 21, None, Some 22, None]),
     (DELETE, [Some 0, Some 1, Some 16, None, Some 21, None, Some 22, None]),
     (POST, [Some 0, Some 1, Some 16, None, Some 22, Some 23]), (GET, [Some 0, Some 1, Some 16, None, Some 22]),
     (DELETE, [Some 0, Some 1, Some 16, None, Some 22, None]), (PUT, [Some 0, Some 1, Some 16, None, Some 24]),
     (POST, [Some 0, Some 1, Some 16, None, Some 25]), (GET, [Some 0, Some 1, Some 16, None, Some 25]),
     (GET, [Some 0, Some 1, Some 26, Some 16]), (GET, [Some 0, Some 1, Some 26, Some 16, None]),
     (GET, [Some 0, Some 1, Some 27, Some 16]), (POST, [Some 0, Some 1, Some 27, Some 16, None, Some 28]),
     (POST, [Some 0, Some 1, Some 27, Some 16, None, Some 29]),
     (POST, [Some 0, Some 1, Some 27, Some 16, None, Some 30]), (POST, [Some 0, Some 1, Some 31, Some 32]),
     (POST, [Some 0, Some 1, Some 31, Some 33]), (POST, [Some 0, Some 1, Some 31, None, Some 34]),
     (POST, [Some 0, Some 1, Some 31, Some 33, None, Some 34]), (POST, [Some 0, Some 1, Some 31, None, Some 35]),
     (POST, [Some 0, Some 1, Some 31, None, Some 36]), (GET, [Some 0, Some 1, Some 31, Some 13]),
     (GET, [Some 0, Some 1, Some 26, Some 37, None]), (GET, [Some 0, Some 1, Some 16, None, Some 31]),
     (PATCH, [Some 0, Some 1, Some 16, None, Some 31, None, Some 38]),
     (POST, [Some 0, Some 1, Some 16, None, Some 31, None, Some 35]),
     (POST, [Some 0, Some 1, Some 16, None, Some 47]), (GET, [Some 0, Some 1, Some 16, None, Some 47]),
     (PATCH, [Some 0, Some 1, Some 16, None, Some 47, None]), (POST, [Some 0, Some 1, Some 47, Some 48]),
     (POST, [Some 0, Some 1, Some 27, Some 47]), (GET, [Some 0, Some 1, Some 27, Some 47]),
     (PATCH, [Some 0, Some 1, Some 27, Some 47, None]), (POST, [Some 0, Some 1, Some 39, Some 40]),
     (GET, [Some 0, Some 1, Some 39, Some 41, None]), (POST, [Some 0, Some 1, Some 39, None, Some 42]),
     (GET, [Some 0, Some 1, Some 43, Some 13]), (POST, [Some 0, Some 1, Some 43, Some 44]),
     (GET, [Some 0, Some 1, Some 16, None, Some 45]), (POST, [Some 0, Some 1, Some 27, Some 45, Some 46])]"

lemma registered_eq:
  "registered = [M_App, M_Config, M_Schedule, M_Throttler, M_Prisma, M_Sms, M_Audit, M_Redis, M_Auth, M_Passport,
     M_Jwt, M_Otp, M_Referral, M_Loyalty, M_Users, M_Business, M_Branch, M_ServiceCatalog, M_Staff, M_WorkingHours,
     M_Discovery, M_AdminBusiness, M_Booking, M_Coupon, M_PaymentGateway, M_Payment, M_Wallet, M_Settlement]"
  by (simp add: registered_def module_defs eval_nat_numeral)

lemma routing_table_eq:
  "routing_table = concat (map rows_for
     [AuthController, ReferralController, LoyaltyController, UsersController, BusinessController, BranchController,
      ServiceCatalogController, StaffController, WorkingHoursController, DiscoveryController, AdminBusinessController,
      BookingController, AvailabilityController, BusinessBookingController, BusinessCouponController, CouponController,
      AdminCouponController, PaymentController, WalletController, BusinessSettlementController, AdminSettlementController])"
  by (simp add: routing_table_def registered_eq module_defs)

lemma table_shapes: "map shape routing_table = map numbered table_numbers"
  by (simp only: routing_table_eq table_numbers_def concat.simps list.map map_append shapes_defs append.simps append_Nil2)

text \<open>
  The one pair of routes that meet: the list of one's own businesses, and a business by its id.
\<close>

fun apart :: "verb \<times> nat option list \<Rightarrow> verb \<times> nat option list \<Rightarrow> bool" where
  "apart (v, t) (v', t') \<longleftrightarrow> (if v = v' then (if agree t t'
     then v = GET \<and> t = [Some 0, Some 1, Some 16, Some 17] \<and> t' = [Some 0, Some 1, Some 16, None] else True) else True)"

lemma sorted_wrt_list_all: "sorted_wrt P (x # xs) \<longleftrightarrow> list_all (P x) xs \<and> sorted_wrt P xs"
  by (simp add: list_all_iff)

lemma numbers_apart: "sorted_wrt apart table_numbers"
  unfolding table_numbers_def by (simp add: sorted_wrt_list_all del: sorted_wrt.simps(2))

lemma numbers_small: "r \<in> set table_numbers \<Longrightarrow> Some i \<in> set (snd r) \<Longrightarrow> i < 51"
proof -
  have "list_all (\<lambda>r. list_all (\<lambda>x. case x of None \<Rightarrow> True | Some i \<Rightarrow> i < 51) (snd r)) table_numbers"
    by (simp add: table_numbers_def)
  then show "r \<in> set table_numbers \<Longrightarrow> Some i \<in> set (snd r) \<Longrightarrow> i < 51" by (force simp: list_all_iff)
qed

lemma words_distinct: "inj_on (\<lambda>i. words ! i) {i. i < 51}"
proof -
  have "distinct words" "length words = 51" by (simp_all add: words_def)
  then show ?thesis by (auto simp: inj_on_def nth_eq_iff_index_eq)
qed

definition own_list :: "verb \<times> string option list" where
  "own_list = (GET, [Some ''api'', Some ''v1'', Some ''businesses'', Some ''mine''])"

definition own_one :: "verb \<times> string option list" where
  "own_one = (GET, [Some ''api'', Some ''v1'', Some ''businesses'', None])"

lemma table_apart:
  "sorted_wrt (\<lambda>r s. fst (shape r) = fst (shape s) \<longrightarrow> agree (snd (shape r)) (snd (shape s)) \<longrightarrow>
     shape r = own_list \<and> shape s = own_one) routing_table"
proof -
  let ?R = "\<lambda>r s. fst r = fst s \<longrightarrow> agree (snd r) (snd s) \<longrightarrow> r = own_list \<and> s = own_one"
  have apart: "?R (numbered r) (numbered s)" if "r \<in> set table_numbers" "s \<in> set table_numbers" "apart r s" for r s
  proof -
    have "{x. Some x \<in> set (snd r) \<union> set (snd s)} \<subseteq> {i. i < 51}" using numbers_small that(1,2) by blast
    then have "agree (snd (numbered r)) (snd (numbered s)) \<longleftrightarrow> agree (snd r) (snd s)"
      unfolding numbered_def snd_conv by (intro agree_map inj_on_subset [OF words_distinct])
    moreover have "r = (GET, [Some 0, Some 1, Some 16, Some 17]) \<and> s = (GET, [Some 0, Some 1, Some 16, None])"
      if "fst r = fst s" "agree (snd r) (snd s)"
      using \<open>apart r s\<close> that by (cases r; cases s; simp)
    moreover have "numbered (GET, [Some 0, Some 1, Some 16, Some 17]) = own_list"
      "numbered (GET, [Some 0, Some 1, Some 16, None]) = own_one"
      by (simp_all add: numbered_def own_list_def own_one_def words_def)
    moreover have "fst (numbered r) = fst r" "fst (numbered s) = fst s" by (simp_all add: numbered_def)
    ultimately show ?thesis by metis
  qed
  have "sorted_wrt (\<lambda>r s. ?R (numbered r) (numbered s)) table_numbers"
    by (rule sorted_wrt_mono_rel [OF apart numbers_apart])
  then have "sorted_wrt ?R (map shape routing_table)" by (simp only: table_shapes sorted_wrt_map)
  then show ?thesis by (simp only: sorted_wrt_map)
qed

section \<open>Every route is declared\<close>

lemmas methods_defs =
  AuthController_methods_def UsersController_methods_def BookingController_methods_def AvailabilityController_methods_def
  BusinessBookingController_methods_def BusinessController_methods_def BranchController_methods_def
  ServiceCatalogController_methods_def StaffController_methods_def WorkingHoursController_methods_def
  DiscoveryController_methods_def PaymentController_methods_def WalletController_methods_def
  BusinessSettlementController_methods_def AdminSettlementController_methods_def BusinessCouponController_methods_def
  CouponController_methods_def AdminCouponController_methods_def LoyaltyController_methods_def
  ReferralController_methods_def AdminBusinessController_methods_def

text \<open>What the guards read: \<open>request.params.id ?? request.params.businessId\<close>.\<close>

definition guarded_id :: "(string \<times> string) list \<Rightarrow> string option" where
  "guarded_id bs = (case map_of bs ''id'' of Some k \<Rightarrow> Some k | None \<Rightarrow> map_of bs ''businessId'')"

lemma endpoint_declared:
  "\<exists>v p. declared_method ep = Some (fst (call_of ep), v, p)
     \<and> length (snd (call_of ep)) = length (params (template (controller_of ep) p))
     \<and> path_id ep = guarded_id (zip (params (template (controller_of ep) p)) (snd (call_of ep)))"
  by (cases ep; rename_tac r; case_tac r; simp add: declared_method_def methods_defs template_def guarded_id_def)

lemma controller_listed: "set (rows_for (controller_of ep)) \<subseteq> set routing_table"
  unfolding routing_table_eq by (cases ep) auto

lemma split_path_segment:
  "s \<in> set (split_path t cs) \<Longrightarrow> CHR ''/'' \<notin> set t \<Longrightarrow> s \<noteq> [] \<and> CHR ''/'' \<notin> set s"
  by (induction t cs rule: split_path.induct) (auto split: if_splits)

lemma template_segment: "Lit l \<in> set (template c p) \<Longrightarrow> l \<noteq> [] \<and> CHR ''/'' \<notin> set l"
proof -
  have "seg_of x = Lit l \<Longrightarrow> x = l" for x by (cases x) (auto split: if_splits)
  then show "Lit l \<in> set (template c p) \<Longrightarrow> l \<noteq> [] \<and> CHR ''/'' \<notin> set l"
    using split_path_segment [of l "[]"] by (fastforce simp: template_def)
qed

lemma find_first:
  assumes "x \<in> set xs" "P x" "sorted_wrt R xs" "\<And>y. y \<in> set xs \<Longrightarrow> P y \<Longrightarrow> \<not> R y x"
  shows "List.find P xs = Some x"
  using assms by (induction xs) auto

lemma own_pair:
  assumes "shape y = own_list" "shape ((v, t), c, n) = own_one" "bind_path fits (snd (fst y)) (fill t as) = Some bs"
    "length as = length (params t)"
  shows "\<exists>a \<in> set as. fits ''mine'' a"
proof -
  have lit: "erase x = Some l \<longleftrightarrow> x = Lit l" "erase x = None \<longleftrightarrow> (\<exists>n. x = Param n)" for x l by (cases x; simp)+
  from assms(1) have y: "snd (fst y) = [Lit ''api'', Lit ''v1'', Lit ''businesses'', Lit ''mine'']"
    by (auto simp: shape_def own_list_def map_eq_Cons_conv lit)
  from assms(2) obtain i where t: "t = [Lit ''api'', Lit ''v1'', Lit ''businesses'', Param i]"
    by (auto simp: shape_def own_one_def map_eq_Cons_conv lit)
  from assms(4) obtain a where "as = [a]" by (auto simp: t length_Suc_conv)
  with assms(3) show ?thesis by (auto simp: y t split: if_splits)
qed

section \<open>The property\<close>

text \<open>
  C38. Every URL reaches its route. For every request of the model, the router finds the controller
  and the method that serve it, with its parameters in their order, in the URL of the request;
  and the id for which the guards ask in the path is the one that the model gives them. Assumed
  is that the parameters of a request are non-empty segments other than \<open>mine\<close> (they are UUIDs
  and the name of a gateway), and that of the literals of the table a segment fits itself and
  no second one.
\<close>

theorem urls_reach_their_routes:
  assumes "\<And>l. l \<in> literals \<Longrightarrow> fits l l"
    "\<And>l l' s. l \<in> literals \<Longrightarrow> l' \<in> literals \<Longrightarrow> fits l s \<Longrightarrow> fits l' s \<Longrightarrow> l = l'"
    "list_all (\<lambda>a. a \<noteq> [] \<and> CHR ''/'' \<notin> set a \<and> \<not> fits ''mine'' a) (snd (call_of ep))"
  shows "\<exists>bs. dispatch fits (verb_of ep) (url_of ep) = Some (controller_of ep, fst (call_of ep), bs)
    \<and> map snd bs = snd (call_of ep) \<and> guarded_id bs = path_id ep"
proof -
  let ?as = "snd (call_of ep)"
  obtain v p where d: "declared_method ep = Some (fst (call_of ep), v, p)"
    and n: "length ?as = length (params (template (controller_of ep) p))"
    and g: "path_id ep = guarded_id (zip (params (template (controller_of ep) p)) ?as)"
    using endpoint_declared by blast
  let ?t = "template (controller_of ep) p"
  let ?row = "((v, ?t), controller_of ep, fst (call_of ep))"
  let ?path = "fill ?t ?as"
  have row: "?row \<in> set routing_table"
    using d controller_listed [of ep] by (force simp: declared_method_def rows_for_def dest: find_SomeD)
  then have own: "bind_path fits ?t ?path = Some (zip (params ?t) ?as)"
    using n assms(1) by (intro bind_fill) (force simp: literals_def)+
  have path: "split_path [] (url_of ep) = ?path"
    using assms(3) fill_segments [of _ ?t ?as] template_segment [of _ "controller_of ep" p]
    by (force simp: url_of_def d list_all_iff intro!: split_join)
  have "List.find (answers fits v ?path) routing_table = Some ?row"
  proof (rule find_first [OF row _ table_apart])
    show "answers fits v ?path ?row" by (simp add: answers_def own)
    fix y assume y: "y \<in> set routing_table" "answers fits v ?path y"
    then obtain bs where b: "bind_path fits (snd (fst y)) ?path = Some bs" by (auto simp: answers_def)
    have "agree (snd (shape y)) (snd (shape ?row))"
      unfolding shape_def snd_conv fst_conv
      by (rule bind_agree [OF b own]) (use y(1) row assms(2) in \<open>force simp: literals_def\<close>)
    moreover have "fst (shape y) = fst (shape ?row)" using y(2) by (simp add: answers_def shape_def)
    moreover have False if "shape y = own_list" "shape ?row = own_one"
      using own_pair [OF that b n] assms(3) by (auto simp: list_all_iff)
    ultimately show "\<not> (fst (shape y) = fst (shape ?row) \<longrightarrow> agree (snd (shape y)) (snd (shape ?row)) \<longrightarrow>
      shape y = own_list \<and> shape ?row = own_one)" by blast
  qed
  then show ?thesis
    using own n g by (simp add: dispatch_def path verb_of_def d)
qed

theorem urls_reach_their_routes_witness:
  "\<exists>bs. dispatch (=) DELETE ''/api/v1/businesses/biz/services/srv/staff/st'' = Some (ServiceCatalogController, ''unassignStaff'', bs)
     \<and> map snd bs = [''biz'', ''srv'', ''st''] \<and> guarded_id bs = Some ''biz''"
proof -
  let ?ep = "ServiceRoute (Service_unassignStaff ''biz'' ''srv'' ''st'')"
  have "verb_of ?ep = DELETE" "url_of ?ep = ''/api/v1/businesses/biz/services/srv/staff/st''"
    by (simp_all add: verb_of_def url_of_def declared_method_def ServiceCatalogController_methods_def template_def join_path_def)
  then show ?thesis using urls_reach_their_routes [of "(=)" ?ep] by simp
qed

end
