(* ===== verification/Ranks.thy ===== *)
theory Ranks
  imports SystemProps
begin

text \<open>
  Who may do more. The roles of a business and the global roles are ordered, and no route
  admits a lower role while it refuses a higher one.
\<close>

section \<open>The orders\<close>

fun staff_rank :: "StaffRole \<Rightarrow> nat" where
  "staff_rank STAFF = 0"
| "staff_rank MANAGER = 1"
| "staff_rank OWNER = 2"

lemma staff_rank_inj: "staff_rank x = staff_rank y \<longleftrightarrow> x = y"
  by (cases x; cases y) simp_all

instantiation StaffRole :: linorder
begin

definition less_eq_StaffRole :: "StaffRole \<Rightarrow> StaffRole \<Rightarrow> bool" where
  "x \<le> y \<longleftrightarrow> staff_rank x \<le> staff_rank y"

definition less_StaffRole :: "StaffRole \<Rightarrow> StaffRole \<Rightarrow> bool" where
  "x < y \<longleftrightarrow> staff_rank x < staff_rank y"

instance
  by standard (auto simp: less_eq_StaffRole_def less_StaffRole_def staff_rank_inj)

end

fun global_rank :: "GlobalRole \<Rightarrow> nat" where
  "global_rank USER = 0"
| "global_rank ADMIN = 1"

lemma global_rank_inj: "global_rank x = global_rank y \<longleftrightarrow> x = y"
  by (cases x; cases y) simp_all

instantiation GlobalRole :: linorder
begin

definition less_eq_GlobalRole :: "GlobalRole \<Rightarrow> GlobalRole \<Rightarrow> bool" where
  "x \<le> y \<longleftrightarrow> global_rank x \<le> global_rank y"

definition less_GlobalRole :: "GlobalRole \<Rightarrow> GlobalRole \<Rightarrow> bool" where
  "x < y \<longleftrightarrow> global_rank x < global_rank y"

instance
  by standard (auto simp: less_eq_GlobalRole_def less_GlobalRole_def global_rank_inj)

end

lemma admin_top: "ADMIN \<le> r \<longleftrightarrow> r = ADMIN" "r \<le> ADMIN" "USER \<le> r"
  by (cases r; simp add: less_eq_GlobalRole_def)+

section \<open>What the decorators list\<close>

text \<open>With a role, every higher one is listed.\<close>

lemma route_roles:
  "(businessRoles (route_of ep), globalRoles (route_of ep))
     \<in> {([], []), ([], [ADMIN]), ([OWNER], []), ([OWNER, MANAGER], []), ([OWNER, MANAGER, STAFF], [])}"
proof -
  have shape: "(businessRoles rt, globalRoles rt)
      \<in> {([], []), ([], [ADMIN]), ([OWNER], []), ([OWNER, MANAGER], []), ([OWNER, MANAGER, STAFF], [])}"
    if "rt \<in> {public_route, user_route, admin_route, member_route [OWNER], member_route [OWNER, MANAGER],
        member_route [OWNER, MANAGER, STAFF]}" for rt
    using that by (auto simp: public_route_def user_route_def admin_route_def member_route_def)
  show ?thesis
    by (rule shape, cases ep; rename_tac x; case_tac x; simp)
qed

lemma roles_upward:
  assumes "sm_role m \<in> set (businessRoles (route_of ep))" "sm_role m \<le> sm_role m'"
  shows "sm_role m' \<in> set (businessRoles (route_of ep))"
  using route_roles [of ep] assms
  by (cases "sm_role m"; cases "sm_role m'") (auto simp: less_eq_StaffRole_def)

lemma admin_listed: "globalRoles (route_of ep) = [] \<or> ADMIN \<in> set (globalRoles (route_of ep))"
  using route_roles [of ep] by auto

section \<open>The property\<close>

text \<open>
  C39. A higher rank opens every door that a lower one opens. Whenever the guards let a member of a
  business pass, they let every active member with the same or a higher role in that business
  and the same or a higher global role pass; and an administrator passes everywhere.
\<close>

theorem rank_opens_doors:
  assumes "guards (route_of ep) (Inr (u, r)) (Some z) d = Inr (Some (u, r))"
    "find_membership d u z = Some m" "find_membership d u' z = Some m'" "sm_isActive m'"
    "sm_role m \<le> sm_role m'" "r \<le> r'"
  shows "guards (route_of ep) (Inr (u', r')) (Some z) d = Inr (Some (u', r'))
    \<and> guards (route_of ep) (Inr (a, ADMIN)) y d = Inr (Some (a, ADMIN))"
proof -
  have "r = ADMIN \<Longrightarrow> r' = ADMIN" using assms(6) admin_top(1) by simp
  moreover have "globalRoles (route_of ep) = [] \<or> r' = ADMIN \<or> r' \<in> set (globalRoles (route_of ep))"
    using assms(1,6) by (cases r; cases r') (auto simp: guards_def roles_canActivate_def jwt_canActivate_def less_eq_GlobalRole_def split: if_splits)
  ultimately show ?thesis
    using assms admin_listed [of ep] roles_upward [of m ep m']
    by (auto simp: guards_def jwt_canActivate_def roles_canActivate_def business_canActivate_def split: if_splits)
qed

text \<open>The staff member of the demo platform may list its reservations, hence its owner may.\<close>

theorem rank_opens_doors_witness:
  "\<forall>q. guards (route_of (BusinessBookingRoute (BusinessBooking_list ''biz'' q))) (Inr (''owner'', USER)) (Some ''biz'') (city [])
     = Inr (Some (''owner'', USER))"
proof
  fix q
  let ?ep = "BusinessBookingRoute (BusinessBooking_list ''biz'' q)"
  have m: "find_membership (city []) ''worker'' ''biz'' = Some demo_staff" "find_membership (city []) ''owner'' ''biz'' = Some city_owner"
    by (simp_all add: find_membership_def city_def city_owner_def demo_staff_def)
  have g: "guards (route_of ?ep) (Inr (''worker'', USER)) (Some ''biz'') (city []) = Inr (Some (''worker'', USER))"
    by (simp add: guards_def jwt_canActivate_def roles_canActivate_def business_canActivate_def m demo_staff_def member_route_def)
  show "guards (route_of ?ep) (Inr (''owner'', USER)) (Some ''biz'') (city []) = Inr (Some (''owner'', USER))"
    using rank_opens_doors [OF g m] by (simp add: city_owner_def demo_staff_def less_eq_StaffRole_def)
qed

end
