(* ===== verification/Sessions.thy ===== *)
theory Sessions
  imports Footprint SystemProps
begin

text \<open>
  Sessions and accounts over whole histories: no request brings back a refresh token that was
  revoked (by its exchange, a logout, a password reset, the removal of a session or the
  deletion of the account), and none reopens an account that is closed. And the session as the
  browser sees it: the cookies that the controller sets and clears, and what a browser that
  keeps refreshing gets.
\<close>

section \<open>What nothing brings back\<close>

definition spent :: "db \<Rightarrow> string \<Rightarrow> bool" where
  "spent d h \<longleftrightarrow> (\<exists>t. find_token d h = Some t \<and> rt_revokedAt t \<noteq> None)"

definition closed_account :: "db \<Rightarrow> id \<Rightarrow> bool" where
  "closed_account d k \<longleftrightarrow> (\<exists>u. find_user d k = Some u \<and> usr_status u \<noteq> Acc_ACTIVE)"

definition keeps_closed :: "db \<Rightarrow> db \<Rightarrow> bool" where
  "keeps_closed d e \<longleftrightarrow> (\<forall>h. spent d h \<longrightarrow> spent e h) \<and> (\<forall>k. closed_account d k \<longrightarrow> closed_account e k)
     \<and> (\<forall>h. find_token d h \<noteq> None \<longrightarrow> find_token e h \<noteq> None)"

lemma keeps_closed_refl [simp]: "keeps_closed d d"
  by (simp add: keeps_closed_def)

lemma keeps_closed_trans: "keeps_closed d e \<Longrightarrow> keeps_closed e f \<Longrightarrow> keeps_closed d f"
  by (simp add: keeps_closed_def)

lemma keeps_closed_cong: "users e = users d \<Longrightarrow> refresh_tokens e = refresh_tokens d \<Longrightarrow> keeps_closed d e"
  by (simp add: keeps_closed_def spent_def closed_account_def find_token_def find_user_def)

lemma keeps_revoke: "keeps_closed d (revoke_where sel now d)"
proof -
  have "spent d h \<Longrightarrow> spent (revoke_where sel now d) h" for h
    by (cases "find_token d h") (auto simp: spent_def find_token_revoke)
  then show ?thesis by (simp add: keeps_closed_def closed_account_def find_token_revoke)
qed

lemma keeps_issue: "keeps_closed d (snd (issueTokenPair env now n raw u role ctx d))"
  by (auto simp: issueTokenPair_def Let_def keeps_closed_def spent_def closed_account_def find_token_def find_insert_row)

lemma keeps_users:
  assumes "\<And>x. usr_id (f x) = usr_id x" "\<And>x. usr_status x \<noteq> Acc_ACTIVE \<Longrightarrow> usr_status (f x) \<noteq> Acc_ACTIVE"
  shows "keeps_closed d (d\<lparr>users := update_rows sel f (users d)\<rparr>)"
proof -
  have "closed_account d k \<Longrightarrow> closed_account (d\<lparr>users := update_rows sel f (users d)\<rparr>) k" for k
    using assms by (cases "find_user d k") (auto simp: closed_account_def find_user_def find_key_update)
  then show ?thesis by (simp add: keeps_closed_def spent_def)
qed

lemma keeps_update_user:
  assumes "\<And>x. usr_id (f x) = usr_id x" "\<And>x. usr_status x \<noteq> Acc_ACTIVE \<Longrightarrow> usr_status (f x) \<noteq> Acc_ACTIVE"
  shows "keeps_closed d (snd (update_user k f d))"
  using keeps_users [OF assms] by (auto simp: update_user_def split: option.split)

lemma keeps_new_user: "keeps_closed d (d\<lparr>users := insert_row u (users d), wallets := ws, loyalty_accounts := las\<rparr>)"
  by (auto simp: keeps_closed_def spent_def closed_account_def find_user_def find_token_def find_insert_row)

lemma keeps_referral: "keeps_closed d (registerReferral n code u d)"
  by (auto simp: registerReferral_def intro!: keeps_closed_cong split: option.split)

section \<open>Every request\<close>

lemma keeps_login:
  "keeps_closed d (snd (loginWithPassword env now n raw dto ctx d))"
  by (simp add: loginWithPassword_def keeps_issue split: option.split)

lemma keeps_verify: "verifyOtp env now p q c d = (r, e) \<Longrightarrow> keeps_closed d e"
  by (auto elim!: verifyOtp_state intro: keeps_closed_cong)

lemma keeps_verifyLoginOtp: "keeps_closed d (snd (verifyLoginOtp env now n raw p c ctx d))"
proof -
  obtain r e where v: "verifyOtp (otp_env.truncate env) now p LOGIN c d = (r, e)" by fastforce
  show ?thesis
    using keeps_verify [OF v] keeps_closed_trans [OF _ keeps_issue]
    by (auto simp: verifyLoginOtp_def v split: option.split sum.split bool.split)
qed

lemma keeps_refresh: "keeps_closed d (snd (refreshTokens env now n new old ctx d))"
  using keeps_closed_trans [OF keeps_revoke keeps_issue] by (auto simp: refreshTokens_def split: option.split)

lemma keeps_resetPassword: "keeps_closed d (snd (resetPassword env salt now dto d))"
proof -
  obtain r e where v: "verifyOtp (otp_env.truncate env) now (rp_phone dto) RESET_PASSWORD (rp_code dto) d = (r, e)" by fastforce
  have "keeps_closed d (revoke_where sel t (e\<lparr>users := update_rows s (\<lambda>u. u\<lparr>usr_passwordHash := h\<rparr>) (users e)\<rparr>))" for sel t s h
    by (rule keeps_closed_trans [OF keeps_verify [OF v] keeps_closed_trans [OF keeps_users keeps_revoke]]) simp_all
  with keeps_verify [OF v] show ?thesis
    by (auto simp: resetPassword_def v Let_def split: option.split sum.split bool.split)
qed

lemma keeps_register: "keeps_closed d (snd (verifyRegisterAndCreateUser env ids salt now dto ctx d))"
proof -
  obtain r e where v: "verifyOtp (otp_env.truncate env) now (vr_phone dto) REGISTER (vr_code dto) d = (r, e)" by fastforce
  note new = keeps_closed_trans [OF keeps_verify [OF v] keeps_closed_trans [OF keeps_new_user keeps_issue]]
  note new' = keeps_closed_trans [OF keeps_verify [OF v] keeps_closed_trans [OF keeps_new_user keeps_closed_trans [OF keeps_referral keeps_issue]]]
  show ?thesis
    using keeps_verify [OF v] new new'
    by (auto simp: verifyRegisterAndCreateUser_def v Let_def split: option.split sum.split bool.split)
qed

lemma keeps_account:
  "keeps_closed d (snd (updateProfile k dto d))" "keeps_closed d (snd (revokeSession now k s d))"
  "keeps_closed d (snd (requestAccountDeletion now k d))" "keeps_closed d (logout env now raw d)"
proof -
  show "keeps_closed d (snd (updateProfile k dto d))" by (simp add: updateProfile_def keeps_update_user)
  show "keeps_closed d (snd (revokeSession now k s d))"
    by (simp add: revokeSession_def keeps_revoke split: option.split)
  show "keeps_closed d (logout env now raw d)" by (simp add: logout_def keeps_revoke)
  have "keeps_closed d (snd (update_user k (\<lambda>u. u\<lparr>usr_status := Acc_DELETED, usr_deletedAt := Some now, usr_email := None\<rparr>) d))"
    by (rule keeps_update_user) simp_all
  then show "keeps_closed d (snd (requestAccountDeletion now k d))"
    using keeps_closed_trans [OF _ keeps_revoke] by (auto simp: requestAccountDeletion_def split: sum.split prod.split)
qed

lemma handle_keeps_closed:
  assumes "handle E dr user ep w = Some (res, w')"
  shows "keeps_closed (w_db w) (w_db w')"
proof (cases "T_users \<in> writes ep \<or> T_refresh_tokens \<in> writes ep")
  case False
  then have "same_table T_users (w_db w) (w_db w')" "same_table T_refresh_tokens (w_db w) (w_db w')"
    using handle_confined [OF assms] by (auto simp: confined_def frame_def)
  then show ?thesis by (simp add: keeps_closed_cong)
next
  case True
  then show ?thesis
  proof (cases ep)
    case (AuthRoute r)
    with assms True show ?thesis
      by (cases r) (auto simp: answer_simps keeps_login keeps_verifyLoginOtp keeps_refresh keeps_resetPassword keeps_register
        keeps_account split: if_splits)
  next
    case (UsersRoute r)
    with assms True show ?thesis by (cases r) (auto simp: answer_simps keeps_account)
  qed (rename_tac r, case_tac r, simp_all)+
qed

lemma transition_keeps_closed:
  assumes "transition E w e w'"
  shows "keeps_closed (w_db w) (w_db w')"
  using assms
proof (cases rule: transition.cases)
  case (request dr sub ep res)
  from request(3) show ?thesis by (cases rule: serve_cases) (auto dest: handle_keeps_closed)
next
  case (clean_up now)
  then show ?thesis by (simp add: handleExpiredHolds_def releaseExpiredHolds_def keeps_closed_cong)
qed simp

interpretation closing: transition_system "transition E" "\<lambda>_. True" "\<lambda>w w'. keeps_closed (w_db w) (w_db w')"
  for E :: "('r, 'g) environment"
  by unfold_locales (auto intro: transition_keeps_closed keeps_closed_trans)

interpretation spent_tokens: stable_fact "transition E" "\<lambda>_. True" "\<lambda>w w'. keeps_closed (w_db w) (w_db w')" "\<lambda>w. spent (w_db w)"
  for E :: "('r, 'g) environment"
  by unfold_locales (auto simp: keeps_closed_def)

interpretation closed_accounts: stable_fact "transition E" "\<lambda>_. True" "\<lambda>w w'. keeps_closed (w_db w) (w_db w')" "\<lambda>w. closed_account (w_db w)"
  for E :: "('r, 'g) environment"
  by unfold_locales (auto simp: keeps_closed_def)

section \<open>The property of histories\<close>

text \<open>
  C29. What is closed stays closed. Over every history of the backend, a refresh token that was
  revoked once is refused ever after, and for an account that is not active every access
  token and every refresh token is refused ever after: no request reopens either of them.
\<close>

theorem closed_for_good:
  assumes "run (transition E) w es w'"
  shows "(spent (w_db w) (sha256Hash (E_auth E) raw) \<longrightarrow>
        refreshTokens (E_auth E) now n new raw ctx (w_db w') = (Inl (Unauthorized SessionExpired), w_db w'))
    \<and> (closed_account (w_db w) k \<longrightarrow>
        authenticate (Some k) (w_db w') = Inl (Unauthorized AccountInvalid)
        \<and> (\<forall>t. find_token (w_db w') (sha256Hash (E_auth E) raw) = Some t \<and> rt_userId t = k \<longrightarrow>
             (\<exists>e. refreshTokens (E_auth E) now n new raw ctx (w_db w') = (Inl (Unauthorized e), w_db w'))))"
proof -
  have "spent (w_db w') h" if "spent (w_db w) h" for h
    using spent_tokens.run_fact [OF assms _ that] by simp
  moreover have "closed_account (w_db w') k" if "closed_account (w_db w) k"
    using closed_accounts.run_fact [OF assms _ that] by simp
  moreover have "refreshTokens (E_auth E) now n new raw ctx d = (Inl (Unauthorized SessionExpired), d)"
    if "spent d (sha256Hash (E_auth E) raw)" for d
    using that revoked_refused by (auto simp: spent_def)
  moreover have "authenticate (Some k) d = Inl (Unauthorized AccountInvalid)" if "closed_account d k" for d
    using that by (auto simp: authenticate_def jwt_validate_def closed_account_def)
  moreover have "\<exists>e. refreshTokens (E_auth E) now n new raw ctx d = (Inl (Unauthorized e), d)"
    if "closed_account d k" "find_token d (sha256Hash (E_auth E) raw) = Some t" "rt_userId t = k" for d t
    using that by (auto simp: refreshTokens_def closed_account_def)
  ultimately show ?thesis by blast
qed

section \<open>The cookie\<close>

text \<open>\<open>setRefreshCookie\<close>, \<open>clearCookie\<close>, or neither.\<close>

datatype cookie = Keep_cookie | Set_cookie string | Clear_cookie

text \<open>The refresh token goes into the cookie only, the access token into the body.\<close>

definition tokens_reply :: "TokenPair result \<Rightarrow> cookie \<times> string option" where
  "tokens_reply r = (case r of Inl e \<Rightarrow> (Keep_cookie, None) | Inr p \<Rightarrow> (Set_cookie (refreshToken p), Some (accessToken p)))"

fun AuthController_reply :: "('r, 'g) environment \<Rightarrow> draws \<Rightarrow> AuthController \<Rightarrow> db \<Rightarrow> cookie \<times> string option" where
  "AuthController_reply E dr (Auth_verifyRegister dto) d =
     tokens_reply (fst (verifyRegisterAndCreateUser (E_auth E) (registration_ids dr) (salt_of dr) (now_of dr) dto (device dr) d))"
| "AuthController_reply E dr (Auth_login dto) d =
     tokens_reply (fst (loginWithPassword (E_auth E) (now_of dr) (uuid dr 0) (session_token dr) dto (device dr) d))"
| "AuthController_reply E dr (Auth_verifyLoginOtp phone code) d =
     tokens_reply (fst (verifyLoginOtp (E_auth E) (now_of dr) (uuid dr 0) (session_token dr) phone code (device dr) d))"
| "AuthController_reply E dr (Auth_refresh cookie body) d =
     (if truthy (raw_token_of cookie body)
      then tokens_reply (fst (refreshTokens (E_auth E) (now_of dr) (uuid dr 0) (session_token dr) (the (raw_token_of cookie body)) (device dr) d))
      else (Keep_cookie, None))"
| "AuthController_reply E dr (Auth_logout cookie body) d = (Clear_cookie, None)"
| "AuthController_reply E dr _ d = (Keep_cookie, None)"

text \<open>
  A browser: its cookie, and the tokens that it has exchanged for a new one or logged out. It
  sends the cookie with every request to the controller; the reply of a request that is
  refused sets none.
\<close>

record ('r, 'g) browser =
  jar :: "string option"
  given_up :: "string list"
  br_world :: "('r, 'g) world"

fun sends :: "string option \<Rightarrow> AuthController \<Rightarrow> bool" where
  "sends c (Auth_refresh k body) \<longleftrightarrow> k = c \<and> body = None"
| "sends c (Auth_logout k body) \<longleftrightarrow> k = c \<and> body = None"
| "sends c _ \<longleftrightarrow> True"

fun gives_up :: "string option \<Rightarrow> AuthController \<Rightarrow> string list" where
  "gives_up (Some c) (Auth_refresh _ _) = [c]"
| "gives_up (Some c) (Auth_logout _ _) = [c]"
| "gives_up _ _ = []"

definition receive :: "cookie \<Rightarrow> AuthController \<Rightarrow> ('r, 'g) browser \<Rightarrow> ('r, 'g) browser" where
  "receive c r b = (case c of
     Keep_cookie \<Rightarrow> b
   | Set_cookie t \<Rightarrow> b\<lparr>jar := Some t, given_up := gives_up (jar b) r @ given_up b\<rparr>
   | Clear_cookie \<Rightarrow> b\<lparr>jar := None, given_up := gives_up (jar b) r @ given_up b\<rparr>)"

datatype browse_event = Visit draws AuthController | Refused | Elsewhere event

text \<open>Anything may happen elsewhere between two visits.\<close>

inductive browse :: "('r, 'g) environment \<Rightarrow> ('r, 'g) browser \<Rightarrow> browse_event \<Rightarrow> ('r, 'g) browser \<Rightarrow> bool"
  for E :: "('r, 'g) environment" where
  visit: "transition E (br_world b) (Request dr None (AuthRoute r) (Inr ())) w' \<Longrightarrow> sends (jar b) r \<Longrightarrow> session_token dr \<noteq> []
    \<Longrightarrow> browse E b (Visit dr r) (receive (fst (AuthController_reply E dr r (w_db (br_world b)))) r (b\<lparr>br_world := w'\<rparr>))"
| refused: "transition E (br_world b) (Request dr None (AuthRoute r) (Inl e)) w' \<Longrightarrow> sends (jar b) r
    \<Longrightarrow> browse E b Refused (b\<lparr>br_world := w'\<rparr>)"
| elsewhere: "transition E (br_world b) e w' \<Longrightarrow> browse E b (Elsewhere e) (b\<lparr>br_world := w'\<rparr>)"

definition browser_ok :: "('r, 'g) environment \<Rightarrow> ('r, 'g) browser \<Rightarrow> bool" where
  "browser_ok E b \<longleftrightarrow> (\<forall>c \<in> set (given_up b). spent (w_db (br_world b)) (sha256Hash (E_auth E) c))
     \<and> (\<forall>c. jar b = Some c \<longrightarrow> c \<noteq> [] \<and> find_token (w_db (br_world b)) (sha256Hash (E_auth E) c) \<noteq> None)"

section \<open>What a visit does to the tokens\<close>

lemma issue_known:
  "issueTokenPair env now n raw u role ctx d = (Inr p, d') \<Longrightarrow> refreshToken p = raw \<and> find_token d' (sha256Hash env raw) \<noteq> None"
  by (erule issue_cases) (auto simp: find_token_issued)

lemma login_known:
  "loginWithPassword env now n raw dto ctx d = (Inr p, d') \<Longrightarrow> refreshToken p = raw \<and> find_token d' (sha256Hash env raw) \<noteq> None"
  "verifyLoginOtp env now n raw phone code ctx d = (Inr p, d') \<Longrightarrow> refreshToken p = raw \<and> find_token d' (sha256Hash env raw) \<noteq> None"
  "verifyRegisterAndCreateUser env ids salt now rdto ctx d = (Inr p, d')
     \<Longrightarrow> refreshToken p = raw_token ids \<and> find_token d' (sha256Hash env (raw_token ids)) \<noteq> None"
  "refreshTokens env now n raw old ctx d = (Inr p, d') \<Longrightarrow> refreshToken p = raw \<and> find_token d' (sha256Hash env raw) \<noteq> None"
  using issue_known
  by (auto simp: loginWithPassword_def verifyLoginOtp_def verifyRegisterAndCreateUser_def refreshTokens_def Let_def
      split: option.splits if_splits sum.splits bool.splits prod.splits)

lemma reply_known:
  "fst (loginWithPassword env now n raw dto ctx d) = Inr p
     \<Longrightarrow> refreshToken p = raw \<and> find_token (snd (loginWithPassword env now n raw dto ctx d)) (sha256Hash env raw) \<noteq> None"
  "fst (verifyLoginOtp env now n raw phone code ctx d) = Inr p
     \<Longrightarrow> refreshToken p = raw \<and> find_token (snd (verifyLoginOtp env now n raw phone code ctx d)) (sha256Hash env raw) \<noteq> None"
  "fst (verifyRegisterAndCreateUser env (registration_ids dr) salt now rdto ctx d) = Inr p
     \<Longrightarrow> refreshToken p = session_token dr
       \<and> find_token (snd (verifyRegisterAndCreateUser env (registration_ids dr) salt now rdto ctx d)) (sha256Hash env (session_token dr)) \<noteq> None"
  "fst (refreshTokens env now n raw old ctx d) = Inr p
     \<Longrightarrow> refreshToken p = raw \<and> find_token (snd (refreshTokens env now n raw old ctx d)) (sha256Hash env raw) \<noteq> None"
proof -
  have reg: "raw_token (registration_ids dr) = session_token dr" by (simp add: registration_ids_def)
  note known = login_known(1,2,4) login_known(3) [of _ "registration_ids dr", unfolded reg]
  show "fst (loginWithPassword env now n raw dto ctx d) = Inr p
     \<Longrightarrow> refreshToken p = raw \<and> find_token (snd (loginWithPassword env now n raw dto ctx d)) (sha256Hash env raw) \<noteq> None"
    "fst (verifyLoginOtp env now n raw phone code ctx d) = Inr p
     \<Longrightarrow> refreshToken p = raw \<and> find_token (snd (verifyLoginOtp env now n raw phone code ctx d)) (sha256Hash env raw) \<noteq> None"
    "fst (verifyRegisterAndCreateUser env (registration_ids dr) salt now rdto ctx d) = Inr p
     \<Longrightarrow> refreshToken p = session_token dr
       \<and> find_token (snd (verifyRegisterAndCreateUser env (registration_ids dr) salt now rdto ctx d)) (sha256Hash env (session_token dr)) \<noteq> None"
    "fst (refreshTokens env now n raw old ctx d) = Inr p
     \<Longrightarrow> refreshToken p = raw \<and> find_token (snd (refreshTokens env now n raw old ctx d)) (sha256Hash env raw) \<noteq> None"
    by (rule known, simp add: prod_eq_iff)+
qed

lemma refresh_spends:
  assumes "refreshTokens env now n new old ctx d = (Inr p, d')"
  shows "spent d' (sha256Hash env old)"
  using assms
proof (cases rule: refresh_cases)
  case (rotated t u)
  have "spent (revoke_where (\<lambda>x. rt_id x = rt_id t) now d) (sha256Hash env old)"
    using rotated(1) by (simp add: spent_def find_token_revoke)
  then show ?thesis using keeps_issue rotated(6) unfolding keeps_closed_def by (metis snd_conv)
qed auto

lemma refresh_reply_spends:
  "fst (refreshTokens env now n new old ctx d) = Inr p \<Longrightarrow> spent (snd (refreshTokens env now n new old ctx d)) (sha256Hash env old)"
  by (rule refresh_spends) (simp add: prod_eq_iff)

lemma logout_spends: "find_token d (sha256Hash env c) \<noteq> None \<Longrightarrow> spent (logout env now c d) (sha256Hash env c)"
  using find_token_Some by (fastforce simp: spent_def logout_def find_token_revoke)

lemma visit_ok:
  assumes "browser_ok E b" "transition E (br_world b) (Request dr None (AuthRoute r) (Inr ())) w'" "sends (jar b) r" "session_token dr \<noteq> []"
  shows "browser_ok E (receive (fst (AuthController_reply E dr r (w_db (br_world b)))) r (b\<lparr>br_world := w'\<rparr>))"
proof -
  let ?d = "w_db (br_world b)"
  have keeps: "keeps_closed ?d (w_db w')" by (rule transition_keeps_closed [OF assms(2)])
  then have old: "browser_ok E (b\<lparr>br_world := w'\<rparr>)" using assms(1) by (simp add: browser_ok_def keeps_closed_def)
  from assms(2) obtain u where h: "AuthController_handle E dr u r (br_world b) = Some (Inr (), w')"
    by (auto simp: transition_simps elim!: serve_cases)
  have "c \<noteq> [] \<and> find_token (w_db w') (sha256Hash (E_auth E) c) \<noteq> None" if "fst (AuthController_reply E dr r ?d) = Set_cookie c" for c
    using that h assms(4)
    by (cases r) (auto simp: tokens_reply_def answer_simps split: sum.splits if_splits dest!: reply_known)
  moreover have "spent (w_db w') (sha256Hash (E_auth E) c)"
    if "c \<in> set (gives_up (jar b) r)" "fst (AuthController_reply E dr r ?d) \<noteq> Keep_cookie" for c
    using that h assms(1,3)
    by (cases r; cases "jar b") (auto simp: tokens_reply_def answer_simps raw_token_of_def browser_ok_def logout_spends
      split: sum.splits if_splits dest: refresh_reply_spends)
  ultimately show ?thesis
    using old by (auto simp: receive_def browser_ok_def split: cookie.split)
qed

lemma browse_ok:
  assumes "browse E b ev b'" "browser_ok E b"
  shows "browser_ok E b'"
  using assms(1)
proof (cases rule: browse.cases)
  case (visit dr r w')
  with visit_ok [OF assms(2)] show ?thesis by simp
next
  case (refused dr r e w')
  then show ?thesis using transition_keeps_closed [OF refused(3)] assms(2) by (simp add: browser_ok_def keeps_closed_def)
next
  case (elsewhere e w')
  then show ?thesis using transition_keeps_closed [OF elsewhere(3)] assms(2) by (simp add: browser_ok_def keeps_closed_def)
qed

interpretation browsing: transition_system "browse E" "browser_ok E" "\<lambda>_ _. True" for E :: "('r, 'g) environment"
  by unfold_locales (auto intro: browse_ok)

section \<open>The property of browsers\<close>

text \<open>
  C30. A stolen cookie is worth nothing once its owner has moved on. A browser logs in, refreshes
  and logs out in any order while anything else happens at the backend: every token that its
  cookie held before an exchange or a logout is refused ever after, and the cookie it holds
  is one that the server issued.
\<close>

theorem old_cookies_refused:
  assumes "run (browse E) b es b'" "given_up b = []"
    "\<And>c. jar b = Some c \<Longrightarrow> c \<noteq> [] \<and> find_token (w_db (br_world b)) (sha256Hash (E_auth E) c) \<noteq> None"
  shows "(\<forall>c \<in> set (given_up b'). refreshTokens (E_auth E) now n new c ctx (w_db (br_world b'))
        = (Inl (Unauthorized SessionExpired), w_db (br_world b')))
    \<and> (\<forall>c. jar b' = Some c \<longrightarrow> find_token (w_db (br_world b')) (sha256Hash (E_auth E) c) \<noteq> None)"
proof -
  have "browser_ok E b" using assms(2,3) by (simp add: browser_ok_def)
  from browsing.run_inv [OF assms(1) this] show ?thesis
    using revoked_refused by (auto simp: browser_ok_def spent_def)
qed

section \<open>Concrete histories\<close>

definition demo_session :: "time option \<Rightarrow> refresh_token" where
  "demo_session revoked = \<lparr>rt_id = ''rt'', rt_userId = ''ann'', rt_tokenHash = ''old'', rt_deviceInfo = None, rt_ipAddress = None,
     rt_expiresAt = day0 + 1000000, rt_revokedAt = revoked, rt_createdAt = day0\<rparr>"

definition session_world :: "time option \<Rightarrow> AccountStatus \<Rightarrow> (mem_store, sessions) world" where
  "session_world revoked status = (city_world [])\<lparr>w_db := empty_db\<lparr>users := [(citizen ''ann'' ''09120000001'')\<lparr>usr_status := status\<rparr>],
     refresh_tokens := [demo_session revoked]\<rparr>\<rparr>"

text \<open>The session of a deleted account stays refused while the clean-up job runs.\<close>

theorem closed_for_good_witness:
  "\<exists>w'. run (transition city_env) (session_world (Some day0) Acc_DELETED) [CleanUp day0] w'
     \<and> authenticate (Some ''ann'') (w_db w') = Inl (Unauthorized AccountInvalid)
     \<and> refreshTokens demo_auth day0 ''n'' ''new'' ''old'' no_device (w_db w') = (Inl (Unauthorized SessionExpired), w_db w')"
proof -
  let ?w = "session_world (Some day0) Acc_DELETED"
  have r: "run (transition city_env) ?w [CleanUp day0] (?w\<lparr>w_db := handleExpiredHolds day0 (w_db ?w)\<rparr>)"
    by (rule run.move, rule transition.clean_up, rule run.stop)
  have "spent (w_db ?w) (sha256Hash (E_auth city_env) ''old'')" "closed_account (w_db ?w) ''ann''" "E_auth city_env = demo_auth"
    by (simp_all add: spent_def closed_account_def session_world_def demo_session_def find_token_def find_user_def city_env_def
        demo_auth_def citizen_def)
  then show ?thesis using closed_for_good [OF r] r by (intro exI conjI) (assumption | simp)+
qed

text \<open>Ann logs out; her cookie is refused.\<close>

theorem old_cookies_refused_witness:
  "\<exists>b'. run (browse city_env) \<lparr>jar = Some ''old'', given_up = [], br_world = session_world None Acc_ACTIVE\<rparr>
       [Visit (city_draws day0) (Auth_logout (Some ''old'') None)] b'
     \<and> jar b' = None \<and> given_up b' = [''old'']
     \<and> refreshTokens demo_auth day0 ''n'' ''new'' ''old'' no_device (w_db (br_world b')) = (Inl (Unauthorized SessionExpired), w_db (br_world b'))"
proof -
  let ?w = "session_world None Acc_ACTIVE" and ?r = "Auth_logout (Some ''old'') None"
  let ?b = "\<lparr>jar = Some ''old'', given_up = [], br_world = ?w\<rparr>"
  let ?w' = "?w\<lparr>w_db := logout demo_auth day0 ''old'' (w_db ?w)\<rparr>"
  let ?b' = "receive (fst (AuthController_reply city_env (city_draws day0) ?r (w_db (br_world ?b)))) ?r (?b\<lparr>br_world := ?w'\<rparr>)"
  have "inj (uuid (city_draws day0))" by (auto simp: city_draws_def inj_def)
  moreover have "\<forall>x \<in> set (ids_of (w_db ?w)). hd x \<noteq> CHR ''#''"
    by (simp add: ids_of_def session_world_def empty_db_def citizen_def demo_session_def demo_user_def)
  moreover have "hd (uuid (city_draws day0) i) = CHR ''#''" "uuid (city_draws day0) i \<noteq> []" for i
    by (simp_all add: city_draws_def)
  ultimately have f: "fresh_draws (w_db ?w) (city_draws day0)" unfolding fresh_draws_def by metis
  have "serve city_env (city_draws day0) None (AuthRoute ?r) ?w = Some (Inr (), ?w')"
    by (simp add: serve_def guards_def jwt_canActivate_def roles_canActivate_def business_canActivate_def public_route_def
        raw_token_of_def on_db_def status_of_def city_env_def city_draws_def)
  from transition.request [OF f this] have "browse city_env ?b (Visit (city_draws day0) ?r) ?b'"
    by (intro browse.visit) (simp_all add: city_draws_def)
  then have r: "run (browse city_env) ?b [Visit (city_draws day0) ?r] ?b'" by (rule run.move, intro run.stop)
  have known: "\<And>c. jar ?b = Some c \<Longrightarrow> c \<noteq> [] \<and> find_token (w_db (br_world ?b)) (sha256Hash (E_auth city_env) c) \<noteq> None"
    by (auto simp: session_world_def find_token_def demo_session_def city_env_def demo_auth_def)
  have given: "jar ?b' = None" "given_up ?b' = [''old'']" by (simp_all add: receive_def)
  have "E_auth city_env = demo_auth" by (simp add: city_env_def)
  then show ?thesis
    using old_cookies_refused [OF r _ known] given r by (intro exI [of _ ?b'] conjI) (assumption | simp)+
qed

end
