(* ===== verification/Guesses.thy ===== *)
theory Guesses
  imports SystemProps
begin

text \<open>
  How fast one-time codes can be guessed over a whole history: the limit of five wrong guesses
  for a code and the minute between two codes together bound the guesses per minute.
\<close>

text \<open>The unused codes of a phone and purpose that were made in \<open>n\<close> minutes from \<open>a\<close> on.\<close>

definition codes_between :: "string \<Rightarrow> OtpPurpose \<Rightarrow> time \<Rightarrow> nat \<Rightarrow> db \<Rightarrow> otp_code list" where
  "codes_between p q a n d =
     filter (\<lambda>r. live p q r \<and> a \<le> otp_createdAt r \<and> otp_createdAt r < a + 60000 * int n) (otp_codes d)"

lemma codes_between_few:
  assumes "otp_ok d"
  shows "length (codes_between p q a n d) \<le> n"
proof -
  let ?t = "codes_between p q a n d" and ?slot = "\<lambda>r. (otp_createdAt r - a) div 60000"
  have "distinct (map otp_id (otp_codes d))" using assms by (simp add: otp_ok_def unique_key_def)
  then have ids: "distinct (map otp_id ?t)" unfolding codes_between_def by (rule distinct_map_filter)
  have "inj_on ?slot (set ?t)"
  proof
    fix x y assume xy: "x \<in> set ?t" "y \<in> set ?t" "?slot x = ?slot y"
    have "60000 \<le> \<bar>otp_createdAt x - otp_createdAt y\<bar>" if "otp_id x \<noteq> otp_id y"
      using assms xy(1,2) that by (auto simp: otp_ok_def spaced_def codes_between_def live_def)
    moreover have "\<bar>otp_createdAt x - otp_createdAt y\<bar> < 60000" using xy(3) by linarith
    ultimately have "otp_id x = otp_id y" by linarith
    with xy(1,2) ids show "x = y" by (meson distinct_map inj_onD)
  qed
  moreover have "?slot ` set ?t \<subseteq> {0..<int n}" by (auto simp: codes_between_def)
  ultimately have "card (set ?t) \<le> card {0..<int n}" by (intro card_inj_on_le) auto
  moreover have "length ?t = card (set ?t)" using ids distinct_card distinct_map by metis
  ultimately show ?thesis by simp
qed

text \<open>
  C27. Guessing is slow. In every state that is reached by requests served one after the other,
  whoever sends them and in whatever order, the unused
  codes that were made for a phone and a purpose within any \<open>n\<close> minutes are at most \<open>n\<close>, and
  together they have taken at most \<open>5 * n\<close> wrong guesses. (Guesses in flight at the same
  time are the subject of \<open>AccountRace\<close>.)
\<close>

theorem guessing_is_slow:
  assumes "run (transition E) w es w'" "db_ok (w_db w)"
  shows "length (codes_between p q a n (w_db w')) \<le> n
    \<and> sum_list (map otp_attempts (codes_between p q a n (w_db w'))) \<le> 5 * n"
proof -
  have ok: "otp_ok (w_db w')" using reached_ok [OF assms] by (simp add: db_ok_def)
  have "otp_attempts r \<le> 5" if "r \<in> set (codes_between p q a n (w_db w'))" for r
    using ok that by (auto simp: otp_ok_def list_all_iff codes_between_def)
  then have "sum_list (map otp_attempts (codes_between p q a n (w_db w'))) \<le> sum_list (map (\<lambda>_. 5) (codes_between p q a n (w_db w')))"
    by (intro sum_list_mono) simp
  with codes_between_few [OF ok, of p q a n] show ?thesis by (simp add: sum_list_triv)
qed

text \<open>A phone with one code that was guessed at three times.\<close>

definition guessed_world :: "(mem_store, sessions) world" where
  "guessed_world = (city_world [])\<lparr>w_db := empty_db\<lparr>otp_codes := [(demo_otp ''o'' ''09120000001'' LOGIN)\<lparr>otp_attempts := 3\<rparr>]\<rparr>\<rparr>"

theorem guessing_is_slow_witness:
  "\<exists>w'. run (transition city_env) guessed_world [CleanUp day0] w'
     \<and> sum_list (map otp_attempts (codes_between ''09120000001'' LOGIN 0 1 (w_db w'))) = 3
     \<and> sum_list (map otp_attempts (codes_between ''09120000001'' LOGIN 0 1 (w_db w'))) \<le> 5"
proof -
  let ?w' = "guessed_world\<lparr>w_db := handleExpiredHolds day0 (w_db guessed_world)\<rparr>"
  have r: "run (transition city_env) guessed_world [CleanUp day0] ?w'"
    by (rule run.move, rule transition.clean_up, rule run.stop)
  have "db_ok (w_db guessed_world)"
    by (simp add: guessed_world_def demo_otp_def db_ok_def empty_db_def accounts_ok_def otp_ok_def spaced_def staff_ok_def
        services_ok_def coupons_ok_def bookings_ok_def no_double_booking_def wallets_ok_def payments_ok_def loyalty_ok_def
        referrals_ok_def balanced_def unique_key_def)
  from guessing_is_slow [OF r this, of "''09120000001''" LOGIN 0 1] r show ?thesis
    by (intro exI [of _ ?w'])
      (simp add: codes_between_def handleExpiredHolds_def releaseExpiredHolds_def guessed_world_def demo_otp_def live_def
        empty_db_def)
qed

end
