(* ===== verification/HoldRace.thy ===== *)
theory HoldRace
  imports SystemProps ScheduleProps
begin

text \<open>
  Several calls of \<open>hold\<close> at the same time. Each call is split into the steps that the
  server really takes one after the other (take the lock, look for an overlapping
  reservation, write and commit, give the lock back), and the steps of different calls
  interleave freely. Shown: calls that would overlap only when they begin at the same
  instant never book twice as long as each commits before its lock expires; a call that
  is not interrupted is exactly \<open>hold\<close>; and two calls that begin at different instants,
  or one that outlives its lock, can book the same staff member twice.
\<close>

section \<open>The transaction of hold in two halves\<close>

text \<open>What the transaction does after \<open>assertSlotFree\<close> has let it pass.\<close>

definition hold_write :: "time \<Rightarrow> id \<Rightarrow> id \<Rightarrow> HoldBookingDto \<Rightarrow> business \<Rightarrow> service \<Rightarrow> db \<Rightarrow> booking result \<times> db" where
  "hold_write now newId userId dto business service d =
     (case redeem_for_hold now userId dto service d of
        (Inl e, d1) \<Rightarrow> (Inl e, d1)
      | (Inr (redeemedCouponId, discountAmount), d1) \<Rightarrow>
          (case create_booking (hold_row now newId userId dto business service discountAmount) d1 of
             (Inl e, d2) \<Rightarrow> (Inl e, d2)
           | (Inr booking, d2) \<Rightarrow> (Inr booking, link_usage redeemedCouponId userId (bk_id booking) d2)))"

text \<open>A call in progress: what it was asked for and what it validated and drew beforehand.\<close>

record client =
  cl_token :: string
  cl_newId :: id
  cl_userId :: id
  cl_dto :: HoldBookingDto
  cl_business :: business
  cl_service :: service

definition cl_key :: "client \<Rightarrow> string" where
  "cl_key c = lockKey (hb_branchId (cl_dto c)) (hb_staffMemberId (cl_dto c)) (hb_startTime (cl_dto c))"

definition cl_end :: "client \<Rightarrow> time" where
  "cl_end c = hb_startTime (cl_dto c) + sv_durationMinutes (cl_service c) * 60000"

definition cl_check :: "client \<Rightarrow> db \<Rightarrow> unit result" where
  "cl_check c = assertSlotFree (hb_branchId (cl_dto c)) (hb_staffMemberId (cl_dto c)) (hb_startTime (cl_dto c)) (cl_end c) None"

definition cl_write :: "time \<Rightarrow> client \<Rightarrow> db \<Rightarrow> booking result \<times> db" where
  "cl_write now c = transaction (hold_write now (cl_newId c) (cl_userId c) (cl_dto c) (cl_business c) (cl_service c))"

lemma hold_body_split:
  "hold_body now (cl_newId c) (cl_userId c) (cl_dto c) (cl_business c) (cl_service c) d =
     (case cl_check c d of
        Inl e \<Rightarrow> (Inl e, d)
      | Inr _ \<Rightarrow> hold_write now (cl_newId c) (cl_userId c) (cl_dto c) (cl_business c) (cl_service c) d)"
  by (simp add: hold_body_def hold_write_def cl_check_def cl_end_def split: sum.split)

section \<open>Interleaved steps\<close>

text \<open>\<open>Holding t\<close>, \<open>Checked t\<close> and \<open>Leaving t\<close>: the lock was taken at \<open>t\<close>.\<close>

datatype phase = Waiting | Holding time | Checked time | Leaving time | Finished

datatype race_event = Acquire nat time | Check nat time | Write nat time | Unlock nat time

record 'r race =
  rc_db :: db
  rc_store :: 'r
  rc_now :: time
  rc_phase :: "nat \<Rightarrow> phase"

inductive race_step :: "'r redis \<Rightarrow> (nat \<Rightarrow> client) \<Rightarrow> 'r race \<Rightarrow> race_event \<Rightarrow> 'r race \<Rightarrow> bool"
  for R :: "'r redis" and C :: "nat \<Rightarrow> client" where
  acquired: "rc_phase s i = Waiting \<Longrightarrow> rc_now s \<le> t
    \<Longrightarrow> acquire R t (cl_token (C i)) (cl_key (C i)) default_ttlMs (rc_store s) = (Some tok, r)
    \<Longrightarrow> race_step R C s (Acquire i t) (s\<lparr>rc_store := r, rc_now := t, rc_phase := (rc_phase s)(i := Holding t)\<rparr>)"
| busy: "rc_phase s i = Waiting \<Longrightarrow> rc_now s \<le> t
    \<Longrightarrow> acquire R t (cl_token (C i)) (cl_key (C i)) default_ttlMs (rc_store s) = (None, r)
    \<Longrightarrow> race_step R C s (Acquire i t) (s\<lparr>rc_store := r, rc_now := t, rc_phase := (rc_phase s)(i := Finished)\<rparr>)"
| free: "rc_phase s i = Holding t0 \<Longrightarrow> rc_now s \<le> t \<Longrightarrow> cl_check (C i) (rc_db s) = Inr ()
    \<Longrightarrow> race_step R C s (Check i t) (s\<lparr>rc_now := t, rc_phase := (rc_phase s)(i := Checked t0)\<rparr>)"
| taken: "rc_phase s i = Holding t0 \<Longrightarrow> rc_now s \<le> t \<Longrightarrow> cl_check (C i) (rc_db s) = Inl e
    \<Longrightarrow> race_step R C s (Check i t) (s\<lparr>rc_now := t, rc_phase := (rc_phase s)(i := Leaving t0)\<rparr>)"
| written: "rc_phase s i = Checked t0 \<Longrightarrow> rc_now s \<le> t \<Longrightarrow> cl_write t (C i) (rc_db s) = (res, d)
    \<Longrightarrow> race_step R C s (Write i t) (s\<lparr>rc_db := d, rc_now := t, rc_phase := (rc_phase s)(i := Leaving t0)\<rparr>)"
| unlocked: "rc_phase s i = Leaving t0 \<Longrightarrow> rc_now s \<le> t
    \<Longrightarrow> race_step R C s (Unlock i t) (s\<lparr>rc_store := release R t (cl_key (C i)) (cl_token (C i)) (rc_store s), rc_now := t,
          rc_phase := (rc_phase s)(i := Finished)\<rparr>)"

text \<open>Runs in which every call commits before its lock has expired.\<close>

definition timely_step :: "'r redis \<Rightarrow> (nat \<Rightarrow> client) \<Rightarrow> 'r race \<Rightarrow> race_event \<Rightarrow> 'r race \<Rightarrow> bool" where
  "timely_step R C s e s' \<longleftrightarrow> race_step R C s e s'
     \<and> (\<forall>i t t0. e = Write i t \<and> rc_phase s i = Checked t0 \<longrightarrow> t < t0 + default_ttlMs)"

section \<open>What the calls are\<close>

definition same_slot :: "client \<Rightarrow> client \<Rightarrow> bool" where
  "same_slot a b \<longleftrightarrow> hb_branchId (cl_dto a) = hb_branchId (cl_dto b) \<and> hb_staffMemberId (cl_dto a) = hb_staffMemberId (cl_dto b)
     \<and> hb_startTime (cl_dto a) < cl_end b \<and> hb_startTime (cl_dto b) < cl_end a"

text \<open>Distinct tokens and ids; and calls that overlap begin at the same instant.\<close>

definition clients_ok :: "(nat \<Rightarrow> client) \<Rightarrow> bool" where
  "clients_ok C \<longleftrightarrow> (\<forall>i. service_ok (cl_service (C i)))
     \<and> (\<forall>i j. i \<noteq> j \<longrightarrow> cl_token (C i) \<noteq> cl_token (C j) \<and> cl_newId (C i) \<noteq> cl_newId (C j)
          \<and> (same_slot (C i) (C j) \<longrightarrow> hb_startTime (cl_dto (C i)) = hb_startTime (cl_dto (C j))))"

lemma same_slot_key: "clients_ok C \<Longrightarrow> i \<noteq> j \<Longrightarrow> same_slot (C i) (C j) \<Longrightarrow> cl_key (C i) = cl_key (C j)"
  unfolding clients_ok_def same_slot_def cl_key_def by metis

section \<open>The invariant\<close>

definition lock_since :: "phase \<Rightarrow> time option" where
  "lock_since p = (case p of Holding t \<Rightarrow> Some t | Checked t \<Rightarrow> Some t | Leaving t \<Rightarrow> Some t | _ \<Rightarrow> None)"

lemma lock_since_simps [simp]:
  "lock_since Waiting = None" "lock_since Finished = None" "lock_since (Holding t) = Some t"
  "lock_since (Checked t) = Some t" "lock_since (Leaving t) = Some t"
  by (simp_all add: lock_since_def)

definition locks_hold :: "'r redis \<Rightarrow> (nat \<Rightarrow> client) \<Rightarrow> 'r race \<Rightarrow> bool" where
  "locks_hold R C s \<longleftrightarrow> (\<forall>i t0 u. lock_since (rc_phase s i) = Some t0 \<longrightarrow> rc_now s \<le> u \<longrightarrow> u < t0 + default_ttlMs
     \<longrightarrow> get_key R (rc_store s) u (cl_key (C i)) = Some (cl_token (C i)))"

definition checks_hold :: "(nat \<Rightarrow> client) \<Rightarrow> 'r race \<Rightarrow> bool" where
  "checks_hold C s \<longleftrightarrow> (\<forall>i t0. rc_phase s i = Checked t0 \<longrightarrow> rc_now s < t0 + default_ttlMs \<longrightarrow> cl_check (C i) (rc_db s) = Inr ())"

definition ids_hold :: "(nat \<Rightarrow> client) \<Rightarrow> 'r race \<Rightarrow> bool" where
  "ids_hold C s \<longleftrightarrow> (\<forall>i. rc_phase s i \<in> {Waiting} \<union> range Holding \<union> range Checked
     \<longrightarrow> fresh_key bk_id (cl_newId (C i)) (bookings (rc_db s)))"

definition race_ok :: "'r redis \<Rightarrow> (nat \<Rightarrow> client) \<Rightarrow> 'r race \<Rightarrow> bool" where
  "race_ok R C s \<longleftrightarrow> db_ok (rc_db s) \<and> locks_hold R C s \<and> checks_hold C s \<and> ids_hold C s"

lemma race_okI:
  "db_ok (rc_db s) \<Longrightarrow> locks_hold R C s \<Longrightarrow> checks_hold C s \<Longrightarrow> ids_hold C s
    \<Longrightarrow> race_ok R C s"
  by (simp add: race_ok_def)

lemma locks_holdD:
  "locks_hold R C s \<Longrightarrow> lock_since (rc_phase s i) = Some t0 \<Longrightarrow> rc_now s \<le> u \<Longrightarrow> u < t0 + default_ttlMs
    \<Longrightarrow> get_key R (rc_store s) u (cl_key (C i)) = Some (cl_token (C i))"
  by (simp add: locks_hold_def)

text \<open>Two calls that both hold an unexpired lock hold different locks.\<close>

lemma holders_differ:
  assumes "locks_hold R C s" "clients_ok C" "i \<noteq> j" "lock_since (rc_phase s i) = Some t" "lock_since (rc_phase s j) = Some t'"
    "rc_now s \<le> u" "u < t + default_ttlMs" "u < t' + default_ttlMs"
  shows "cl_key (C i) \<noteq> cl_key (C j)"
proof
  assume key: "cl_key (C i) = cl_key (C j)"
  have "get_key R (rc_store s) u (cl_key (C i)) = Some (cl_token (C i))"
    "get_key R (rc_store s) u (cl_key (C j)) = Some (cl_token (C j))"
    using assms by (auto simp: locks_hold_def)
  then show False using key assms(2,3) by (simp add: clients_ok_def)
qed

section \<open>Each step keeps it\<close>

text \<open>A step of call \<open>i\<close> that leaves the database and the other calls' phases alone.\<close>

lemma locks_hold_step:
  assumes "locks_hold R C s" "rc_now s \<le> t"
    and "\<And>j t0 u. j \<noteq> i \<Longrightarrow> lock_since (rc_phase s j) = Some t0 \<Longrightarrow> t \<le> u \<Longrightarrow> u < t0 + default_ttlMs \<Longrightarrow>
      get_key R r u (cl_key (C j)) = get_key R (rc_store s) u (cl_key (C j))"
    and "\<And>t0 u. lock_since p = Some t0 \<Longrightarrow> t \<le> u \<Longrightarrow> u < t0 + default_ttlMs \<Longrightarrow>
      get_key R r u (cl_key (C i)) = Some (cl_token (C i))"
  shows "locks_hold R C (s\<lparr>rc_store := r, rc_now := t, rc_phase := (rc_phase s)(i := p)\<rparr>)"
  unfolding locks_hold_def
proof (intro allI impI)
  fix j t0 u
  assume h: "lock_since (rc_phase (s\<lparr>rc_store := r, rc_now := t, rc_phase := (rc_phase s)(i := p)\<rparr>) j) = Some t0"
    "rc_now (s\<lparr>rc_store := r, rc_now := t, rc_phase := (rc_phase s)(i := p)\<rparr>) \<le> u" "u < t0 + default_ttlMs"
  show "get_key R (rc_store (s\<lparr>rc_store := r, rc_now := t, rc_phase := (rc_phase s)(i := p)\<rparr>)) u (cl_key (C j)) = Some (cl_token (C j))"
  proof (cases "j = i")
    case True
    with h assms(4) show ?thesis by simp
  next
    case False
    with h have j: "lock_since (rc_phase s j) = Some t0" "t \<le> u" by simp_all
    from assms(3) [OF False this h(3)] assms(1,2) j h(3) show ?thesis by (simp add: locks_hold_def)
  qed
qed

lemma locks_hold_phase:
  assumes "locks_hold R C s" "rc_now s \<le> t" "\<And>t0. lock_since p = Some t0 \<Longrightarrow> lock_since (rc_phase s i) = Some t0"
  shows "locks_hold R C (s\<lparr>rc_now := t, rc_phase := (rc_phase s)(i := p)\<rparr>)"
proof -
  have "locks_hold R C (s\<lparr>rc_store := rc_store s, rc_now := t, rc_phase := (rc_phase s)(i := p)\<rparr>)"
    using assms by (intro locks_hold_step) (auto simp: locks_hold_def)
  then show ?thesis by simp
qed

lemma checks_hold_phase:
  assumes "checks_hold C s" "rc_db s' = rc_db s" "rc_now s \<le> rc_now s'" "rc_phase s' = (rc_phase s)(i := p)"
    "\<And>t0. p = Checked t0 \<Longrightarrow> cl_check (C i) (rc_db s) = Inr ()"
  shows "checks_hold C s'"
  using assms by (auto simp: checks_hold_def)

lemma ids_hold_phase:
  assumes "ids_hold C s" "rc_db s' = rc_db s" "rc_phase s' = (rc_phase s)(i := p)" "p \<in> {Waiting} \<union> range Holding \<union> range Checked \<Longrightarrow> rc_phase s i \<in> {Waiting} \<union> range Holding \<union> range Checked"
  shows "ids_hold C s'"
  using assms by (auto simp: ids_hold_def)

lemma cl_write_Inl: "cl_write t c d = (Inl e, d') \<Longrightarrow> d' = d"
  by (auto simp: cl_write_def transaction_def split: prod.splits sum.splits)

lemma cl_write_Inr:
  assumes "cl_write t c d = (Inr b, d')" "cl_check c d = Inr ()"
  shows "hold_body t (cl_newId c) (cl_userId c) (cl_dto c) (cl_business c) (cl_service c) d = (Inr b, d')"
  using assms by (auto simp: hold_body_split cl_write_def transaction_def split: prod.splits sum.splits)

text \<open>What a commit adds: one row, at the interval of the call.\<close>

lemma cl_write_row:
  assumes "cl_write t c d = (Inr b, d')" "cl_check c d = Inr ()" "db_ok d" "service_ok (cl_service c)"
    "fresh_key bk_id (cl_newId c) (bookings d)"
  shows "db_ok d'" "bookings d' = insert_row b (bookings d)" "bk_id b = cl_newId c" "bk_branchId b = hb_branchId (cl_dto c)"
    "bk_staffMemberId b = hb_staffMemberId (cl_dto c)" "bk_startTime b = hb_startTime (cl_dto c)" "bk_endTime b = cl_end c"
proof -
  note body = cl_write_Inr [OF assms(1,2)]
  show "db_ok d'" using hold_body_db [OF body assms(3,4,5)] by (simp add: db_step_def)
  obtain k x d1 where h: "redeem_for_hold t (cl_userId c) (cl_dto c) (cl_service c) d = (Inr (k, x), d1)"
    "b = hold_row t (cl_newId c) (cl_userId c) (cl_dto c) (cl_business c) (cl_service c) x" "bookings d' = insert_row b (bookings d1)"
    using hold_body_Inr [OF body] .
  show "bookings d' = insert_row b (bookings d)"
    using h(3) redeem_for_hold_ok(4) [OF h(1) db_okD(5) [OF assms(3)] assms(4)] by simp
  show "bk_id b = cl_newId c" "bk_branchId b = hb_branchId (cl_dto c)"
    "bk_staffMemberId b = hb_staffMemberId (cl_dto c)" "bk_startTime b = hb_startTime (cl_dto c)" "bk_endTime b = cl_end c"
    by (simp_all add: h(2) hold_row_def cl_end_def)
qed

text \<open>A row of one call does not disturb the check of a call on another slot.\<close>

lemma cl_check_insert:
  assumes "cl_check a d = Inr ()" "bookings d' = insert_row b (bookings d)" "bk_branchId b = hb_branchId (cl_dto c)"
    "bk_staffMemberId b = hb_staffMemberId (cl_dto c)" "bk_startTime b = hb_startTime (cl_dto c)" "bk_endTime b = cl_end c"
    "\<not> same_slot a c"
  shows "cl_check a d' = Inr ()"
  using assms unfolding cl_check_def assertSlotFree_iff list_ex_iff
  by (auto simp: slot_clash_def same_slot_def)

context redis_server
begin

lemma race_acquire:
  assumes "race_step R C s (Acquire i t) s'" "race_ok R C s"
  shows "race_ok R C s'"
  using assms(1)
proof (cases rule: race_step.cases)
  case (acquired tok r)
  have keep: "get_key R r u (cl_key (C j)) = get_key R (rc_store s) u (cl_key (C j))"
    if "lock_since (rc_phase s j) = Some t0" "t \<le> u" "u < t0 + default_ttlMs" for j t0 u
  proof (cases "cl_key (C j) = cl_key (C i)")
    case True
    then have "get_key R (rc_store s) t (cl_key (C i)) = Some (cl_token (C j))"
      using locks_holdD [of R C s j t0 t] assms(2) that acquired(3) by (simp add: race_ok_def)
    with acquire_iff [of t "cl_token (C i)" "cl_key (C i)" default_ttlMs "rc_store s"] acquired(4) show ?thesis by simp
  next
    case False
    with acquire_frame [OF that(2) False, of "cl_token (C i)" default_ttlMs "rc_store s"] acquired(4) show ?thesis by simp
  qed
  have "locks_hold R C s'"
    unfolding acquired(1) using assms(2) keep acquire_holds [OF acquired(4)] acquired(3)
    by (intro locks_hold_step) (auto simp: race_ok_def)
  moreover have "checks_hold C s'" "ids_hold C s'"
    using assms(2) acquired checks_hold_phase [of C s s' i "Holding t"] ids_hold_phase [of C s s' i "Holding t"]
    by (simp_all add: race_ok_def)
  ultimately show ?thesis using assms(2) by (intro race_okI) (simp_all add: race_ok_def acquired(1))
next
  case (busy r)
  have "locks_hold R C s'"
    unfolding busy(1) using assms(2) acquire_refused_frame [OF busy(4)] busy(3)
    by (intro locks_hold_step) (auto simp: race_ok_def)
  moreover have "checks_hold C s'" "ids_hold C s'"
    using assms(2) busy checks_hold_phase [of C s s' i Finished] ids_hold_phase [of C s s' i Finished]
    by (auto simp: race_ok_def)
  ultimately show ?thesis using assms(2) by (intro race_okI) (simp_all add: race_ok_def busy(1))
qed

lemma race_unlock:
  assumes "race_step R C s (Unlock i t) s'" "race_ok R C s" "clients_ok C"
  shows "race_ok R C s'"
  using assms(1)
proof (cases rule: race_step.cases)
  case (unlocked t0)
  have keep: "get_key R (release R t (cl_key (C i)) (cl_token (C i)) (rc_store s)) u (cl_key (C j))
      = get_key R (rc_store s) u (cl_key (C j))"
    if j: "j \<noteq> i" "lock_since (rc_phase s j) = Some t1" "t \<le> u" "u < t1 + default_ttlMs" for j t1 u
  proof (cases "cl_key (C j) = cl_key (C i)")
    case True
    have "get_key R (rc_store s) t (cl_key (C j)) = Some (cl_token (C j))"
      using locks_holdD [of R C s j t1 t] assms(2) j unlocked(3) by (simp add: race_ok_def)
    moreover have "cl_token (C j) \<noteq> cl_token (C i)" using assms(3) j(1) by (simp add: clients_ok_def)
    ultimately show ?thesis using True by (simp add: release_foreign)
  qed (use release_frame [OF j(3)] in simp)
  have "locks_hold R C s'"
    unfolding unlocked(1) using assms(2) keep unlocked(3) by (intro locks_hold_step) (auto simp: race_ok_def)
  moreover have "checks_hold C s'" "ids_hold C s'"
    using assms(2) unlocked checks_hold_phase [of C s s' i Finished] ids_hold_phase [of C s s' i Finished]
    by (auto simp: race_ok_def)
  ultimately show ?thesis using assms(2) by (intro race_okI) (simp_all add: race_ok_def unlocked(1))
qed

end

lemma race_check:
  assumes "race_step R C s (Check i t) s'" "race_ok R C s"
  shows "race_ok R C s'"
  using assms(1)
proof (cases rule: race_step.cases)
  case (free t0)
  have "locks_hold R C s'"
    unfolding free(1) using assms(2) free(2,3) by (intro locks_hold_phase) (auto simp: race_ok_def)
  moreover have "checks_hold C s'" "ids_hold C s'"
    using assms(2) free checks_hold_phase [of C s s' i "Checked t0"] ids_hold_phase [of C s s' i "Checked t0"]
    by (auto simp: race_ok_def)
  ultimately show ?thesis using assms(2) by (intro race_okI) (simp_all add: race_ok_def free(1))
next
  case (taken t0 e)
  have "locks_hold R C s'"
    unfolding taken(1) using assms(2) taken(2,3) by (intro locks_hold_phase) (auto simp: race_ok_def)
  moreover have "checks_hold C s'" "ids_hold C s'"
    using assms(2) taken checks_hold_phase [of C s s' i "Leaving t0"] ids_hold_phase [of C s s' i "Leaving t0"]
    by (auto simp: race_ok_def)
  ultimately show ?thesis using assms(2) by (intro race_okI) (simp_all add: race_ok_def taken(1))
qed

lemma race_write:
  assumes "timely_step R C s (Write i t) s'" "race_ok R C s" "clients_ok C"
  shows "race_ok R C s'"
proof -
  obtain t0 res d where w: "s' = s\<lparr>rc_db := d, rc_now := t, rc_phase := (rc_phase s)(i := Leaving t0)\<rparr>"
    "rc_phase s i = Checked t0" "rc_now s \<le> t" "cl_write t (C i) (rc_db s) = (res, d)" "t < t0 + default_ttlMs"
    using assms(1) by (auto simp: timely_step_def elim: race_step.cases)
  have ok: "db_ok (rc_db s)" "cl_check (C i) (rc_db s) = Inr ()" "service_ok (cl_service (C i))"
    "fresh_key bk_id (cl_newId (C i)) (bookings (rc_db s))"
    using assms(2,3) w(2,3,5) by (auto simp: race_ok_def checks_hold_def ids_hold_def clients_ok_def)
  let ?s = "s\<lparr>rc_now := t, rc_phase := (rc_phase s)(i := Leaving t0)\<rparr>"
  have rest: "locks_hold R C ?s" "checks_hold C ?s" "ids_hold C ?s"
    using assms(2) w(2,3) locks_hold_phase [of R C s t "Leaving t0" i] checks_hold_phase [of C s ?s i "Leaving t0"]
      ids_hold_phase [of C s ?s i "Leaving t0"] by (auto simp: race_ok_def)
  have locks: "locks_hold R C s'" using rest(1) by (simp add: w(1) locks_hold_def)
  show ?thesis
  proof (cases res)
    case (Inl e)
    then have "s' = ?s" using cl_write_Inl w(1,4) by fastforce
    with rest ok(1) show ?thesis by (simp add: race_ok_def)
  next
    case (Inr b)
    note row = cl_write_row [OF w(4) [unfolded Inr] ok(2,1,3,4)]
    have "cl_check (C j) d = Inr ()" if j: "rc_phase s' j = Checked t1" "t < t1 + default_ttlMs" for j t1
    proof -
      have "j \<noteq> i" "rc_phase s j = Checked t1" using j(1) by (auto simp: w(1) split: if_splits)
      then have "cl_key (C j) \<noteq> cl_key (C i)"
        using holders_differ [of R C s j i t1 t0 t] assms(2,3) w(2,3,5) j(2) by (simp add: race_ok_def)
      then have "\<not> same_slot (C j) (C i)" using same_slot_key [OF assms(3) \<open>j \<noteq> i\<close>] by blast
      moreover have "cl_check (C j) (rc_db s) = Inr ()"
        using assms(2) \<open>rc_phase s j = Checked t1\<close> j(2) w(3) by (simp add: race_ok_def checks_hold_def)
      ultimately show ?thesis using cl_check_insert row(2,4-7) by blast
    qed
    then have "checks_hold C s'" by (simp add: checks_hold_def w(1))
    moreover have "ids_hold C s'"
      using rest(3) assms(3) row(2,3) by (auto simp: ids_hold_def w(1) fresh_key_insert clients_ok_def split: if_splits)
    ultimately show ?thesis using locks row(1) by (intro race_okI) (simp_all add: w(1))
  qed
qed

definition race_sound :: "'r redis \<Rightarrow> (nat \<Rightarrow> client) \<Rightarrow> 'r race \<Rightarrow> bool" where
  "race_sound R C s \<longleftrightarrow> redis_server R \<and> clients_ok C \<and> race_ok R C s"

lemma race_clock: "race_step R C s e s' \<Longrightarrow> rc_now s \<le> rc_now s'"
  by (induction rule: race_step.induct) auto

interpretation races: transition_system "timely_step R C" "race_sound R C" "\<lambda>s s'. rc_now s \<le> rc_now s'"
  for R :: "'r redis" and C :: "nat \<Rightarrow> client"
proof
  fix s e and s' :: "'r race"
  assume step: "timely_step R C s e s'" and ok: "race_sound R C s"
  then have race: "race_step R C s e s'" "redis_server R" "race_ok R C s" "clients_ok C"
    by (simp_all add: timely_step_def race_sound_def)
  show "rc_now s \<le> rc_now s'" using race(1) by (rule race_clock)
  have "race_ok R C s'"
  proof (cases e)
    case (Acquire i t)
    with race show ?thesis using redis_server.race_acquire by metis
  next
    case (Check i t)
    with race show ?thesis using race_check by metis
  next
    case (Write i t)
    with race step show ?thesis using race_write by metis
  next
    case (Unlock i t)
    with race show ?thesis using redis_server.race_unlock by metis
  qed
  with race show "race_sound R C s'" by (simp add: race_sound_def)
qed auto

section \<open>Concurrent calls\<close>

definition all_waiting :: "(nat \<Rightarrow> client) \<Rightarrow> 'r race \<Rightarrow> bool" where
  "all_waiting C s \<longleftrightarrow> db_ok (rc_db s) \<and> (\<forall>i. rc_phase s i = Waiting \<and> fresh_key bk_id (cl_newId (C i)) (bookings (rc_db s)))"

text \<open>
  C3. Any number of calls of \<open>hold\<close> at once, their steps interleaved in any way, on any lock
  server that keeps the promises of Redis: as long as calls whose intervals overlap begin at
  the same instant, and each commits before the ten seconds of its lock are over, no two
  active reservations of a staff member overlap at the end.
\<close>

theorem concurrent_holds_safe:
  assumes "redis_server R" "clients_ok C" "all_waiting C s" "run (timely_step R C) s es s'"
    "b \<in> set (bookings (rc_db s'))" "c \<in> set (bookings (rc_db s'))" "bk_id b \<noteq> bk_id c"
    "is_active (bk_status b)" "is_active (bk_status c)"
    "bk_branchId b = bk_branchId c" "bk_staffMemberId b = bk_staffMemberId c"
  shows "bk_endTime b \<le> bk_startTime c \<or> bk_endTime c \<le> bk_startTime b"
proof -
  have "race_sound R C s"
    using assms(1-3) by (simp add: race_sound_def race_ok_def all_waiting_def locks_hold_def checks_hold_def ids_hold_def)
  from races.run_inv [OF assms(4) this] have "db_ok (rc_db s')" by (simp add: race_sound_def race_ok_def)
  then have "bookings_ok (bookings (rc_db s'))" by (rule db_okD)
  then have "\<not> clash b c" using assms(5-7) by (simp add: bookings_ok_def no_double_booking_def)
  with assms(8-11) show ?thesis by (auto simp: clash_def)
qed

text \<open>Once it has the lock, a call checks and leaves, or checks, writes and leaves.\<close>

lemma locked_run:
  assumes "rc_phase s i = Holding t" "rc_now s \<le> t" "t \<le> u" "c = C i"
  shows "\<exists>es s'. run (race_step R C) s es s' \<and> rc_phase s' i = Finished
    \<and> rc_db s' = snd (transaction (hold_body t (cl_newId c) (cl_userId c) (cl_dto c) (cl_business c) (cl_service c)) (rc_db s))
    \<and> rc_store s' = release R u (cl_key c) (cl_token c) (rc_store s)"
proof (cases "cl_check c (rc_db s)")
  case (Inl e)
  let ?s2 = "s\<lparr>rc_now := t, rc_phase := (rc_phase s)(i := Leaving t)\<rparr>"
  have 2: "race_step R C s (Check i t) ?s2" using assms Inl by (intro race_step.taken) simp_all
  let ?s3 = "?s2\<lparr>rc_store := release R u (cl_key (C i)) (cl_token (C i)) (rc_store ?s2), rc_now := u,
      rc_phase := (rc_phase ?s2)(i := Finished)\<rparr>"
  have 3: "race_step R C ?s2 (Unlock i u) ?s3"
    using assms(3) by (intro race_step.unlocked) simp_all
  have "run (race_step R C) s [Check i t, Unlock i u] ?s3"
    by (rule run.move, rule 2, rule run.move, rule 3, rule run.stop)
  then show ?thesis
    using assms(4) [symmetric] by (intro exI conjI) (assumption, simp_all add: transaction_def hold_body_split Inl)
next
  case (Inr x)
  let ?s2 = "s\<lparr>rc_now := t, rc_phase := (rc_phase s)(i := Checked t)\<rparr>"
  obtain res d where w: "cl_write t c (rc_db s) = (res, d)" by (cases "cl_write t c (rc_db s)")
  let ?s3 = "?s2\<lparr>rc_db := d, rc_now := t, rc_phase := (rc_phase ?s2)(i := Leaving t)\<rparr>"
  have 2: "race_step R C s (Check i t) ?s2" using assms Inr by (intro race_step.free) simp_all
  have 3: "race_step R C ?s2 (Write i t) ?s3" using assms(4) w by (intro race_step.written [where res = res]) simp_all
  let ?s4 = "?s3\<lparr>rc_store := release R u (cl_key (C i)) (cl_token (C i)) (rc_store ?s3), rc_now := u,
      rc_phase := (rc_phase ?s3)(i := Finished)\<rparr>"
  have 4: "race_step R C ?s3 (Unlock i u) ?s4"
    using assms(3) by (intro race_step.unlocked) simp_all
  have "run (race_step R C) s [Check i t, Write i t, Unlock i u] ?s4"
    by (rule run.move, rule 2, rule run.move, rule 3, rule run.move, rule 4, rule run.stop)
  then show ?thesis
    using assms(4) [symmetric] w
    by (intro exI conjI) (assumption, simp_all add: hold_body_split transaction_def cl_write_def Inr)
qed

text \<open>A call whose steps no other call interrupts does what \<open>hold\<close> does.\<close>

theorem uninterrupted_hold:
  assumes "rc_phase s i = Waiting" "rc_now s \<le> t" "t \<le> u" "c = C i"
    "loadAndValidateContext (rc_db s) (hb_businessId (cl_dto c)) (hb_branchId (cl_dto c)) (hb_serviceId (cl_dto c))
       (hb_staffMemberId (cl_dto c)) = Inr (cl_business c, br, cl_service c)"
  shows "\<exists>es s'. run (race_step R C) s es s' \<and> rc_phase s' i = Finished
    \<and> (rc_db s', rc_store s') = snd (hold R t u (cl_token c) (cl_newId c) (cl_userId c) (cl_dto c) (rc_db s, rc_store s))"
proof -
  let ?body = "hold_body t (cl_newId c) (cl_userId c) (cl_dto c) (cl_business c) (cl_service c)"
  have hold: "snd (hold R t u (cl_token c) (cl_newId c) (cl_userId c) (cl_dto c) (rc_db s, rc_store s))
      = snd (withLock R t u (cl_token c) (cl_key c) default_ttlMs (transaction ?body) (rc_db s, rc_store s))"
    by (simp add: hold_def assms(5) cl_key_def)
  obtain a r where a: "acquire R t (cl_token c) (cl_key c) default_ttlMs (rc_store s) = (a, r)"
    by (cases "acquire R t (cl_token c) (cl_key c) default_ttlMs (rc_store s)")
  show ?thesis
  proof (cases a)
    case None
    let ?s1 = "s\<lparr>rc_store := r, rc_now := t, rc_phase := (rc_phase s)(i := Finished)\<rparr>"
    have 1: "race_step R C s (Acquire i t) ?s1"
      using assms a None by (intro race_step.busy) simp_all
    have "run (race_step R C) s [Acquire i t] ?s1" by (rule run.move, rule 1, rule run.stop)
    then show ?thesis
      unfolding hold by (intro exI conjI) (assumption, simp_all add: withLock_def a None)
  next
    case (Some tok)
    let ?s1 = "s\<lparr>rc_store := r, rc_now := t, rc_phase := (rc_phase s)(i := Holding t)\<rparr>"
    have tok: "tok = cl_token c" using a Some by (auto simp: acquire_def split: prod.splits if_splits)
    have 1: "race_step R C s (Acquire i t) ?s1"
      using assms a Some by (intro race_step.acquired) simp_all
    obtain es s' where es: "run (race_step R C) ?s1 es s'" "rc_phase s' i = Finished"
        "rc_db s' = snd (transaction ?body (rc_db s))" "rc_store s' = release R u (cl_key c) (cl_token c) r"
      using locked_run [of ?s1 i t u c C R] assms(3,4) by auto
    have "run (race_step R C) s (Acquire i t # es) s'" by (rule run.move [OF 1 es(1)])
    then show ?thesis
      using es unfolding hold by (intro exI conjI) (assumption, simp_all add: withLock_def a Some tok split: prod.split)
  qed
qed

section \<open>Examples\<close>

text \<open>Callers who ask for the same service and staff member, the \<open>i\<close>-th at \<open>start i\<close>.\<close>

definition rivals :: "(nat \<Rightarrow> time) \<Rightarrow> nat \<Rightarrow> client" where
  "rivals start i = \<lparr>cl_token = CHR ''t'' # replicate i (CHR ''1''), cl_newId = CHR ''n'' # replicate i (CHR ''1''),
     cl_userId = ''ann'', cl_dto = demo_hold\<lparr>hb_startTime := start i, hb_couponCode := None\<rparr>,
     cl_business = demo_business, cl_service = demo_service\<rparr>"

definition race_start :: "mem_store race" where
  "race_start = \<lparr>rc_db = city [], rc_store = (\<lambda>_. None), rc_now = day0, rc_phase = (\<lambda>_. Waiting)\<rparr>"

definition rival_row :: "nat \<Rightarrow> time \<Rightarrow> time \<Rightarrow> booking" where
  "rival_row i start now = hold_row now (CHR ''n'' # replicate i (CHR ''1'')) ''ann''
     (demo_hold\<lparr>hb_startTime := start, hb_couponCode := None\<rparr>) demo_business demo_service 0"

lemma rival_row_sel:
  "bk_id (rival_row i s t) = CHR ''n'' # replicate i (CHR ''1'')" "bk_branchId (rival_row i s t) = ''br''"
  "bk_staffMemberId (rival_row i s t) = Some ''st''" "bk_status (rival_row i s t) = HOLD"
  "bk_startTime (rival_row i s t) = s" "bk_endTime (rival_row i s t) = s + 1800000"
  by (simp_all add: rival_row_def hold_row_def demo_hold_def demo_service_def)

lemma rival_write: "cl_write t (rivals start i) (city bs) = (Inr (rival_row i (start i) t), city (insert_row (rival_row i (start i) t) bs))"
  by (simp add: cl_write_def transaction_def hold_write_def redeem_for_hold_def rivals_def rival_row_def create_booking_def
      hold_row_def link_usage_def city_def demo_db_def demo_staff_def demo_hold_def)

lemma rival_check:
  "cl_check (rivals start i) (city bs) = (if list_ex (slot_clash ''br'' (Some ''st'') (start i) (start i + 1800000) None) bs
     then Inl (Conflict SlotNotFree) else Inr ())"
proof -
  have "cl_check (rivals start i) (city bs) \<in> {Inl (Conflict SlotNotFree), Inr ()}"
    by (auto simp: cl_check_def assertSlotFree_def split: option.split)
  moreover have "cl_check (rivals start i) (city bs) = Inr () \<longleftrightarrow> \<not> list_ex (slot_clash ''br'' (Some ''st'') (start i) (start i + 1800000) None) bs"
    by (simp add: cl_check_def assertSlotFree_iff rivals_def cl_end_def demo_hold_def demo_service_def)
  ultimately show ?thesis by auto
qed

lemma rivals_ok:
  assumes "\<And>i j. start i < start j + 1800000 \<Longrightarrow> start j < start i + 1800000 \<Longrightarrow> start i = start j"
  shows "clients_ok (rivals start)"
proof -
  have "replicate i (CHR ''1'') \<noteq> replicate j (CHR ''1'')" if "i \<noteq> j" for i j
    using that by (metis length_replicate)
  moreover have "service_ok demo_service"
    using demo_services_ok [of "[]"] by (simp add: services_ok_def demo_db_def)
  ultimately show ?thesis
    using assms by (simp add: clients_ok_def rivals_def same_slot_def cl_end_def demo_hold_def demo_service_def)
qed

lemma race_start_waiting: "all_waiting (rivals start) race_start"
  using city_ok [of "[]"] demo_bookings_ok_Nil
  by (simp add: all_waiting_def race_start_def fresh_key_def)

text \<open>The steps of a rival that finds the lock and the slot free.\<close>

definition rival_key :: "(nat \<Rightarrow> time) \<Rightarrow> nat \<Rightarrow> string" where
  "rival_key start i = lockKey ''br'' (Some ''st'') (start i)"

lemma cl_key_rivals [simp]: "cl_key (rivals start i) = rival_key start i"
  by (simp add: cl_key_def rivals_def rival_key_def demo_hold_def)

lemma rival_acquires:
  assumes "rc_phase s i = Waiting" "rc_now s \<le> t" "mem_get (rc_store s) t (rival_key start i) = None"
  shows "timely_step mem_redis (rivals start) s (Acquire i t) (s\<lparr>rc_store := (rc_store s)(rival_key start i :=
      Some (cl_token (rivals start i), t + default_ttlMs)), rc_now := t, rc_phase := (rc_phase s)(i := Holding t)\<rparr>)"
  using assms unfolding timely_step_def
  by (intro conjI, intro race_step.acquired [where tok = "cl_token (rivals start i)"])
    (simp_all add: acquire_def mem_redis_def mem_set_def)

lemma rival_waits:
  assumes "rc_phase s i = Waiting" "rc_now s \<le> t" "mem_get (rc_store s) t (rival_key start i) \<noteq> None"
  shows "timely_step mem_redis (rivals start) s (Acquire i t)
      (s\<lparr>rc_store := rc_store s, rc_now := t, rc_phase := (rc_phase s)(i := Finished)\<rparr>)"
  using assms unfolding timely_step_def
  by (intro conjI, intro race_step.busy) (simp_all add: acquire_def mem_redis_def mem_set_def)

lemma rival_checks:
  assumes "rc_phase s i = Holding t0" "rc_now s \<le> t" "rc_db s = city bs"
    "\<not> list_ex (slot_clash ''br'' (Some ''st'') (start i) (start i + 1800000) None) bs"
  shows "timely_step mem_redis (rivals start) s (Check i t) (s\<lparr>rc_now := t, rc_phase := (rc_phase s)(i := Checked t0)\<rparr>)"
  using assms unfolding timely_step_def
  by (intro conjI, intro race_step.free) (simp_all add: rival_check)

lemma rival_writes:
  assumes "rc_phase s i = Checked t0" "rc_now s \<le> t" "rc_db s = city bs"
  shows "race_step mem_redis (rivals start) s (Write i t) (s\<lparr>rc_db := city (insert_row (rival_row i (start i) t) bs), rc_now := t,
      rc_phase := (rc_phase s)(i := Leaving t0)\<rparr>)"
  using assms by (intro race_step.written [where res = "Inr (rival_row i (start i) t)"]) (simp_all add: rival_write)

lemma rival_writes_timely:
  assumes "rc_phase s i = Checked t0" "rc_now s \<le> t" "rc_db s = city bs" "t < t0 + default_ttlMs"
  shows "timely_step mem_redis (rivals start) s (Write i t) (s\<lparr>rc_db := city (insert_row (rival_row i (start i) t) bs), rc_now := t,
      rc_phase := (rc_phase s)(i := Leaving t0)\<rparr>)"
  using assms rival_writes [OF assms(1-3)] by (simp add: timely_step_def)

lemmas rival_steps = race_start_def mem_get_def default_ttlMs_def insert_row_def

lemma two_rivals_overlap:
  assumes "s < t + 1800000" "t < s + 1800000"
  shows "\<not> no_double_booking [rival_row 0 s a, rival_row 1 t b]"
  using assms by (simp add: no_double_booking_def clash_def rival_row_sel)

theorem concurrent_holds_safe_witness:
  "\<exists>s'. run (timely_step mem_redis (rivals (\<lambda>_. nine))) race_start
      [Acquire 0 day0, Acquire 1 day0, Check 0 day0, Write 0 (day0 + 9999)] s'
     \<and> bookings (rc_db s') \<noteq> []
     \<and> (\<forall>b \<in> set (bookings (rc_db s')). \<forall>c \<in> set (bookings (rc_db s')). bk_id b \<noteq> bk_id c \<and> is_active (bk_status b)
          \<and> is_active (bk_status c) \<and> bk_branchId b = bk_branchId c \<and> bk_staffMemberId b = bk_staffMemberId c
          \<longrightarrow> bk_endTime b \<le> bk_startTime c \<or> bk_endTime c \<le> bk_startTime b)"
proof -
  let ?C = "rivals (\<lambda>_. nine)"
  have "\<exists>s'. run (timely_step mem_redis ?C) race_start [Acquire 0 day0, Acquire 1 day0, Check 0 day0, Write 0 (day0 + 9999)] s'
      \<and> rc_db s' = city [rival_row 0 nine (day0 + 9999)]"
    by (rule exI, rule conjI, rule run.move, rule rival_acquires, (simp add: rival_steps)+,
        rule run.move, rule rival_waits, (simp add: rival_steps rival_key_def)+,
        rule run.move, rule rival_checks [where bs = "[]"], (simp add: rival_steps)+,
        rule run.move, rule rival_writes_timely [where bs = "[]"], (simp add: rival_steps)+)
  then obtain s' where r: "run (timely_step mem_redis ?C) race_start
      [Acquire 0 day0, Acquire 1 day0, Check 0 day0, Write 0 (day0 + 9999)] s'"
    and db: "rc_db s' = city [rival_row 0 nine (day0 + 9999)]" by blast
  have "clients_ok ?C" by (rule rivals_ok) simp
  note safe = concurrent_holds_safe [OF mem.redis_server_axioms this race_start_waiting r]
  show ?thesis
  proof (intro exI conjI ballI impI)
    show "run (timely_step mem_redis ?C) race_start [Acquire 0 day0, Acquire 1 day0, Check 0 day0, Write 0 (day0 + 9999)] s'"
      by (rule r)
    show "bookings (rc_db s') \<noteq> []" by (simp add: db)
  qed (rule safe; simp)
qed

text \<open>
  Outside these conditions the lock does not help. Two calls whose intervals overlap but
  begin at different instants take different locks; when both look before either writes,
  both succeed.
\<close>

theorem staggered_holds_overlap:
  "\<exists>s'. run (timely_step mem_redis (rivals (\<lambda>i. nine + 900000 * int i))) race_start
      [Acquire 0 day0, Acquire 1 day0, Check 0 day0, Check 1 day0, Write 0 day0, Write 1 day0] s'
     \<and> \<not> no_double_booking (bookings (rc_db s'))"
proof -
  let ?start = "\<lambda>i. nine + 900000 * int i"
  have "year_in_range nine" "year_in_range (nine + 900000)"
    using day0_in_range [of 32400000] day0_in_range [of 33300000] by (simp_all add: nine_def add.commute)
  then have key: "rival_key ?start (Suc 0) \<noteq> rival_key ?start 0"
    by (simp add: rival_key_def lockKey_def toISOString_eq)
  have "\<exists>s'. run (timely_step mem_redis (rivals ?start)) race_start
      [Acquire 0 day0, Acquire 1 day0, Check 0 day0, Check 1 day0, Write 0 day0, Write 1 day0] s'
     \<and> bookings (rc_db s') = [rival_row 0 nine day0, rival_row 1 (nine + 900000) day0]"
    by (rule exI, rule conjI, rule run.move, rule rival_acquires, (simp add: rival_steps)+,
        rule run.move, rule rival_acquires, (simp add: rival_steps key)+,
        rule run.move, rule rival_checks [where bs = "[]"], (simp add: rival_steps)+,
        rule run.move, rule rival_checks [where bs = "[]"], (simp add: rival_steps)+,
        rule run.move, rule rival_writes_timely [where bs = "[]"], (simp add: rival_steps)+,
        rule run.move, rule rival_writes_timely [where bs = "[rival_row 0 nine day0]"], (simp add: rival_steps)+)
  with two_rivals_overlap [of nine "nine + 900000" day0 day0] show ?thesis by fastforce
qed

text \<open>
  And a call that outlives its lock: the second one takes the expired lock, looks while the
  first has not written yet, and both write.
\<close>

theorem slow_hold_overlaps:
  "\<exists>s'. run (race_step mem_redis (rivals (\<lambda>_. nine))) race_start
      [Acquire 0 day0, Check 0 day0, Acquire 1 (day0 + 10000), Check 1 (day0 + 10000), Write 0 (day0 + 10000), Write 1 (day0 + 10000)] s'
     \<and> \<not> no_double_booking (bookings (rc_db s'))"
proof -
  note step = timely_step_def [THEN iffD1, THEN conjunct1]
  have "\<exists>s'. run (race_step mem_redis (rivals (\<lambda>_. nine))) race_start
      [Acquire 0 day0, Check 0 day0, Acquire 1 (day0 + 10000), Check 1 (day0 + 10000), Write 0 (day0 + 10000), Write 1 (day0 + 10000)] s'
     \<and> bookings (rc_db s') = [rival_row 0 nine (day0 + 10000), rival_row 1 nine (day0 + 10000)]"
    by (rule exI, rule conjI, rule run.move, rule step, rule rival_acquires, (simp add: rival_steps)+,
        rule run.move, rule step, rule rival_checks [where bs = "[]"], (simp add: rival_steps)+,
        rule run.move, rule step, rule rival_acquires, (simp add: rival_steps)+,
        rule run.move, rule step, rule rival_checks [where bs = "[]"], (simp add: rival_steps)+,
        rule run.move, rule rival_writes [where bs = "[]"], (simp add: rival_steps)+,
        rule run.move, rule rival_writes [where bs = "[rival_row 0 nine (day0 + 10000)]"], (simp add: rival_steps)+)
  with two_rivals_overlap [of nine nine "day0 + 10000" "day0 + 10000"] show ?thesis by fastforce
qed

end
