(* ===== verification/ConfirmRace.thy ===== *)
theory ConfirmRace
  imports Footprint SystemProps
begin

text \<open>
  Calls of \<open>confirm\<close> that other calls interleave with. \<open>confirm\<close> reads the reservation,
  checks that it is a hold that has not lapsed, and writes the new status later without
  looking again. In between, the clean-up job, a cancellation and new reservations may run.
  Shown: nothing is booked twice as long as a confirmation commits before the hold that it
  read expires and nobody cancels a reservation that is just being confirmed; a confirmation
  that is not interrupted is exactly \<open>confirm\<close>; and either exception lets a confirmation
  revive a cancelled reservation whose slot has been given away.
\<close>

section \<open>The two halves of confirm\<close>

definition confirm_read :: "time \<Rightarrow> id \<Rightarrow> id \<Rightarrow> db \<Rightarrow> (booking \<times> BookingStatus) option" where
  "confirm_read now bookingId userId d =
     (case getOwnedBooking d bookingId userId of
        Inl e \<Rightarrow> None
      | Inr booking \<Rightarrow>
          if bk_status booking \<noteq> HOLD \<or> hold_lapsed now booking then None
          else Some (booking, if needs_deposit d booking then PENDING else CONFIRMED))"

definition confirm_write :: "award_ids \<Rightarrow> time \<Rightarrow> booking \<Rightarrow> BookingStatus \<Rightarrow> db \<Rightarrow> db" where
  "confirm_write ids now booking nextStatus d =
     (let d1 = update_booking (bk_id booking) (\<lambda>b. b\<lparr>bk_status := nextStatus, bk_holdExpiresAt := None\<rparr>) d
      in if nextStatus = CONFIRMED
         then awardPostPurchaseRewards ids now (bk_userId booking) (bk_priceSnapshot booking - bk_discountAmount booking) d1
         else d1)"

text \<open>A confirmation that is refused writes at once, if at all. Together, without an interruption, they are \<open>confirm\<close>.\<close>

lemma confirm_in_halves:
  assumes "confirm_read now k u d = Some (b, s)"
  shows "snd (confirm ids now k u d) = confirm_write ids now b s d"
  using assms
  by (auto simp: confirm_read_def confirm_def confirm_write_def Let_def dest!: getOwnedBooking_Inr split: sum.splits if_splits)

section \<open>Interleaved steps\<close>

datatype confirm_event =
    Begin nat time id id | Refuse time id id award_ids | Commit nat time award_ids | Sweep time | Withdraw time id id "string option"
  | Reserve time id id HoldBookingDto

record confirm_race =
  cf_db :: db
  cf_now :: time
  cf_pending :: "nat \<Rightarrow> (booking \<times> BookingStatus) option"

inductive confirm_step :: "confirm_race \<Rightarrow> confirm_event \<Rightarrow> confirm_race \<Rightarrow> bool" where
  begun: "cf_now s \<le> t \<Longrightarrow> cf_pending s i = None \<Longrightarrow> confirm_read t k u (cf_db s) = Some p
    \<Longrightarrow> confirm_step s (Begin i t k u) (s\<lparr>cf_now := t, cf_pending := (cf_pending s)(i := Some p)\<rparr>)"
| refused: "cf_now s \<le> t \<Longrightarrow> confirm_read t k u (cf_db s) = None
    \<Longrightarrow> confirm_step s (Refuse t k u ids) (s\<lparr>cf_db := snd (confirm ids t k u (cf_db s)), cf_now := t\<rparr>)"
| committed: "cf_now s \<le> t \<Longrightarrow> cf_pending s i = Some (b, n)
    \<Longrightarrow> confirm_step s (Commit i t ids) (s\<lparr>cf_db := confirm_write ids t b n (cf_db s), cf_now := t,
          cf_pending := (cf_pending s)(i := None)\<rparr>)"
| swept: "cf_now s \<le> t \<Longrightarrow> confirm_step s (Sweep t) (s\<lparr>cf_db := handleExpiredHolds t (cf_db s), cf_now := t\<rparr>)"
| withdrawn: "cf_now s \<le> t
    \<Longrightarrow> confirm_step s (Withdraw t k u why) (s\<lparr>cf_db := snd (cancelByUser t k u why (cf_db s)), cf_now := t\<rparr>)"
| reserved: "cf_now s \<le> t \<Longrightarrow> fresh_key bk_id n (bookings (cf_db s))
    \<Longrightarrow> loadAndValidateContext (cf_db s) (hb_businessId dto) (hb_branchId dto) (hb_serviceId dto) (hb_staffMemberId dto)
          = Inr (z, r, v)
    \<Longrightarrow> hold_body t n u dto z v (cf_db s) = (Inr b, d)
    \<Longrightarrow> confirm_step s (Reserve t n u dto) (s\<lparr>cf_db := d, cf_now := t\<rparr>)"

text \<open>
  Runs in which a confirmation commits while the hold that it read is alive, and nobody
  cancels what is just being confirmed.
\<close>

definition orderly :: "confirm_race \<Rightarrow> confirm_event \<Rightarrow> bool" where
  "orderly s ev = (case ev of
     Commit i t ids \<Rightarrow> (case cf_pending s i of None \<Rightarrow> True | Some (b, n) \<Rightarrow> \<not> hold_lapsed t b)
   | Withdraw t k u why \<Rightarrow> (\<forall>i b n. cf_pending s i = Some (b, n) \<longrightarrow> bk_id b \<noteq> k)
   | _ \<Rightarrow> True)"

definition orderly_step :: "confirm_race \<Rightarrow> confirm_event \<Rightarrow> confirm_race \<Rightarrow> bool" where
  "orderly_step s ev s' \<longleftrightarrow> confirm_step s ev s' \<and> orderly s ev"

section \<open>The invariant\<close>

text \<open>While its hold is alive, a reservation that is being confirmed keeps its slot.\<close>

definition kept :: "time \<Rightarrow> booking \<Rightarrow> db \<Rightarrow> bool" where
  "kept now b d \<longleftrightarrow> (\<exists>c \<in> set (bookings d). bk_id c = bk_id b \<and> is_active (bk_status c)
     \<and> (bk_status c = HOLD \<longrightarrow> bk_holdExpiresAt c = bk_holdExpiresAt b))"

definition confirm_ok :: "confirm_race \<Rightarrow> bool" where
  "confirm_ok s \<longleftrightarrow> bookings_ok (bookings (cf_db s)) \<and> coupons_ok (cf_db s) \<and> services_ok (cf_db s)
     \<and> (\<forall>i b n. cf_pending s i = Some (b, n) \<longrightarrow> n \<in> {PENDING, CONFIRMED}
          \<and> (\<not> hold_lapsed (cf_now s) b \<longrightarrow> kept (cf_now s) b (cf_db s)))"

text \<open>Changing a status among the active ones takes no slot.\<close>

lemma bookings_ok_active:
  assumes "bookings_ok (bookings d)" "kept t b d" "is_active n" "n \<noteq> HOLD"
  shows "bookings_ok (bookings (update_booking (bk_id b) (\<lambda>b. b\<lparr>bk_status := n, bk_holdExpiresAt := None\<rparr>) d))"
proof -
  let ?f = "\<lambda>x. if bk_id x = bk_id b then x\<lparr>bk_status := n, bk_holdExpiresAt := None\<rparr> else x"
  obtain c where c: "c \<in> set (bookings d)" "bk_id c = bk_id b" "is_active (bk_status c)" using assms(2) by (auto simp: kept_def)
  have "x = c" if "x \<in> set (bookings d)" "bk_id x = bk_id b" for x
    using unique_key_eq [of bk_id "bookings d" x c] that c assms(1) by (simp add: bookings_ok_def)
  then have active: "is_active (bk_status x)" if "x \<in> set (bookings d)" "bk_id x = bk_id b" for x using that c(3) by blast
  have "clash x y" if "clash (?f x) (?f y)" "x \<in> set (bookings d)" "y \<in> set (bookings d)" for x y
    using that active by (auto simp: clash_def split: if_splits)
  then have "\<not> clash (?f x) (?f y)" if "x \<in> set (bookings d)" "y \<in> set (bookings d)" "bk_id x \<noteq> bk_id y" for x y
    using that assms(1) unfolding bookings_ok_def no_double_booking_def by blast
  moreover have id: "bk_id (?f x) = bk_id x" for x by simp
  ultimately have "no_double_booking (map ?f (bookings d))"
    unfolding no_double_booking_def set_map ball_simps(9) id by blast
  moreover have "list_all row_ok (map ?f (bookings d))"
    using assms(1,4) by (auto simp: bookings_ok_def list_all_iff row_ok_def)
  moreover have "unique_key bk_id (bookings (update_booking (bk_id b) (\<lambda>b. b\<lparr>bk_status := n, bk_holdExpiresAt := None\<rparr>) d))"
    using assms(1) by (auto simp: update_booking_def bookings_ok_def intro!: unique_key_update)
  ultimately show ?thesis by (simp add: bookings_ok_def update_booking_def update_rows_def)
qed

section \<open>Every step keeps the invariant\<close>

lemma confirm_write_tables:
  "bookings (confirm_write ids t b n d)
     = bookings (update_booking (bk_id b) (\<lambda>b. b\<lparr>bk_status := n, bk_holdExpiresAt := None\<rparr>) d)"
  "frame {T_bookings, T_loyalty_accounts, T_loyalty_txs, T_referrals} d (confirm_write ids t b n d)"
proof -
  show "bookings (confirm_write ids t b n d)
     = bookings (update_booking (bk_id b) (\<lambda>b. b\<lparr>bk_status := n, bk_holdExpiresAt := None\<rparr>) d)"
    by (simp add: confirm_write_def Let_def frame_simps)
  have "frame (insert T_bookings reward_tables) d (awardPostPurchaseRewards ids t u a (update_booking k f d))" for k f u a
    by (rule frame_trans [OF frame_update_booking frame_award]) auto
  moreover have "frame (insert T_bookings reward_tables) d (update_booking k f d)" for k f
    by (rule frame_mono [OF frame_update_booking]) auto
  ultimately show "frame {T_bookings, T_loyalty_accounts, T_loyalty_txs, T_referrals} d (confirm_write ids t b n d)"
    by (simp add: confirm_write_def Let_def)
qed

lemma frame_catalogue_ok:
  assumes "frame T d e" "T \<inter> {T_services, T_service_staffs, T_coupons, T_coupon_usages} = {}" "coupons_ok d" "services_ok d"
  shows "coupons_ok e" "services_ok e"
proof -
  have same: "same_table x d e" if "x \<in> {T_services, T_service_staffs, T_coupons, T_coupon_usages}" for x
    using assms(1,2) that unfolding frame_def by blast
  show "coupons_ok e" using same [of T_coupons] same [of T_coupon_usages] assms(3) coupons_ok_cong [of d e] by simp
  show "services_ok e" using same [of T_services] same [of T_service_staffs] assms(4) services_ok_cong [of d e] by simp
qed

lemma kept_update:
  assumes "kept t b d" "\<And>c. bk_id (f c) = bk_id c"
    "\<And>c. c \<in> set (bookings d) \<Longrightarrow> bk_id c = bk_id b \<Longrightarrow> is_active (bk_status c)
       \<Longrightarrow> bk_status c = HOLD \<longrightarrow> bk_holdExpiresAt c = bk_holdExpiresAt b \<Longrightarrow> sel c
       \<Longrightarrow> is_active (bk_status (f c)) \<and> (bk_status (f c) = HOLD \<longrightarrow> bk_holdExpiresAt (f c) = bk_holdExpiresAt b)"
  shows "kept t' b (d\<lparr>bookings := update_rows sel f (bookings d)\<rparr>)"
proof -
  obtain c where c: "c \<in> set (bookings d)" "bk_id c = bk_id b" "is_active (bk_status c)"
      "bk_status c = HOLD \<longrightarrow> bk_holdExpiresAt c = bk_holdExpiresAt b"
    using assms(1) by (auto simp: kept_def)
  have "(if sel c then f c else c) \<in> set (update_rows sel f (bookings d))" using c(1) by (rule in_update_rowsI)
  then show ?thesis
    using assms(2) assms(3) [OF c] c(2-4) by (auto simp: kept_def intro!: bexI [of _ "if sel c then f c else c"])
qed

lemma kept_more: "kept t b d \<Longrightarrow> set (bookings d) \<subseteq> set (bookings e) \<Longrightarrow> kept t' b e"
  by (auto simp: kept_def)

lemma lapsed_mono: "hold_lapsed s b \<Longrightarrow> s \<le> t \<Longrightarrow> hold_lapsed t b"
  by (auto simp: hold_lapsed_def split: option.splits)

lemma confirm_okI:
  assumes "bookings_ok (bookings (cf_db s))" "coupons_ok (cf_db s)" "services_ok (cf_db s)"
    "\<And>i b n. cf_pending s i = Some (b, n) \<Longrightarrow> n \<in> {PENDING, CONFIRMED}"
    "\<And>i b n. cf_pending s i = Some (b, n) \<Longrightarrow> \<not> hold_lapsed (cf_now s) b \<Longrightarrow> kept (cf_now s) b (cf_db s)"
  shows "confirm_ok s"
  using assms by (auto simp: confirm_ok_def)

lemma confirm_ok_tables:
  "confirm_ok s \<Longrightarrow> bookings_ok (bookings (cf_db s))" "confirm_ok s \<Longrightarrow> coupons_ok (cf_db s)" "confirm_ok s \<Longrightarrow> services_ok (cf_db s)"
  by (simp_all add: confirm_ok_def)

lemma confirm_ok_pending:
  assumes "confirm_ok s" "cf_pending s i = Some (b, n)"
  shows "n \<in> {PENDING, CONFIRMED}" "cf_now s \<le> t \<Longrightarrow> \<not> hold_lapsed t b \<Longrightarrow> kept (cf_now s) b (cf_db s)"
  using assms lapsed_mono [of "cf_now s" b t] unfolding confirm_ok_def by blast+

lemma confirm_read_hold:
  assumes "confirm_read t k u d = Some (b, n)"
  shows "b \<in> set (bookings d)" "bk_status b = HOLD" "n \<in> {PENDING, CONFIRMED}"
  using assms by (auto simp: confirm_read_def dest!: getOwnedBooking_Inr split: sum.splits if_splits)

lemma cancel_untouched:
  assumes "kept t b d" "bk_id b \<noteq> k"
  shows "kept t' b (snd (cancelByUser now k u why d))"
proof (cases "getOwnedBooking d k u")
  case (Inl e)
  then show ?thesis using kept_more [OF assms(1)] by (simp add: cancelByUser_def)
next
  case (Inr c)
  then have "bk_id c = k" by (auto dest: getOwnedBooking_Inr)
  with assms(2) show ?thesis
    using kept_more [OF assms(1), of d t']
    by (auto simp: cancelByUser_def Inr cancelInternal_def Let_def update_booking_def intro!: kept_update [OF assms(1)])
qed

text \<open>A confirmation that comes too late cancels its own, lapsed hold.\<close>

lemma refused_kept:
  assumes "kept s b d" "\<not> hold_lapsed t b" "confirm_read t k u d = None" "bookings_ok (bookings d)"
  shows "kept t b (snd (confirm ids t k u d))"
proof (cases "\<exists>c. getOwnedBooking d k u = Inr c \<and> bk_status c = HOLD")
  case True
  then obtain c where c: "getOwnedBooking d k u = Inr c" "bk_status c = HOLD" by blast
  with assms(3) have lapsed: "hold_lapsed t c" by (auto simp: confirm_read_def split: if_splits)
  have "x = c" if "x \<in> set (bookings d)" "bk_id x = k" for x
    using unique_key_eq [of bk_id "bookings d" x c] that getOwnedBooking_Inr [OF c(1)] assms(4) by (simp add: bookings_ok_def)
  then show ?thesis
    using c(2) lapsed assms(2)
    by (auto simp: confirm_def c(1) update_booking_def hold_lapsed_def intro!: kept_update [OF assms(1)])
next
  case False
  then have "snd (confirm ids t k u d) = d" by (auto simp: confirm_def split: sum.split)
  then show ?thesis using kept_more [OF assms(1)] by simp
qed

lemma begin_ok:
  assumes "confirm_ok s" "cf_now s \<le> t" "cf_pending s i = None" "confirm_read t k u (cf_db s) = Some p"
  shows "confirm_ok (s\<lparr>cf_now := t, cf_pending := (cf_pending s)(i := Some p)\<rparr>)"
proof -
  note pending = confirm_ok_pending [OF assms(1)]
  obtain b n where p: "p = (b, n)" by fastforce
  note r = confirm_read_hold [OF assms(4) [unfolded p]]
  have "kept t b (cf_db s)" using r by (auto simp: kept_def)
  moreover have "kept t c (cf_db s)" if "cf_pending s j = Some (c, m)" "\<not> hold_lapsed t c" for j c m
    using kept_more [OF pending(2) [OF that(1) assms(2) that(2)]] by blast
  ultimately show ?thesis
    using confirm_ok_tables [OF assms(1)] r(3) pending(1) by (intro confirm_okI) (auto simp: p split: if_splits)
qed

lemma commit_ok:
  assumes "confirm_ok s" "cf_now s \<le> t" "cf_pending s i = Some (b, n)" "\<not> hold_lapsed t b"
  shows "confirm_ok (s\<lparr>cf_db := confirm_write ids t b n (cf_db s), cf_now := t, cf_pending := (cf_pending s)(i := None)\<rparr>)"
proof -
  note pending = confirm_ok_pending [OF assms(1)] and ok = confirm_ok_tables [OF assms(1)]
  have n: "n \<in> {PENDING, CONFIRMED}" by (rule pending(1) [OF assms(3)])
  have b: "bookings_ok (bookings (confirm_write ids t b n (cf_db s)))"
    using bookings_ok_active [OF ok(1) pending(2) [OF assms(3,2,4)]] n by (auto simp: confirm_write_tables(1))
  have "kept t c (confirm_write ids t b n (cf_db s))" if "cf_pending s j = Some (c, m)" "\<not> hold_lapsed t c" for j c m
  proof -
    have "kept t c (update_booking (bk_id b) (\<lambda>b. b\<lparr>bk_status := n, bk_holdExpiresAt := None\<rparr>) (cf_db s))"
      unfolding update_booking_def using n by (intro kept_update [OF pending(2) [OF that(1) assms(2) that(2)]]) auto
    then show ?thesis by (simp add: kept_def confirm_write_tables(1))
  qed
  then show ?thesis
    using b n pending(1) frame_catalogue_ok [OF confirm_write_tables(2) [of "cf_db s" ids t b n] _ ok(2,3)]
    by (intro confirm_okI) (auto split: if_splits)
qed

lemma sweep_ok:
  assumes "confirm_ok s" "cf_now s \<le> t"
  shows "confirm_ok (s\<lparr>cf_db := handleExpiredHolds t (cf_db s), cf_now := t\<rparr>)"
proof -
  note pending = confirm_ok_pending [OF assms(1)] and ok = confirm_ok_tables [OF assms(1)]
  have "kept t c (handleExpiredHolds t (cf_db s))" if "cf_pending s j = Some (c, m)" "\<not> hold_lapsed t c" for j c m
    using that(2) unfolding handleExpiredHolds_def releaseExpiredHolds_def snd_conv
    by (intro kept_update [OF pending(2) [OF that(1) assms(2) that(2)]])
      (auto simp: expired_hold_def hold_lapsed_def split: option.splits)
  then show ?thesis
    using release_step [OF ok(1), of t] pending(1) frame_catalogue_ok [OF frame_bookings(4) [of "cf_db s" t] _ ok(2,3)]
    by (intro confirm_okI) (auto simp: handleExpiredHolds_def booking_step_def)
qed

lemma reserve_ok:
  assumes "confirm_ok s" "cf_now s \<le> t" "fresh_key bk_id n (bookings (cf_db s))"
    "loadAndValidateContext (cf_db s) (hb_businessId dto) (hb_branchId dto) (hb_serviceId dto) (hb_staffMemberId dto) = Inr (z, r, v)"
    "hold_body t n u dto z v (cf_db s) = (Inr b, d)"
  shows "confirm_ok (s\<lparr>cf_db := d, cf_now := t\<rparr>)"
proof -
  note pending = confirm_ok_pending [OF assms(1)] and ok = confirm_ok_tables [OF assms(1)]
  have v: "service_ok v" using context_ok(1) [OF assms(4) ok(3)] .
  note w = hold_body_writes [OF assms(5) ok(2) v]
  have step: "booking_step (cf_db s) d" by (rule hold_body_step [OF assms(5) ok(1,2) v assms(3)])
  have more: "set (bookings (cf_db s)) \<subseteq> set (bookings d)"
    using assms(5) redeem_for_hold_ok(4) [OF _ ok(2) v] by (auto elim!: hold_body_Inr)
  have "services_ok d" using w(2) ok(3) services_ok_cong [of "cf_db s" d] by auto
  then show ?thesis
    using w(1) step pending(1) kept_more [OF pending(2) [OF _ assms(2)] more]
    by (intro confirm_okI) (auto simp: booking_step_def)
qed

lemma orderly_step_ok:
  assumes "orderly_step s ev s'" "confirm_ok s"
  shows "confirm_ok s'"
proof -
  have step: "confirm_step s ev s'" and ord: "orderly s ev" using assms(1) by (simp_all add: orderly_step_def)
  note pending = confirm_ok_pending [OF assms(2)] and ok = confirm_ok_tables [OF assms(2)]
  from step show ?thesis
  proof (cases rule: confirm_step.cases)
    case begun
    with begin_ok [OF assms(2)] show ?thesis by simp
  next
    case (refused t k u ids)
    have "kept t c (snd (confirm ids t k u (cf_db s)))" if "cf_pending s j = Some (c, m)" "\<not> hold_lapsed t c" for j c m
      by (rule refused_kept [OF pending(2) [OF that(1) refused(3) that(2)] that(2) refused(4) ok(1)])
    then show ?thesis
      using BookingInv.confirm_step [OF ok(1), of ids t k u] pending(1) frame_catalogue_ok [OF frame_confirm [of "cf_db s" ids t k u] _ ok(2,3)]
      by (intro confirm_okI) (auto simp: refused(2) booking_step_def)
  next
    case (committed t i b n ids)
    have "\<not> hold_lapsed t b" using ord by (simp add: orderly_def committed(1,4))
    then show ?thesis unfolding committed(2) by (rule commit_ok [OF assms(2) committed(3,4)])
  next
    case swept
    with sweep_ok [OF assms(2)] show ?thesis by simp
  next
    case (withdrawn t k u why)
    have "kept t c (snd (cancelByUser t k u why (cf_db s)))" if "cf_pending s j = Some (c, m)" "\<not> hold_lapsed t c" for j c m
    proof -
      have "bk_id c \<noteq> k" using ord that(1) withdrawn(1) by (auto simp: orderly_def)
      then show ?thesis by (rule cancel_untouched [OF pending(2) [OF that(1) withdrawn(3) that(2)]])
    qed
    then show ?thesis
      using cancelByUser_step [OF ok(1), of t k u why] pending(1) frame_catalogue_ok [OF frame_bookings(1) [of "cf_db s" t k u why] _ ok(2,3)]
      by (intro confirm_okI) (auto simp: withdrawn(2) booking_step_def)
  next
    case (reserved t n dto z r v u b d)
    show ?thesis unfolding reserved(2) by (rule reserve_ok [OF assms(2) reserved(3-6)])
  qed
qed

interpretation confirming: transition_system orderly_step confirm_ok "\<lambda>s s'. True"
  by unfold_locales (simp_all add: orderly_step_ok)

section \<open>The property\<close>

text \<open>
  C20. Confirmations may be interrupted: whatever confirmations, clean-ups, cancellations and
  new reservations interleave, no two active reservations of one branch and staff member ever
  overlap, provided that each confirmation commits before the hold that it read has lapsed
  and nobody cancels a reservation between the two halves of its confirmation.
\<close>

theorem concurrent_confirms_safe:
  assumes "run orderly_step s es s'" "db_ok (cf_db s)" "cf_pending s = (\<lambda>_. None)"
    "b \<in> set (bookings (cf_db s'))" "c \<in> set (bookings (cf_db s'))" "bk_id b \<noteq> bk_id c"
    "is_active (bk_status b)" "is_active (bk_status c)"
    "bk_branchId b = bk_branchId c" "bk_staffMemberId b = bk_staffMemberId c"
  shows "bk_endTime b \<le> bk_startTime c \<or> bk_endTime c \<le> bk_startTime b"
proof -
  have "confirm_ok s" using db_okD(4-6) [OF assms(2)] assms(3) by (simp add: confirm_ok_def)
  then have "confirm_ok s'" by (rule confirming.run_inv [OF assms(1)])
  then have "\<not> clash b c" using assms(4-6) by (simp add: confirm_ok_def bookings_ok_def no_double_booking_def)
  with assms(7-10) show ?thesis by (auto simp: clash_def)
qed

section \<open>Concrete runs\<close>

text \<open>Ann confirms her hold; it lapses five minutes after \<open>day0\<close>.\<close>

definition confirm_start :: confirm_race where
  "confirm_start = \<lparr>cf_db = city [demo_booking ''k'' HOLD nine], cf_now = day0, cf_pending = (\<lambda>_. None)\<rparr>"

lemma demo_read:
  assumes "t \<le> day0 + 300000"
  shows "confirm_read t ''k'' ''ann'' (city [demo_booking ''k'' HOLD nine]) = Some (demo_booking ''k'' HOLD nine, PENDING)"
  using assms
  by (simp add: confirm_read_def getOwnedBooking_def hold_lapsed_def needs_deposit_def demo_booking_def
      city_def demo_db_def demo_service_def)

lemma demo_sweep:
  "handleExpiredHolds t (city [demo_booking ''k'' HOLD nine]) =
     city [if t \<le> day0 + 300000 then demo_booking ''k'' HOLD nine
           else (demo_booking ''k'' HOLD nine)\<lparr>bk_status := CANCELLED, bk_cancelReason := Some ''hold expired''\<rparr>]"
proof -
  have "expired_hold t (demo_booking ''k'' HOLD nine) \<longleftrightarrow> \<not> t \<le> day0 + 300000"
    by (simp add: expired_hold_def demo_booking_def not_le)
  then show ?thesis by (simp add: handleExpiredHolds_def releaseExpiredHolds_def city_def demo_db_def)
qed

theorem concurrent_confirms_safe_witness:
  "\<exists>s'. run orderly_step confirm_start [Begin 0 day0 ''k'' ''ann'', Sweep (day0 + 1), Commit 0 (day0 + 2) ([], [], [])] s'
     \<and> map bk_status (bookings (cf_db s')) = [PENDING]
     \<and> (\<forall>b \<in> set (bookings (cf_db s')). \<forall>c \<in> set (bookings (cf_db s')). bk_id b \<noteq> bk_id c
          \<longrightarrow> bk_staffMemberId b = bk_staffMemberId c \<longrightarrow> bk_branchId b = bk_branchId c
          \<longrightarrow> is_active (bk_status b) \<longrightarrow> is_active (bk_status c)
          \<longrightarrow> bk_endTime b \<le> bk_startTime c \<or> bk_endTime c \<le> bk_startTime b)"
proof -
  let ?h = "demo_booking ''k'' HOLD nine"
  let ?s1 = "confirm_start\<lparr>cf_now := day0, cf_pending := (cf_pending confirm_start)(0 := Some (?h, PENDING))\<rparr>"
  let ?s2 = "?s1\<lparr>cf_db := handleExpiredHolds (day0 + 1) (cf_db ?s1), cf_now := day0 + 1\<rparr>"
  let ?s3 = "?s2\<lparr>cf_db := confirm_write ([], [], []) (day0 + 2) ?h PENDING (cf_db ?s2), cf_now := day0 + 2, cf_pending := (cf_pending ?s2)(0 := None)\<rparr>"
  have "orderly_step confirm_start (Begin 0 day0 ''k'' ''ann'') ?s1"
    unfolding orderly_step_def by (rule conjI, rule confirm_step.begun) (simp_all add: confirm_start_def demo_read orderly_def)
  moreover have "orderly_step ?s1 (Sweep (day0 + 1)) ?s2"
    unfolding orderly_step_def by (rule conjI, rule confirm_step.swept) (simp_all add: confirm_start_def orderly_def)
  moreover have "orderly_step ?s2 (Commit 0 (day0 + 2) ([], [], [])) ?s3"
    unfolding orderly_step_def
    by (rule conjI, rule confirm_step.committed) (simp_all add: confirm_start_def orderly_def hold_lapsed_def demo_booking_def)
  ultimately have r: "run orderly_step confirm_start [Begin 0 day0 ''k'' ''ann'', Sweep (day0 + 1), Commit 0 (day0 + 2) ([], [], [])] ?s3"
    by (blast intro: run.intros)
  have "bookings (cf_db ?s3) = [?h\<lparr>bk_status := PENDING, bk_holdExpiresAt := None\<rparr>]"
    by (simp add: confirm_start_def demo_sweep confirm_write_tables(1) update_booking_def demo_booking_sel)
  then have "map bk_status (bookings (cf_db ?s3)) = [PENDING]" by simp
  moreover have "db_ok (cf_db confirm_start)" "cf_pending confirm_start = (\<lambda>_. None)"
    using city_ok demo_bookings_ok_single by (simp_all add: confirm_start_def)
  ultimately show ?thesis
    using r concurrent_confirms_safe [OF r] by (intro exI [of _ ?s3]) blast
qed

text \<open>
  Late by two milliseconds: the hold lapses while it is being confirmed, the clean-up job
  cancels it, the slot goes to somebody else, and the confirmation takes it back.
\<close>

definition quick_hold :: HoldBookingDto where
  "quick_hold = demo_hold\<lparr>hb_couponCode := None\<rparr>"

lemma quick_hold_body:
  assumes "\<not> is_active (bk_status b)"
  shows "hold_body t ''k2'' ''owner'' quick_hold demo_business demo_service (city [b])
    = (Inr (hold_row t ''k2'' ''owner'' quick_hold demo_business demo_service 0),
       city [b, hold_row t ''k2'' ''owner'' quick_hold demo_business demo_service 0])"
  using assms
  by (simp add: hold_body_def assertSlotFree_def slot_clash_def redeem_for_hold_def create_booking_def link_usage_def
      quick_hold_def demo_hold_def hold_row_def city_def demo_db_def demo_staff_def city_owner_def insert_row_def)

theorem late_confirm_overlaps:
  "\<exists>s'. run confirm_step confirm_start
      [Begin 0 (day0 + 299999) ''k'' ''ann'', Sweep (day0 + 300001), Reserve (day0 + 300001) ''k2'' ''owner'' quick_hold,
       Commit 0 (day0 + 300001) ([], [], [])] s'
    \<and> \<not> no_double_booking (bookings (cf_db s'))"
proof -
  let ?h = "demo_booking ''k'' HOLD nine"
  let ?c = "?h\<lparr>bk_status := CANCELLED, bk_cancelReason := Some ''hold expired''\<rparr>"
  let ?n = "hold_row (day0 + 300001) ''k2'' ''owner'' quick_hold demo_business demo_service 0"
  let ?s1 = "confirm_start\<lparr>cf_now := day0 + 299999, cf_pending := (cf_pending confirm_start)(0 := Some (?h, PENDING))\<rparr>"
  let ?s2 = "?s1\<lparr>cf_db := handleExpiredHolds (day0 + 300001) (cf_db ?s1), cf_now := day0 + 300001\<rparr>"
  let ?s3 = "?s2\<lparr>cf_db := city [?c, ?n], cf_now := day0 + 300001\<rparr>"
  let ?s4 = "?s3\<lparr>cf_db := confirm_write ([], [], []) (day0 + 300001) ?h PENDING (cf_db ?s3), cf_now := day0 + 300001, cf_pending := (cf_pending ?s3)(0 := None)\<rparr>"
  have s2: "cf_db ?s2 = city [?c]" by (simp add: confirm_start_def demo_sweep)
  have "confirm_step confirm_start (Begin 0 (day0 + 299999) ''k'' ''ann'') ?s1"
    by (rule confirm_step.begun) (simp_all add: confirm_start_def demo_read)
  moreover have "confirm_step ?s1 (Sweep (day0 + 300001)) ?s2" by (rule confirm_step.swept) (simp add: confirm_start_def)
  moreover have "confirm_step ?s2 (Reserve (day0 + 300001) ''k2'' ''owner'' quick_hold) ?s3"
  proof (rule confirm_step.reserved)
    show "loadAndValidateContext (cf_db ?s2) (hb_businessId quick_hold) (hb_branchId quick_hold) (hb_serviceId quick_hold)
        (hb_staffMemberId quick_hold) = Inr (demo_business, demo_branch, demo_service)"
      unfolding s2
      by (simp add: quick_hold_def demo_hold_def loadAndValidateContext_def find_branch_def find_service_def find_staff_def
          city_def demo_defs city_owner_def)
    show "hold_body (day0 + 300001) ''k2'' ''owner'' quick_hold demo_business demo_service (cf_db ?s2) = (Inr ?n, city [?c, ?n])"
      unfolding s2 by (rule quick_hold_body) simp
    show "fresh_key bk_id ''k2'' (bookings (cf_db ?s2))" unfolding s2 by (simp add: fresh_key_def demo_booking_sel)
  qed simp
  moreover have "confirm_step ?s3 (Commit 0 (day0 + 300001) ([], [], [])) ?s4"
    by (rule confirm_step.committed) (simp_all add: confirm_start_def)
  ultimately have r: "run confirm_step confirm_start
      [Begin 0 (day0 + 299999) ''k'' ''ann'', Sweep (day0 + 300001), Reserve (day0 + 300001) ''k2'' ''owner'' quick_hold,
       Commit 0 (day0 + 300001) ([], [], [])] ?s4"
    by (blast intro: run.intros)
  have "bookings (cf_db ?s4) = [?c\<lparr>bk_status := PENDING, bk_holdExpiresAt := None\<rparr>, ?n]"
    by (simp add: confirm_write_tables(1) update_booking_def demo_booking_sel hold_row_def)
  moreover have "clash (?c\<lparr>bk_status := PENDING, bk_holdExpiresAt := None\<rparr>) ?n"
    by (simp add: clash_def demo_booking_sel hold_row_def quick_hold_def demo_hold_def demo_service_def)
  moreover have "bk_id (?c\<lparr>bk_status := PENDING, bk_holdExpiresAt := None\<rparr>) \<noteq> bk_id ?n"
    by (simp add: demo_booking_sel hold_row_def)
  ultimately have "\<not> no_double_booking (bookings (cf_db ?s4))" unfolding no_double_booking_def by force
  with r show ?thesis by blast
qed

end
