(* ===== verification/PaymentRace.thy ===== *)
theory PaymentRace
  imports PaymentProps DbInv Runs
begin

text \<open>
  Payments at the same time. A gateway may call the callback more than once; the comment in
  \<open>handleCallback\<close> names the danger and the second line of defence, a gateway that verifies a
  session once. Here a callback is split into its three steps (read the payment, ask the
  gateway, commit), and the steps of any number of callbacks interleave. Shown: the payment
  is credited at most once; but the callback that loses the race marks a paid payment
  FAILED. And two wallet payments that both read the balance before either writes it spend
  the same money twice.
\<close>

section \<open>A callback in three steps\<close>

text \<open>What a refused verification writes.\<close>

definition callback_failed :: "payment \<Rightarrow> string option \<Rightarrow> db \<Rightarrow> db" where
  "callback_failed payment why d =
     update_payment (pay_id payment)
       (\<lambda>p. p\<lparr>pay_status := FAILED, pay_failureReason := (case why of None \<Rightarrow> pay_failureReason p | Some r \<Rightarrow> Some r)\<rparr>) d"

datatype callback_phase = Cb_start | Cb_read payment | Cb_paid payment | Cb_refused payment "string option" | Cb_done

datatype callback_event = Cb_Read nat | Cb_Verify nat string | Cb_Commit nat award_ids time

record 'g callback_race =
  cr_db :: db
  cr_gateway :: 'g
  cr_phase :: "nat \<Rightarrow> callback_phase"

inductive callback_step :: "'g gateway \<Rightarrow> string \<Rightarrow> string option \<Rightarrow> 'g callback_race \<Rightarrow> callback_event \<Rightarrow> 'g callback_race \<Rightarrow> bool"
  for G :: "'g gateway" and gatewayName :: string and gatewayRefId :: "string option" where
  reads: "cr_phase s i = Cb_start \<Longrightarrow> callback_payment gatewayName gatewayRefId (cr_db s) = Some p \<Longrightarrow> pay_status p = INITIATED
    \<Longrightarrow> callback_step G gatewayName gatewayRefId s (Cb_Read i) (s\<lparr>cr_phase := (cr_phase s)(i := Cb_read p)\<rparr>)"
| absent: "cr_phase s i = Cb_start \<Longrightarrow> callback_payment gatewayName gatewayRefId (cr_db s) = None
    \<Longrightarrow> callback_step G gatewayName gatewayRefId s (Cb_Read i) (s\<lparr>cr_phase := (cr_phase s)(i := Cb_done)\<rparr>)"
| processed: "cr_phase s i = Cb_start \<Longrightarrow> callback_payment gatewayName gatewayRefId (cr_db s) = Some p \<Longrightarrow> pay_status p \<noteq> INITIATED
    \<Longrightarrow> callback_step G gatewayName gatewayRefId s (Cb_Read i) (s\<lparr>cr_phase := (cr_phase s)(i := Cb_done)\<rparr>)"
| confirms: "cr_phase s i = Cb_read p \<Longrightarrow> verify G uuid gatewayRefId (pay_amount p) (cr_gateway s) = (v, g) \<Longrightarrow> verified v
    \<Longrightarrow> callback_step G gatewayName gatewayRefId s (Cb_Verify i uuid) (s\<lparr>cr_gateway := g, cr_phase := (cr_phase s)(i := Cb_paid p)\<rparr>)"
| refuses: "cr_phase s i = Cb_read p \<Longrightarrow> verify G uuid gatewayRefId (pay_amount p) (cr_gateway s) = (v, g) \<Longrightarrow> \<not> verified v
    \<Longrightarrow> callback_step G gatewayName gatewayRefId s (Cb_Verify i uuid)
          (s\<lparr>cr_gateway := g, cr_phase := (cr_phase s)(i := Cb_refused p (failureReason v))\<rparr>)"
| succeeds: "cr_phase s i = Cb_paid p
    \<Longrightarrow> callback_step G gatewayName gatewayRefId s (Cb_Commit i ids now)
          (s\<lparr>cr_db := apply_success ids now p (cr_db s), cr_phase := (cr_phase s)(i := Cb_done)\<rparr>)"
| fails: "cr_phase s i = Cb_refused p why
    \<Longrightarrow> callback_step G gatewayName gatewayRefId s (Cb_Commit i ids now)
          (s\<lparr>cr_db := callback_failed p why (cr_db s), cr_phase := (cr_phase s)(i := Cb_done)\<rparr>)"

text \<open>A callback that no other interrupts does what \<open>handleCallback\<close> does.\<close>

theorem uninterrupted_callback:
  assumes "cr_phase s i = Cb_start"
  shows "\<exists>es s'. run (callback_step G gw ref) s es s' \<and> cr_phase s' i = Cb_done
    \<and> (cr_db s', cr_gateway s') = snd (handleCallback G uuid ids now gw ref (cr_db s, cr_gateway s))"
proof (cases "callback_payment gw ref (cr_db s)")
  case None
  let ?s = "s\<lparr>cr_phase := (cr_phase s)(i := Cb_done)\<rparr>"
  have "run (callback_step G gw ref) s [Cb_Read i] ?s"
    by (rule run.move, rule callback_step.absent, rule assms, rule None, rule run.stop)
  then show ?thesis by (intro exI conjI) (assumption, simp_all add: handleCallback_def None)
next
  case (Some p)
  show ?thesis
  proof (cases "pay_status p = INITIATED")
    case False
    let ?s = "s\<lparr>cr_phase := (cr_phase s)(i := Cb_done)\<rparr>"
    have "run (callback_step G gw ref) s [Cb_Read i] ?s"
      by (rule run.move, rule callback_step.processed, rule assms, rule Some, rule False, rule run.stop)
    then show ?thesis by (intro exI conjI) (assumption, simp_all add: handleCallback_def Some False)
  next
    case True
    obtain v g where v: "verify G uuid ref (pay_amount p) (cr_gateway s) = (v, g)"
      by (cases "verify G uuid ref (pay_amount p) (cr_gateway s)")
    let ?s1 = "s\<lparr>cr_phase := (cr_phase s)(i := Cb_read p)\<rparr>"
    have 1: "callback_step G gw ref s (Cb_Read i) ?s1" using assms Some True by (intro callback_step.reads)
    show ?thesis
    proof (cases "verified v")
      case yes: True
      let ?s2 = "?s1\<lparr>cr_gateway := g, cr_phase := (cr_phase ?s1)(i := Cb_paid p)\<rparr>"
      let ?s3 = "?s2\<lparr>cr_db := apply_success ids now p (cr_db ?s2), cr_phase := (cr_phase ?s2)(i := Cb_done)\<rparr>"
      have 2: "callback_step G gw ref ?s1 (Cb_Verify i uuid) ?s2" using v yes by (intro callback_step.confirms) simp_all
      have 3: "callback_step G gw ref ?s2 (Cb_Commit i ids now) ?s3" by (rule callback_step.succeeds) simp
      have "run (callback_step G gw ref) s [Cb_Read i, Cb_Verify i uuid, Cb_Commit i ids now] ?s3"
        by (rule run.move, rule 1, rule run.move, rule 2, rule run.move, rule 3, rule run.stop)
      then show ?thesis by (intro exI conjI) (assumption, simp_all add: handleCallback_def Some True v yes)
    next
      case no: False
      let ?s2 = "?s1\<lparr>cr_gateway := g, cr_phase := (cr_phase ?s1)(i := Cb_refused p (failureReason v))\<rparr>"
      let ?s3 = "?s2\<lparr>cr_db := callback_failed p (failureReason v) (cr_db ?s2), cr_phase := (cr_phase ?s2)(i := Cb_done)\<rparr>"
      have 2: "callback_step G gw ref ?s1 (Cb_Verify i uuid) ?s2" using v no by (intro callback_step.refuses) simp_all
      have 3: "callback_step G gw ref ?s2 (Cb_Commit i ids now) ?s3" by (rule callback_step.fails) simp
      have "run (callback_step G gw ref) s [Cb_Read i, Cb_Verify i uuid, Cb_Commit i ids now] ?s3"
        by (rule run.move, rule 1, rule run.move, rule 2, rule run.move, rule 3, rule run.stop)
      then show ?thesis
        by (intro exI conjI) (assumption, simp_all add: handleCallback_def callback_failed_def Some True v no)
    qed
  qed
qed

section \<open>What a commit changes\<close>

lemma apply_success_balance:
  "balance_of (apply_success ids now p d) v = balance_of d v
     + (if pay_type p = WALLET_TOPUP \<and> v = pay_userId p \<and> find_wallet d v \<noteq> None then pay_amount p else 0)"
proof -
  let ?d1 = "update_payment (pay_id p) (\<lambda>p. p\<lparr>pay_status := SUCCESS, pay_callbackVerifiedAt := Some now\<rparr>) d"
  have same: "find_wallet ?d1 = find_wallet d" "balance_of ?d1 = balance_of d"
    by (simp_all add: find_wallet_def balance_of_def frame_simps fun_eq_iff)
  show ?thesis
  proof (cases "find_wallet d (pay_userId p)")
    case None
    then show ?thesis
      by (auto simp: apply_success_def Let_def same confirm_and_award_balance split: option.split)
  next
    case (Some w)
    then show ?thesis
      using post_balance [of ?d1 "pay_userId p" w now Tx_TOPUP "pay_amount p" "pay_id p" v]
      by (auto simp: apply_success_def Let_def same confirm_and_award_balance split: option.split)
  qed
qed

lemma apply_success_credits:
  "credits (apply_success ids now p d) Tx_TOPUP k \<le> credits d Tx_TOPUP k + (if k = pay_id p then 1 else 0)"
proof -
  have "credits (confirm_and_award i t u b e) = credits e" for i t u b e
    by (rule credits_cong) (simp add: frame_simps)
  then show ?thesis by (auto simp: apply_success_def Let_def split: option.split)
qed

lemma callback_failed_frame:
  "balance_of (callback_failed p why d) = balance_of d" "credits (callback_failed p why d) = credits d"
  by (simp_all add: callback_failed_def balance_of_def find_wallet_def frame_simps fun_eq_iff)

lemma commit_keeps_payment:
  assumes "callback_payment gw ref d = Some q" "pay_terms p = pay_terms q"
  shows "\<exists>q'. callback_payment gw ref (apply_success ids now p d) = Some q' \<and> pay_terms q' = pay_terms q"
    "\<exists>q'. callback_payment gw ref (callback_failed p why d) = Some q' \<and> pay_terms q' = pay_terms q"
proof -
  have k: "pay_id p = pay_id q" using assms(2) by (simp add: pay_terms_def)
  show "\<exists>q'. callback_payment gw ref (apply_success ids now p d) = Some q' \<and> pay_terms q' = pay_terms q"
    using callback_payment_update [OF assms(1) apply_success_payments [of ids now p d, unfolded k]]
    by (simp add: pay_terms_def)
  show "\<exists>q'. callback_payment gw ref (callback_failed p why d) = Some q' \<and> pay_terms q' = pay_terms q"
    using callback_payment_update [OF assms(1), where f = "\<lambda>p. p\<lparr>pay_status := FAILED, pay_failureReason :=
        (case why of None \<Rightarrow> pay_failureReason p | Some r \<Rightarrow> Some r)\<rparr>"]
    by (simp add: callback_failed_def update_payment_def k pay_terms_def)
qed

section \<open>The invariant of the race\<close>

definition seen_payment :: "callback_phase \<Rightarrow> payment option" where
  "seen_payment c = (case c of Cb_read p \<Rightarrow> Some p | Cb_paid p \<Rightarrow> Some p | Cb_refused p _ \<Rightarrow> Some p | _ \<Rightarrow> None)"

lemma seen_payment_simps [simp]:
  "seen_payment Cb_start = None" "seen_payment Cb_done = None" "seen_payment (Cb_read p) = Some p"
  "seen_payment (Cb_paid p) = Some p" "seen_payment (Cb_refused p why) = Some p"
  by (simp_all add: seen_payment_def)

text \<open>All callbacks look at the same payment \<open>p\<close>.\<close>

definition same_payment :: "string \<Rightarrow> string \<Rightarrow> payment \<Rightarrow> 'g callback_race \<Rightarrow> bool" where
  "same_payment gw r p s \<longleftrightarrow>
     (\<exists>q. callback_payment gw (Some r) (cr_db s) = Some q \<and> pay_terms q = pay_terms p)
     \<and> (\<forall>i q. seen_payment (cr_phase s i) = Some q \<longrightarrow> pay_terms q = pay_terms p)"

definition nobody_paid :: "'g callback_race \<Rightarrow> bool" where
  "nobody_paid s \<longleftrightarrow> (\<forall>i q. cr_phase s i \<noteq> Cb_paid q)"

definition one_paid :: "'g callback_race \<Rightarrow> bool" where
  "one_paid s \<longleftrightarrow> (\<forall>i j q q'. cr_phase s i = Cb_paid q \<longrightarrow> cr_phase s j = Cb_paid q' \<longrightarrow> i = j)"

definition uncredited :: "(id \<Rightarrow> money) \<Rightarrow> payment \<Rightarrow> db \<Rightarrow> bool" where
  "uncredited b p d \<longleftrightarrow> balance_of d = b \<and> credits d Tx_TOPUP (pay_id p) = 0"

definition credited :: "(id \<Rightarrow> money) \<Rightarrow> payment \<Rightarrow> db \<Rightarrow> bool" where
  "credited b p d \<longleftrightarrow> credits d Tx_TOPUP (pay_id p) \<le> 1
     \<and> (\<forall>v. balance_of d v \<in> {b v, b v + (if v = pay_userId p then pay_amount p else 0)})"

text \<open>
  Either the session is still open and nothing has happened; or it is used up and at most
  one callback is about to commit; or it is used up and the commit has happened.
\<close>

definition once :: "('g \<Rightarrow> string \<Rightarrow> money option) \<Rightarrow> string \<Rightarrow> (id \<Rightarrow> money) \<Rightarrow> payment \<Rightarrow> 'g callback_race \<Rightarrow> bool" where
  "once pending r b p s \<longleftrightarrow>
     (if pending (cr_gateway s) r = Some (pay_amount p) then nobody_paid s \<and> uncredited b p (cr_db s)
      else one_paid s \<and> uncredited b p (cr_db s) \<or> nobody_paid s \<and> credited b p (cr_db s))"

lemma same_payment_seen:
  assumes "same_payment gw r p s" "seen_payment (cr_phase s i) = Some q"
  shows "pay_terms q = pay_terms p" "pay_id q = pay_id p" "pay_userId q = pay_userId p" "pay_amount q = pay_amount p"
proof -
  show t: "pay_terms q = pay_terms p" using assms unfolding same_payment_def by blast
  show "pay_id q = pay_id p" "pay_userId q = pay_userId p" "pay_amount q = pay_amount p"
    using t by (simp_all add: pay_terms_def)
qed

lemma same_payment_phase:
  assumes "same_payment gw r p s" "cr_phase s' = (cr_phase s)(i := c)" "\<And>q. seen_payment c = Some q \<Longrightarrow> pay_terms q = pay_terms p"
    "\<And>q. callback_payment gw (Some r) (cr_db s) = Some q \<Longrightarrow> pay_terms q = pay_terms p \<Longrightarrow>
      \<exists>q'. callback_payment gw (Some r) (cr_db s') = Some q' \<and> pay_terms q' = pay_terms q"
  shows "same_payment gw r p s'"
proof -
  obtain q where "callback_payment gw (Some r) (cr_db s) = Some q" "pay_terms q = pay_terms p"
    using assms(1) unfolding same_payment_def by blast
  with assms(4) have "\<exists>q. callback_payment gw (Some r) (cr_db s') = Some q \<and> pay_terms q = pay_terms p" by metis
  moreover have "pay_terms q = pay_terms p" if "seen_payment (cr_phase s' j) = Some q" for j q
    using that same_payment_seen(1) [OF assms(1), of j q] assms(3) by (cases "j = i") (auto simp: assms(2))
  ultimately show ?thesis unfolding same_payment_def by blast
qed

lemma same_payment_step:
  assumes "callback_step G gw (Some r) s e s'" "same_payment gw r p s"
  shows "same_payment gw r p s'"
  using assms(1)
proof (cases rule: callback_step.cases)
  case (reads i q)
  have "pay_terms q = pay_terms p" using assms(2) reads(4) by (auto simp: same_payment_def)
  then show ?thesis by (intro same_payment_phase [OF assms(2), of s' i "Cb_read q"]) (simp_all add: reads(2))
next
  case (absent i)
  then show ?thesis by (intro same_payment_phase [OF assms(2), of s' i Cb_done]) simp_all
next
  case (processed i q)
  then show ?thesis by (intro same_payment_phase [OF assms(2), of s' i Cb_done]) simp_all
next
  case (confirms i q uuid v g)
  have "pay_terms q = pay_terms p" using same_payment_seen(1) [OF assms(2), of i q] confirms(3) by simp
  then show ?thesis by (intro same_payment_phase [OF assms(2), of s' i "Cb_paid q"]) (simp_all add: confirms(2))
next
  case (refuses i q uuid v g)
  have "pay_terms q = pay_terms p" using same_payment_seen(1) [OF assms(2), of i q] refuses(3) by simp
  then show ?thesis
    by (intro same_payment_phase [OF assms(2), of s' i "Cb_refused q (failureReason v)"]) (simp_all add: refuses(2))
next
  case (succeeds i q ids now)
  have t: "pay_terms q = pay_terms p" using same_payment_seen(1) [OF assms(2), of i q] succeeds(3) by simp
  show ?thesis
  proof (rule same_payment_phase [OF assms(2), of s' i Cb_done])
    fix x assume "callback_payment gw (Some r) (cr_db s) = Some x" "pay_terms x = pay_terms p"
    then show "\<exists>q'. callback_payment gw (Some r) (cr_db s') = Some q' \<and> pay_terms q' = pay_terms x"
      using commit_keeps_payment(1) [of gw "Some r" "cr_db s" x q ids now] t by (simp add: succeeds(2))
  qed (simp_all add: succeeds(2))
next
  case (fails i q why ids now)
  have t: "pay_terms q = pay_terms p" using same_payment_seen(1) [OF assms(2), of i q] fails(3) by simp
  show ?thesis
  proof (rule same_payment_phase [OF assms(2), of s' i Cb_done])
    fix x assume "callback_payment gw (Some r) (cr_db s) = Some x" "pay_terms x = pay_terms p"
    then show "\<exists>q'. callback_payment gw (Some r) (cr_db s') = Some q' \<and> pay_terms q' = pay_terms x"
      using commit_keeps_payment(2) [of gw "Some r" "cr_db s" x q why] t by (simp add: fails(2))
  qed (simp_all add: fails(2))
qed

lemma nobody_paid_phase:
  "nobody_paid s \<Longrightarrow> cr_phase s' = (cr_phase s)(i := c) \<Longrightarrow> (\<And>q. c \<noteq> Cb_paid q) \<Longrightarrow> nobody_paid s'"
  by (simp add: nobody_paid_def)

lemma one_paid_phase:
  "one_paid s \<Longrightarrow> cr_phase s' = (cr_phase s)(i := c) \<Longrightarrow> (\<And>q. c \<noteq> Cb_paid q) \<Longrightarrow> one_paid s'"
  by (auto simp: one_paid_def split: if_splits)

text \<open>A step that neither confirms nor commits a credit.\<close>

lemma once_phase:
  assumes "once pending r b p s" "cr_phase s' = (cr_phase s)(i := c)" "\<And>q. c \<noteq> Cb_paid q"
    "pending (cr_gateway s') = pending (cr_gateway s)" "balance_of (cr_db s') = balance_of (cr_db s)"
    "credits (cr_db s') = credits (cr_db s)"
  shows "once pending r b p s'"
  using assms nobody_paid_phase [OF _ assms(2,3)] one_paid_phase [OF _ assms(2,3)]
  by (auto simp: once_def uncredited_def credited_def split: if_splits)

lemma once_step:
  assumes "payment_gateway G pending" "callback_step G gw (Some r) s e s'" "same_payment gw r p s" "once pending r b p s"
  shows "once pending r b p s'"
  using assms(2)
proof (cases rule: callback_step.cases)
  case (confirms i q uuid v g)
  have q: "pay_amount q = pay_amount p" using same_payment_seen(4) [OF assms(3), of i q] confirms(3) by simp
  then have open_session: "pending (cr_gateway s) r = Some (pay_amount p)"
    using payment_gateway.verify_iff [OF assms(1), of uuid r "pay_amount q" "cr_gateway s"] confirms(4,5) by simp
  have "pending g r = None"
    using payment_gateway.verify_uses [OF assms(1), of uuid r "pay_amount q" "cr_gateway s"] confirms(4,5) by simp
  moreover have "nobody_paid s" "uncredited b p (cr_db s)" using assms(4) open_session by (simp_all add: once_def)
  moreover have "one_paid s'" using \<open>nobody_paid s\<close> by (auto simp: confirms(2) one_paid_def nobody_paid_def split: if_splits)
  ultimately show ?thesis by (simp add: once_def confirms(2))
next
  case (refuses i q uuid v g)
  have "pending g = pending (cr_gateway s)"
    using payment_gateway.verify_refused [OF assms(1), of uuid "Some r" "pay_amount q" "cr_gateway s"] refuses(4,5) by simp
  then show ?thesis using once_phase [OF assms(4), of s' i] by (simp add: refuses(2))
next
  case (succeeds i q ids now)
  have terms: "pay_id q = pay_id p" "pay_userId q = pay_userId p" "pay_amount q = pay_amount p"
    using same_payment_seen(2-4) [OF assms(3), of i q] succeeds(3) by simp_all
  have "\<not> nobody_paid s" using succeeds(3) by (auto simp: nobody_paid_def)
  then have s: "pending (cr_gateway s) r \<noteq> Some (pay_amount p)" "one_paid s" "uncredited b p (cr_db s)"
    using assms(4) by (auto simp: once_def split: if_splits)
  have "nobody_paid s'"
    using s(2) succeeds(3) by (auto simp: succeeds(2) one_paid_def nobody_paid_def split: if_splits)
  moreover have "credited b p (cr_db s')"
    using s(3) apply_success_credits [of ids now q "cr_db s" "pay_id p"]
    by (auto simp: succeeds(2) credited_def uncredited_def apply_success_balance terms)
  ultimately show ?thesis using s(1) by (simp add: once_def succeeds(2))
next
  case (fails i q why ids now)
  then show ?thesis using once_phase [OF assms(4), of s' i] by (simp add: callback_failed_frame)
next
  case (reads i q)
  then show ?thesis using once_phase [OF assms(4), of s' i] by simp
next
  case (absent i)
  then show ?thesis using once_phase [OF assms(4), of s' i] by simp
next
  case (processed i q)
  then show ?thesis using once_phase [OF assms(4), of s' i] by simp
qed

definition race_once :: "'g gateway \<Rightarrow> ('g \<Rightarrow> string \<Rightarrow> money option) \<Rightarrow> string \<Rightarrow> string \<Rightarrow> (id \<Rightarrow> money) \<Rightarrow> payment
    \<Rightarrow> 'g callback_race \<Rightarrow> bool" where
  "race_once G pending gw r b p s \<longleftrightarrow> payment_gateway G pending \<and> same_payment gw r p s \<and> once pending r b p s"

interpretation callbacks: transition_system "callback_step G gw (Some r)" "race_once G pending gw r b p" "\<lambda>_ _. True"
  for G :: "'g gateway" and pending gw r b p
  by unfold_locales (auto simp: race_once_def intro: same_payment_step once_step)

section \<open>Concurrent callbacks\<close>

text \<open>
  C19. However many callbacks for one payment arrive at once, and however their steps interleave,
  a gateway that verifies a session once makes the payment count once: the payment causes
  at most one top-up movement, and no balance ends anywhere but where it was, except that
  the payer's may be higher by the amount of the payment.
\<close>

theorem callbacks_credit_once:
  assumes "payment_gateway G pending" "run (callback_step G gw (Some r)) s es s'" "\<forall>i. cr_phase s i = Cb_start"
    "callback_payment gw (Some r) (cr_db s) = Some p" "pay_status p = INITIATED" "payments_ok (cr_db s)"
  shows "credits (cr_db s') Tx_TOPUP (pay_id p) \<le> 1
    \<and> (\<forall>v. balance_of (cr_db s') v \<in>
          {balance_of (cr_db s) v, balance_of (cr_db s) v + (if v = pay_userId p then pay_amount p else 0)})"
proof -
  let ?b = "balance_of (cr_db s)"
  have "payment_ok (cr_db s) p" using payment_okD [OF assms(6)] callback_payment_Some [OF assms(4)] by blast
  then have "credits (cr_db s) Tx_TOPUP (pay_id p) = 0" using assms(5) by (simp add: payment_ok_def)
  then have "race_once G pending gw r ?b p s"
    using assms(1,3,4) by (simp add: race_once_def same_payment_def once_def nobody_paid_def one_paid_def uncredited_def)
  from callbacks.run_inv [OF assms(2) this] have "once pending r ?b p s'" by (simp add: race_once_def)
  then show ?thesis by (auto simp: once_def uncredited_def credited_def split: if_splits)
qed

definition demo_race :: "sessions callback_race" where
  "demo_race = \<lparr>cr_db = demo_cb_db WALLET_TOPUP INITIATED, cr_gateway = demo_sessions, cr_phase = (\<lambda>_. Cb_start)\<rparr>"

lemma demo_verify:
  "verify mock_gateway u (Some ''mock_1'') (pay_amount (demo_payment ty st)) demo_sessions
     = (\<lparr>verified = True, gatewayTransactionId = Some (''mocktx_'' @ u), failureReason = None\<rparr>,
        demo_sessions(''mock_1'' \<mapsto> \<lparr>ms_amount = 40000, ms_used = True\<rparr>))"
  "verify mock_gateway u (Some ''mock_1'') x (demo_sessions(''mock_1'' \<mapsto> \<lparr>ms_amount = 40000, ms_used = True\<rparr>))
     = (refused ''transaction already verified'', demo_sessions(''mock_1'' \<mapsto> \<lparr>ms_amount = 40000, ms_used = True\<rparr>))"
  by (simp_all add: mock_gateway_def mock_verify_def demo_sessions_def demo_payment_def)

definition demo_twice :: "callback_event list" where
  "demo_twice = [Cb_Read 0, Cb_Read 1, Cb_Verify 0 ''x'', Cb_Commit 0 (''a'', ''b'', ''c'') day0, Cb_Verify 1 ''y'',
     Cb_Commit 1 (''a'', ''b'', ''c'') day0]"

lemma demo_race_run:
  "\<exists>s'. run (callback_step mock_gateway ''mock'' (Some ''mock_1'')) demo_race demo_twice s'
     \<and> cr_db s' = callback_failed (demo_payment WALLET_TOPUP INITIATED) (Some ''transaction already verified'')
         (apply_success (''a'', ''b'', ''c'') day0 (demo_payment WALLET_TOPUP INITIATED) (demo_cb_db WALLET_TOPUP INITIATED))"
proof -
  let ?p = "demo_payment WALLET_TOPUP INITIATED"
  have p: "pay_status ?p = INITIATED" by (simp add: demo_payment_def)
  show ?thesis
    unfolding demo_twice_def
    by (rule exI, rule conjI, rule run.move, rule callback_step.reads [where p = ?p],
        (simp add: demo_race_def demo_callback_payment p)+,
        rule run.move, rule callback_step.reads [where p = ?p], (simp add: demo_race_def demo_callback_payment p)+,
        rule run.move, rule callback_step.confirms, (simp add: demo_race_def)+, rule demo_verify(1), (simp add: demo_race_def)+,
        rule run.move, rule callback_step.succeeds, (simp add: demo_race_def)+,
        rule run.move, rule callback_step.refuses, (simp add: demo_race_def)+, rule demo_verify(2),
        (simp add: demo_race_def refused_def)+,
        rule run.move, rule callback_step.fails, (simp add: demo_race_def)+)
qed

lemma demo_topup_ok: "payments_ok (demo_cb_db WALLET_TOPUP INITIATED)"
  by (simp add: payments_ok_def payment_ok_def unique_key_def credits_def demo_cb_db_def demo_payment_def demo_paid_db_def
      demo_db_def empty_db_def)

lemma demo_callback_credit: "balance_of (demo_cb_db ty st) v = (if v = ''ann'' then 50000 else 0)"
  by (simp add: balance_of_def find_wallet_def demo_cb_db_def demo_paid_db_def demo_db_def empty_db_def)

theorem callbacks_credit_once_witness:
  "\<exists>s'. run (callback_step mock_gateway ''mock'' (Some ''mock_1'')) demo_race demo_twice s'
     \<and> credits (cr_db s') Tx_TOPUP ''pay'' \<le> 1 \<and> balance_of (cr_db s') ''ann'' \<in> {50000, 90000}"
proof -
  let ?p = "demo_payment WALLET_TOPUP INITIATED"
  obtain s' where r: "run (callback_step mock_gateway ''mock'' (Some ''mock_1'')) demo_race demo_twice s'"
    using demo_race_run by blast
  have "callback_payment ''mock'' (Some ''mock_1'') (cr_db demo_race) = Some ?p" "payments_ok (cr_db demo_race)"
    by (simp_all add: demo_race_def demo_callback_payment demo_topup_ok)
  then have "credits (cr_db s') Tx_TOPUP (pay_id ?p) \<le> 1
      \<and> (\<forall>v. balance_of (cr_db s') v \<in> {balance_of (cr_db demo_race) v,
          balance_of (cr_db demo_race) v + (if v = pay_userId ?p then pay_amount ?p else 0)})"
    by (intro callbacks_credit_once [OF mock.payment_gateway_axioms r]) (simp_all add: demo_race_def demo_payment_def)
  then have "credits (cr_db s') Tx_TOPUP (pay_id ?p) \<le> 1"
    "balance_of (cr_db s') ''ann'' \<in> {balance_of (cr_db demo_race) ''ann'',
       balance_of (cr_db demo_race) ''ann'' + (if ''ann'' = pay_userId ?p then pay_amount ?p else 0)}"
    by blast+
  then have "credits (cr_db s') Tx_TOPUP ''pay'' \<le> 1" "balance_of (cr_db s') ''ann'' \<in> {50000, 90000}"
    by (simp_all add: demo_race_def demo_callback_credit) (simp_all add: demo_payment_def)
  with r show ?thesis by blast
qed

text \<open>
  But the callback that comes second is not harmless: its verification is refused, and it
  then writes FAILED over the SUCCESS that the first one has recorded, although the wallet
  has been credited.
\<close>

theorem late_callback_fails_paid_payment:
  "\<exists>s'. run (callback_step mock_gateway ''mock'' (Some ''mock_1'')) demo_race demo_twice s'
     \<and> balance_of (cr_db s') ''ann'' = 90000
     \<and> (\<exists>p. callback_payment ''mock'' (Some ''mock_1'') (cr_db s') = Some p \<and> pay_status p = FAILED)"
proof -
  let ?p = "demo_payment WALLET_TOPUP INITIATED"
  obtain s' where s': "run (callback_step mock_gateway ''mock'' (Some ''mock_1'')) demo_race demo_twice s'"
    "cr_db s' = callback_failed ?p (Some ''transaction already verified'')
       (apply_success (''a'', ''b'', ''c'') day0 ?p (demo_cb_db WALLET_TOPUP INITIATED))"
    using demo_race_run by blast
  have "find_wallet (demo_cb_db WALLET_TOPUP INITIATED) ''ann'' \<noteq> None"
    by (simp add: find_wallet_def demo_cb_db_def demo_paid_db_def)
  then have "balance_of (cr_db s') ''ann'' = 90000"
    by (simp add: s'(2) callback_failed_frame apply_success_balance demo_callback_credit demo_payment_def)
  moreover have "\<exists>p. callback_payment ''mock'' (Some ''mock_1'') (cr_db s') = Some p \<and> pay_status p = FAILED"
    using callback_payment_update [OF callback_payment_update [OF demo_callback_payment(1) apply_success_payments]]
    by (simp add: s'(2) callback_failed_def update_payment_def)
  ultimately show ?thesis using s'(1) by blast
qed

section \<open>Wallet payments at the same time\<close>

text \<open>What \<open>payFromWallet\<close> does after it has read the wallet and found the balance sufficient.\<close>

definition payFromWallet_write :: "award_ids \<Rightarrow> time \<Rightarrow> id \<Rightarrow> id \<Rightarrow> id \<Rightarrow> money \<Rightarrow> wallet \<Rightarrow> db \<Rightarrow> payment result \<times> db" where
  "payFromWallet_write ids now newId userId bookingId amount wallet d =
     (let d1 = post_wallet_tx now wallet Tx_PAYMENT (- amount) bookingId d;
          payment = deposit_payment now newId bookingId userId amount;
          d2 = d1\<lparr>payments := insert_row payment (payments d1)\<rparr>
      in case List.find (\<lambda>b. bk_id b = bookingId) (bookings d2) of
           None \<Rightarrow> (Inl RecordNotFound, d2)
         | Some booking \<Rightarrow> (Inr payment, confirm_and_award ids now userId booking d2))"

lemma payFromWallet_body_split:
  "payFromWallet_body ids now n u k amt d =
     (case find_wallet d u of
        None \<Rightarrow> (Inl (BadRequest WalletTooLow), d)
      | Some w \<Rightarrow> if wal_balance w < amt then (Inl (BadRequest WalletTooLow), d)
          else payFromWallet_write ids now n u k amt w d)"
  by (simp add: payFromWallet_body_def payFromWallet_write_def split: option.split)

text \<open>A payment in progress: the reservation to pay, its deposit and the ids drawn for it.\<close>

record payer =
  pr_userId :: id
  pr_bookingId :: id
  pr_amount :: money
  pr_newId :: id
  pr_ids :: award_ids

datatype purse_phase = Wp_start | Wp_read wallet | Wp_done

record purse_race =
  pu_db :: db
  pu_phase :: "nat \<Rightarrow> purse_phase"

datatype purse_event = Wp_Read nat | Wp_Write nat time

inductive purse_step :: "(nat \<Rightarrow> payer) \<Rightarrow> purse_race \<Rightarrow> purse_event \<Rightarrow> purse_race \<Rightarrow> bool"
  for P :: "nat \<Rightarrow> payer" where
  enough: "pu_phase s i = Wp_start \<Longrightarrow> find_wallet (pu_db s) (pr_userId (P i)) = Some w \<Longrightarrow> pr_amount (P i) \<le> wal_balance w
    \<Longrightarrow> purse_step P s (Wp_Read i) (s\<lparr>pu_phase := (pu_phase s)(i := Wp_read w)\<rparr>)"
| too_low: "pu_phase s i = Wp_start \<Longrightarrow> (\<And>w. find_wallet (pu_db s) (pr_userId (P i)) = Some w \<Longrightarrow> wal_balance w < pr_amount (P i))
    \<Longrightarrow> purse_step P s (Wp_Read i) (s\<lparr>pu_phase := (pu_phase s)(i := Wp_done)\<rparr>)"
| paid: "pu_phase s i = Wp_read w
    \<Longrightarrow> transaction (payFromWallet_write (pr_ids (P i)) now (pr_newId (P i)) (pr_userId (P i)) (pr_bookingId (P i)) (pr_amount (P i)) w)
          (pu_db s) = (res, d)
    \<Longrightarrow> purse_step P s (Wp_Write i now) (s\<lparr>pu_db := d, pu_phase := (pu_phase s)(i := Wp_done)\<rparr>)"

definition spender :: "nat \<Rightarrow> payer" where
  "spender i = \<lparr>pr_userId = ''ann'', pr_bookingId = (if i = 0 then ''k'' else ''k2''), pr_amount = 40000,
     pr_newId = CHR ''p'' # replicate i (CHR ''1''), pr_ids = (''a'', ''b'', ''c'')\<rparr>"

definition two_pending :: db where
  "two_pending = demo_paid_db\<lparr>bookings := [demo_booking ''k'' PENDING nine, demo_booking ''k2'' PENDING (nine + 1800000)]\<rparr>"

text \<open>
  Two deposits of 40,000 each from a wallet with 50,000: both requests read the balance
  before either writes, both write 10,000, and both reservations are confirmed.
\<close>

theorem balance_spent_twice:
  "\<exists>s'. run (purse_step spender) \<lparr>pu_db = two_pending, pu_phase = (\<lambda>_. Wp_start)\<rparr>
      [Wp_Read 0, Wp_Read 1, Wp_Write 0 day0, Wp_Write 1 day0] s'
     \<and> balance_of (pu_db s') ''ann'' = 10000
     \<and> map bk_status (bookings (pu_db s')) = [CONFIRMED, CONFIRMED]
     \<and> map pay_amount (payments (pu_db s')) = [40000, 40000]"
proof -
  let ?w = "\<lparr>wal_id = ''w'', wal_userId = ''ann'', wal_balance = 50000\<rparr>"
  let ?pay = "\<lambda>i. payFromWallet_write (''a'', ''b'', ''c'') day0 (pr_newId (spender i)) ''ann'' (pr_bookingId (spender i)) 40000 ?w"
  have w: "find_wallet two_pending ''ann'' = Some ?w" by (simp add: find_wallet_def two_pending_def demo_paid_db_def)
  obtain p1 d1 where 1: "?pay 0 two_pending = (Inr p1, d1)" "wallets d1 = [?w\<lparr>wal_balance := 10000\<rparr>]"
    "map bk_id (bookings d1) = [''k'', ''k2'']" "map bk_status (bookings d1) = [CONFIRMED, PENDING]"
    "map pay_amount (payments d1) = [40000]"
    by (simp add: payFromWallet_write_def Let_def spender_def two_pending_def demo_paid_db_def frame_simps demo_booking_sel
        post_wallet_tx_def update_rows_def confirm_and_award_def update_booking_def deposit_payment_def insert_row_def
        demo_db_def empty_db_def)
  obtain x y where b: "bookings d1 = [x, y]" "bk_id x = ''k''" "bk_status x = CONFIRMED" "bk_id y = ''k2''"
    using 1(3,4) by (auto simp: map_eq_Cons_conv)
  obtain p2 d2 where 2: "?pay 1 d1 = (Inr p2, d2)" "wallets d2 = [?w\<lparr>wal_balance := 10000\<rparr>]"
    "map bk_status (bookings d2) = [CONFIRMED, CONFIRMED]" "map pay_amount (payments d2) = [40000, 40000]"
    using 1(2,5) b
    by (simp add: payFromWallet_write_def Let_def spender_def frame_simps
        post_wallet_tx_def update_rows_def confirm_and_award_def update_booking_def deposit_payment_def insert_row_def)
  have "run (purse_step spender) \<lparr>pu_db = two_pending, pu_phase = (\<lambda>_. Wp_start)\<rparr>
      [Wp_Read 0, Wp_Read 1, Wp_Write 0 day0, Wp_Write 1 day0]
      \<lparr>pu_db = d2, pu_phase = (\<lambda>_. Wp_start)(0 := Wp_done, 1 := Wp_done)\<rparr>"
    by (rule run.move, rule purse_step.enough [where w = ?w], (simp add: w spender_def)+,
        rule run.move, rule purse_step.enough [where w = ?w], (simp add: w spender_def)+,
        rule run.move, rule purse_step.paid [where w = ?w and res = "Inr p1" and d = d1], simp,
        (simp add: transaction_def 1(1) [unfolded spender_def, simplified] spender_def)+,
        rule run.move, rule purse_step.paid [where w = ?w and res = "Inr p2" and d = d2], simp,
        (simp add: transaction_def 2(1) [unfolded spender_def, simplified] spender_def)+)
  moreover have "balance_of d2 ''ann'' = 10000" by (simp add: balance_of_def find_wallet_def 2(2))
  ultimately show ?thesis using 2(3,4) by force
qed

end
