(* ===== verification/AccountRace.thy ===== *)
theory AccountRace
  imports OtpProps AccountProps Runs
begin

text \<open>
  Guesses of a one-time code, and rotations of a refresh token, at the same time. Both
  operations read a row, decide, and write; here the two halves of different calls
  interleave. Shown: with at most \<open>c\<close> guesses in flight a code admits at most \<open>4 + c\<close> wrong
  ones, five when they come one after the other; so parallel requests lift the limit, and
  two parallel rotations of one refresh token both succeed.
\<close>

section \<open>Guesses in two steps\<close>

text \<open>The checks of \<open>verifyOtp\<close> on the record it has read, and what it writes afterwards.\<close>

definition otp_usable :: "time \<Rightarrow> otp_code \<Rightarrow> bool" where
  "otp_usable now record \<longleftrightarrow> \<not> otp_expiresAt record < now \<and> \<not> MAX_VERIFY_ATTEMPTS \<le> otp_attempts record"

definition otp_answer :: "otp_env \<Rightarrow> time \<Rightarrow> string \<Rightarrow> otp_code \<Rightarrow> db \<Rightarrow> bool \<times> db" where
  "otp_answer env now code record d =
     (if otp_codeHash record \<noteq> sha256Hash env code
      then (False, d\<lparr>otp_codes := update_rows (\<lambda>r. otp_id r = otp_id record)
              (\<lambda>r. r\<lparr>otp_attempts := otp_attempts r + 1\<rparr>) (otp_codes d)\<rparr>)
      else (True, d\<lparr>otp_codes := update_rows (\<lambda>r. otp_id r = otp_id record)
              (\<lambda>r. r\<lparr>otp_consumedAt := Some now\<rparr>) (otp_codes d)\<rparr>))"

lemma verifyOtp_split:
  "newest p q (otp_codes d) = Some x \<Longrightarrow> otp_usable now x \<Longrightarrow>
     verifyOtp env now p q c d = (Inr (fst (otp_answer env now c x d)), snd (otp_answer env now c x d))"
  by (simp add: verifyOtp_def otp_usable_def otp_answer_def)

datatype guess_phase = G_start | G_read otp_code | G_done

record guess_race =
  gr_db :: db
  gr_phase :: "nat \<Rightarrow> guess_phase"

datatype guess_event = Guess_Read nat time | Guess_Answer nat time

definition in_flight :: "guess_race \<Rightarrow> nat set" where
  "in_flight s = {i. \<exists>x. gr_phase s i = G_read x}"

text \<open>The \<open>i\<close>-th call guesses \<open>guess i\<close>; at most \<open>c\<close> calls are between their read and their write.\<close>

inductive guess_step :: "otp_env \<Rightarrow> string \<Rightarrow> OtpPurpose \<Rightarrow> (nat \<Rightarrow> string) \<Rightarrow> nat \<Rightarrow> guess_race \<Rightarrow> guess_event \<Rightarrow> guess_race \<Rightarrow> bool"
  for env phone purpose guess c where
  usable: "gr_phase s i = G_start \<Longrightarrow> newest phone purpose (otp_codes (gr_db s)) = Some x \<Longrightarrow> otp_usable now x
    \<Longrightarrow> card (in_flight s) < c
    \<Longrightarrow> guess_step env phone purpose guess c s (Guess_Read i now) (s\<lparr>gr_phase := (gr_phase s)(i := G_read x)\<rparr>)"
| unusable: "gr_phase s i = G_start \<Longrightarrow> \<forall>x. newest phone purpose (otp_codes (gr_db s)) = Some x \<longrightarrow> \<not> otp_usable now x
    \<Longrightarrow> guess_step env phone purpose guess c s (Guess_Read i now) (s\<lparr>gr_phase := (gr_phase s)(i := G_done)\<rparr>)"
| answer: "gr_phase s i = G_read x
    \<Longrightarrow> guess_step env phone purpose guess c s (Guess_Answer i now)
          (s\<lparr>gr_db := snd (otp_answer env now (guess i) x (gr_db s)), gr_phase := (gr_phase s)(i := G_done)\<rparr>)"

section \<open>The bound\<close>

text \<open>The calls that have read the code \<open>k\<close> and not yet written.\<close>

definition readers :: "id \<Rightarrow> guess_race \<Rightarrow> nat set" where
  "readers k s = {i. \<exists>x. gr_phase s i = G_read x \<and> otp_id x = k}"

lemma readers_sub: "readers k s \<subseteq> in_flight s"
  by (auto simp: readers_def in_flight_def)

definition guesses_ok :: "nat \<Rightarrow> guess_race \<Rightarrow> bool" where
  "guesses_ok c s \<longleftrightarrow> 0 < c \<and> finite (in_flight s) \<and> unique_key otp_id (otp_codes (gr_db s))
     \<and> (\<forall>x \<in> set (otp_codes (gr_db s)). otp_attempts x + card (readers (otp_id x) s) \<le> 4 + c)"

lemma in_flight_read: "gr_phase s i = G_start \<Longrightarrow> in_flight (s\<lparr>gr_phase := (gr_phase s)(i := G_read x)\<rparr>) = insert i (in_flight s)"
  by (auto simp: in_flight_def)

lemma readers_read:
  "gr_phase s i = G_start \<Longrightarrow>
    readers k (s\<lparr>gr_phase := (gr_phase s)(i := G_read x)\<rparr>) = (if otp_id x = k then insert i (readers k s) else readers k s)"
  by (auto simp: readers_def)

lemma in_flight_done: "in_flight (s\<lparr>gr_db := d, gr_phase := (gr_phase s)(i := G_done)\<rparr>) = in_flight s - {i}"
  by (auto simp: in_flight_def)

lemma readers_done: "readers k (s\<lparr>gr_db := d, gr_phase := (gr_phase s)(i := G_done)\<rparr>) = readers k s - {i}"
  by (auto simp: readers_def)

lemma guesses_ok_step:
  assumes "guess_step env p q guess c s e s'" "guesses_ok c s"
  shows "guesses_ok c s'"
  using assms(1)
proof (cases rule: guess_step.cases)
  case (usable i x now)
  have fin: "finite (in_flight s)" using assms(2) by (simp add: guesses_ok_def)
  have "otp_attempts x \<le> 4" using usable(5) by (simp add: otp_usable_def MAX_VERIFY_ATTEMPTS_def)
  moreover have "card (insert i (readers (otp_id x) s)) \<le> card (insert i (in_flight s))"
    using fin readers_sub by (intro card_mono) auto
  moreover have "card (insert i (in_flight s)) \<le> c" using usable(6) fin card_insert_le_m1 [of c "in_flight s" i] by auto
  ultimately have new: "otp_attempts x + card (insert i (readers (otp_id x) s)) \<le> 4 + c" by linarith
  have "y = x" if "y \<in> set (otp_codes (gr_db s))" "otp_id y = otp_id x" for y
    using that newest_Some(1) [OF usable(4)] unique_key_eq [of otp_id "otp_codes (gr_db s)" y x] assms(2)
    by (simp add: guesses_ok_def)
  with new assms(2) fin show ?thesis
    by (auto simp: guesses_ok_def usable(2) in_flight_read [OF usable(3)] readers_read [OF usable(3)])
next
  case (unusable i now)
  then have "in_flight s' = in_flight s" "readers k s' = readers k s" for k
    by (auto simp: in_flight_def readers_def)
  with assms(2) show ?thesis by (simp add: guesses_ok_def unusable(2))
next
  case (answer i x now)
  let ?t = "otp_codes (gr_db s)"
  have fin: "finite (readers k s)" for k
    using assms(2) finite_subset [OF readers_sub] by (auto simp: guesses_ok_def)
  have i: "i \<in> readers (otp_id x) s" using answer(3) by (auto simp: readers_def)
  have fewer: "card (readers k s') \<le> card (readers k s)" for k
    unfolding answer(2) readers_done using fin by (intro card_mono) auto
  have one: "card (readers (otp_id x) s') + 1 = card (readers (otp_id x) s)"
    unfolding answer(2) readers_done using card_Suc_Diff1 [OF fin i] by simp
  have "otp_attempts z + card (readers (otp_id z) s') \<le> 4 + c" if z: "z \<in> set (otp_codes (gr_db s'))" for z
  proof -
    obtain y where y: "y \<in> set ?t" "otp_id z = otp_id y"
      "otp_attempts z \<le> otp_attempts y + (if otp_id y = otp_id x then 1 else 0)"
      using z by (auto simp: answer(2) otp_answer_def elim!: in_update_rowsE split: if_splits)
    have "otp_attempts y + card (readers (otp_id y) s) \<le> 4 + c" using assms(2) y(1) by (simp add: guesses_ok_def)
    then show ?thesis using y(2,3) one fewer [of "otp_id y"] by (cases "otp_id y = otp_id x") auto
  qed
  moreover have "unique_key otp_id (otp_codes (gr_db s'))"
    using assms(2) by (auto simp: guesses_ok_def answer(2) otp_answer_def intro!: unique_key_update)
  moreover have "finite (in_flight s')" using assms(2) by (simp add: guesses_ok_def answer(2) in_flight_done)
  ultimately show ?thesis using assms(2) by (simp add: guesses_ok_def)
qed

interpretation guesses: transition_system "guess_step env p q guess c" "guesses_ok c" "\<lambda>_ _. True"
  for env p q guess c
  by unfold_locales (auto intro: guesses_ok_step)

text \<open>
  C33. With at most \<open>c\<close> guesses in flight at any time, no code ever collects more than \<open>4 + c\<close>
  wrong guesses: five when the calls come one after the other.
\<close>

theorem concurrent_guesses_bounded:
  assumes "run (guess_step env p q guess c) s es s'" "otp_ok (gr_db s)" "\<forall>i. gr_phase s i = G_start" "0 < c"
    "x \<in> set (otp_codes (gr_db s'))"
  shows "otp_attempts x \<le> 4 + c"
proof -
  have "in_flight s = {}" "readers k s = {}" for k using assms(3) by (simp_all add: in_flight_def readers_def)
  then have "guesses_ok c s"
    using assms(2,4) by (auto simp: guesses_ok_def otp_ok_def list_all_iff)
  from guesses.run_inv [OF assms(1) this] assms(5) show ?thesis by (auto simp: guesses_ok_def)
qed

section \<open>The bound is reached\<close>

definition many_guesses :: "nat \<Rightarrow> nat \<Rightarrow> guess_race" where
  "many_guesses n m = \<lparr>gr_db = demo_otps\<lparr>otp_codes := update_rows (\<lambda>r. otp_id r = ''b'')
       (\<lambda>r. r\<lparr>otp_attempts := otp_attempts r + m\<rparr>) (otp_codes demo_otps)\<rparr>,
     gr_phase = (\<lambda>i. if i < m then G_done else if i < n then G_read (demo_code ''b'' ''222222'' 120000) else G_start)\<rparr>"

abbreviation demo_guess_step :: "nat \<Rightarrow> guess_race \<Rightarrow> guess_event \<Rightarrow> guess_race \<Rightarrow> bool" where
  "demo_guess_step \<equiv> guess_step demo_otp_env ''09120000000'' LOGIN (\<lambda>_. ''111111'')"

lemma many_guesses_db: "gr_db (many_guesses n 0) = demo_otps"
  by (simp add: many_guesses_def update_rows_def)

lemma reads_one_by_one:
  assumes "n \<le> c"
  shows "run (demo_guess_step c) (many_guesses 0 0) (map (\<lambda>i. Guess_Read i 130000) [0..<n]) (many_guesses n 0)"
  using assms
proof (induction n)
  case (Suc n)
  let ?s = "many_guesses n 0"
  have "in_flight ?s = {..<n}" by (auto simp: in_flight_def many_guesses_def)
  moreover have "gr_phase ?s n = G_start" by (simp add: many_guesses_def)
  moreover have "otp_usable 130000 (demo_code ''b'' ''222222'' 120000)"
    by (simp add: otp_usable_def demo_code_def MAX_VERIFY_ATTEMPTS_def)
  ultimately have "demo_guess_step c ?s (Guess_Read n 130000)
      (?s\<lparr>gr_phase := (gr_phase ?s)(n := G_read (demo_code ''b'' ''222222'' 120000))\<rparr>)"
    using Suc.prems demo_newest by (intro guess_step.usable) (simp_all add: many_guesses_db)
  moreover have "?s\<lparr>gr_phase := (gr_phase ?s)(n := G_read (demo_code ''b'' ''222222'' 120000))\<rparr> = many_guesses (Suc n) 0"
    by (auto simp: many_guesses_def fun_eq_iff)
  ultimately show ?case using Suc.IH Suc.prems by (auto simp: run_append run_Cons)
qed simp

lemma answers_one_by_one:
  assumes "m \<le> n"
  shows "run (demo_guess_step c) (many_guesses n 0) (map (\<lambda>i. Guess_Answer i 130000) [0..<m]) (many_guesses n m)"
  using assms
proof (induction m)
  case (Suc m)
  let ?s = "many_guesses n m" and ?x = "demo_code ''b'' ''222222'' 120000"
  have "gr_phase ?s m = G_read ?x" using Suc.prems by (simp add: many_guesses_def)
  from guess_step.answer [OF this, of demo_otp_env "''09120000000''" LOGIN "\<lambda>_. ''111111''" c 130000]
  have "demo_guess_step c ?s (Guess_Answer m 130000)
      (?s\<lparr>gr_db := snd (otp_answer demo_otp_env 130000 ''111111'' ?x (gr_db ?s)), gr_phase := (gr_phase ?s)(m := G_done)\<rparr>)" .
  moreover have "snd (otp_answer demo_otp_env 130000 ''111111'' ?x (gr_db ?s)) = gr_db (many_guesses n (Suc m))"
    by (simp add: otp_answer_def many_guesses_def demo_otp_env_def demo_code_def update_rows_def)
  moreover have "?s\<lparr>gr_db := gr_db (many_guesses n (Suc m)), gr_phase := (gr_phase ?s)(m := G_done)\<rparr> = many_guesses n (Suc m)"
    by (auto simp: many_guesses_def fun_eq_iff)
  ultimately show ?case using Suc.IH Suc.prems by (auto simp: run_append run_Cons)
qed simp

text \<open>
  The limit of five is a limit for one client at a time: \<open>n\<close> guesses that all read the code
  before any of them is counted are all answered, for every \<open>n\<close>.
\<close>

theorem parallel_guesses_unlimited:
  "\<exists>es s'. run (demo_guess_step n) \<lparr>gr_db = demo_otps, gr_phase = (\<lambda>_. G_start)\<rparr> es s'
     \<and> (\<exists>x \<in> set (otp_codes (gr_db s')). otp_id x = ''b'' \<and> otp_attempts x = n)"
proof -
  have start: "many_guesses 0 0 = \<lparr>gr_db = demo_otps, gr_phase = (\<lambda>_. G_start)\<rparr>"
    by (simp add: many_guesses_def update_rows_def)
  have "run (demo_guess_step n) (many_guesses 0 0)
      (map (\<lambda>i. Guess_Read i 130000) [0..<n] @ map (\<lambda>i. Guess_Answer i 130000) [0..<n]) (many_guesses n n)"
    unfolding run_append using reads_one_by_one [of n n] answers_one_by_one [of n n n] by blast
  moreover have "\<exists>x \<in> set (otp_codes (gr_db (many_guesses n n))). otp_id x = ''b'' \<and> otp_attempts x = n"
    by (simp add: many_guesses_def demo_otps_def demo_code_def update_rows_def)
  ultimately show ?thesis unfolding start by blast
qed

theorem concurrent_guesses_bounded_witness:
  "\<exists>es s'. run (demo_guess_step 7) \<lparr>gr_db = demo_otps, gr_phase = (\<lambda>_. G_start)\<rparr> es s'
     \<and> (\<exists>x \<in> set (otp_codes (gr_db s')). otp_attempts x = 7) \<and> (\<forall>x \<in> set (otp_codes (gr_db s')). otp_attempts x \<le> 11)"
proof -
  obtain es s' where r: "run (demo_guess_step 7) \<lparr>gr_db = demo_otps, gr_phase = (\<lambda>_. G_start)\<rparr> es s'"
    "\<exists>x \<in> set (otp_codes (gr_db s')). otp_id x = ''b'' \<and> otp_attempts x = 7"
    using parallel_guesses_unlimited [of 7] by blast
  have "otp_attempts x \<le> 11" if "x \<in> set (otp_codes (gr_db s'))" for x
    using concurrent_guesses_bounded [OF r(1) _ _ _ that] demo_otp_ok by simp
  with r show ?thesis by blast
qed

section \<open>Two rotations of one token\<close>

text \<open>The checks of \<open>refreshTokens\<close>, and what it writes when they pass.\<close>

definition refresh_check :: "auth_env \<Rightarrow> time \<Rightarrow> string \<Rightarrow> db \<Rightarrow> (refresh_token \<times> user) result" where
  "refresh_check env now rawRefreshToken d =
     (case find_token d (sha256Hash env rawRefreshToken) of
        None \<Rightarrow> Inl (Unauthorized SessionExpired)
      | Some record \<Rightarrow>
          if rt_revokedAt record \<noteq> None \<or> rt_expiresAt record < now then Inl (Unauthorized SessionExpired)
          else (case find_user d (rt_userId record) of
             None \<Rightarrow> Inl (Unauthorized AccountInvalid)
           | Some user \<Rightarrow> if usr_status user \<noteq> Acc_ACTIVE then Inl (Unauthorized AccountInvalid) else Inr (record, user)))"

definition refresh_write :: "auth_env \<Rightarrow> time \<Rightarrow> id \<Rightarrow> string \<Rightarrow> DeviceContext \<Rightarrow> refresh_token \<times> user \<Rightarrow> db \<Rightarrow> TokenPair result \<times> db" where
  "refresh_write env now newId newRaw ctx ru d =
     issueTokenPair env now newId newRaw (usr_id (snd ru)) (usr_globalRole (snd ru)) ctx
       (revoke_where (\<lambda>t. rt_id t = rt_id (fst ru)) now d)"

lemma refreshTokens_split:
  "refreshTokens env now newId newRaw raw ctx d =
     (case refresh_check env now raw d of Inl e \<Rightarrow> (Inl e, d) | Inr ru \<Rightarrow> refresh_write env now newId newRaw ctx ru d)"
  by (simp add: refreshTokens_def refresh_check_def refresh_write_def split: option.split)

lemma issue_fresh:
  assumes "find_token d (sha256Hash env raw) = None"
  shows "\<exists>p row. issueTokenPair env now k raw u role ctx d = (Inr p, d\<lparr>refresh_tokens := insert_row row (refresh_tokens d)\<rparr>)
    \<and> rt_id row = k \<and> rt_tokenHash row = sha256Hash env raw \<and> rt_revokedAt row = None"
  using assms by (simp add: issueTokenPair_def Let_def) (intro exI conjI, rule refl, simp_all)

text \<open>
  Two requests with the same refresh token that both pass the checks before either has
  revoked it both get a new pair of tokens: a stolen token can be used once more beside
  its owner's, which the rotation is meant to exclude.
\<close>

theorem token_rotated_twice:
  assumes "refresh_check env now raw d = Inr ru"
    "find_token d (sha256Hash env raw1) = None" "find_token d (sha256Hash env raw2) = None"
    "sha256Hash env raw1 \<noteq> sha256Hash env raw2"
  shows "\<exists>p1 d1 p2 d2. refresh_write env now k1 raw1 ctx1 ru d = (Inr p1, d1) \<and> refresh_write env now k2 raw2 ctx2 ru d1 = (Inr p2, d2)
    \<and> (\<exists>t \<in> set (refresh_tokens d2). rt_id t = k1 \<and> rt_tokenHash t = sha256Hash env raw1)
    \<and> (\<exists>t \<in> set (refresh_tokens d2). rt_id t = k2 \<and> rt_tokenHash t = sha256Hash env raw2 \<and> rt_revokedAt t = None)"
proof -
  let ?rev = "revoke_where (\<lambda>t. rt_id t = rt_id (fst ru)) now"
  have revoke: "find_token (?rev e) h = None" if "find_token e h = None" for e h
    using that by (simp add: find_token_def revoke_where_def find_update_rows)
  obtain p1 r1 where 1: "refresh_write env now k1 raw1 ctx1 ru d = (Inr p1, (?rev d)\<lparr>refresh_tokens := insert_row r1 (refresh_tokens (?rev d))\<rparr>)"
    "rt_id r1 = k1" "rt_tokenHash r1 = sha256Hash env raw1"
    using issue_fresh [OF revoke [OF assms(2)]] unfolding refresh_write_def by metis
  let ?d1 = "(?rev d)\<lparr>refresh_tokens := insert_row r1 (refresh_tokens (?rev d))\<rparr>"
  have "find_token ?d1 (sha256Hash env raw2) = None"
    using revoke [OF assms(3)] assms(4) 1(3) by (auto simp: find_token_def find_None_iff insert_row_def)
  from issue_fresh [OF revoke [OF this]]
  obtain p2 r2 where 2: "refresh_write env now k2 raw2 ctx2 ru ?d1 = (Inr p2, (?rev ?d1)\<lparr>refresh_tokens := insert_row r2 (refresh_tokens (?rev ?d1))\<rparr>)"
    "rt_id r2 = k2" "rt_tokenHash r2 = sha256Hash env raw2" "rt_revokedAt r2 = None"
    unfolding refresh_write_def by metis
  let ?d2 = "(?rev ?d1)\<lparr>refresh_tokens := insert_row r2 (refresh_tokens (?rev ?d1))\<rparr>"
  have "r1 \<in> set (refresh_tokens ?d1)" by (simp add: insert_row_def)
  from in_update_rowsI [OF this, of "\<lambda>t. rt_id t = rt_id (fst ru)" "\<lambda>t. t\<lparr>rt_revokedAt := Some now\<rparr>"]
  have "(if rt_id r1 = rt_id (fst ru) then r1\<lparr>rt_revokedAt := Some now\<rparr> else r1) \<in> set (refresh_tokens ?d2)"
    by (simp add: revoke_where_def insert_row_def)
  then have "\<exists>t \<in> set (refresh_tokens ?d2). rt_id t = k1 \<and> rt_tokenHash t = sha256Hash env raw1"
    by (rule bexI [rotated]) (simp add: 1(2,3))
  moreover have "r2 \<in> set (refresh_tokens ?d2)" by (simp add: insert_row_def)
  ultimately show ?thesis using 1(1) 2 by blast
qed

end
