(* ===== verification/CouponRace.thy ===== *)
theory CouponRace
  imports SystemProps Runs
begin

text \<open>
  Redemptions of coupons at the same time. \<open>checkAndRedeem\<close> reads the coupon and checks its
  limit, and later stores the usage and increments the counter; here the two halves of
  different redemptions interleave. Shown: the counter always equals the number of usages and
  nobody uses a coupon twice, but with \<open>c\<close> redemptions in flight a coupon may be used \<open>c - 1\<close>
  times more than its limit allows.
\<close>

section \<open>The two halves\<close>

definition redeem_write :: "id \<Rightarrow> money \<Rightarrow> id \<Rightarrow> id option \<Rightarrow> db \<Rightarrow> (id \<times> money) result \<times> db" where
  "redeem_write couponId discountAmount userId bookingId d =
     (if find_usage d couponId userId \<noteq> None then (Inl UniqueViolation, d)
      else
        (Inr (couponId, discountAmount),
         d\<lparr>coupon_usages := insert_row
             \<lparr>cu_couponId = couponId, cu_userId = userId, cu_bookingId = bookingId,
              cu_discountAmount = discountAmount\<rparr> (coupon_usages d),
           coupons := update_rows (\<lambda>c. cp_id c = couponId)
             (\<lambda>c. c\<lparr>cp_usageCount := cp_usageCount c + 1\<rparr>) (coupons d)\<rparr>))"

lemma redeem_in_halves:
  "checkAndRedeem now code u b amt bid d =
     (case checkAndCompute now code u b amt d of Inl e \<Rightarrow> (Inl e, d) | Inr (k, x) \<Rightarrow> redeem_write k x u bid d)"
  by (simp add: checkAndRedeem_def redeem_write_def split: sum.split)

section \<open>Interleaved redemptions\<close>

text \<open>What a redemption has found out: the coupon, the discount, and for whom.\<close>

record redeem_race =
  rr_db :: db
  rr_pending :: "nat \<Rightarrow> (id \<times> money \<times> id) option"

datatype redeem_event =
    Redeem_Check nat time string id "id option" money | Redeem_Write nat "id option" | Redeem_Abort nat

definition redeeming :: "redeem_race \<Rightarrow> nat set" where
  "redeeming s = {i. rr_pending s i \<noteq> None}"

text \<open>
  At most \<open>c\<close> redemptions are between their check and their write; a redemption ends without
  a write when the reservation that it belongs to fails.
\<close>

inductive redeem_step :: "nat \<Rightarrow> redeem_race \<Rightarrow> redeem_event \<Rightarrow> redeem_race \<Rightarrow> bool" for c where
  checked: "rr_pending s i = None \<Longrightarrow> checkAndCompute now code u b amt (rr_db s) = Inr (k, x) \<Longrightarrow> card (redeeming s) < c
    \<Longrightarrow> redeem_step c s (Redeem_Check i now code u b amt) (s\<lparr>rr_pending := (rr_pending s)(i := Some (k, x, u))\<rparr>)"
| refused: "rr_pending s i = None \<Longrightarrow> checkAndCompute now code u b amt (rr_db s) = Inl e
    \<Longrightarrow> redeem_step c s (Redeem_Check i now code u b amt) s"
| written: "rr_pending s i = Some (k, x, u)
    \<Longrightarrow> redeem_step c s (Redeem_Write i bid)
          (s\<lparr>rr_db := snd (redeem_write k x u bid (rr_db s)), rr_pending := (rr_pending s)(i := None)\<rparr>)"
| aborted: "redeem_step c s (Redeem_Abort i) (s\<lparr>rr_pending := (rr_pending s)(i := None)\<rparr>)"

section \<open>The invariant\<close>

definition waiting :: "redeem_race \<Rightarrow> id \<Rightarrow> nat set" where
  "waiting s k = {i. \<exists>x u. rr_pending s i = Some (k, x, u)}"

definition redeems_ok :: "nat \<Rightarrow> redeem_race \<Rightarrow> bool" where
  "redeems_ok c s \<longleftrightarrow> 0 < c \<and> finite (redeeming s) \<and> coupons_ok (rr_db s)
     \<and> (\<forall>i k x u. rr_pending s i = Some (k, x, u) \<longrightarrow> k \<in> cp_id ` set (coupons (rr_db s)))
     \<and> (\<forall>z \<in> set (coupons (rr_db s)). \<forall>l. cp_usageLimit z = Some l \<longrightarrow> l \<noteq> 0
          \<longrightarrow> cp_usageCount z + int (card (waiting s (cp_id z))) \<le> l - 1 + int c)"

lemma waiting_sub: "waiting s k \<subseteq> redeeming s"
  by (auto simp: waiting_def redeeming_def)

lemma waiting_simps:
  "rr_pending s i = None \<Longrightarrow> waiting (s\<lparr>rr_pending := (rr_pending s)(i := Some (k, x, u))\<rparr>) z =
     (if z = k then insert i (waiting s z) else waiting s z)"
  "waiting (s\<lparr>rr_db := d, rr_pending := (rr_pending s)(i := None)\<rparr>) z = waiting s z - {i}"
  "waiting (s\<lparr>rr_pending := (rr_pending s)(i := None)\<rparr>) z = waiting s z - {i}"
  "redeeming (s\<lparr>rr_pending := (rr_pending s)(i := Some y)\<rparr>) = insert i (redeeming s)"
  "redeeming (s\<lparr>rr_db := d, rr_pending := (rr_pending s)(i := None)\<rparr>) = redeeming s - {i}"
  "redeeming (s\<lparr>rr_pending := (rr_pending s)(i := None)\<rparr>) = redeeming s - {i}"
  by (cases y; auto simp: waiting_def redeeming_def)+

lemma redeem_write_cases:
  obtains "redeem_write k x u bid d = (Inl UniqueViolation, d)"
  | "find_usage d k u = None" "redeem_write k x u bid d = (Inr (k, x), d\<lparr>coupon_usages := insert_row \<lparr>cu_couponId = k, cu_userId = u,
        cu_bookingId = bid, cu_discountAmount = x\<rparr> (coupon_usages d),
      coupons := update_rows (\<lambda>c. cp_id c = k) (\<lambda>c. c\<lparr>cp_usageCount := cp_usageCount c + 1\<rparr>) (coupons d)\<rparr>)"
  by (cases "find_usage d k u = None") (simp_all add: redeem_write_def)

lemma redeems_okD:
  assumes "redeems_ok c s"
  shows "0 < c" "finite (redeeming s)" "finite (waiting s k)" "coupons_ok (rr_db s)"
    "rr_pending s i = Some (k, x, u) \<Longrightarrow> k \<in> cp_id ` set (coupons (rr_db s))"
    "z \<in> set (coupons (rr_db s)) \<Longrightarrow> cp_usageLimit z = Some l \<Longrightarrow> l \<noteq> 0
       \<Longrightarrow> cp_usageCount z + int (card (waiting s (cp_id z))) \<le> l - 1 + int c"
  using assms finite_subset [OF waiting_sub] unfolding redeems_ok_def by blast+

lemma redeem_checked_ok:
  assumes "redeems_ok c s" "rr_pending s i = None" "checkAndCompute now code u b amt (rr_db s) = Inr (k, x)" "card (redeeming s) < c"
  shows "redeems_ok c (s\<lparr>rr_pending := (rr_pending s)(i := Some (k, x, u))\<rparr>)" (is "redeems_ok c ?s")
proof -
  note ok = redeems_okD [OF assms(1)]
  obtain y where y: "y \<in> set (coupons (rr_db s))" "cp_id y = k" "\<not> limit_reached y"
    using assms(3) by (auto simp: check_ok_iff usable_def dest: find_SomeD)
  have "card (insert i (waiting s k)) \<le> card (insert i (redeeming s))"
    using ok(2) waiting_sub by (intro card_mono) auto
  moreover have "card (insert i (redeeming s)) \<le> c" using assms(4) ok(2) card_insert_le_m1 [of c "redeeming s" i] by auto
  ultimately have room: "card (insert i (waiting s k)) \<le> c" by linarith
  have "cp_usageCount z + int (card (waiting ?s (cp_id z))) \<le> l - 1 + int c"
    if z: "z \<in> set (coupons (rr_db s))" "cp_usageLimit z = Some l" "l \<noteq> 0" for z l
  proof (cases "cp_id z = k")
    case True
    then have "z = y" using unique_key_eq [of cp_id "coupons (rr_db s)" z y] ok(4) y z(1) by (simp add: coupons_ok_def)
    then have "cp_usageCount z < l" using y(3) z(2,3) by (simp add: limit_reached_def)
    then show ?thesis using room True by (simp add: waiting_simps(1) [OF assms(2)])
  qed (use ok(6) [OF z] in \<open>simp add: waiting_simps(1) [OF assms(2)]\<close>)
  moreover have "k \<in> cp_id ` set (coupons (rr_db s))" using y by blast
  ultimately show ?thesis using ok(1,2,4,5) by (auto simp: redeems_ok_def waiting_simps(4))
qed

text \<open>A redemption ends: of every coupon, uses and redemptions in flight together become no more.\<close>

lemma redeem_done_ok:
  assumes "redeems_ok c s" "coupons_ok d" "cp_id ` set (coupons d) = cp_id ` set (coupons (rr_db s))"
    "\<And>z. z \<in> set (coupons d) \<Longrightarrow> \<exists>y \<in> set (coupons (rr_db s)). cp_id z = cp_id y \<and> cp_usageLimit z = cp_usageLimit y
       \<and> cp_usageCount z + int (card (waiting s (cp_id y) - {i})) \<le> cp_usageCount y + int (card (waiting s (cp_id y)))"
  shows "redeems_ok c (s\<lparr>rr_db := d, rr_pending := (rr_pending s)(i := None)\<rparr>)"
proof -
  note ok = redeems_okD [OF assms(1)]
  have "cp_usageCount z + int (card (waiting s (cp_id z) - {i})) \<le> l - 1 + int c"
    if z: "z \<in> set (coupons d)" "cp_usageLimit z = Some l" "l \<noteq> 0" for z l
  proof -
    obtain y where y: "y \<in> set (coupons (rr_db s))" "cp_id z = cp_id y" "cp_usageLimit z = cp_usageLimit y"
      "cp_usageCount z + int (card (waiting s (cp_id y) - {i})) \<le> cp_usageCount y + int (card (waiting s (cp_id y)))"
      using assms(4) [OF z(1)] by blast
    then show ?thesis using ok(6) [OF y(1), of l] z(2,3) by simp
  qed
  then show ?thesis using ok(1,2,5) assms(2,3) by (auto simp: redeems_ok_def waiting_simps)
qed

lemma redeem_step_ok:
  assumes "redeem_step c s e s'" "redeems_ok c s"
  shows "redeems_ok c s'"
proof -
  note ok = redeems_okD [OF assms(2)]
  have fewer: "card (waiting s k - {i}) \<le> card (waiting s k)" for k i using ok(3) by (intro card_mono) auto
  from assms(1) show ?thesis
  proof (cases rule: redeem_step.cases)
    case (checked i now code u b amt k x)
    with redeem_checked_ok [OF assms(2)] show ?thesis by blast
  next
    case refused
    with assms(2) show ?thesis by simp
  next
    case (written i k x u bid)
    have one: "card (waiting s k - {i}) + 1 = card (waiting s k)"
      using card_Suc_Diff1 [OF ok(3), of i k] written(3) by (simp add: waiting_def)
    show ?thesis
      unfolding written(2)
    proof (cases rule: redeem_write_cases [of k x u bid "rr_db s"])
      case 1
      then show "redeems_ok c (s\<lparr>rr_db := snd (redeem_write k x u bid (rr_db s)), rr_pending := (rr_pending s)(i := None)\<rparr>)"
        using ok(4) fewer by (intro redeem_done_ok [OF assms(2)]) auto
    next
      case 2
      show "redeems_ok c (s\<lparr>rr_db := snd (redeem_write k x u bid (rr_db s)), rr_pending := (rr_pending s)(i := None)\<rparr>)"
        unfolding 2(2) snd_conv
      proof (rule redeem_done_ok [OF assms(2) coupons_ok_usage [OF ok(4,5) 2(1)]])
        show "rr_pending s i = Some (k, x, u)" by (rule written(3))
      qed (use one fewer in \<open>fastforce simp: table_simps elim!: in_update_rowsE\<close>)+
    qed
  next
    case (aborted i)
    have "redeems_ok c (s\<lparr>rr_db := rr_db s, rr_pending := (rr_pending s)(i := None)\<rparr>)"
      using ok(4) fewer by (intro redeem_done_ok [OF assms(2)]) auto
    then show ?thesis by (simp add: aborted(2))
  qed
qed

interpretation redemptions: transition_system "redeem_step c" "redeems_ok c" "\<lambda>_ _. True" for c
  by unfold_locales (auto intro: redeem_step_ok)

section \<open>The property\<close>

text \<open>
  C34. However redemptions interleave, the counter of every coupon equals its usages and no user
  has used a coupon twice; and a coupon with a limit that was not exceeded before is used at
  most \<open>c - 1\<close> times more than the limit when at most \<open>c\<close> redemptions are in flight: never more
  than the limit when they come one after the other.
\<close>

theorem concurrent_redemptions_bounded:
  assumes "run (redeem_step c) s es s'" "0 < c" "coupons_ok (rr_db s)" "rr_pending s = (\<lambda>_. None)"
    "list_all (\<lambda>z. case cp_usageLimit z of None \<Rightarrow> True | Some l \<Rightarrow> l = 0 \<or> cp_usageCount z \<le> l) (coupons (rr_db s))"
    "z \<in> set (coupons (rr_db s'))"
  shows "cp_usageCount z = usages_of (rr_db s') (cp_id z)
    \<and> unique_key (\<lambda>u. (cu_couponId u, cu_userId u)) (coupon_usages (rr_db s'))
    \<and> (case cp_usageLimit z of None \<Rightarrow> True | Some l \<Rightarrow> l = 0 \<or> cp_usageCount z \<le> l + int (c - 1))"
proof -
  have none: "waiting s k = {}" "redeeming s = {}" for k using assms(4) by (simp_all add: waiting_def redeeming_def)
  have "cp_usageCount y \<le> l - 1 + int c" if "y \<in> set (coupons (rr_db s))" "cp_usageLimit y = Some l" "l \<noteq> 0" for y l
    using assms(2,5) that by (auto simp: list_all_iff dest!: bspec)
  then have "redeems_ok c s" using assms(2-4) by (auto simp: redeems_ok_def none)
  from redemptions.run_inv [OF assms(1) this] have ok: "redeems_ok c s'" .
  have "cp_usageCount z \<le> l + int (c - 1)" if "cp_usageLimit z = Some l" "l \<noteq> 0" for l
  proof -
    have "cp_usageCount z + int (card (waiting s' (cp_id z))) \<le> l - 1 + int c"
      using ok assms(6) that by (simp add: redeems_ok_def)
    then show ?thesis using assms(2) by (simp add: of_nat_diff)
  qed
  then show ?thesis using ok assms(6) by (auto simp: redeems_ok_def coupons_ok_def list_all_iff split: option.splits)
qed

section \<open>The bound is reached\<close>

definition single_use :: coupon where
  "single_use = demo_coupon\<lparr>cp_usageLimit := Some 1\<rparr>"

definition redeem_start :: redeem_race where
  "redeem_start = \<lparr>rr_db = (city [])\<lparr>coupons := [single_use]\<rparr>, rr_pending = (\<lambda>_. None)\<rparr>"

abbreviation two_redemptions :: "redeem_event list" where
  "two_redemptions \<equiv> [Redeem_Check 0 day0 ''TEN'' ''ann'' (Some ''biz'') 200000, Redeem_Check 1 day0 ''TEN'' ''owner'' (Some ''biz'') 200000,
     Redeem_Write 0 None, Redeem_Write 1 None]"

lemma single_use_ok: "coupons_ok (rr_db redeem_start)"
  by (simp add: redeem_start_def single_use_def coupons_ok_def usages_of_def city_def demo_defs unique_key_def)

text \<open>A coupon for one use, checked by two customers before either of them is counted, is used twice.\<close>

theorem limit_exceeded:
  "\<exists>s'. run (redeem_step 2) redeem_start two_redemptions s'
     \<and> (\<exists>z \<in> set (coupons (rr_db s')). cp_usageLimit z = Some 1 \<and> cp_usageCount z = 2)"
proof -
  let ?d0 = "rr_db redeem_start"
  let ?s1 = "redeem_start\<lparr>rr_pending := (rr_pending redeem_start)(0 := Some (''cp'', 20000, ''ann''))\<rparr>"
  let ?s2 = "?s1\<lparr>rr_pending := (rr_pending ?s1)(1 := Some (''cp'', 20000, ''owner''))\<rparr>"
  let ?s3 = "?s2\<lparr>rr_db := snd (redeem_write ''cp'' 20000 ''ann'' None (rr_db ?s2)), rr_pending := (rr_pending ?s2)(0 := None)\<rparr>"
  let ?s4 = "?s3\<lparr>rr_db := snd (redeem_write ''cp'' 20000 ''owner'' None (rr_db ?s3)), rr_pending := (rr_pending ?s3)(1 := None)\<rparr>"
  have check: "checkAndCompute day0 ''TEN'' u (Some ''biz'') 200000 ?d0 = Inr (''cp'', 20000)" for u
    by (simp add: checkAndCompute_def redeem_start_def single_use_def below_min_def limit_reached_def find_usage_def
        discount_of_def math_round_def city_def demo_defs)
  have busy: "redeeming redeem_start = {}" "redeeming ?s1 = {0}" by (auto simp: redeeming_def redeem_start_def)
  have "redeem_step 2 redeem_start (Redeem_Check 0 day0 ''TEN'' ''ann'' (Some ''biz'') 200000) ?s1"
    by (rule redeem_step.checked [OF _ check]) (simp_all add: redeem_start_def busy [unfolded redeem_start_def])
  moreover have "redeem_step 2 ?s1 (Redeem_Check 1 day0 ''TEN'' ''owner'' (Some ''biz'') 200000) ?s2"
    by (rule redeem_step.checked) (simp_all add: check busy, simp add: redeem_start_def)
  moreover have "redeem_step 2 ?s2 (Redeem_Write 0 None) ?s3" by (rule redeem_step.written) simp
  moreover have "redeem_step 2 ?s3 (Redeem_Write 1 None) ?s4" by (rule redeem_step.written) simp
  ultimately have "run (redeem_step 2) redeem_start two_redemptions ?s4" by (blast intro: run.intros)
  moreover have "coupons (rr_db ?s4) = [single_use\<lparr>cp_usageCount := 2\<rparr>]"
    by (simp add: redeem_write_def find_usage_def redeem_start_def single_use_def city_def demo_defs insert_row_def)
  ultimately show ?thesis by (intro exI [of _ ?s4]) (simp add: single_use_def)
qed

theorem concurrent_redemptions_bounded_witness:
  "\<exists>s'. run (redeem_step 2) redeem_start two_redemptions s'
     \<and> (\<exists>z \<in> set (coupons (rr_db s')). cp_usageLimit z = Some 1 \<and> cp_usageCount z = 2 \<and> usages_of (rr_db s') (cp_id z) = 2)"
proof -
  obtain s' z where r: "run (redeem_step 2) redeem_start two_redemptions s'"
    and z: "z \<in> set (coupons (rr_db s'))" "cp_usageLimit z = Some 1" "cp_usageCount z = 2"
    using limit_exceeded by blast
  have "rr_pending redeem_start = (\<lambda>_. None)" "coupons (rr_db redeem_start) = [single_use]"
    by (simp_all add: redeem_start_def)
  then have "cp_usageCount z = usages_of (rr_db s') (cp_id z)"
    using concurrent_redemptions_bounded [OF r _ single_use_ok _ _ z(1)] by (simp add: single_use_def demo_coupon_def)
  with r z show ?thesis by auto
qed

end
