(* ===== verification/Gaps.thy ===== *)
theory Gaps
  imports SystemProps BookingProps
begin

text \<open>
  Behaviours of the code that its comments and documents do not lead one to expect, each
  shown on the model: \<open>hold\<close> does not look at opening hours or holidays, a staff member can
  be reserved in two branches at once, and a manager can edit the coupons of other
  businesses. (Others stand beside the operation they are about: a top-up that is refunded
  counts twice, a callback without a reference fails a payment, a deposit of zero can never
  be paid, in \<open>PaymentProps\<close>; staggered concurrent holds in \<open>HoldRace\<close>.)
\<close>

section \<open>Opening hours and holidays\<close>

definition with_calendar :: "working_hours list \<Rightarrow> holiday list \<Rightarrow> db \<Rightarrow> db" where
  "with_calendar hs ds d = d\<lparr>working_hours_tbl := hs, holidays := ds\<rparr>"

lemma with_calendar_context:
  "loadAndValidateContext (with_calendar hs ds d) z br sv st = loadAndValidateContext d z br sv st"
  by (simp add: loadAndValidateContext_def with_calendar_def find_branch_def find_service_def find_staff_def
      cong: option.case_cong)

lemma with_calendar_redeem:
  "redeem_for_hold now u dto s (with_calendar hs ds d) = map_prod id (with_calendar hs ds) (redeem_for_hold now u dto s d)"
  by (simp add: redeem_for_hold_def checkAndRedeem_def checkAndCompute_def with_calendar_def find_usage_def
      split: option.split sum.split)

lemma with_calendar_writes:
  "create_booking b (with_calendar hs ds d) = map_prod id (with_calendar hs ds) (create_booking b d)"
  "link_usage k u x (with_calendar hs ds d) = with_calendar hs ds (link_usage k u x d)"
  "assertSlotFree br st s e y (with_calendar hs ds d) = assertSlotFree br st s e y d"
  by (simp_all add: create_booking_def link_usage_def assertSlotFree_def with_calendar_def split: option.split)

lemma with_calendar_body:
  "hold_body now n u dto z s (with_calendar hs ds d) = map_prod id (with_calendar hs ds) (hold_body now n u dto z s d)"
  by (auto simp: hold_body_def with_calendar_redeem with_calendar_writes split: sum.split prod.split)

text \<open>
  A reservation is accepted or refused whatever the opening hours and holidays are: \<open>hold\<close>
  does not consult them, although the request's comment says that the server checks the slot
  again.
\<close>

theorem hold_ignores_hours:
  "fst (hold R now later tok n u dto (with_calendar hs ds d, r)) = fst (hold R now later tok n u dto (d, r))"
proof -
  have "fst (busy_as_conflict (withLock R now later tok k ttl (transaction (hold_body now n u dto z s)) (with_calendar hs ds d, r)))
      = fst (busy_as_conflict (withLock R now later tok k ttl (transaction (hold_body now n u dto z s)) (d, r)))" for k ttl z s
    by (simp add: withLock_def transaction_def with_calendar_body busy_as_conflict_def
        split: prod.split option.split sum.split error.split)
  then show ?thesis by (simp add: hold_def with_calendar_context split: sum.split)
qed

section \<open>One person in two places\<close>

definition two_branches :: db where
  "two_branches = (city [demo_booking ''k'' CONFIRMED nine])\<lparr>branches := [demo_branch, demo_branch\<lparr>br_id := ''br2''\<rparr>]\<rparr>"

text \<open>
  The conflict check looks at one branch only: a staff member who is taken in one branch can
  be reserved for the same time in another branch of the business.
\<close>

theorem staff_in_two_branches:
  "\<exists>b d' r'. hold mem_redis day0 (day0 + 5) ''tok'' ''new'' ''ann'' (demo_hold\<lparr>hb_branchId := ''br2'', hb_couponCode := None\<rparr>)
      (two_branches, \<lambda>_. None) = (Inr b, d', r')
    \<and> (\<exists>c \<in> set (bookings d'). bk_id c \<noteq> bk_id b \<and> bk_staffMemberId c = bk_staffMemberId b
        \<and> is_active (bk_status c) \<and> is_active (bk_status b)
        \<and> bk_startTime c = bk_startTime b \<and> bk_endTime c = bk_endTime b)"
proof -
  let ?dto = "demo_hold\<lparr>hb_branchId := ''br2'', hb_couponCode := None\<rparr>"
  have ctx: "loadAndValidateContext two_branches ''biz'' ''br2'' ''sv'' (Some ''st'')
      = Inr (demo_business, demo_branch\<lparr>br_id := ''br2''\<rparr>, demo_service)"
    by (simp add: loadAndValidateContext_def find_branch_def find_service_def find_staff_def two_branches_def city_def demo_defs)
  let ?b = "hold_row day0 ''new'' ''ann'' ?dto demo_business demo_service 0"
  let ?d = "two_branches\<lparr>bookings := insert_row ?b (bookings two_branches)\<rparr>"
  have "hold_body day0 ''new'' ''ann'' ?dto demo_business demo_service two_branches = (Inr ?b, ?d)"
    by (simp add: hold_body_def assertSlotFree_def slot_clash_def redeem_for_hold_def create_booking_def link_usage_def
        two_branches_def city_def demo_db_def demo_hold_def demo_booking_sel hold_row_def demo_staff_def)
  then obtain r' where "hold mem_redis day0 (day0 + 5) ''tok'' ''new'' ''ann'' ?dto (two_branches, \<lambda>_. None) = (Inr ?b, ?d, r')"
    using ctx
    by (simp add: hold_def demo_hold_def withLock_def acquire_def mem_redis_def mem_set_def mem_get_def transaction_def
        busy_as_conflict_def)
  moreover have "demo_booking ''k'' CONFIRMED nine \<in> set (bookings ?d)" by (simp add: two_branches_def)
  ultimately show ?thesis
    by (intro exI [of _ ?b] exI [of _ ?d] exI [of _ r'] conjI bexI [of _ "demo_booking ''k'' CONFIRMED nine"])
      (assumption | simp add: demo_booking_sel hold_row_def demo_hold_def demo_service_def)+
qed

section \<open>Other people's coupons\<close>

text \<open>Ann owns a business of her own, besides the one with the coupon.\<close>

definition two_owners :: "(mem_store, sessions) world" where
  "two_owners = (city_world [])\<lparr>w_db := (city [])\<lparr>
     businesses := [demo_business, demo_business\<lparr>biz_id := ''mine'', biz_ownerId := ''ann''\<rparr>],
     staff_members := [city_owner, demo_staff, demo_staff\<lparr>sm_id := ''own2'', sm_userId := ''ann'', sm_businessId := ''mine'',
       sm_branchId := None, sm_role := OWNER\<rparr>]\<rparr>\<rparr>"

definition switch_off :: UpdateCouponDto where
  "switch_off = \<lparr>uc_type = None, uc_value = None, uc_minPurchase = None, uc_usageLimit = None, uc_validFrom = None,
     uc_validTo = None, uc_isActive = Some False\<rparr>"

text \<open>
  The route that edits the coupons of a business looks the coupon up by its id alone: the
  owner of one business switches off the coupon of another.
\<close>

theorem foreign_coupon_edited:
  "\<exists>w'. serve city_env (city_draws day0) (Some ''ann'') (BusinessCouponRoute (BusinessCoupon_update ''mine'' ''cp'' switch_off)) two_owners
      = Some (Inr (), w')
    \<and> coupons (w_db w') = [demo_coupon\<lparr>cp_isActive := False\<rparr>] \<and> cp_businessId demo_coupon = Some ''biz''"
proof -
  let ?ep = "BusinessCouponRoute (BusinessCoupon_update ''mine'' ''cp'' switch_off)"
  have "find_user (w_db two_owners) ''ann'' = Some (citizen ''ann'' ''09120000001'')"
    by (simp add: find_user_def two_owners_def city_def citizen_def)
  then have "authenticate (Some ''ann'') (w_db two_owners) = Inr (''ann'', USER)"
    by (simp add: authenticate_def jwt_validate_def citizen_def demo_user_def)
  moreover have "guards (route_of ?ep) (Inr (''ann'', USER)) (path_id ?ep) (w_db two_owners) = Inr (Some (''ann'', USER))"
    by (simp add: guards_eq member_route_def two_owners_def city_def city_owner_def demo_staff_def find_membership_def)
  moreover have "valid_request (E_validators city_env) ?ep"
    by (simp add: valid_UpdateCouponDto_def switch_off_def optional_def)
  ultimately have s: "serve city_env (city_draws day0) (Some ''ann'') ?ep two_owners = on_db (coupon_update ''cp'' switch_off) two_owners"
    by (simp add: serve_def)
  show ?thesis
    unfolding s
    by (simp add: on_db_def status_of_def coupon_update_def two_owners_def city_def demo_db_def demo_coupon_def
        apply_coupon_update_def or_keep_def switch_off_def update_rows_def split: prod.split)
qed

end
