(* ===== verification/Spec2Isabelle.thy ===== *)
theory Spec2Isabelle
  imports BookingProps ScheduleProps PaymentProps OtpProps AccountProps OrgProps AdminProps
    SystemProps Isolation Calendar RefProps Confirmation Trail Wiring Routing Ranks
    Sessions Guesses HoldRace ConfirmRace PaymentRace AccountRace CouponRace Gaps
begin

text \<open>
  Verification of the backend of the booking platform (\<open>apps/backend/src\<close>): a NestJS
  application with which customers reserve appointments with the staff of businesses, pay
  deposits from a wallet or through a payment gateway, collect loyalty points and redeem
  coupons, and with which businesses and administrators run all of this.

  \<^bold>\<open>How the program is put together.\<close> A request reaches a controller after three guards
  (token, global role, membership of the business in the path) and the validation of its
  body (a fourth guard limits the rate); the controller calls one service; services call each other and PostgreSQL (through
  Prisma), Redis (locks), a payment gateway and an SMS provider. A clean-up job runs every
  minute. Reservations (\<open>modules/booking\<close>) are at the centre: \<open>hold\<close> reserves a slot for
  five minutes under a Redis lock, \<open>confirm\<close> makes it pending or confirmed, a payment
  confirms a pending one, and purchases award loyalty points and referral rewards.

  \<^bold>\<open>The theories and the code they model.\<close>

  \<^item> \<open>Prelude\<close>: identifiers, instants, amounts, results (\<open>error + 'a\<close>), transactions, and
    the queries on tables (\<open>insert_row\<close>, \<open>update_rows\<close>, unique keys), with JavaScript's
    \<open>Math.round\<close> and the rounding of decimal columns. \<open>Schema\<close>: the tables of
    \<open>prisma/schema.prisma\<close> as records, the enums of \<open>packages/shared/src/enums.ts\<close> as
    datatypes, the database \<open>db\<close> as a record of tables, and the exceptions. \<open>JsDate\<close>: the
    part of JavaScript's \<open>Date\<close> that the services use.
  \<^item> \<open>RedisLock\<close>: \<open>common/redis/redis-lock.service.ts\<close> over any server that keeps the locale
    \<open>redis_server\<close>. \<open>PaymentGateway\<close>: \<open>common/payment-gateway\<close>, the interface as the locale
    \<open>payment_gateway\<close> and the mock as its instance.
  \<^item> \<open>Availability\<close>: \<open>booking/availability.service.ts\<close>. \<open>Booking\<close>:
    \<open>booking/booking.service.ts\<close> and \<open>booking-cleanup.service.ts\<close>. \<open>ServiceCatalog\<close>,
    \<open>Coupon\<close>, \<open>Loyalty\<close>, \<open>Referral\<close>, \<open>Wallet\<close>, \<open>Payment\<close>, \<open>Settlement\<close>: the services of these
    names. \<open>Ledger\<close> holds what wallets and loyalty accounts share, as the locale \<open>ledger\<close>;
    the loyalty service as the referral service sees it is the locale \<open>point_bank\<close>, the
    coupon service as \<open>hold\<close> sees it the locale \<open>redeemer\<close>.
  \<^item> \<open>Otp\<close>: \<open>otp/otp.service.ts\<close>. \<open>Auth\<close>: \<open>auth/auth.service.ts\<close>, the JWT strategy and
    \<open>users/users.service.ts\<close>. \<open>Business\<close>: \<open>business.service.ts\<close>, \<open>branch.service.ts\<close> and the
    audit log. \<open>Staff\<close>: \<open>staff.service.ts\<close>, \<open>working-hours.service.ts\<close> and the three guards.
  \<^item> \<open>Validation\<close>: one predicate for each DTO class, from its decorators. \<open>Api\<close>: every
    controller, as a datatype of its routes, the access rule of each route, and the call it
    makes; \<open>serve\<close> is one request from guards to answer. \<open>Wiring\<close>: every \<open>*.module.ts\<close> and the
    parameters of every constructor, and that Nest can put them together. \<open>Routing\<close>: the verbs
    and paths of all routes, in the order in which Nest registers the modules, and that every
    URL reaches its route. \<open>Ranks\<close>: the order of the
    roles, and that a higher one is never refused what a lower one may do.

  \<^bold>\<open>Invariants and system properties.\<close>

  \<^item> \<open>BookingInv\<close>, \<open>PaymentInv\<close>, \<open>AccountInv\<close> state and preserve the invariants of their
    tables: no overlap of active reservations, agreements never change, statuses follow the
    transition table; ledgers add up and payments are credited once; keys of accounts.
  \<^item> \<open>DbInv\<close> and \<open>DbBooking\<close>: the invariant \<open>db_ok\<close> of the whole database and, for every
    operation, the guarantee \<open>db_step\<close> (the invariant is kept, reservations and payments
    only evolve as allowed). \<open>Platform\<close> lifts it to every route. \<open>Runs\<close> states once what
    follows for every sequence of transitions (the locales \<open>transition_system\<close> and
    \<open>stable_fact\<close>); \<open>System\<close> interprets them for the backend.
  \<^item> \<open>SystemProps\<close>: what holds after any sequence of requests and clean-ups. \<open>Isolation\<close>:
    whose reservations a request may touch. \<open>Calendar\<close>: the abstract specification of the
    reservation service, a calendar that is reserved, moved and freed; \<open>moves_of\<close> states for
    every transition which of these it is, and the backend is shown to simulate the calendar
    step by step. \<open>HoldRace\<close>, \<open>ConfirmRace\<close>, \<open>PaymentRace\<close>,
    \<open>AccountRace\<close> and \<open>CouponRace\<close>: concurrent calls of \<open>hold\<close>, of \<open>confirm\<close>, of the gateway's callback, of wallet
    payments, of guesses at a one-time code, of token rotations and of coupon redemptions,
    interleaved step by step.
  \<^item> \<open>Footprint\<close>: the tables that each route may write, and whether it takes a lock, calls the
    gateway or sends a message. \<open>References\<close>: every row that a row refers to, as a set of
    references; \<open>refs_ok\<close> says that all of them resolve, and every transition keeps it.
    \<open>RefProps\<close> states both for histories. \<open>Confirmation\<close>: who can make a pending reservation
    confirmed. \<open>Trail\<close>: the audit log determines the status of every business and the refunds,
    an instance of the locale \<open>logged_state\<close>. \<open>Sessions\<close>: revoked tokens and closed accounts stay
    so, and what the cookie of a browser is worth. \<open>Guesses\<close>: how many guesses at one-time codes
    any history has room for per minute.
  \<^item> \<open>BookingProps\<close>, \<open>ScheduleProps\<close>, \<open>PaymentProps\<close>, \<open>OtpProps\<close>, \<open>AccountProps\<close>, \<open>OrgProps\<close>,
    \<open>AdminProps\<close>: the operations one by one, on every branch. \<open>Gaps\<close>: behaviours that the
    comments and documents do not lead one to expect. \<open>Scenario\<close>: the concrete platform on
    which the theorems are applied.
\<close>

text \<open>
  \<^bold>\<open>How the model relates to the code.\<close>

  \<^item> The database is a record of tables, each a list of rows. Where the code asks for a row
    without an order, the model takes the first match; no theorem depends on the order
    unless it says so. Primary and unique keys are part of \<open>db_ok\<close>, and new primary keys
    (UUIDs) are arguments, fresh by hypothesis (\<open>fresh_draws\<close>). A foreign key is
    checked where a request can violate it (\<open>ForeignKeyViolation\<close>); that all others hold
    by themselves is \<open>references_resolve\<close>.
  \<^item> An exception is \<open>Inl\<close> of a constructor that names its class and message; a \<open>$transaction\<close>
    that throws gives back the state before it. Texts written to the database as reasons
    are short English constants in place of the code's.
  \<^item> A call is one atomic step with one clock reading (a second one for the release of the
    lock, and one for every reservation of a group that is confirmed), except in the five
    theories on races, where the steps of concurrent calls interleave and only what follows
    the last read or check commits at once. In \<open>ConfirmRace\<close> the calls that interleave with
    confirmations are holds, clean-ups and cancellations by customers.
  \<^item> Money is exact: a rational, rounded where the code rounds and where a decimal column
    stores it. The code computes discounts and rounded amounts on doubles, which can differ
    from the rational at an exact half. Counters and points are unbounded integers (the
    columns are 32 bits wide), amounts unbounded rationals (the columns hold ten digits before
    the point, and the database refuses more): overflow of a column is not modelled.
  \<^item> The body of a request is a record of its DTO class. Instants in it are parsed already: a
    text that passes \<open>IsDateString\<close> and is no date (\<open>Invalid Date\<close>) is not modelled. An optional
    field is \<open>None\<close> when it is absent; a JSON \<open>null\<close> is not told apart from that. The body of the
    refresh and logout routes is not validated, as in the code (its declared type is a union,
    of which no class is left at run time); a token in it that is not a text is not modelled.
  \<^item> The loop of \<open>generateSlots\<close> does not end for a service without a positive duration. It
    is a \<open>partial_function (option)\<close>, so that not returning is \<open>None\<close>; the validation of
    services excludes the case, and \<open>every_request_answered\<close> and \<open>reschedule_returns\<close> prove
    that the loop returns in every reachable state. No other definition needs fuel.
  \<^item> Not in \<open>src\<close>, and therefore parameters with their documented laws where a law is needed:
    the Redis server, the payment provider, bcrypt, SHA-256, the JWT library, the random
    source, the checks of \<open>class-validator\<close> for e-mail addresses and URLs, the
    case-insensitive match of the database, what the modules of packages export, and how the
    router compares a segment with a literal.

  \<^bold>\<open>Not modelled.\<close> The connection services for the database and
  Redis, the console SMS provider, the counting of the throttler (a guard of a package: any
  request that passes the other guards may be answered 429, a transition of \<open>System\<close>), CORS,
  the JSON shape of the answers (an answer is success or the exception, and for the sessions
  the cookie), the frontend (two static pages), migrations and deployment. These are calls
  into packages, static text or configuration, with no logic of their own. Reviews and
  notifications exist in the schema only.
\<close>

end
